(* ===== verification/Prelude.thy ===== *)
theory Prelude
  imports Main "HOL-Library.Word" "HOL-Library.Multiset" "HOL-Library.Sublist"
begin

text \<open>
  Shared vocabulary of the development: machine integers, C++ exceptions, byte strings with
  the \<^verbatim>\<open>std::string\<close> operations the adapters use, numerals in a radix, little-endian byte
  runs, and \<^verbatim>\<open>std::unordered_map\<close> as an association list in iteration order.
  The lemmas below are declared so that the component theories' proofs stay short.
\<close>

unbundle bit_operations_syntax

named_theorems text_defs "unfolding rules for the text-producing definitions"
named_theorems step_defs "unfolding rules for the state-changing operations"
named_theorems inv_intros "rules: an operation keeps an invariant"

section \<open>Machine integers and errors\<close>

type_synonym u8 = "8 word"
type_synonym u16 = "16 word"
type_synonym u32 = "32 word"
type_synonym u64 = "64 word"
type_synonym i64 = "64 word" \<comment> \<open>read with \<open>sint\<close>\<close>
type_synonym wide = "u16 list" \<comment> \<open>UTF-16 text before its terminator\<close>

text \<open>What the native code can throw; the payload is \<^verbatim>\<open>what()\<close>.\<close>

datatype cpp_exception =
    Bad_alloc
  | Invalid_argument string
  | Runtime_error string
  | Unknown_exception

type_synonym 'a throws = "cpp_exception + 'a"

lemma unat_bound: "unat (w :: 'a::len word) < 2 ^ LENGTH('a)"
  by (rule unsigned_less)

section \<open>Byte strings\<close>

text \<open>\<^verbatim>\<open>std::tolower\<close> in the C locale: only the ASCII upper-case letters move.\<close>

definition tolower :: "char \<Rightarrow> char" where
  "tolower c = (let n = of_char c :: nat in if 65 \<le> n \<and> n \<le> 90 then char_of (n + 32) else c)"

text \<open>\<^verbatim>\<open>std::string::find\<close>: the first index at which the needle starts, \<open>None\<close> for \<^verbatim>\<open>npos\<close>.\<close>

fun str_find :: "string \<Rightarrow> string \<Rightarrow> nat option" where
  "str_find [] needle = (if needle = [] then Some 0 else None)"
| "str_find (c # cs) needle =
     (if prefix needle (c # cs) then Some 0 else map_option Suc (str_find cs needle))"

lemma str_find_Some:
  "str_find h n = Some i \<Longrightarrow> prefix n (drop i h) \<and> i \<le> length h"
  by (induction h n arbitrary: i rule: str_find.induct) (auto split: if_splits)

lemma str_find_minimal:
  "str_find h n = Some i \<Longrightarrow> j < i \<Longrightarrow> \<not> prefix n (drop j h)"
proof (induction h n arbitrary: i j rule: str_find.induct)
  case (2 c cs needle)
  then show ?case by (cases j) (auto split: if_splits)
qed (auto split: if_splits)

lemma str_find_iff_sublist: "str_find h n \<noteq> None \<longleftrightarrow> sublist n h"
  by (induction h n rule: str_find.induct) (auto simp: sublist_Cons_right)

text \<open>\<^verbatim>\<open>while (s.back() == '\r' || s.back() == '\n') s.pop_back();\<close>\<close>

definition strip_newlines :: "string \<Rightarrow> string" where
  "strip_newlines s = rev (dropWhile (\<lambda>c. c = CHR 0x0D \<or> c = CHR 0x0A) (rev s))"

section \<open>Numerals in a radix\<close>

definition digit_char :: "nat \<Rightarrow> char" where
  "digit_char d = (if d < 10 then char_of (48 + d) else char_of (87 + d))"

definition digit_char_upper :: "nat \<Rightarrow> char" where
  "digit_char_upper d = (if d < 10 then char_of (48 + d) else char_of (55 + d))"

definition digit_val :: "char \<Rightarrow> nat option" where
  "digit_val c = (let n = of_char c :: nat in
     if 48 \<le> n \<and> n \<le> 57 then Some (n - 48)
     else if 97 \<le> n \<and> n \<le> 102 then Some (n - 87)
     else if 65 \<le> n \<and> n \<le> 70 then Some (n - 55)
     else None)"

lemma digit_val_digit_char [simp]: "d < 16 \<Longrightarrow> digit_val (digit_char d) = Some d"
  by (auto simp: digit_val_def digit_char_def Let_def)

lemma digit_val_digit_char_upper [simp]: "d < 16 \<Longrightarrow> digit_val (digit_char_upper d) = Some d"
  by (auto simp: digit_val_def digit_char_upper_def Let_def)

lemma digit_val_less: "digit_val c = Some d \<Longrightarrow> d < 16"
  by (auto simp: digit_val_def Let_def split: if_splits)

text \<open>The digits of a number, most significant first, least significant generated first.\<close>

function digits :: "nat \<Rightarrow> nat \<Rightarrow> nat list" where
  "digits b n = (if b < 2 \<or> n < b then [n] else digits b (n div b) @ [n mod b])"
  by pat_completeness auto
termination
  by (relation "measure snd") auto

declare digits.simps [simp del]

definition digits_value :: "nat \<Rightarrow> nat list \<Rightarrow> nat" where
  "digits_value b ds = foldl (\<lambda>a d. a * b + d) 0 ds"

lemma digits_value_snoc [simp]: "digits_value b (ds @ [d]) = digits_value b ds * b + d"
  by (simp add: digits_value_def)

lemma digits_value_Nil [simp]: "digits_value b [] = 0"
  by (simp add: digits_value_def)

lemma digits_value_digits: "digits_value b (digits b n) = n"
proof (induction b n rule: digits.induct)
  case (1 b n)
  then show ?case
    by (subst digits.simps) (auto simp: digits_value_def)
qed

lemma digits_less: "2 \<le> b \<Longrightarrow> d \<in> set (digits b n) \<Longrightarrow> d < b"
proof (induction b n rule: digits.induct)
  case (1 b n)
  then show ?case
    by (subst (asm) (2) digits.simps) (auto split: if_splits)
qed

lemma digits_not_Nil [simp]: "digits b n \<noteq> []"
  by (subst digits.simps) simp

lemma hd_digits_zero: "2 \<le> b \<Longrightarrow> hd (digits b n) = 0 \<Longrightarrow> n = 0"
proof (induction b n rule: digits.induct)
  case (1 b n)
  show ?case
  proof (cases "n < b")
    case True
    with 1 show ?thesis by (subst (asm) (2) digits.simps) auto
  next
    case False
    with 1 have "n div b = 0" by (subst (asm) (2) digits.simps) auto
    with False 1 show ?thesis by (auto simp: div_eq_0_iff)
  qed
qed

lemma length_digits_le: "2 \<le> b \<Longrightarrow> n < b ^ k \<Longrightarrow> 0 < k \<Longrightarrow> length (digits b n) \<le> k"
proof (induction b n arbitrary: k rule: digits.induct)
  case (1 b n)
  show ?case
  proof (cases "n < b")
    case True
    with 1 show ?thesis by (subst digits.simps) auto
  next
    case False
    with 1 obtain j where k: "k = Suc j" "0 < j"
      by (cases k; cases "k - 1") auto
    with 1 False have "n div b < b ^ j"
      by (auto simp: less_mult_imp_div_less mult.commute)
    with 1 False k show ?thesis by (subst digits.simps) auto
  qed
qed

definition radix_text :: "nat \<Rightarrow> nat \<Rightarrow> string" where
  "radix_text b n = map digit_char (digits b n)"

text \<open>\<^verbatim>\<open>std::to_string\<close> and \<^verbatim>\<open>operator<<\<close> on unsigned values; \<^verbatim>\<open>std::hex\<close>.\<close>

abbreviation dec_text :: "nat \<Rightarrow> string" where
  "dec_text \<equiv> radix_text 10"

abbreviation hex_text :: "nat \<Rightarrow> string" where
  "hex_text \<equiv> radix_text 16"

text \<open>\<^verbatim>\<open>std::setw(w) << std::setfill(c)\<close>, and \<^verbatim>\<open>%0wX\<close> of \<^verbatim>\<open>snprintf\<close>.\<close>

definition pad_left :: "nat \<Rightarrow> char \<Rightarrow> string \<Rightarrow> string" where
  "pad_left w c s = replicate (w - length s) c @ s"

definition hex_upper :: "nat \<Rightarrow> nat \<Rightarrow> string" where
  "hex_upper w n = pad_left w (CHR ''0'') (map digit_char_upper (digits 16 n))"

definition hex_lower :: "nat \<Rightarrow> nat \<Rightarrow> string" where
  "hex_lower w n = pad_left w (CHR ''0'') (map digit_char (digits 16 n))"

lemma length_pad_left [simp]: "length (pad_left w c s) = max w (length s)"
  by (simp add: pad_left_def)

text \<open>Reading digits back: the value of a digit string in a radix.\<close>

definition text_digits :: "string \<Rightarrow> nat list option" where
  "text_digits s = (if list_all (\<lambda>c. digit_val c \<noteq> None) s then Some (map (the \<circ> digit_val) s) else None)"

definition text_value :: "nat \<Rightarrow> string \<Rightarrow> nat option" where
  "text_value b s = map_option (digits_value b) (text_digits s)"

lemma digits_value_zeros [simp]: "digits_value b (replicate k 0 @ ds) = digits_value b ds"
proof -
  have "foldl (\<lambda>a d. a * b + d) 0 (replicate k 0) = (0::nat)"
    by (induction k) auto
  then show ?thesis by (simp add: digits_value_def)
qed

lemma text_digits_map_digit_char:
  "\<forall>d \<in> set ds. d < 16 \<Longrightarrow> text_digits (map digit_char ds) = Some ds"
  by (auto simp: text_digits_def list_all_iff intro: map_idI)

lemma text_digits_map_digit_char_upper:
  "\<forall>d \<in> set ds. d < 16 \<Longrightarrow> text_digits (map digit_char_upper ds) = Some ds"
  by (auto simp: text_digits_def list_all_iff intro: map_idI)

lemma digit_val_zero [simp]: "digit_val (CHR ''0'') = Some 0"
  by (simp add: digit_val_def Let_def)

lemma text_digits_pad:
  "text_digits s = Some ds \<Longrightarrow> text_digits (pad_left w (CHR ''0'') s) = Some (replicate (w - length s) 0 @ ds)"
  by (auto simp: text_digits_def pad_left_def list_all_iff split: if_splits)

lemma text_value_radix_text:
  assumes "2 \<le> b" "b \<le> 16"
  shows "text_value b (radix_text b n) = Some n"
proof -
  have "\<forall>d \<in> set (digits b n). d < 16" using digits_less assms by fastforce
  then show ?thesis
    by (simp add: text_value_def radix_text_def text_digits_map_digit_char digits_value_digits)
qed

lemma text_value_hex_upper [simp]: "text_value 16 (hex_upper w n) = Some n"
proof -
  have "\<forall>d \<in> set (digits 16 n). d < 16" using digits_less [of 16] by simp
  from text_digits_map_digit_char_upper [OF this] show ?thesis
    by (simp add: text_value_def hex_upper_def text_digits_pad digits_value_digits)
qed

lemma text_value_hex_lower [simp]: "text_value 16 (hex_lower w n) = Some n"
proof -
  have "\<forall>d \<in> set (digits 16 n). d < 16" using digits_less [of 16] by simp
  from text_digits_map_digit_char [OF this] show ?thesis
    by (simp add: text_value_def hex_lower_def text_digits_pad digits_value_digits)
qed

lemma length_hex_upper: "n < 16 ^ w \<Longrightarrow> 0 < w \<Longrightarrow> length (hex_upper w n) = w"
  using length_digits_le [of 16 n w] by (simp add: hex_upper_def max_def)

lemma length_hex_lower: "n < 16 ^ w \<Longrightarrow> 0 < w \<Longrightarrow> length (hex_lower w n) = w"
  using length_digits_le [of 16 n w] by (simp add: hex_lower_def max_def)

section \<open>Little-endian byte runs\<close>

text \<open>\<^verbatim>\<open>memcpy\<close> of bytes into an unsigned integer on a little-endian machine.\<close>

fun le_nat :: "u8 list \<Rightarrow> nat" where
  "le_nat [] = 0"
| "le_nat (b # bs) = unat b + 256 * le_nat bs"

fun le_bytes :: "nat \<Rightarrow> nat \<Rightarrow> u8 list" where
  "le_bytes 0 n = []"
| "le_bytes (Suc k) n = of_nat (n mod 256) # le_bytes k (n div 256)"

lemma length_le_bytes [simp]: "length (le_bytes k n) = k"
  by (induction k n rule: le_bytes.induct) auto

lemma le_bytes_map: "le_bytes k n = map (\<lambda>i. of_nat (n div 256 ^ i mod 256)) [0..<k]"
proof (induction k n rule: le_bytes.induct)
  case (2 k n)
  then show ?case
    by (simp add: upt_conv_Cons map_Suc_upt [symmetric] div_mult2_eq o_def del: upt_Suc)
qed simp

lemma le_nat_le_bytes: "le_nat (le_bytes k n) = n mod 256 ^ k"
proof (induction k n rule: le_bytes.induct)
  case (2 k n)
  have "unat (of_nat (n mod 256) :: u8) = n mod 256"
    by (simp add: unat_of_nat)
  with 2 show ?case
    by (simp add: mod_mult2_eq)
qed simp

definition load_le :: "nat \<Rightarrow> nat \<Rightarrow> u8 list \<Rightarrow> nat" where
  "load_le width off data = le_nat (take width (drop off data))"

section \<open>Unordered maps\<close>

text \<open>
  A \<^verbatim>\<open>std::unordered_map\<close> is an association list in the container's iteration order. The
  standard leaves that order open and lets an insertion rehash, so insertion takes the new
  order from an \<open>order\<close> function; the development only relies on it being a permutation.
\<close>

definition iteration_order :: "('a list \<Rightarrow> 'a list) \<Rightarrow> bool" where
  "iteration_order ord \<longleftrightarrow> (\<forall>xs. mset (ord xs) = mset xs)"

definition um_erase :: "'k \<Rightarrow> ('k \<times> 'v) list \<Rightarrow> ('k \<times> 'v) list" where
  "um_erase k m = filter (\<lambda>p. fst p \<noteq> k) m"

definition um_emplace ::
  "(('k \<times> 'v) list \<Rightarrow> ('k \<times> 'v) list) \<Rightarrow> 'k \<Rightarrow> 'v \<Rightarrow> ('k \<times> 'v) list \<Rightarrow> ('k \<times> 'v) list" where
  "um_emplace ord k v m = (if map_of m k = None then ord ((k, v) # m) else m)"

definition um_wf :: "('k \<times> 'v) list \<Rightarrow> bool" where
  "um_wf m \<longleftrightarrow> distinct (map fst m)"

lemma um_wf_Nil [simp]: "um_wf []"
  by (simp add: um_wf_def)

lemma um_wf_erase [simp, intro]: "um_wf m \<Longrightarrow> um_wf (um_erase k m)"
  by (simp add: um_wf_def um_erase_def distinct_map_filter)

lemma map_of_erase [simp]: "map_of (um_erase k m) = (map_of m)(k := None)"
proof
  fix j show "map_of (um_erase k m) j = ((map_of m)(k := None)) j"
    by (induction m) (auto simp: um_erase_def)
qed

lemma um_erase_absent: "map_of m k = None \<Longrightarrow> um_erase k m = m"
  by (force simp: um_erase_def map_of_eq_None_iff intro: filter_True)

lemma iteration_order_id [simp]: "iteration_order (\<lambda>xs. xs)"
  by (simp add: iteration_order_def)

lemma iteration_orderD: "iteration_order ord \<Longrightarrow> mset (ord xs) = mset xs"
  by (simp add: iteration_order_def)

lemma iteration_order_set [simp]: "iteration_order ord \<Longrightarrow> set (ord xs) = set xs"
  by (metis iteration_orderD set_mset_mset)

lemma iteration_order_length [simp]: "iteration_order ord \<Longrightarrow> length (ord xs) = length xs"
  by (metis iteration_orderD size_mset)

lemma um_wf_emplace:
  assumes "iteration_order ord" "um_wf m"
  shows "um_wf (um_emplace ord k v m)"
proof (cases "map_of m k")
  case None
  then have "distinct (map fst ((k, v) # m))"
    using assms(2) by (simp add: um_wf_def map_of_eq_None_iff)
  moreover have "mset (map fst (ord ((k, v) # m))) = mset (map fst ((k, v) # m))"
    using iteration_orderD [OF assms(1)] by (metis mset_map)
  ultimately have "distinct (map fst (ord ((k, v) # m)))"
    by (metis mset_eq_imp_distinct_iff)
  with None show ?thesis by (simp add: um_wf_def um_emplace_def)
qed (use assms in \<open>simp add: um_emplace_def\<close>)

lemma um_wf_permute: "mset m = mset m' \<Longrightarrow> um_wf m \<Longrightarrow> um_wf m'"
  by (metis mset_eq_imp_distinct_iff mset_map um_wf_def)

lemma map_of_permute: "um_wf m \<Longrightarrow> mset m = mset m' \<Longrightarrow> map_of m' = map_of m"
proof -
  assume wf: "um_wf m" and eq: "mset m = mset m'"
  then have "um_wf m'" by (rule um_wf_permute [rotated])
  moreover have "set m = set m'" using eq by (metis set_mset_mset)
  ultimately show ?thesis using wf by (metis map_of_inject_set um_wf_def)
qed

lemma map_of_emplace:
  assumes "iteration_order ord" "um_wf m"
  shows "map_of (um_emplace ord k v m) = (if map_of m k = None then (map_of m)(k \<mapsto> v) else map_of m)"
proof (cases "map_of m k")
  case None
  then have "um_wf ((k, v) # m)"
    using assms(2) by (simp add: um_wf_def map_of_eq_None_iff)
  then have "map_of (ord ((k, v) # m)) = map_of ((k, v) # m)"
    using map_of_permute iteration_orderD [OF assms(1), of "(k, v) # m"] by metis
  with None show ?thesis by (simp add: um_emplace_def)
qed (simp add: um_emplace_def)

lemma mset_um_emplace:
  "iteration_order ord \<Longrightarrow> map_of m k = None \<Longrightarrow> mset (um_emplace ord k v m) = add_mset (k, v) (mset m)"
  by (simp add: um_emplace_def iteration_orderD)

lemma mset_um_erase:
  assumes "um_wf m" "map_of m k = Some v"
  shows "mset m = add_mset (k, v) (mset (um_erase k m))"
  using assms
proof (induction m)
  case (Cons p m)
  show ?case
  proof (cases "fst p = k")
    case True
    with Cons.prems have "p = (k, v)" "map_of m k = None"
      by (auto simp: um_wf_def map_of_eq_None_iff)
    then show ?thesis by (simp add: um_erase_def um_erase_absent [unfolded um_erase_def])
  next
    case False
    with Cons have "mset m = add_mset (k, v) (mset (um_erase k m))"
      by (cases p) (auto simp: um_wf_def)
    with False show ?thesis by (simp add: um_erase_def)
  qed
qed simp

lemma length_um_erase:
  "um_wf m \<Longrightarrow> map_of m k = Some v \<Longrightarrow> Suc (length (um_erase k m)) = length m"
  by (metis mset_um_erase size_add_mset size_mset)

end
