(* ===== verification/Etw_Types.thy ===== *)
theory Etw_Types
  imports Prelude
begin

text \<open>
  Data of the ETW adapter (\<^verbatim>\<open>native/adapters/etw/dbgatlas_etw.cpp\<close>): identifiers and flags,
  the part of \<^verbatim>\<open>EVENT_RECORD\<close> the adapter reads, the decoded metadata, the file-event record
  and the extraction context. The last section collects what comes from outside the
  repository (text conversion, TDH, file opening, hash-table order) in one \<open>platform\<close> record
  that every operation using it takes as an argument.
\<close>

section \<open>Identifiers and flags\<close>

text \<open>\<^verbatim>\<open>GUID\<close>, with the eleven components \<^verbatim>\<open>DEFINE_GUID\<close> takes.\<close>

datatype guid = GUID u32 u16 u16 u8 u8 u8 u8 u8 u8 u8 u8

definition DA_KernelProcessProviderGuid :: guid where
  "DA_KernelProcessProviderGuid = GUID 0x22fb2cd6 0x0e7b 0x422b 0xa0 0xc7 0x2f 0xad 0x1f 0xd0 0xe7 0x16"
definition DA_KernelFileProviderGuid :: guid where
  "DA_KernelFileProviderGuid = GUID 0xedd08927 0x9cc4 0x4e65 0xb9 0x70 0xc2 0x56 0x0f 0xb5 0xc2 0x89"
definition DA_KernelRegistryProviderGuid :: guid where
  "DA_KernelRegistryProviderGuid = GUID 0x70eb4f03 0xc1de 0x4f73 0xa0 0x51 0x33 0xd1 0x3d 0x54 0x13 0xbd"
definition DA_KernelNetworkProviderGuid :: guid where
  "DA_KernelNetworkProviderGuid = GUID 0x7dd42a49 0x5329 0x4832 0x8d 0xfd 0x43 0xd9 0x79 0x15 0x3a 0x88"
definition DA_ClassicProcessGuid :: guid where
  "DA_ClassicProcessGuid = GUID 0x3d6fa8d0 0xfe05 0x11d0 0x9d 0xda 0x00 0xc0 0x4f 0xd7 0xba 0x7c"
definition DA_ClassicThreadGuid :: guid where
  "DA_ClassicThreadGuid = GUID 0x3d6fa8d1 0xfe05 0x11d0 0x9d 0xda 0x00 0xc0 0x4f 0xd7 0xba 0x7c"
definition DA_ClassicFileIoGuid :: guid where
  "DA_ClassicFileIoGuid = GUID 0x90cbdc39 0x4a3e 0x11d1 0x84 0xf4 0x00 0x00 0xf8 0x04 0x64 0xe3"
definition DA_ClassicTcpIpGuid :: guid where
  "DA_ClassicTcpIpGuid = GUID 0x9a280ac0 0xc8e0 0x11d1 0x84 0xe2 0x00 0xc0 0x4f 0xb9 0x98 0xa2"
definition DA_ClassicUdpIpGuid :: guid where
  "DA_ClassicUdpIpGuid = GUID 0xbf3a50c5 0xa9c9 0x4988 0xa0 0x05 0x2d 0xf0 0xb7 0xc8 0x0f 0x80"
definition DA_ClassicImageLoadGuid :: guid where
  "DA_ClassicImageLoadGuid = GUID 0x2cb15d1d 0x5fc1 0x11d2 0xab 0xe1 0x00 0xa0 0xc9 0x11 0xf5 0x18"
definition DA_ClassicRegistryGuid :: guid where
  "DA_ClassicRegistryGuid = GUID 0xae53722e 0xc863 0x11d2 0x86 0x59 0x00 0xc0 0x4f 0xa3 0x21 0xa1"
definition DA_StackWalkGuid :: guid where
  "DA_StackWalkGuid = GUID 0xdef2fe46 0x7bd6 0x4b80 0xbd 0x94 0xf5 0x7f 0xe2 0x0d 0x0c 0xe3"

definition DA_ETW_PRESET_PROCESS :: u32 where [simp]: "DA_ETW_PRESET_PROCESS = 1"
definition DA_ETW_PRESET_THREAD :: u32 where [simp]: "DA_ETW_PRESET_THREAD = 2"
definition DA_ETW_PRESET_IMAGE :: u32 where [simp]: "DA_ETW_PRESET_IMAGE = 4"
definition DA_ETW_PRESET_FILE :: u32 where [simp]: "DA_ETW_PRESET_FILE = 8"
definition DA_ETW_PRESET_REGISTRY :: u32 where [simp]: "DA_ETW_PRESET_REGISTRY = 16"
definition DA_ETW_PRESET_NETWORK :: u32 where [simp]: "DA_ETW_PRESET_NETWORK = 32"

definition DA_FILE_IO_NAME :: u32 where [simp]: "DA_FILE_IO_NAME = 0"
definition DA_FILE_IO_FILE_CREATE_NAME :: u32 where [simp]: "DA_FILE_IO_FILE_CREATE_NAME = 32"
definition DA_FILE_IO_FILE_DELETE_NAME :: u32 where [simp]: "DA_FILE_IO_FILE_DELETE_NAME = 35"
definition DA_FILE_IO_RUNDOWN :: u32 where [simp]: "DA_FILE_IO_RUNDOWN = 36"
definition DA_FILE_IO_CREATE :: u32 where [simp]: "DA_FILE_IO_CREATE = 64"
definition DA_FILE_IO_CLEANUP :: u32 where [simp]: "DA_FILE_IO_CLEANUP = 65"
definition DA_FILE_IO_CLOSE :: u32 where [simp]: "DA_FILE_IO_CLOSE = 66"
definition DA_FILE_IO_READ :: u32 where [simp]: "DA_FILE_IO_READ = 67"
definition DA_FILE_IO_WRITE :: u32 where [simp]: "DA_FILE_IO_WRITE = 68"
definition DA_FILE_IO_SET_INFO :: u32 where [simp]: "DA_FILE_IO_SET_INFO = 69"
definition DA_FILE_IO_DELETE :: u32 where [simp]: "DA_FILE_IO_DELETE = 70"
definition DA_FILE_IO_RENAME :: u32 where [simp]: "DA_FILE_IO_RENAME = 71"
definition DA_FILE_IO_DIR_ENUM :: u32 where [simp]: "DA_FILE_IO_DIR_ENUM = 72"
definition DA_FILE_IO_FLUSH :: u32 where [simp]: "DA_FILE_IO_FLUSH = 73"
definition DA_FILE_IO_QUERY_INFO :: u32 where [simp]: "DA_FILE_IO_QUERY_INFO = 74"
definition DA_FILE_IO_FS_CONTROL :: u32 where [simp]: "DA_FILE_IO_FS_CONTROL = 75"
definition DA_FILE_IO_OP_END :: u32 where [simp]: "DA_FILE_IO_OP_END = 76"
definition DA_FILE_IO_DIR_NOTIFY :: u32 where [simp]: "DA_FILE_IO_DIR_NOTIFY = 77"
definition DA_STACK_WALK_OPCODE :: u32 where [simp]: "DA_STACK_WALK_OPCODE = 32"
definition DA_MAX_PENDING_STACK_TIMESTAMPS :: nat where [simp]: "DA_MAX_PENDING_STACK_TIMESTAMPS = 4096"
definition DA_MAX_PENDING_STACKS_PER_TIMESTAMP :: nat where [simp]: "DA_MAX_PENDING_STACKS_PER_TIMESTAMP = 32"

section \<open>Events as the consumer receives them\<close>

text \<open>
  The extended-data items: which stack layout an item has, its \<^verbatim>\<open>DataSize\<close>, and the bytes at
  \<^verbatim>\<open>DataPtr\<close> (\<open>None\<close> for a null pointer).
\<close>

datatype ext_type = STACK_TRACE32 | STACK_TRACE64 | Other_ext_type u16

record ext_item =
  ext_type :: ext_type
  ext_data_size :: u16
  ext_data :: "u8 list option"

text \<open>
  The fields of \<^verbatim>\<open>EVENT_RECORD\<close> the adapter reads. \<open>ev_user_data\<close> is \<open>None\<close> for a null
  \<^verbatim>\<open>UserData\<close>; \<open>ev_extended_data\<close> lists the \<^verbatim>\<open>ExtendedDataCount\<close> items (empty for a null
  \<^verbatim>\<open>ExtendedData\<close>).
\<close>

record event_record =
  ev_provider_id :: guid
  ev_id :: u16
  ev_version :: u8
  ev_opcode :: u8
  ev_keyword :: u64
  ev_process_id :: u32
  ev_thread_id :: u32
  ev_timestamp :: i64
  ev_user_data :: "u8 list option"
  ev_user_data_length :: u16
  ev_extended_data :: "ext_item list"

definition event_opcode :: "event_record \<Rightarrow> u32" where
  "event_opcode r = ucast (ev_opcode r)"

section \<open>Decoded events\<close>

record event_names =
  names_provider :: string
  names_task :: string
  names_opcode :: string

text \<open>The two field tables are \<^verbatim>\<open>std::unordered_map\<close>s, listed in iteration order.\<close>

record event_metadata =
  md_names :: event_names
  md_process_pid :: "u32 option"
  md_parent_pid :: "u32 option"
  md_numeric_fields :: "(string \<times> u64) list"
  md_string_fields :: "(string \<times> string) list"

definition empty_metadata :: event_metadata where
  "empty_metadata = \<lparr>md_names = \<lparr>names_provider = [], names_task = [], names_opcode = []\<rparr>,
     md_process_pid = None, md_parent_pid = None, md_numeric_fields = [], md_string_fields = []\<rparr>"

record module_info =
  mod_base :: u64
  mod_size :: u64
  mod_path :: string
  mod_name :: string

record stack_walk_event =
  sw_timestamp :: i64
  sw_process :: u32
  sw_thread :: u32
  sw_addresses :: "u64 list"

record file_event_record =
  fe_metadata :: event_metadata
  fe_provider :: guid
  fe_event_id :: u16
  fe_version :: u8
  fe_opcode :: u8
  fe_keywords :: u64
  fe_user_data_length :: u16
  fe_timestamp :: i64
  fe_pid :: u32
  fe_tid :: u32
  fe_event_type :: string
  fe_path :: "string option"
  fe_path_source :: "string option"
  fe_file_object :: "u64 option"
  fe_file_key :: "u64 option"
  fe_irp_ptr :: "u64 option"
  fe_offset :: "u64 option"
  fe_io_size :: "u64 option"
  fe_io_flags :: "u32 option"
  fe_create_options :: "u32 option"
  fe_file_attributes :: "u32 option"
  fe_share_access :: "u32 option"
  fe_info_class :: "u32 option"
  fe_extra_info :: "u64 option"
  fe_nt_status :: "u32 option"
  fe_stack_addresses :: "u64 list"
  fe_completion_pid :: "u32 option"
  fe_completion_tid :: "u32 option"
  fe_completion_sequence :: "u32 option"

section \<open>The extraction context\<close>

record extraction_quality =
  q_stack_frames_total :: u32
  q_stack_frames_resolved :: u32
  q_stack_frames_unresolved :: u32
  q_file_path_resolved :: u32
  q_file_path_unresolved :: u32
  q_matched_op_end :: u32
  q_unmatched_op_end :: u32
  q_incomplete_io :: u32
  q_reused_irp :: u32
  q_dropped_stack_walk :: u32

definition initial_quality :: extraction_quality where
  "initial_quality = \<lparr>q_stack_frames_total = 0, q_stack_frames_resolved = 0,
     q_stack_frames_unresolved = 0, q_file_path_resolved = 0, q_file_path_unresolved = 0,
     q_matched_op_end = 0, q_unmatched_op_end = 0, q_incomplete_io = 0, q_reused_irp = 0,
     q_dropped_stack_walk = 0\<rparr>"

text \<open>
  \<open>pending_file_irps\<close> is iterated, so it is kept in iteration order; the other tables are only
  looked up and are maps. Counters are 32-bit and wrap.
\<close>

record extraction_context =
  events_dir :: string
  preset_flags :: u32
  has_root_pid :: bool
  root_pid :: u32
  events_written :: u32
  skipped_events :: u32
  files_written :: "string set"
  process_tree_pids :: "u32 set"
  modules_by_pid :: "u32 \<rightharpoonup> module_info list"
  quality :: extraction_quality
  file_io_raw_sequence :: u32
  pending_file_irps :: "(u64 \<times> file_event_record) list"
  ignored_file_irps :: "u64 set"
  file_paths_by_object :: "u64 \<rightharpoonup> string"
  file_paths_by_key :: "u64 \<rightharpoonup> string"
  pending_stacks_by_timestamp :: "i64 \<rightharpoonup> stack_walk_event list"
  pending_stack_timestamp_order :: "i64 list"

text \<open>
  The context together with its output: the text the extraction appends to each file, named by directory and file name
  (the code opens the files in append mode, so what they held before is not part of it), and how many times a file was
  opened.
\<close>

record extraction_world = extraction_context +
  out_files :: "string \<times> string \<Rightarrow> string"
  open_attempts :: nat

definition new_context :: "string \<Rightarrow> u32 \<Rightarrow> bool \<Rightarrow> u32 \<Rightarrow> extraction_world" where
  "new_context dir flags has_root root = \<lparr>events_dir = dir, preset_flags = flags,
     has_root_pid = has_root, root_pid = root, events_written = 0, skipped_events = 0,
     files_written = {}, process_tree_pids = {}, modules_by_pid = Map.empty,
     quality = initial_quality, file_io_raw_sequence = 0, pending_file_irps = [],
     ignored_file_irps = {}, file_paths_by_object = Map.empty, file_paths_by_key = Map.empty,
     pending_stacks_by_timestamp = Map.empty, pending_stack_timestamp_order = [],
     out_files = (\<lambda>_. []), open_attempts = 0\<rparr>"

section \<open>The platform\<close>

datatype tdh_in_type = TDH_INTYPE_UNICODESTRING | TDH_INTYPE_ANSISTRING | Other_in_type u16

record property_info =
  prop_is_struct :: bool
  prop_name :: wide
  prop_in_type :: tdh_in_type

text \<open>\<^verbatim>\<open>TRACE_EVENT_INFO\<close>: a name is \<open>None\<close> when its offset is 0.\<close>

record trace_event_info =
  ti_provider_name :: "wide option"
  ti_task_name :: "wide option"
  ti_opcode_name :: "wide option"
  ti_top_level_count :: u32
  ti_property_count :: u32
  ti_properties :: "property_info list"

text \<open>
  Calls out of the repository. Text conversion and TDH calls return their status with what they
  stored; \<open>open_ok\<close> says whether the \<open>n\<close>-th attempt to open a file for appending succeeds;
  the \<open>_order\<close> functions are the iteration order of a hash table after an insertion.
\<close>

record platform =
  wc_length :: "wide \<Rightarrow> int"
  wc_convert :: "wide \<Rightarrow> int \<Rightarrow> int \<times> string"
  tdh_info_size :: "event_record \<Rightarrow> u32 \<times> u32"
  tdh_info :: "event_record \<Rightarrow> u32 \<Rightarrow> u32 \<times> trace_event_info"
  tdh_property_size :: "event_record \<Rightarrow> wide \<Rightarrow> u32 \<times> u32"
  tdh_property :: "event_record \<Rightarrow> wide \<Rightarrow> u32 \<Rightarrow> u32 \<times> u8 list"
  open_ok :: "nat \<Rightarrow> string \<times> string \<Rightarrow> bool"
  numeric_order :: "(string \<times> u64) list \<Rightarrow> (string \<times> u64) list"
  string_order :: "(string \<times> string) list \<Rightarrow> (string \<times> string) list"
  irp_order :: "(u64 \<times> file_event_record) list \<Rightarrow> (u64 \<times> file_event_record) list"

text \<open>Documented Win32 status values.\<close>

definition ERROR_SUCCESS :: u32 where [simp]: "ERROR_SUCCESS = 0"
definition ERROR_INSUFFICIENT_BUFFER :: u32 where [simp]: "ERROR_INSUFFICIENT_BUFFER = 122"
definition ERROR_ALREADY_EXISTS :: u32 where [simp]: "ERROR_ALREADY_EXISTS = 183"
definition ERROR_CANCELLED :: u32 where [simp]: "ERROR_CANCELLED = 1223"

text \<open>What the development assumes of the hash tables: an insertion may reorder, nothing more.\<close>

definition platform_orders :: "platform \<Rightarrow> bool" where
  "platform_orders p \<longleftrightarrow> iteration_order (numeric_order p) \<and> iteration_order (string_order p)
     \<and> iteration_order (irp_order p)"

lemma platform_ordersD [dest]:
  assumes "platform_orders p"
  shows "iteration_order (numeric_order p)" "iteration_order (string_order p)" "iteration_order (irp_order p)"
  using assms by (simp_all add: platform_orders_def)

text \<open>
  A small concrete platform for evaluating the model: ASCII text, no TDH metadata, every
  open succeeds, insertion at the front.
\<close>

definition sample_platform :: platform where
  "sample_platform = \<lparr>wc_length = (\<lambda>w. int (length w) + 1),
     wc_convert = (\<lambda>w n. (n, map (\<lambda>u. char_of (unat u)) w @ [CHR 0x00])),
     tdh_info_size = (\<lambda>_. (1168, 0)),
     tdh_info = (\<lambda>_ _. (1168, \<lparr>ti_provider_name = None, ti_task_name = None, ti_opcode_name = None,
        ti_top_level_count = 0, ti_property_count = 0, ti_properties = []\<rparr>)),
     tdh_property_size = (\<lambda>_ _. (1168, 0)),
     tdh_property = (\<lambda>_ _ _. (1168, [])),
     open_ok = (\<lambda>_ _. True),
     numeric_order = (\<lambda>xs. xs), string_order = (\<lambda>xs. xs), irp_order = (\<lambda>xs. xs)\<rparr>"

lemma platform_orders_sample [simp]: "platform_orders sample_platform"
  by (simp add: platform_orders_def sample_platform_def)

end
