(* ===== verification/Etw_Metadata.thy ===== *)
theory Etw_Metadata
  imports Etw_Types
begin

text \<open>
  Decoding an event's metadata with TDH and classifying the event
  (\<^verbatim>\<open>dbgatlas_etw.cpp\<close>, lines 143 to 544 and 729 to 741): text conversion, property readers,
  field-name heuristics, \<^verbatim>\<open>event_metadata\<close>, categories and presets, time stamps, addresses.
\<close>

section \<open>Text\<close>

definition wide_to_utf8 :: "platform \<Rightarrow> wide \<Rightarrow> string throws" where
  "wide_to_utf8 p value =
     (if value = [] then Inr []
      else let utf8_len = wc_length p value in
        if utf8_len \<le> 1 then Inr []
        else let (written, text) = wc_convert p value utf8_len in
          if written \<noteq> utf8_len then Inl (Runtime_error ''failed to convert UTF-16 text to UTF-8'')
          else Inr (butlast text))"

definition guid_to_string :: "guid \<Rightarrow> string" where
  "guid_to_string g = (case g of GUID d1 d2 d3 a0 a1 a2 a3 a4 a5 a6 a7 \<Rightarrow>
     ''{'' @ hex_upper 8 (unat d1) @ ''-'' @ hex_upper 4 (unat d2) @ ''-'' @ hex_upper 4 (unat d3)
     @ ''-'' @ hex_upper 2 (unat a0) @ hex_upper 2 (unat a1)
     @ ''-'' @ hex_upper 2 (unat a2) @ hex_upper 2 (unat a3) @ hex_upper 2 (unat a4)
     @ hex_upper 2 (unat a5) @ hex_upper 2 (unat a6) @ hex_upper 2 (unat a7) @ ''}'')"

definition to_lower_ascii :: "string \<Rightarrow> string" where
  "to_lower_ascii value = map tolower value"

fun contains_any :: "string \<Rightarrow> string list \<Rightarrow> bool" where
  "contains_any haystack [] = False"
| "contains_any haystack (needle # needles) =
     (if str_find haystack needle \<noteq> None then True else contains_any haystack needles)"

definition preset_enabled :: "u32 \<Rightarrow> string \<Rightarrow> bool" where
  "preset_enabled flags category =
     (if category = ''process'' then flags AND DA_ETW_PRESET_PROCESS \<noteq> 0
      else if category = ''thread'' then flags AND DA_ETW_PRESET_THREAD \<noteq> 0
      else if category = ''image'' then flags AND DA_ETW_PRESET_IMAGE \<noteq> 0
      else if category = ''file'' then flags AND DA_ETW_PRESET_FILE \<noteq> 0
      else if category = ''registry'' then flags AND DA_ETW_PRESET_REGISTRY \<noteq> 0
      else if category = ''network'' then flags AND DA_ETW_PRESET_NETWORK \<noteq> 0
      else False)"

definition hex_u64 :: "u64 \<Rightarrow> nat \<Rightarrow> string" where
  "hex_u64 value min_width =
     ''0x'' @ (if min_width > 0 then pad_left min_width (CHR ''0'') (hex_text (unat value)) else hex_text (unat value))"

definition format_address :: "u64 \<Rightarrow> string" where
  "format_address address = hex_u64 address (if address > 0xffffffff then 16 else 8)"

text \<open>\<^verbatim>\<open>path.find_last_of("\\/")\<close> and the text after it.\<close>

definition file_name_from_path :: "string \<Rightarrow> string" where
  "file_name_from_path path = rev (takeWhile (\<lambda>c. c \<noteq> CHR 0x5C \<and> c \<noteq> CHR ''/'') (rev path))"

section \<open>Properties of an event\<close>

definition trace_info_string :: "platform \<Rightarrow> wide option \<Rightarrow> string throws" where
  "trace_info_string p text = (case text of None \<Rightarrow> Inr [] | Some w \<Rightarrow> wide_to_utf8 p w)"

definition read_numeric_property :: "platform \<Rightarrow> event_record \<Rightarrow> wide \<Rightarrow> u64 option" where
  "read_numeric_property p record property_name =
     (if property_name = [] then None
      else let (status, property_size) = tdh_property_size p record property_name in
        if status \<noteq> ERROR_SUCCESS \<or> property_size = 0 \<or> property_size > 8 then None
        else let (status', bytes) = tdh_property p record property_name property_size in
          if status' \<noteq> ERROR_SUCCESS then None
          else Some (of_nat (le_nat (take (unat property_size) bytes))))"

text \<open>
  The string buffer: what TDH stored, then zeros. Scanning it stops at the first zero code
  unit; the second component says whether the scan found its terminator inside the buffer.
\<close>

definition string_buffer :: "u32 \<Rightarrow> nat \<Rightarrow> u8 list \<Rightarrow> u8 list" where
  "string_buffer property_size terminator bytes =
     (let n = unat property_size + terminator; stored = take (unat property_size) bytes
      in stored @ replicate (n - length stored) 0)"

fun scan_wide :: "u8 list \<Rightarrow> wide \<times> bool" where
  "scan_wide (lo # hi # bs) =
     (let u = of_nat (le_nat [lo, hi]) in
      if u = (0 :: u16) then ([], True) else (let (w, found) = scan_wide bs in (u # w, found)))"
| "scan_wide _ = ([], False)"

fun scan_ansi :: "u8 list \<Rightarrow> string \<times> bool" where
  "scan_ansi [] = ([], False)"
| "scan_ansi (b # bs) =
     (if b = 0 then ([], True) else (let (s, found) = scan_ansi bs in (char_of (unat b) # s, found)))"

definition read_string_property :: "platform \<Rightarrow> event_record \<Rightarrow> wide \<Rightarrow> tdh_in_type \<Rightarrow> string option throws" where
  "read_string_property p record property_name in_type =
     (if property_name = [] then Inr None
      else if in_type \<noteq> TDH_INTYPE_UNICODESTRING \<and> in_type \<noteq> TDH_INTYPE_ANSISTRING then Inr None
      else let (status, property_size) = tdh_property_size p record property_name in
        if status \<noteq> ERROR_SUCCESS \<or> property_size = 0 \<or> property_size > 64 * 1024 then Inr None
        else let (status', bytes) = tdh_property p record property_name property_size in
          if status' \<noteq> ERROR_SUCCESS then Inr None
          else if in_type = TDH_INTYPE_UNICODESTRING
          then map_sum id Some (wide_to_utf8 p (fst (scan_wide (string_buffer property_size 2 bytes))))
          else Inr (Some (fst (scan_ansi (string_buffer property_size 1 bytes)))))"

definition is_process_pid_field :: "string \<Rightarrow> bool" where
  "is_process_pid_field name =
     (let lower = to_lower_ascii name in
      \<not> contains_any lower [''parent''] \<and>
      (lower = ''pid'' \<or> lower = ''processid'' \<or> lower = ''process_id'' \<or>
       lower = ''process id'' \<or> lower = ''process''))"

definition is_parent_pid_field :: "string \<Rightarrow> bool" where
  "is_parent_pid_field name =
     (let lower = to_lower_ascii name in
      contains_any lower [''parent''] \<and>
      contains_any lower [''pid'', ''processid'', ''process id'', ''process''])"

text \<open>Both searches visit the fields in the table's iteration order.\<close>

definition first_matching_string :: "event_metadata \<Rightarrow> string list \<Rightarrow> string option" where
  "first_matching_string metadata needles =
     map_option snd (List.find (\<lambda>(name, value). contains_any (to_lower_ascii name) needles \<and> value \<noteq> [])
       (md_string_fields metadata))"

definition first_matching_number :: "event_metadata \<Rightarrow> string list \<Rightarrow> u64 option" where
  "first_matching_number metadata needles =
     map_option snd (List.find (\<lambda>(name, value). contains_any (to_lower_ascii name) needles)
       (md_numeric_fields metadata))"

definition exact_number_field :: "event_metadata \<Rightarrow> string \<Rightarrow> u64 option" where
  "exact_number_field metadata name = map_of (md_numeric_fields metadata) name"

definition number_to_u32 :: "u64 option \<Rightarrow> u32 option" where
  "number_to_u32 value = (case value of None \<Rightarrow> None | Some v \<Rightarrow> Some (ucast v))"

section \<open>Metadata\<close>

text \<open>One iteration of the property loop of \<^verbatim>\<open>event_metadata\<close>.\<close>

definition add_text_field :: "platform \<Rightarrow> string \<Rightarrow> string option \<Rightarrow> event_metadata \<Rightarrow> event_metadata" where
  "add_text_field p name text metadata = (case text of
       None \<Rightarrow> metadata
     | Some t \<Rightarrow> metadata\<lparr>md_string_fields := um_emplace (string_order p) name t (md_string_fields metadata)\<rparr>)"

definition add_number_field :: "platform \<Rightarrow> string \<Rightarrow> u64 option \<Rightarrow> event_metadata \<Rightarrow> event_metadata" where
  "add_number_field p name value metadata = (case value of
       None \<Rightarrow> metadata
     | Some v \<Rightarrow>
         let m1 = metadata\<lparr>md_numeric_fields := um_emplace (numeric_order p) name v (md_numeric_fields metadata)\<rparr>;
             m2 = (if md_process_pid m1 = None \<and> is_process_pid_field name
                   then m1\<lparr>md_process_pid := Some (ucast v)\<rparr> else m1)
         in (if md_parent_pid m2 = None \<and> is_parent_pid_field name
             then m2\<lparr>md_parent_pid := Some (ucast v)\<rparr> else m2))"

definition metadata_property ::
  "platform \<Rightarrow> event_record \<Rightarrow> property_info \<Rightarrow> event_metadata \<Rightarrow> event_metadata throws" where
  "metadata_property p record property metadata =
     (if prop_is_struct property then Inr metadata
      else case wide_to_utf8 p (prop_name property) of
          Inl e \<Rightarrow> Inl e
        | Inr name \<Rightarrow>
            (case read_string_property p record (prop_name property) (prop_in_type property) of
               Inl e \<Rightarrow> Inl e
             | Inr text \<Rightarrow>
                 Inr (add_number_field p name (read_numeric_property p record (prop_name property))
                   (add_text_field p name text metadata))))"

fun metadata_properties ::
  "platform \<Rightarrow> event_record \<Rightarrow> property_info list \<Rightarrow> event_metadata \<Rightarrow> event_metadata throws" where
  "metadata_properties p record [] metadata = Inr metadata"
| "metadata_properties p record (q # qs) metadata =
     (case metadata_property p record q metadata of
        Inl e \<Rightarrow> Inl e
      | Inr metadata' \<Rightarrow> metadata_properties p record qs metadata')"

definition event_metadata :: "platform \<Rightarrow> event_record \<Rightarrow> event_metadata throws" where
  "event_metadata p record =
     (let (status, buffer_size) = tdh_info_size p record in
      if status \<noteq> ERROR_INSUFFICIENT_BUFFER \<or> buffer_size = 0 then Inr empty_metadata
      else let (status', info) = tdh_info p record buffer_size in
        if status' \<noteq> ERROR_SUCCESS then Inr empty_metadata
        else case trace_info_string p (ti_provider_name info) of Inl e \<Rightarrow> Inl e | Inr provider \<Rightarrow>
          (case trace_info_string p (ti_task_name info) of Inl e \<Rightarrow> Inl e | Inr task \<Rightarrow>
            (case trace_info_string p (ti_opcode_name info) of Inl e \<Rightarrow> Inl e | Inr opcode \<Rightarrow>
              let top_level_count = min (ti_top_level_count info) (ti_property_count info)
              in metadata_properties p record (take (unat top_level_count) (ti_properties info))
                   (empty_metadata\<lparr>md_names := \<lparr>names_provider = provider, names_task = task,
                      names_opcode = opcode\<rparr>\<rparr>))))"

section \<open>Categories\<close>

definition event_category :: "event_names \<Rightarrow> string option" where
  "event_category names =
     (let task_opcode = to_lower_ascii (names_task names @ '' '' @ names_opcode names);
          text = to_lower_ascii (names_provider names @ '' '' @ names_task names @ '' '' @ names_opcode names)
      in if contains_any task_opcode [''thread''] then Some ''thread''
         else if contains_any task_opcode [''image'', ''imageload''] then Some ''image''
         else if contains_any text [''process''] then Some ''process''
         else if contains_any text [''registry'', ''reg''] then Some ''registry''
         else if contains_any text [''tcp'', ''udp'', ''network''] then Some ''network''
         else if contains_any text [''file'', ''disk''] then Some ''file''
         else None)"

definition classify_event :: "event_names \<Rightarrow> u32 \<Rightarrow> string option" where
  "classify_event names flags =
     (case event_category names of
        None \<Rightarrow> None
      | Some category \<Rightarrow> if preset_enabled flags category then Some category else None)"

definition event_type_of :: "event_metadata \<Rightarrow> string" where
  "event_type_of metadata =
     (if names_opcode (md_names metadata) \<noteq> [] then names_opcode (md_names metadata)
      else if names_task (md_names metadata) \<noteq> [] then names_task (md_names metadata)
      else ''event'')"

section \<open>Time stamps\<close>

definition windows_epoch_delta :: int where
  [simp]: "windows_epoch_delta = 116444736000000000"

definition unix_millis_from_etw_timestamp :: "i64 \<Rightarrow> nat" where
  "unix_millis_from_etw_timestamp timestamp =
     (if sint timestamp \<le> windows_epoch_delta then 0
      else nat ((sint timestamp - windows_epoch_delta) div 10000))"

section \<open>Lemmas\<close>

lemma contains_any_iff: "contains_any h ns \<longleftrightarrow> (\<exists>n \<in> set ns. sublist n h)"
  by (induction ns) (auto simp flip: str_find_iff_sublist)

declare contains_any.simps [simp del]

lemma pid_fields_exclusive: "\<not> (is_process_pid_field n \<and> is_parent_pid_field n)"
  by (simp add: is_process_pid_field_def is_parent_pid_field_def Let_def)

lemma add_text_field_simps [simp]:
  "md_names (add_text_field p n t m) = md_names m"
  "md_process_pid (add_text_field p n t m) = md_process_pid m"
  "md_parent_pid (add_text_field p n t m) = md_parent_pid m"
  "md_numeric_fields (add_text_field p n t m) = md_numeric_fields m"
  by (simp_all add: add_text_field_def split: option.split)

lemma add_number_field_simps [simp]:
  "md_names (add_number_field p n v m) = md_names m"
  "md_string_fields (add_number_field p n v m) = md_string_fields m"
  by (simp_all add: add_number_field_def Let_def split: option.split)

lemma add_number_field_pids:
  "md_process_pid (add_number_field p n v m) =
     (case md_process_pid m of Some x \<Rightarrow> Some x
      | None \<Rightarrow> if is_process_pid_field n then map_option ucast v else None)"
  "md_parent_pid (add_number_field p n v m) =
     (case md_parent_pid m of Some x \<Rightarrow> Some x
      | None \<Rightarrow> if is_parent_pid_field n then map_option ucast v else None)"
  by (auto simp: add_number_field_def Let_def split: option.split)

definition metadata_wf :: "event_metadata \<Rightarrow> bool" where
  "metadata_wf m \<longleftrightarrow> um_wf (md_numeric_fields m) \<and> um_wf (md_string_fields m)"

lemma metadata_wf_empty [simp]: "metadata_wf empty_metadata" "metadata_wf (empty_metadata\<lparr>md_names := n\<rparr>)"
  by (simp_all add: metadata_wf_def empty_metadata_def)

lemma add_fields_wf [inv_intros]:
  assumes "platform_orders p" "metadata_wf m"
  shows "metadata_wf (add_text_field p n t m)" "metadata_wf (add_number_field p n v m)"
  using assms platform_ordersD [OF assms(1)]
  by (auto simp: metadata_wf_def add_text_field_def add_number_field_def Let_def
      split: option.split intro: um_wf_emplace)

lemma metadata_properties_wf:
  "platform_orders p \<Longrightarrow> metadata_properties p r qs m = Inr m' \<Longrightarrow> metadata_wf m \<Longrightarrow> metadata_wf m'"
proof (induction qs arbitrary: m)
  case (Cons q qs)
  then show ?case
    by (auto simp: metadata_property_def split: sum.splits if_splits intro: add_fields_wf)
qed simp

lemma event_metadata_wf:
  assumes "platform_orders p" "event_metadata p r = Inr m"
  shows "metadata_wf m"
  using assms metadata_properties_wf [OF assms(1)]
  by (auto simp: event_metadata_def Let_def split: prod.splits sum.splits if_splits)

text \<open>The declared value of a pid-like field: the first declared property that names one and has a readable number.\<close>

definition declared_pid ::
  "(string \<Rightarrow> bool) \<Rightarrow> platform \<Rightarrow> event_record \<Rightarrow> property_info list \<Rightarrow> u32 option" where
  "declared_pid pred p r qs =
     (case List.find (\<lambda>q. \<not> prop_is_struct q
          \<and> (case wide_to_utf8 p (prop_name q) of Inl _ \<Rightarrow> False | Inr name \<Rightarrow> pred name)
          \<and> read_numeric_property p r (prop_name q) \<noteq> None) qs of
        None \<Rightarrow> None
      | Some q \<Rightarrow> map_option ucast (read_numeric_property p r (prop_name q)))"

lemma declared_pid_Nil [simp]: "declared_pid pred p r [] = None"
  by (simp add: declared_pid_def)

lemma declared_pid_Cons:
  "declared_pid pred p r (q # qs) =
     (case wide_to_utf8 p (prop_name q) of
        Inr name \<Rightarrow>
          if \<not> prop_is_struct q \<and> pred name \<and> read_numeric_property p r (prop_name q) \<noteq> None
          then map_option ucast (read_numeric_property p r (prop_name q)) else declared_pid pred p r qs
      | Inl _ \<Rightarrow> declared_pid pred p r qs)"
  by (auto simp: declared_pid_def split: sum.split option.split)

lemma metadata_properties_pids:
  assumes "metadata_properties p r qs m = Inr m'"
  shows "md_process_pid m' = (case md_process_pid m of Some x \<Rightarrow> Some x | None \<Rightarrow> declared_pid is_process_pid_field p r qs)
       \<and> md_parent_pid m' = (case md_parent_pid m of Some x \<Rightarrow> Some x | None \<Rightarrow> declared_pid is_parent_pid_field p r qs)"
  using assms
proof (induction qs arbitrary: m)
  case Nil
  then show ?case by (auto split: option.split)
next
  case (Cons q qs)
  show ?case
  proof (cases "prop_is_struct q")
    case True
    then have "declared_pid pred p r (q # qs) = declared_pid pred p r qs" for pred
      by (simp add: declared_pid_Cons split: sum.split)
    with True Cons show ?thesis by (simp add: metadata_property_def split: option.split)
  next
    case False
    let ?v = "read_numeric_property p r (prop_name q)"
    from False Cons.prems obtain name str where
      name: "wide_to_utf8 p (prop_name q) = Inr name" and
      rest: "metadata_properties p r qs (add_number_field p name ?v (add_text_field p name str m)) = Inr m'"
      by (auto simp: metadata_property_def split: sum.splits)
    have "declared_pid pred p r (q # qs) =
        (if pred name \<and> ?v \<noteq> None then map_option ucast ?v else declared_pid pred p r qs)" for pred
      using False name by (simp add: declared_pid_Cons)
    with Cons.IH [OF rest] show ?thesis
      by (cases "md_process_pid m"; cases "md_parent_pid m"; cases ?v) (simp_all add: add_number_field_pids)
  qed
qed

lemma metadata_properties_names: "metadata_properties p r qs m = Inr m' \<Longrightarrow> md_names m' = md_names m"
  by (induction qs arbitrary: m) (auto simp: metadata_property_def split: sum.splits if_splits)

definition event_categories :: "string set" where
  "event_categories = {''process'', ''thread'', ''image'', ''file'', ''registry'', ''network''}"

lemma event_category_range: "event_category names = Some c \<Longrightarrow> c \<in> event_categories"
  unfolding event_category_def Let_def event_categories_def by (simp split: if_splits)

lemma length_hex_text_le:
  assumes "unat (a::u64) < 16 ^ k" "0 < k"
  shows "length (hex_text (unat a)) \<le> k"
  using length_digits_le [of 16 "unat a" k] assms by (simp add: radix_text_def)

lemma length_hex_upper_word:
  "length (hex_upper 8 (unat (a::u32))) = 8" "length (hex_upper 4 (unat (b::u16))) = 4"
  "length (hex_upper 2 (unat (c::u8))) = 2"
  using unat_bound [of a] unat_bound [of b] unat_bound [of c] by (simp_all add: length_hex_upper)

lemma hex_upper_inject: "hex_upper w (unat a) = hex_upper w (unat b) \<longleftrightarrow> a = b"
  by (metis option.inject text_value_hex_upper word_unat_eq_iff)

lemma scan_wide_terminated:
  assumes "even (length bs)"
  shows "snd (scan_wide (bs @ [0, 0]))"
  using assms
proof (induction bs rule: scan_wide.induct)
  case (1 lo hi bs)
  then show ?case by (auto simp: Let_def split: prod.splits)
qed auto

lemma scan_wide_more: "snd (scan_wide bs) \<Longrightarrow> snd (scan_wide (bs @ cs))"
  by (induction bs rule: scan_wide.induct) (auto simp: Let_def split: prod.splits)

lemma scan_ansi_terminated: "0 \<in> set bs \<Longrightarrow> snd (scan_ansi bs)"
  by (induction bs) (auto split: prod.splits)

section \<open>Properties\<close>

text \<open>
  The pids an event carries do not depend on hash-table order: whenever TDH describes the event and its
  text converts, the process pid (the parent pid) of the metadata is the value of the first
  declared top-level property whose name is a process-pid (parent-pid) name and whose value is readable,
  and the two field tables have no duplicate names.
\<close>

theorem event_metadata_pids:
  assumes "platform_orders p"
    and "tdh_info_size p r = (ERROR_INSUFFICIENT_BUFFER, buffer_size)" "buffer_size \<noteq> 0"
    and "tdh_info p r buffer_size = (ERROR_SUCCESS, info)"
    and "event_metadata p r = Inr m"
  shows "let qs = take (unat (min (ti_top_level_count info) (ti_property_count info))) (ti_properties info) in
     md_process_pid m = declared_pid is_process_pid_field p r qs
     \<and> md_parent_pid m = declared_pid is_parent_pid_field p r qs
     \<and> distinct (map fst (md_numeric_fields m)) \<and> distinct (map fst (md_string_fields m))"
proof -
  let ?qs = "take (unat (min (ti_top_level_count info) (ti_property_count info))) (ti_properties info)"
  from assms obtain n where m: "metadata_properties p r ?qs (empty_metadata\<lparr>md_names := n\<rparr>) = Inr m"
    by (auto simp: event_metadata_def Let_def split: sum.splits)
  show ?thesis
    using metadata_properties_pids [OF m] event_metadata_wf [OF assms(1,5)]
    by (simp add: empty_metadata_def metadata_wf_def um_wf_def Let_def)
qed

definition example_process_event :: event_record where
  "example_process_event = \<lparr>ev_provider_id = DA_ClassicProcessGuid, ev_id = 0, ev_version = 3, ev_opcode = 1,
     ev_keyword = 0, ev_process_id = 4, ev_thread_id = 8, ev_timestamp = 1, ev_user_data = Some [],
     ev_user_data_length = 0, ev_extended_data = []\<rparr>"

definition example_tdh_info :: trace_event_info where
  "example_tdh_info = \<lparr>ti_provider_name = None, ti_task_name = None, ti_opcode_name = None,
     ti_top_level_count = 2, ti_property_count = 2,
     ti_properties = [\<lparr>prop_is_struct = False, prop_name = [80, 73, 68], prop_in_type = Other_in_type 8\<rparr>]\<rparr>"

definition example_tdh_platform :: platform where
  "example_tdh_platform = sample_platform\<lparr>tdh_info_size := (\<lambda>_. (ERROR_INSUFFICIENT_BUFFER, 64)),
     tdh_info := (\<lambda>_ _. (ERROR_SUCCESS, example_tdh_info)),
     tdh_property_size := (\<lambda>_ _. (ERROR_SUCCESS, 4)),
     tdh_property := (\<lambda>_ _ _. (ERROR_SUCCESS, [9, 1, 0, 0]))\<rparr>"

lemma example_event_metadata:
  "event_metadata example_tdh_platform example_process_event =
     Inr (empty_metadata\<lparr>md_process_pid := Some 265, md_numeric_fields := [(''PID'', 265)]\<rparr>)"
  by code_simp

theorem event_metadata_pids_witness:
  "declared_pid is_process_pid_field example_tdh_platform example_process_event (ti_properties example_tdh_info)
     = Some 265"
  using event_metadata_pids [of example_tdh_platform example_process_event 64 example_tdh_info,
      OF _ _ _ _ example_event_metadata]
  by (simp add: Let_def empty_metadata_def platform_orders_def example_tdh_platform_def sample_platform_def
      example_tdh_info_def)

text \<open>
  A category is only reported for an enabled preset: \<open>classify_event\<close> answers a category exactly
  when that is the event's category and its preset flag is set, and the category is one of the six.
\<close>

theorem classify_event_enabled:
  "classify_event names flags = Some c \<longleftrightarrow>
     event_category names = Some c \<and> preset_enabled flags c
     \<and> c \<in> event_categories"
  using event_category_range [of names c] by (auto simp: classify_event_def split: option.splits if_splits)

text \<open>
  Time stamps: the milliseconds written for an ETW time stamp are the whole milliseconds since the
  Unix epoch, clamped at the epoch; the conversion is monotone and stays inside a 64-bit signed integer.
\<close>

theorem unix_millis_correct:
  "(sint t \<le> windows_epoch_delta \<longrightarrow> unix_millis_from_etw_timestamp t = 0)
   \<and> (windows_epoch_delta \<le> sint t \<longrightarrow>
        10000 * int (unix_millis_from_etw_timestamp t) \<le> sint t - windows_epoch_delta
        \<and> sint t - windows_epoch_delta < 10000 * (int (unix_millis_from_etw_timestamp t) + 1))
   \<and> (sint s \<le> sint t \<longrightarrow> unix_millis_from_etw_timestamp s \<le> unix_millis_from_etw_timestamp t)
   \<and> int (unix_millis_from_etw_timestamp t) < 2 ^ 63"
proof -
  have up: "sint t < 2 ^ 63" using sint_lt [of t] by simp
  have "unix_millis_from_etw_timestamp s \<le> unix_millis_from_etw_timestamp t" if "sint s \<le> sint t"
    using that by (auto simp: unix_millis_from_etw_timestamp_def intro!: nat_mono zdiv_mono1)
  moreover have "int (unix_millis_from_etw_timestamp t) \<le> max 0 (sint t)"
    by (auto simp: unix_millis_from_etw_timestamp_def max_def)
  ultimately show ?thesis
    using up by (auto simp: unix_millis_from_etw_timestamp_def)
qed

theorem unix_millis_correct_witness:
  "unix_millis_from_etw_timestamp 116444736000000000 = 0
   \<and> unix_millis_from_etw_timestamp 116444736000000000 \<le> unix_millis_from_etw_timestamp 116444736000025000
   \<and> 10000 * int (unix_millis_from_etw_timestamp 116444736000025000) \<le> 25000"
proof -
  have "sint (116444736000000000 :: i64) = 116444736000000000" "sint (116444736000025000 :: i64) = 116444736000025000"
    by code_simp+
  then show ?thesis
    using unix_millis_correct [of 116444736000000000 116444736000025000]
      unix_millis_correct [of 116444736000025000 116444736000000000] by simp
qed

text \<open>
  Addresses in text: an address is printed with the prefix \<^verbatim>\<open>0x\<close> and at least 8 hexadecimal
  digits (16 above 32 bits), and the digits read back to the address.
\<close>

theorem format_address_reads_back:
  "take 2 (format_address a) = ''0x'' \<and> text_value 16 (drop 2 (format_address a)) = Some (unat a)
   \<and> length (format_address a) = (if a > 0xffffffff then 18 else 10)"
proof -
  have read: "text_value 16 (pad_left w (CHR ''0'') (hex_text n)) = Some n" for w n
    using text_value_hex_lower [of w n] by (simp add: hex_lower_def radix_text_def)
  have "unat a < 16 ^ 16" using unat_bound [of a] by simp
  then have l16: "length (hex_text (unat a)) \<le> 16" by (rule length_hex_text_le) simp
  have l8: "length (hex_text (unat a)) \<le> 8" if "\<not> a > 0xffffffff"
    using that by (intro length_hex_text_le) (auto simp: word_le_nat_alt not_less)
  show ?thesis
    using l16 l8 by (cases "a > 0xffffffff") (simp_all add: format_address_def hex_u64_def read max_absorb1)
qed

text \<open>
  Provider identifiers in text: \<open>guid_to_string\<close> always has 38 characters, so the 39-byte
  buffer of the formatter never truncates it, and different identifiers print differently.
\<close>

theorem guid_to_string_exact:
  "length (guid_to_string g) = 38 \<and> (guid_to_string g = guid_to_string h \<longleftrightarrow> g = h)"
  by (cases g; cases h) (auto simp: guid_to_string_def length_hex_upper_word hex_upper_inject)

text \<open>
  String properties are read inside their buffer: for a Unicode property of even size and for
  every ANSI property, the scan for the terminator ends inside the buffer the adapter allocated.
\<close>

theorem string_buffer_terminated:
  "(even (unat property_size) \<longrightarrow> snd (scan_wide (string_buffer property_size 2 bytes)))
       \<and> snd (scan_ansi (string_buffer property_size 1 bytes))"
proof -
  have eq: "\<exists>front. string_buffer property_size k bytes = front @ replicate k 0 \<and> length front = unat property_size" for k
  proof (intro exI conjI)
    let ?s = "take (unat property_size) bytes"
    show "string_buffer property_size k bytes = (?s @ replicate (unat property_size - length ?s) 0) @ replicate k 0"
      by (simp add: string_buffer_def Let_def replicate_add [symmetric])
  qed simp
  obtain f where "string_buffer property_size 2 bytes = f @ [0, 0]" "length f = unat property_size"
    using eq [of 2] by (auto simp: numeral_2_eq_2)
  moreover obtain g where "string_buffer property_size 1 bytes = g @ [0]"
    using eq [of 1] by auto
  ultimately show ?thesis
    by (auto intro: scan_wide_terminated scan_ansi_terminated)
qed

theorem string_buffer_terminated_witness:
  "snd (scan_wide (string_buffer 4 2 [65, 0, 66, 0])) \<and> snd (scan_ansi (string_buffer 4 1 [65, 0, 66, 0]))"
  using string_buffer_terminated [of 4 "[65, 0, 66, 0]"] by simp

end
