(* ===== verification/Etw_Modules.thy ===== *)
theory Etw_Modules
  imports Etw_Metadata
begin

text \<open>
  The per-process module table (\<^verbatim>\<open>dbgatlas_etw.cpp\<close>, \<^verbatim>\<open>update_module_map\<close> and
  \<^verbatim>\<open>find_module\<close>): image load and unload events maintain it, stack frames are resolved with it.
  The locale \<open>address_resolver\<close> is what frame resolution relies on; it is interpreted on
  \<^verbatim>\<open>find_module\<close>.
\<close>

section \<open>Operations\<close>

definition erase_base :: "u64 \<Rightarrow> module_info list \<Rightarrow> module_info list" where
  "erase_base image_base modules = filter (\<lambda>m. \<not> (mod_base m = image_base)) modules"

definition update_module_map ::
  "'a extraction_context_scheme \<Rightarrow> event_metadata \<Rightarrow> string \<Rightarrow> u32 \<Rightarrow> 'a extraction_context_scheme" where
  "update_module_map context metadata event_type pid =
     (case first_matching_number metadata [''imagebase'', ''baseaddress'', ''base''] of
        None \<Rightarrow> context
      | Some image_base \<Rightarrow>
          let modules = (case modules_by_pid context pid of None \<Rightarrow> [] | Some ms \<Rightarrow> ms);
              lower_event_type = to_lower_ascii event_type
          in if contains_any lower_event_type [''unload'', ''stop'', ''end'']
             then context\<lparr>modules_by_pid := (modules_by_pid context)(pid \<mapsto> erase_base image_base modules)\<rparr>
             else
               let image_path = first_matching_string metadata [''image'', ''filename'', ''file name''];
                   path = (case image_path of None \<Rightarrow> [] | Some s \<Rightarrow> s);
                   name0 = file_name_from_path path;
                   module = \<lparr>mod_base = image_base,
                     mod_size = (case first_matching_number metadata [''imagesize'', ''size''] of None \<Rightarrow> 0 | Some n \<Rightarrow> n),
                     mod_path = path,
                     mod_name = (if name0 = [] then format_address image_base else name0)\<rparr>
               in context\<lparr>modules_by_pid :=
                    (modules_by_pid context)(pid \<mapsto> erase_base image_base modules @ [module])\<rparr>)"

definition module_contains :: "u64 \<Rightarrow> module_info \<Rightarrow> bool" where
  "module_contains address m = (if address < mod_base m then False
     else mod_size m \<noteq> 0 \<and> address - mod_base m < mod_size m)"

definition find_module :: "'a extraction_context_scheme \<Rightarrow> u32 \<Rightarrow> u64 \<Rightarrow> module_info option" where
  "find_module context pid address =
     (case (case modules_by_pid context pid of
              None \<Rightarrow> None | Some ms \<Rightarrow> List.find (module_contains address) ms) of
        Some m \<Rightarrow> Some m
      | None \<Rightarrow>
          (case modules_by_pid context 0 of
             None \<Rightarrow> None | Some ms \<Rightarrow> List.find (module_contains address) ms))"

section \<open>Lemmas\<close>

definition modules_of :: "'a extraction_context_scheme \<Rightarrow> u32 \<Rightarrow> module_info list" where
  "modules_of context pid = (case modules_by_pid context pid of None \<Rightarrow> [] | Some ms \<Rightarrow> ms)"

lemma find_module_lists:
  "find_module c pid a = (case List.find (module_contains a) (modules_of c pid) of
     Some m \<Rightarrow> Some m | None \<Rightarrow> List.find (module_contains a) (modules_of c 0))"
  by (simp add: find_module_def modules_of_def split: option.split)

lemma find_Some: "List.find P xs = Some x \<Longrightarrow> P x \<and> x \<in> set xs"
  by (auto simp: find_Some_iff in_set_conv_nth)

lemma find_not_None: "x \<in> set xs \<Longrightarrow> P x \<Longrightarrow> List.find P xs \<noteq> None"
  by (auto simp: find_None_iff)

lemma module_contains_nat:
  "module_contains a m \<longleftrightarrow> unat (mod_base m) \<le> unat a \<and> unat a < unat (mod_base m) + unat (mod_size m)"
proof (cases "a < mod_base m")
  case True
  then show ?thesis by (simp add: module_contains_def word_less_nat_alt)
next
  case False
  then have le: "mod_base m \<le> a" by simp
  then have "unat (a - mod_base m) = unat a - unat (mod_base m)" by (rule unat_sub)
  with False le show ?thesis
    by (auto simp: module_contains_def word_less_nat_alt word_le_nat_alt unat_eq_0)
qed

text \<open>No process has two modules at one base address.\<close>

definition modules_wf :: "'a extraction_context_scheme \<Rightarrow> bool" where
  "modules_wf c \<longleftrightarrow> (\<forall>pid. distinct (map mod_base (modules_of c pid)))"

lemma erase_base_distinct: "distinct (map mod_base ms) \<Longrightarrow> distinct (map mod_base (erase_base b ms))"
  by (simp add: erase_base_def distinct_map_filter)

lemma erase_base_bases: "mod_base ` set (erase_base b ms) = mod_base ` set ms - {b}"
  by (auto simp: erase_base_def)

text \<open>The module an image event describes.\<close>

definition event_module :: "event_metadata \<Rightarrow> u64 \<Rightarrow> module_info" where
  "event_module metadata image_base =
     (let path = (case first_matching_string metadata [''image'', ''filename'', ''file name''] of None \<Rightarrow> [] | Some s \<Rightarrow> s)
      in \<lparr>mod_base = image_base,
          mod_size = (case first_matching_number metadata [''imagesize'', ''size''] of None \<Rightarrow> 0 | Some n \<Rightarrow> n),
          mod_path = path,
          mod_name = (if file_name_from_path path = [] then format_address image_base else file_name_from_path path)\<rparr>)"

definition is_unload :: "string \<Rightarrow> bool" where
  "is_unload event_type \<longleftrightarrow> contains_any (to_lower_ascii event_type) [''unload'', ''stop'', ''end'']"

lemma modules_of_update:
  "modules_of (update_module_map c m ty pid) q =
     (case first_matching_number m [''imagebase'', ''baseaddress'', ''base''] of
        None \<Rightarrow> modules_of c q
      | Some b \<Rightarrow> if q \<noteq> pid then modules_of c q
          else erase_base b (modules_of c pid) @ (if is_unload ty then [] else [event_module m b]))"
  by (simp add: update_module_map_def modules_of_def event_module_def is_unload_def Let_def split: option.split)

lemma module_base_event_module [simp]: "mod_base (event_module m b) = b"
  by (simp add: event_module_def Let_def)

lemma update_module_map_wf [inv_intros]: "modules_wf c \<Longrightarrow> modules_wf (update_module_map c m ty pid)"
  using erase_base_bases by (auto simp: modules_wf_def modules_of_update erase_base_distinct split: option.split)

lemma update_module_map_frame [simp]:
  "has_root_pid (update_module_map c m ty pid) = has_root_pid c"
  "preset_flags (update_module_map c m ty pid) = preset_flags c"
  "process_tree_pids (update_module_map c m ty pid) = process_tree_pids c"
  "pending_file_irps (update_module_map c m ty pid) = pending_file_irps c"
  "pending_stacks_by_timestamp (update_module_map c m ty pid) = pending_stacks_by_timestamp c"
  "pending_stack_timestamp_order (update_module_map c m ty pid) = pending_stack_timestamp_order c"
  "quality (update_module_map c m ty pid) = quality c"
  by (simp_all add: update_module_map_def Let_def split: option.split)

section \<open>The resolver contract\<close>

text \<open>
  What frame resolution relies on: a resolver answers a module that covers the address, if it
  answers at all, and answers whenever a visible module covers it.
\<close>

locale address_resolver =
  fixes resolve :: "'c \<Rightarrow> u32 \<Rightarrow> u64 \<Rightarrow> module_info option"
    and visible :: "'c \<Rightarrow> u32 \<Rightarrow> module_info set"
  assumes resolve_covers: "resolve c pid a = Some m \<Longrightarrow> m \<in> visible c pid \<and> module_contains a m"
    and resolve_complete: "m \<in> visible c pid \<Longrightarrow> module_contains a m \<Longrightarrow> resolve c pid a \<noteq> None"
begin

lemma resolve_None_iff: "resolve c pid a = None \<longleftrightarrow> (\<forall>m \<in> visible c pid. \<not> module_contains a m)"
  using resolve_complete [of _ c pid a] resolve_covers [of c pid a] by (cases "resolve c pid a") auto

text \<open>The offset printed after a module name is the distance from its base, without wrap-around.\<close>

lemma resolve_offset:
  assumes "resolve c pid a = Some m"
  shows "unat (a - mod_base m) = unat a - unat (mod_base m)
    \<and> unat (mod_base m) + unat (a - mod_base m) = unat a \<and> unat (a - mod_base m) < unat (mod_size m)"
proof -
  have "module_contains a m" using resolve_covers [OF assms] by simp
  then have "mod_base m \<le> a" "unat a < unat (mod_base m) + unat (mod_size m)"
    by (auto simp: module_contains_nat word_le_nat_alt)
  then show ?thesis using unat_sub [of "mod_base m" a] by (simp add: word_le_nat_alt)
qed

end

definition visible_modules :: "'a extraction_context_scheme \<Rightarrow> u32 \<Rightarrow> module_info set" where
  "visible_modules c pid = set (modules_of c pid) \<union> set (modules_of c 0)"

interpretation module_resolver: address_resolver find_module visible_modules
proof unfold_locales
  fix m a and c :: "'a extraction_context_scheme" and pid
  assume "m \<in> visible_modules c pid" "module_contains a m"
  then show "find_module c pid a \<noteq> None"
    using find_not_None [of m "modules_of c pid" "module_contains a"]
      find_not_None [of m "modules_of c 0" "module_contains a"]
    by (auto simp: find_module_lists visible_modules_def split: option.splits)
qed (auto simp: find_module_lists visible_modules_def split: option.splits dest: find_Some)

section \<open>Properties\<close>

text \<open>
  Resolving an address: \<open>find_module\<close> returns a module of the process, or else one of pid 0, whose
  range (as integers, without wrap-around) has the address; modules of the process take precedence;
  and it answers nothing only when no visible module covers the address.
\<close>

theorem find_module_correct:
  "(find_module c pid a = None \<longleftrightarrow>
      (\<forall>m \<in> set (modules_of c pid) \<union> set (modules_of c 0).
         \<not> (unat (mod_base m) \<le> unat a \<and> unat a < unat (mod_base m) + unat (mod_size m))))
   \<and> (\<forall>m. find_module c pid a = Some m \<longrightarrow>
        unat (mod_base m) \<le> unat a \<and> unat a < unat (mod_base m) + unat (mod_size m)
        \<and> (m \<in> set (modules_of c pid)
           \<or> (m \<in> set (modules_of c 0) \<and> (\<forall>n \<in> set (modules_of c pid). \<not> module_contains a n))))"
proof -
  have pid_first: "m \<in> set (modules_of c pid) \<or>
      (m \<in> set (modules_of c 0) \<and> (\<forall>n \<in> set (modules_of c pid). \<not> module_contains a n))"
    if "find_module c pid a = Some m" for m
    using that by (auto simp: find_module_lists find_None_iff split: option.splits dest: find_Some)
  show ?thesis
    using module_resolver.resolve_None_iff [of c pid a] module_resolver.resolve_covers [of c pid a] pid_first
    by (auto simp: module_contains_nat visible_modules_def)
qed

definition example_image :: "(string \<times> u64) list \<Rightarrow> event_metadata" where
  "example_image nums = empty_metadata\<lparr>md_numeric_fields := nums, md_string_fields := [(''FileName'', ''a.dll'')]\<rparr>"

theorem find_module_correct_witness:
  "find_module (update_module_map (new_context ''d'' 4 False 0)
       (example_image [(''ImageBase'', 0x1000), (''ImageSize'', 0x100)]) ''Load'' 9) 9 0x10ff
     = Some \<lparr>mod_base = 0x1000, mod_size = 0x100, mod_path = ''a.dll'', mod_name = ''a.dll''\<rparr>"
proof -
  let ?c = "update_module_map (new_context ''d'' 4 False 0)
       (example_image [(''ImageBase'', 0x1000), (''ImageSize'', 0x100)]) ''Load'' 9"
  have ms: "modules_of ?c 9 = [\<lparr>mod_base = 0x1000, mod_size = 0x100, mod_path = ''a.dll'', mod_name = ''a.dll''\<rparr>]"
    "modules_of ?c 0 = []"
    by code_simp+
  have "find_module ?c 9 0x10ff \<noteq> None"
    using find_module_correct [of ?c 9 "0x10ff"] by (simp add: ms)
  then show ?thesis
    using find_module_correct [of ?c 9 "0x10ff"] by (auto simp: ms)
qed

text \<open>
  The module table follows image events: after any image event with a base address the
  bases of each process stay distinct, the table of every other process and every module of this
  process at another base are unchanged and keep their order; a load leaves exactly the
  described module at its base, an unload leaves none there.
\<close>

theorem module_table_updates:
  assumes "modules_wf c" "first_matching_number m [''imagebase'', ''baseaddress'', ''base''] = Some b"
  shows "modules_wf (update_module_map c m ty pid)
   \<and> (\<forall>q. q \<noteq> pid \<longrightarrow> modules_of (update_module_map c m ty pid) q = modules_of c q)
   \<and> filter (\<lambda>x. mod_base x \<noteq> b) (modules_of (update_module_map c m ty pid) pid)
       = filter (\<lambda>x. mod_base x \<noteq> b) (modules_of c pid)
   \<and> filter (\<lambda>x. mod_base x = b) (modules_of (update_module_map c m ty pid) pid)
       = (if is_unload ty then [] else [event_module m b])"
  using update_module_map_wf [OF assms(1)] assms(2)
  by (simp add: modules_of_update erase_base_def)

theorem module_table_updates_witness:
  "filter (\<lambda>x. mod_base x = 0x1000) (modules_of (update_module_map (new_context ''d'' 4 False 0)
      (example_image [(''ImageBase'', 0x1000)]) ''Unload'' 9) 9) = []"
proof -
  have "first_matching_number (example_image [(''ImageBase'', 0x1000)]) [''imagebase'', ''baseaddress'', ''base'']
      = Some 0x1000" "is_unload ''Unload''"
    by code_simp+
  moreover have "modules_wf (new_context ''d'' 4 False 0)"
    by (simp add: modules_wf_def modules_of_def new_context_def)
  ultimately show ?thesis
    using module_table_updates [of "new_context ''d'' 4 False 0" "example_image [(''ImageBase'', 0x1000)]" "0x1000" "''Unload''" 9]
    by simp
qed

end
