(* ===== verification/Etw_Process_Tree.thy ===== *)
theory Etw_Process_Tree
  imports Etw_Metadata
begin

text \<open>
  The process-tree filter (\<^verbatim>\<open>dbgatlas_etw.cpp\<close>, \<^verbatim>\<open>initialize_process_tree\<close> and
  \<^verbatim>\<open>process_tree_allows_event\<close>): which pids count as descendants of the recorded root, and
  which events pass. The specification \<open>in_tree\<close> is the least relation closed under "a process
  event whose parent is already in the tree"; the filter's set is proved to be exactly that.
\<close>

section \<open>Operations\<close>

definition initialize_process_tree ::
  "'a extraction_context_scheme \<Rightarrow> 'a extraction_context_scheme" where
  "initialize_process_tree context =
     (if has_root_pid context
      then context\<lparr>process_tree_pids := insert (root_pid context) (process_tree_pids context)\<rparr>
      else context)"

definition process_tree_allows_event ::
  "'a extraction_context_scheme \<Rightarrow> event_metadata \<Rightarrow> string \<Rightarrow> u32 \<Rightarrow> bool \<times> 'a extraction_context_scheme" where
  "process_tree_allows_event context metadata category event_pid =
     (if \<not> has_root_pid context then (True, context)
      else if category = ''process'' then
        let process_pid = (case md_process_pid metadata of Some pid \<Rightarrow> pid | None \<Rightarrow> event_pid);
            parent_in_tree = (case md_parent_pid metadata of
                Some parent \<Rightarrow> parent \<in> process_tree_pids context
              | None \<Rightarrow> False);
            process_in_tree = process_pid \<in> process_tree_pids context
        in if process_in_tree \<or> parent_in_tree
           then (True, context\<lparr>process_tree_pids := insert process_pid (process_tree_pids context)\<rparr>)
           else (False, context)
      else (event_pid \<in> process_tree_pids context, context))"

section \<open>Specification\<close>

text \<open>One call of the filter: the event's metadata, its category and its header pid.\<close>

type_synonym tree_call = "event_metadata \<times> string \<times> u32"

definition call_pid :: "tree_call \<Rightarrow> u32" where
  "call_pid c = (case c of (metadata, category, event_pid) \<Rightarrow>
     if category = ''process'' then (case md_process_pid metadata of Some pid \<Rightarrow> pid | None \<Rightarrow> event_pid)
     else event_pid)"

definition call_parent :: "tree_call \<Rightarrow> u32 option" where
  "call_parent c = (case c of (metadata, category, event_pid) \<Rightarrow>
     if category = ''process'' then md_parent_pid metadata else None)"

inductive in_tree :: "u32 \<Rightarrow> tree_call list \<Rightarrow> u32 \<Rightarrow> bool" for root where
  in_tree_root: "in_tree root calls root"
| in_tree_child: "in_tree root calls parent \<Longrightarrow> call_parent c = Some parent \<Longrightarrow>
     in_tree root (calls @ c # later) (call_pid c)"

inductive_cases in_tree_Nil [elim!]: "in_tree root [] pid"

fun run_tree :: "'a extraction_context_scheme \<Rightarrow> tree_call list \<Rightarrow> 'a extraction_context_scheme" where
  "run_tree context [] = context"
| "run_tree context ((metadata, category, event_pid) # calls) =
     run_tree (snd (process_tree_allows_event context metadata category event_pid)) calls"

section \<open>Lemmas\<close>

lemma tree_frame [simp]:
  "has_root_pid (snd (process_tree_allows_event c m cat pid)) = has_root_pid c"
  "root_pid (snd (process_tree_allows_event c m cat pid)) = root_pid c"
  "preset_flags (snd (process_tree_allows_event c m cat pid)) = preset_flags c"
  "pending_file_irps (snd (process_tree_allows_event c m cat pid)) = pending_file_irps c"
  "pending_stacks_by_timestamp (snd (process_tree_allows_event c m cat pid)) = pending_stacks_by_timestamp c"
  "pending_stack_timestamp_order (snd (process_tree_allows_event c m cat pid)) = pending_stack_timestamp_order c"
  "modules_by_pid (snd (process_tree_allows_event c m cat pid)) = modules_by_pid c"
  by (simp_all add: process_tree_allows_event_def Let_def)

lemma tree_allows_unchanged:
  "cat \<noteq> ''process'' \<Longrightarrow> snd (process_tree_allows_event c m cat pid) = c"
  by (simp add: process_tree_allows_event_def)

lemma tree_mono: "process_tree_pids c \<subseteq> process_tree_pids (snd (process_tree_allows_event c m cat pid))"
  by (auto simp: process_tree_allows_event_def Let_def)

lemma tree_allows_iff:
  assumes "has_root_pid c"
  shows "fst (process_tree_allows_event c m cat pid) \<longleftrightarrow>
     call_pid (m, cat, pid) \<in> process_tree_pids c
     \<or> (\<exists>q. call_parent (m, cat, pid) = Some q \<and> q \<in> process_tree_pids c)"
  using assms by (auto simp: process_tree_allows_event_def call_pid_def call_parent_def Let_def
      split: option.splits)

lemma tree_after:
  assumes "has_root_pid c"
  shows "process_tree_pids (snd (process_tree_allows_event c m cat pid)) =
     (if \<exists>q. call_parent (m, cat, pid) = Some q \<and> q \<in> process_tree_pids c
      then insert (call_pid (m, cat, pid)) (process_tree_pids c) else process_tree_pids c)"
  using assms by (auto simp: process_tree_allows_event_def call_pid_def call_parent_def Let_def
      split: option.splits)

lemma run_tree_append: "run_tree c (xs @ ys) = run_tree (run_tree c xs) ys"
  by (induction c xs rule: run_tree.induct) auto

lemma run_tree_frame [simp]: "has_root_pid (run_tree c calls) = has_root_pid c"
  by (induction c calls rule: run_tree.induct) auto

lemma in_tree_mono: "in_tree root xs pid \<Longrightarrow> in_tree root (xs @ ys) pid"
proof (induction xs pid rule: in_tree.induct)
  case (in_tree_child calls parent c later)
  then show ?case using in_tree.in_tree_child [of root calls parent c "later @ ys"] by simp
qed (rule in_tree_root)

lemma in_tree_snocE:
  assumes "in_tree root (xs @ [x]) pid"
  obtains "in_tree root xs pid"
    | parent where "in_tree root xs parent" "call_parent x = Some parent" "pid = call_pid x"
  using assms
proof (cases rule: in_tree.cases)
  case (in_tree_child calls parent c later)
  then show ?thesis
  proof (cases later rule: rev_cases)
    case Nil
    with in_tree_child that(2) show ?thesis by simp
  next
    case (snoc ys y)
    with in_tree_child have "xs = calls @ c # ys" by simp
    with in_tree_child that(1) show ?thesis using in_tree.in_tree_child by metis
  qed
qed (use that(1) in \<open>auto intro: in_tree_root\<close>)

lemma tree_is_in_tree:
  assumes "has_root_pid c" "process_tree_pids c = {root}"
  shows "process_tree_pids (run_tree c calls) = {pid. in_tree root calls pid}"
proof (induction calls rule: rev_induct)
  case Nil
  then show ?case using assms by (auto intro: in_tree_root)
next
  case (snoc x xs)
  obtain m cat pid where x: "x = (m, cat, pid)" by (cases x)
  have step: "process_tree_pids (run_tree c (xs @ [x])) =
      (if \<exists>q. call_parent x = Some q \<and> in_tree root xs q
       then insert (call_pid x) {p. in_tree root xs p} else {p. in_tree root xs p})"
    using snoc assms(1) by (auto simp: run_tree_append x tree_after)
  show ?case
    unfolding step
    by (auto intro: in_tree_mono in_tree.in_tree_child [where later = "[]"] elim!: in_tree_snocE)
qed

section \<open>Properties\<close>

text \<open>
  C8 The process tree is exactly the descendants of the root. Starting from a fresh context with a root
  pid, after any sequence of events the set of pids is the least set that has the root and, for every
  process event whose parent was already in it, that event's process; and an event is let through
  exactly when its own pid, or (for a process event) its parent pid, is in that set.
\<close>

theorem process_tree_exact:
  assumes "c = initialize_process_tree (new_context dir flags True root)"
  shows "process_tree_pids (run_tree c calls) = {pid. in_tree root calls pid}
   \<and> (fst (process_tree_allows_event (run_tree c calls) m cat pid) \<longleftrightarrow>
        in_tree root calls (call_pid (m, cat, pid))
        \<or> (\<exists>parent. call_parent (m, cat, pid) = Some parent \<and> in_tree root calls parent))"
proof -
  have c: "has_root_pid c" "process_tree_pids c = {root}"
    using assms by (auto simp: initialize_process_tree_def new_context_def)
  then show ?thesis
    using tree_is_in_tree [OF c] tree_allows_iff [of "run_tree c calls"] by simp
qed

definition example_process_start :: "u32 \<Rightarrow> u32 \<Rightarrow> tree_call" where
  "example_process_start pid parent =
     (empty_metadata\<lparr>md_process_pid := Some pid, md_parent_pid := Some parent\<rparr>, ''process'', 4)"

definition example_calls :: "tree_call list" where
  "example_calls = [example_process_start 9 7, example_process_start 11 9, example_process_start 20 21]"

definition example_tree :: extraction_world where
  "example_tree = initialize_process_tree (new_context ''d'' 1 True 7)"

lemma example_tree_pids: "process_tree_pids (run_tree example_tree example_calls) = {7, 9, 11}"
  by (simp add: example_tree_def example_calls_def initialize_process_tree_def new_context_def
      example_process_start_def process_tree_allows_event_def empty_metadata_def insert_commute)

theorem process_tree_exact_witness:
  "{pid. in_tree 7 example_calls pid} = {7, 9, 11}"
  using process_tree_exact [OF example_tree_def, of example_calls] example_tree_pids by blast

end
