(* ===== verification/Etw_Stacks.thy ===== *)
theory Etw_Stacks
  imports Etw_Modules Etw_Process_Tree
begin

text \<open>
  Call stacks (\<^verbatim>\<open>dbgatlas_etw.cpp\<close>, lines 743 to 941): frames from the extended data of an
  event, decoding of standalone stack-walk events (named fields or raw payload), the bounded
  cache of stacks that wait for their event, and the text of resolved frames.
\<close>

section \<open>Frames of an event\<close>

text \<open>
  The frame addresses behind the 8-byte match id of one extended-data item, zeros left out.
  \<open>load_le\<close> at \<open>8 + width * frame\<close> is \<^verbatim>\<open>stack->Address[frame]\<close>.
\<close>

definition item_frames :: "nat \<Rightarrow> u16 \<Rightarrow> u8 list \<Rightarrow> u64 list" where
  "item_frames width data_size data =
     filter (\<lambda>a. a \<noteq> 0) (map (\<lambda>frame. of_nat (load_le width (8 + width * frame) data))
       [0..<(unat data_size - 8) div width])"

fun item_addresses :: "ext_item \<Rightarrow> u64 list" where
  "item_addresses item =
     (case ext_data item of
        None \<Rightarrow> []
      | Some data \<Rightarrow>
          if ext_data_size item \<le> 8 then []
          else (case ext_type item of
              STACK_TRACE64 \<Rightarrow> item_frames 8 (ext_data_size item) data
            | STACK_TRACE32 \<Rightarrow> item_frames 4 (ext_data_size item) data
            | Other_ext_type _ \<Rightarrow> []))"

definition stack_addresses :: "event_record \<Rightarrow> u64 list" where
  "stack_addresses record = concat (map item_addresses (ev_extended_data record))"

section \<open>Stack-walk events\<close>

text \<open>
  The frame loop of the raw decoder; \<open>width\<close> is 8 or 4, the test for 0 only serves termination.
\<close>

function frame_loop :: "nat \<Rightarrow> u8 list \<Rightarrow> nat \<Rightarrow> nat \<Rightarrow> u64 list" where
  "frame_loop width frames remaining offset =
     (if offset + width \<le> remaining \<and> width \<noteq> 0
      then let address = of_nat (load_le width offset frames);
               rest = frame_loop width frames remaining (offset + width)
           in if address \<noteq> 0 then address # rest else rest
      else [])"
  by pat_completeness auto
termination
  by (relation "measure (\<lambda>(width, _, remaining, offset). Suc remaining - offset)") auto

declare frame_loop.simps [simp del]

definition decode_stack_walk_raw_data :: "event_record \<Rightarrow> stack_walk_event option" where
  "decode_stack_walk_raw_data record =
     (case ev_user_data record of
        None \<Rightarrow> None
      | Some data \<Rightarrow>
          if ev_user_data_length record < 16 then None
          else
            let remaining = unat (ev_user_data_length record) - 16;
                frames = drop 16 data;
                pointer_size = (if remaining mod 8 = 0 then 8 else 4)
            in Some \<lparr>sw_timestamp = of_nat (load_le 8 0 data),
                     sw_process = of_nat (load_le 4 8 data),
                     sw_thread = of_nat (load_le 4 12 data),
                     sw_addresses = frame_loop pointer_size frames remaining 0\<rparr>)"

text \<open>\<^verbatim>\<open>for (index = 1; index <= 192; ++index)\<close>, left at the first missing field.\<close>

fun named_frames :: "event_metadata \<Rightarrow> nat \<Rightarrow> nat \<Rightarrow> u64 list" where
  "named_frames metadata index 0 = []"
| "named_frames metadata index (Suc left) =
     (case exact_number_field metadata (''Stack'' @ dec_text index) of
        None \<Rightarrow> []
      | Some address \<Rightarrow>
          (if address \<noteq> 0 then [address] else []) @ named_frames metadata (index + 1) left)"

definition decode_stack_walk_event :: "event_record \<Rightarrow> event_metadata \<Rightarrow> stack_walk_event option" where
  "decode_stack_walk_event record metadata =
     (if ev_provider_id record \<noteq> DA_StackWalkGuid \<or> event_opcode record \<noteq> DA_STACK_WALK_OPCODE then None
      else case (first_matching_number metadata [''eventtimestamp'', ''event time stamp''],
                 first_matching_number metadata [''stackprocess''],
                 first_matching_number metadata [''stackthread'']) of
          (Some event_timestamp, Some stack_process, Some stack_thread) \<Rightarrow>
            Some \<lparr>sw_timestamp = event_timestamp, sw_process = ucast stack_process,
                  sw_thread = ucast stack_thread, sw_addresses = named_frames metadata 1 192\<rparr>
        | _ \<Rightarrow> decode_stack_walk_raw_data record)"

fun append_stack_addresses :: "u64 list \<Rightarrow> u64 list \<Rightarrow> u64 list" where
  "append_stack_addresses target [] = target"
| "append_stack_addresses target (address # source) =
     append_stack_addresses
       (if address \<noteq> 0 \<and> address \<notin> set target then target @ [address] else target) source"

section \<open>The cache of pending stacks\<close>

text \<open>\<^verbatim>\<open>pending.erase(it)\<close> at the first element that satisfies the test.\<close>

fun erase_first :: "('a \<Rightarrow> bool) \<Rightarrow> 'a list \<Rightarrow> 'a list" where
  "erase_first P [] = []"
| "erase_first P (x # xs) = (if P x then xs else x # erase_first P xs)"

definition same_thread :: "u32 \<Rightarrow> u32 \<Rightarrow> stack_walk_event \<Rightarrow> bool" where
  "same_thread pid tid stack \<longleftrightarrow> sw_process stack = pid \<and> sw_thread stack = tid"

definition same_process :: "u32 \<Rightarrow> stack_walk_event \<Rightarrow> bool" where
  "same_process pid stack \<longleftrightarrow> sw_process stack = pid"

definition stack_match :: "u32 \<Rightarrow> u32 \<Rightarrow> stack_walk_event list \<Rightarrow> stack_walk_event \<Rightarrow> bool" where
  "stack_match pid tid pending =
     (if List.find (same_thread pid tid) pending \<noteq> None then same_thread pid tid else same_process pid)"

definition take_matching_pending_stack ::
  "'a extraction_context_scheme \<Rightarrow> i64 \<Rightarrow> u32 \<Rightarrow> u32 \<Rightarrow> u64 list \<times> 'a extraction_context_scheme" where
  "take_matching_pending_stack context timestamp pid tid =
     (case pending_stacks_by_timestamp context timestamp of
        None \<Rightarrow> ([], context)
      | Some pending \<Rightarrow>
          (let matches = stack_match pid tid pending in
           case List.find matches pending of
             None \<Rightarrow> ([], context)
           | Some selected \<Rightarrow>
               let pending' = erase_first matches pending
               in (sw_addresses selected,
                   context\<lparr>pending_stacks_by_timestamp := (pending_stacks_by_timestamp context)
                     (timestamp := (if pending' = [] then None else Some pending'))\<rparr>)))"

definition drop_stack_walks :: "u32 \<Rightarrow> 'a extraction_context_scheme \<Rightarrow> 'a extraction_context_scheme" where
  "drop_stack_walks n context =
     context\<lparr>quality := (quality context)\<lparr>q_dropped_stack_walk := q_dropped_stack_walk (quality context) + n\<rparr>\<rparr>"

text \<open>Make room when the order queue is full: forget the oldest time stamp and its stacks.\<close>

definition evict_oldest :: "'a extraction_context_scheme \<Rightarrow> 'a extraction_context_scheme" where
  "evict_oldest context =
     (case pending_stack_timestamp_order context of
        [] \<Rightarrow> context
      | oldest # order \<Rightarrow>
          let popped = context\<lparr>pending_stack_timestamp_order := order\<rparr>
          in (case pending_stacks_by_timestamp popped oldest of
                None \<Rightarrow> popped
              | Some removed \<Rightarrow>
                  drop_stack_walks (of_nat (length removed))
                    (popped\<lparr>pending_stacks_by_timestamp := (pending_stacks_by_timestamp popped)(oldest := None)\<rparr>)))"

definition register_timestamp :: "i64 \<Rightarrow> 'a extraction_context_scheme \<Rightarrow> 'a extraction_context_scheme" where
  "register_timestamp timestamp context =
     (if pending_stacks_by_timestamp context timestamp \<noteq> None then context
      else let c = (if length (pending_stack_timestamp_order context) \<ge> DA_MAX_PENDING_STACK_TIMESTAMPS
                    then evict_oldest context else context)
           in c\<lparr>pending_stack_timestamp_order := pending_stack_timestamp_order c @ [timestamp]\<rparr>)"

text \<open>\<^verbatim>\<open>operator[]\<close> creates the entry, so it exists even when the stack is then dropped.\<close>

definition store_stack :: "stack_walk_event \<Rightarrow> 'a extraction_context_scheme \<Rightarrow> 'a extraction_context_scheme" where
  "store_stack stack context =
     (let pending = (case pending_stacks_by_timestamp context (sw_timestamp stack) of None \<Rightarrow> [] | Some p \<Rightarrow> p)
      in if length pending \<ge> DA_MAX_PENDING_STACKS_PER_TIMESTAMP
         then drop_stack_walks 1 (context\<lparr>pending_stacks_by_timestamp :=
                (pending_stacks_by_timestamp context)(sw_timestamp stack \<mapsto> pending)\<rparr>)
         else context\<lparr>pending_stacks_by_timestamp :=
                (pending_stacks_by_timestamp context)(sw_timestamp stack \<mapsto> pending @ [stack])\<rparr>)"

definition cache_pending_stack ::
  "'a extraction_context_scheme \<Rightarrow> stack_walk_event \<Rightarrow> 'a extraction_context_scheme" where
  "cache_pending_stack context stack =
     (if has_root_pid context \<and> sw_process stack \<notin> process_tree_pids context
      then drop_stack_walks 1 context
      else store_stack stack (register_timestamp (sw_timestamp stack) context))"

section \<open>Frames as text\<close>

record stack_frame_info =
  frame_text :: string
  frame_resolved :: bool

definition count_frame :: "bool \<Rightarrow> extraction_quality \<Rightarrow> extraction_quality" where
  "count_frame resolved q =
     (if resolved then q\<lparr>q_stack_frames_resolved := q_stack_frames_resolved q + 1\<rparr>
      else q\<lparr>q_stack_frames_unresolved := q_stack_frames_unresolved q + 1\<rparr>)
     \<lparr>q_stack_frames_total := q_stack_frames_total q + 1\<rparr>"

definition frame_of :: "'a extraction_context_scheme \<Rightarrow> u32 \<Rightarrow> u64 \<Rightarrow> stack_frame_info" where
  "frame_of context pid address =
     (case find_module context pid address of
        Some module \<Rightarrow>
          if address \<ge> mod_base module
          then \<lparr>frame_text = mod_name module @ ''+'' @ hex_u64 (address - mod_base module) 0, frame_resolved = True\<rparr>
          else \<lparr>frame_text = format_address address, frame_resolved = False\<rparr>
      | None \<Rightarrow> \<lparr>frame_text = format_address address, frame_resolved = False\<rparr>)"

fun frame_walk ::
  "'a extraction_context_scheme \<Rightarrow> u64 list \<Rightarrow> u32 \<Rightarrow> stack_frame_info list \<times> 'a extraction_context_scheme" where
  "frame_walk context [] pid = ([], context)"
| "frame_walk context (address # addresses) pid =
     (let frame = frame_of context pid address;
          (frames, context') = frame_walk
             (context\<lparr>quality := count_frame (frame_resolved frame) (quality context)\<rparr>) addresses pid
      in (frame # frames, context'))"

definition stack_frames_from_addresses ::
  "'a extraction_context_scheme \<Rightarrow> u64 list \<Rightarrow> u32 \<Rightarrow> stack_frame_info list \<times> 'a extraction_context_scheme" where
  "stack_frames_from_addresses context addresses pid =
     (let (frames, context') = frame_walk context addresses pid in (rev frames, context'))"

definition stack_frames ::
  "'a extraction_context_scheme \<Rightarrow> event_record \<Rightarrow> u32 \<Rightarrow> stack_frame_info list \<times> 'a extraction_context_scheme" where
  "stack_frames context record pid =
     (let (pending, context') =
            take_matching_pending_stack context (ev_timestamp record) pid (ev_thread_id record)
      in stack_frames_from_addresses context' (append_stack_addresses (stack_addresses record) pending) pid)"

definition stack_frame_text :: "stack_frame_info list \<Rightarrow> string list" where
  "stack_frame_text frame_infos = map frame_text frame_infos"

section \<open>Lemmas: decoding\<close>

lemma load_le_at: "length pre = off \<Longrightarrow> load_le w off (pre @ le_bytes w n @ rest) = n mod 256 ^ w"
  by (simp add: load_le_def le_nat_le_bytes)

lemma frame_loop_encoded:
  assumes "0 < w" "\<forall>a \<in> set as. unat a < 256 ^ w"
  shows "frame_loop w (pre @ concat (map (\<lambda>a. le_bytes w (unat a)) as) @ rest) (length pre + w * length as) (length pre)
       = filter (\<lambda>a. a \<noteq> 0) as"
  using assms(2)
proof (induction as arbitrary: pre)
  case Nil
  then show ?case using assms(1) by (subst frame_loop.simps) simp
next
  case (Cons a as)
  let ?tail = "concat (map (\<lambda>a. le_bytes w (unat a)) as) @ rest"
  have "of_nat (load_le w (length pre) (pre @ le_bytes w (unat a) @ ?tail)) = a"
    using Cons.prems by (simp add: load_le_at)
  moreover have "frame_loop w (pre @ le_bytes w (unat a) @ ?tail) (length pre + w * Suc (length as)) (length pre + w)
      = filter (\<lambda>a. a \<noteq> 0) as"
    using Cons.IH [of "pre @ le_bytes w (unat a)"] Cons.prems by (simp add: algebra_simps)
  ultimately show ?case
    using assms(1) by (subst frame_loop.simps) (simp add: Let_def)
qed

text \<open>The payload a kernel of pointer width \<open>w\<close> writes for a stack-walk event.\<close>

definition stack_walk_payload :: "nat \<Rightarrow> i64 \<Rightarrow> u32 \<Rightarrow> u32 \<Rightarrow> u64 list \<Rightarrow> u8 list" where
  "stack_walk_payload w timestamp pid tid as =
     le_bytes 8 (unat timestamp) @ le_bytes 4 (unat pid) @ le_bytes 4 (unat tid)
     @ concat (map (\<lambda>a. le_bytes w (unat a)) as)"

lemma payload_header:
  "of_nat (load_le 8 0 (stack_walk_payload w ts pid tid as)) = ts"
  "of_nat (load_le 4 8 (stack_walk_payload w ts pid tid as)) = pid"
  "of_nat (load_le 4 12 (stack_walk_payload w ts pid tid as)) = tid"
  "drop 16 (stack_walk_payload w ts pid tid as) = concat (map (\<lambda>a. le_bytes w (unat a)) as)"
proof -
  let ?d = "stack_walk_payload w ts pid tid as"
  have "load_le 8 0 ?d = unat ts"
    using load_le_at [of "[]" 0 8 "unat ts"] unat_bound [of ts] by (simp add: stack_walk_payload_def)
  then show "of_nat (load_le 8 0 ?d) = ts" by simp
  have "load_le 4 8 ?d = unat pid"
    using load_le_at [of "le_bytes 8 (unat ts)" 8 4 "unat pid"] unat_bound [of pid] by (simp add: stack_walk_payload_def)
  then show "of_nat (load_le 4 8 ?d) = pid" by simp
  have "load_le 4 12 ?d = unat tid"
    using load_le_at [of "le_bytes 8 (unat ts) @ le_bytes 4 (unat pid)" 12 4 "unat tid"] unat_bound [of tid]
    by (simp add: stack_walk_payload_def)
  then show "of_nat (load_le 4 12 ?d) = tid" by simp
  show "drop 16 ?d = concat (map (\<lambda>a. le_bytes w (unat a)) as)" by (simp add: stack_walk_payload_def)
qed

lemma decode_raw_payload:
  assumes "ev_user_data r = Some (stack_walk_payload w ts pid tid as)"
    and "unat (ev_user_data_length r) = 16 + w * length as"
    and "(if (w * length as) mod 8 = 0 then 8 else 4) = w" "\<forall>a \<in> set as. unat a < 256 ^ w"
  shows "decode_stack_walk_raw_data r = Some \<lparr>sw_timestamp = ts, sw_process = pid, sw_thread = tid,
     sw_addresses = filter (\<lambda>a. a \<noteq> 0) as\<rparr>"
proof -
  have "0 < w" using assms(3) by (auto split: if_splits)
  then have "frame_loop w (concat (map (\<lambda>a. le_bytes w (unat a)) as)) (w * length as) 0 = filter (\<lambda>a. a \<noteq> 0) as"
    using frame_loop_encoded [of w as "[]" "[]"] assms(4) by simp
  moreover have "\<not> ev_user_data_length r < 16" using assms(2) by (simp add: word_less_nat_alt)
  ultimately show ?thesis
    using assms(1,2,3) by (simp add: decode_stack_walk_raw_data_def payload_header Let_def)
qed

lemma append_stack_addresses_spec:
  "distinct t \<Longrightarrow> 0 \<notin> set t \<Longrightarrow> distinct (append_stack_addresses t s)
     \<and> set (append_stack_addresses t s) = set t \<union> (set s - {0}) \<and> prefix t (append_stack_addresses t s)"
proof (induction t s rule: append_stack_addresses.induct)
  case (2 t a s)
  then show ?case
    by (cases "a \<noteq> 0 \<and> a \<notin> set t") (auto dest: append_prefixD)
qed simp

section \<open>Lemmas: the cache\<close>

text \<open>How many stacks the table holds.\<close>

definition stacks_total :: "('k \<rightharpoonup> 'v list) \<Rightarrow> nat" where
  "stacks_total m = (\<Sum>k\<in>dom m. length (the (m k)))"

definition listed :: "('k \<rightharpoonup> 'v list) \<Rightarrow> 'k \<Rightarrow> 'v list" where
  "listed m k = (case m k of None \<Rightarrow> [] | Some vs \<Rightarrow> vs)"

lemma listed_simps [simp]: "m k = None \<Longrightarrow> listed m k = []" "m k = Some vs \<Longrightarrow> listed m k = vs"
  by (simp_all add: listed_def)

lemma stacks_total_del:
  assumes "finite (dom m)"
  shows "stacks_total (m(k := None)) + length (listed m k) = stacks_total m"
proof (cases "m k")
  case None
  then have "m(k := None) = m" by auto
  with None show ?thesis by simp
next
  case (Some vs)
  then have "dom m = insert k (dom m - {k})" by auto
  then have "stacks_total m = length (the (m k)) + (\<Sum>j\<in>dom m - {k}. length (the (m j)))"
    using assms by (metis (no_types) Diff_iff finite_Diff insertI1 stacks_total_def sum.insert)
  with Some show ?thesis by (simp add: stacks_total_def)
qed

lemma stacks_total_upd:
  assumes "finite (dom m)"
  shows "stacks_total (m(k \<mapsto> vs)) + length (listed m k) = stacks_total m + length vs"
proof -
  have "stacks_total ((m(k \<mapsto> vs))(k := None)) + length vs = stacks_total (m(k \<mapsto> vs))"
    using stacks_total_del [of "m(k \<mapsto> vs)" k] assms by simp
  then show ?thesis using stacks_total_del [OF assms, of k] by simp
qed

lemma stacks_total_bound:
  assumes "finite A" "dom m \<subseteq> A" "\<And>k vs. m k = Some vs \<Longrightarrow> length vs \<le> b"
  shows "stacks_total m \<le> card A * b"
proof -
  have "stacks_total m \<le> (\<Sum>k\<in>dom m. b)"
    unfolding stacks_total_def using assms(3) by (intro sum_mono) auto
  also have "\<dots> \<le> card A * b" using assms(1,2) by (simp add: card_mono)
  finally show ?thesis .
qed

lemma find_erase_first:
  "List.find P xs = Some x \<Longrightarrow> \<exists>ys zs. xs = ys @ x # zs \<and> erase_first P xs = ys @ zs \<and> P x \<and> (\<forall>y\<in>set ys. \<not> P y)"
proof (induction xs)
  case (Cons y ys)
  show ?case
  proof (cases "P y")
    case True
    then show ?thesis using Cons.prems by (intro exI [of _ "[]"] exI [of _ ys]) auto
  next
    case False
    with Cons obtain us zs where "ys = us @ x # zs" "erase_first P ys = us @ zs" "P x" "\<forall>y\<in>set us. \<not> P y" by auto
    with False show ?thesis by (intro exI [of _ "y # us"] exI [of _ zs]) auto
  qed
qed simp

definition stacks_inv :: "'a extraction_context_scheme \<Rightarrow> bool" where
  "stacks_inv c \<longleftrightarrow>
     dom (pending_stacks_by_timestamp c) \<subseteq> set (pending_stack_timestamp_order c)
     \<and> length (pending_stack_timestamp_order c) \<le> DA_MAX_PENDING_STACK_TIMESTAMPS
     \<and> (\<forall>ts ps. pending_stacks_by_timestamp c ts = Some ps \<longrightarrow>
          ps \<noteq> [] \<and> length ps \<le> DA_MAX_PENDING_STACKS_PER_TIMESTAMP
          \<and> (\<forall>s\<in>set ps. sw_timestamp s = ts \<and> (has_root_pid c \<longrightarrow> sw_process s \<in> process_tree_pids c)))"

lemma stacks_invD:
  assumes "stacks_inv c"
  shows "finite (dom (pending_stacks_by_timestamp c))"
    and "stacks_total (pending_stacks_by_timestamp c) \<le> 4096 * 32"
proof -
  let ?m = "pending_stacks_by_timestamp c" and ?o = "pending_stack_timestamp_order c"
  have sub: "dom ?m \<subseteq> set ?o" and len: "length ?o \<le> 4096"
    using assms by (auto simp: stacks_inv_def)
  show "finite (dom ?m)" using sub by (rule finite_subset) simp
  have "stacks_total ?m \<le> card (set ?o) * 32"
    using sub assms by (intro stacks_total_bound) (auto simp: stacks_inv_def)
  also have "\<dots> \<le> 4096 * 32" using len card_length [of ?o] by simp
  finally show "stacks_total ?m \<le> 4096 * 32" .
qed

lemma drop_stack_walks_simps [simp]:
  "pending_stacks_by_timestamp (drop_stack_walks n c) = pending_stacks_by_timestamp c"
  "pending_stack_timestamp_order (drop_stack_walks n c) = pending_stack_timestamp_order c"
  "has_root_pid (drop_stack_walks n c) = has_root_pid c"
  "process_tree_pids (drop_stack_walks n c) = process_tree_pids c"
  "pending_file_irps (drop_stack_walks n c) = pending_file_irps c"
  "q_dropped_stack_walk (quality (drop_stack_walks n c)) = q_dropped_stack_walk (quality c) + n"
  by (simp_all add: drop_stack_walks_def)

lemma stacks_inv_drop [simp]: "stacks_inv (drop_stack_walks n c) = stacks_inv c"
  by (simp add: stacks_inv_def)

lemma evict_oldest_inv [inv_intros]:
  assumes "stacks_inv c"
  shows "stacks_inv (evict_oldest c)"
proof (cases "pending_stack_timestamp_order c")
  case (Cons oldest order)
  let ?m = "pending_stacks_by_timestamp c"
  have "dom (?m(oldest := None)) \<subseteq> set order"
    using assms Cons by (auto simp: stacks_inv_def)
  moreover have "?m(oldest := None) = ?m" if "?m oldest = None" using that by auto
  ultimately have "dom ?m \<subseteq> set order" if "?m oldest = None" using that by metis
  with assms Cons show ?thesis
    by (cases "?m oldest") (auto simp: stacks_inv_def evict_oldest_def Let_def)
qed (use assms in \<open>simp add: evict_oldest_def\<close>)

lemma evict_oldest_room:
  "stacks_inv c \<Longrightarrow> length (pending_stack_timestamp_order (evict_oldest c)) < 4096"
  by (auto simp: stacks_inv_def evict_oldest_def Let_def split: list.split option.split)

lemma evict_oldest_frame [simp]:
  "has_root_pid (evict_oldest c) = has_root_pid c"
  "process_tree_pids (evict_oldest c) = process_tree_pids c"
  by (auto simp: evict_oldest_def Let_def split: list.split option.split)

lemma evict_oldest_counts:
  assumes "stacks_inv c"
  shows "of_nat (stacks_total (pending_stacks_by_timestamp (evict_oldest c))) + q_dropped_stack_walk (quality (evict_oldest c))
       = of_nat (stacks_total (pending_stacks_by_timestamp c)) + q_dropped_stack_walk (quality c)"
proof (cases "pending_stack_timestamp_order c")
  case (Cons oldest order)
  let ?m = "pending_stacks_by_timestamp c"
  show ?thesis
  proof (cases "?m oldest")
    case (Some removed)
    then have "stacks_total ?m = stacks_total (?m(oldest := None)) + length removed"
      using stacks_total_del [OF stacks_invD(1) [OF assms], of oldest] by simp
    with Cons Some show ?thesis by (simp add: evict_oldest_def)
  qed (simp add: Cons evict_oldest_def)
qed (simp add: evict_oldest_def)

lemma register_timestamp_frame [simp]:
  "has_root_pid (register_timestamp ts c) = has_root_pid c"
  "process_tree_pids (register_timestamp ts c) = process_tree_pids c"
  by (auto simp: register_timestamp_def Let_def)

lemma register_timestamp_inv [inv_intros]:
  assumes "stacks_inv c"
  shows "stacks_inv (register_timestamp ts c)"
    and "ts \<in> set (pending_stack_timestamp_order (register_timestamp ts c))"
proof -
  have add: "stacks_inv (d\<lparr>pending_stack_timestamp_order := pending_stack_timestamp_order d @ [ts]\<rparr>)"
    if "stacks_inv d" "length (pending_stack_timestamp_order d) < 4096" for d :: "'a extraction_context_scheme"
    using that by (auto simp: stacks_inv_def)
  show "stacks_inv (register_timestamp ts c)"
    using assms evict_oldest_inv [OF assms] evict_oldest_room [OF assms]
    by (simp add: register_timestamp_def Let_def add)
  show "ts \<in> set (pending_stack_timestamp_order (register_timestamp ts c))"
    using assms by (auto simp: register_timestamp_def Let_def stacks_inv_def)
qed

lemma register_timestamp_counts:
  assumes "stacks_inv c"
  shows "of_nat (stacks_total (pending_stacks_by_timestamp (register_timestamp ts c)))
           + q_dropped_stack_walk (quality (register_timestamp ts c))
       = of_nat (stacks_total (pending_stacks_by_timestamp c)) + q_dropped_stack_walk (quality c)"
  using evict_oldest_counts [OF assms] by (simp add: register_timestamp_def Let_def)

lemma store_stack_inv:
  assumes "stacks_inv c" "sw_timestamp s \<in> set (pending_stack_timestamp_order c)"
    and "has_root_pid c \<Longrightarrow> sw_process s \<in> process_tree_pids c"
  shows "stacks_inv (store_stack s c)"
proof (cases "pending_stacks_by_timestamp c (sw_timestamp s)")
  case None
  then show ?thesis using assms by (auto simp: stacks_inv_def store_stack_def Let_def)
next
  case (Some ps)
  then show ?thesis using assms by (auto simp: stacks_inv_def store_stack_def Let_def)
qed

lemma store_stack_counts:
  assumes "stacks_inv c"
  shows "of_nat (stacks_total (pending_stacks_by_timestamp (store_stack s c)))
           + q_dropped_stack_walk (quality (store_stack s c))
       = of_nat (stacks_total (pending_stacks_by_timestamp c)) + q_dropped_stack_walk (quality c) + 1"
proof -
  let ?m = "pending_stacks_by_timestamp c" and ?ts = "sw_timestamp s"
  have upd: "stacks_total (?m(?ts \<mapsto> listed ?m ?ts)) = stacks_total ?m"
    "stacks_total (?m(?ts \<mapsto> listed ?m ?ts @ [s])) = stacks_total ?m + 1"
    using stacks_total_upd [OF stacks_invD(1) [OF assms], of ?ts "listed ?m ?ts"]
      stacks_total_upd [OF stacks_invD(1) [OF assms], of ?ts "listed ?m ?ts @ [s]"] by simp_all
  show ?thesis
    by (cases "?m ?ts") (use upd in \<open>auto simp: store_stack_def Let_def\<close>)
qed

lemma cache_pending_stack_inv [inv_intros]:
  assumes "stacks_inv c"
  shows "stacks_inv (cache_pending_stack c s)"
  unfolding cache_pending_stack_def
  using assms register_timestamp_inv [OF assms] by (auto intro!: store_stack_inv)

lemma cache_pending_stack_counts:
  assumes "stacks_inv c"
  shows "of_nat (stacks_total (pending_stacks_by_timestamp (cache_pending_stack c s)))
           + q_dropped_stack_walk (quality (cache_pending_stack c s))
       = of_nat (stacks_total (pending_stacks_by_timestamp c)) + q_dropped_stack_walk (quality c) + 1"
  using store_stack_counts [OF register_timestamp_inv(1) [OF assms]] register_timestamp_counts [OF assms]
  by (simp add: cache_pending_stack_def)

lemma take_matching_pending_stack_cases:
  obtains (miss) "take_matching_pending_stack c ts pid tid = ([], c)"
      "\<forall>s \<in> set (listed (pending_stacks_by_timestamp c) ts). sw_process s \<noteq> pid"
  | (hit) ys s zs where "pending_stacks_by_timestamp c ts = Some (ys @ s # zs)"
      "sw_process s = pid"
      "sw_thread s \<noteq> tid \<Longrightarrow> \<forall>x \<in> set (ys @ zs). sw_process x = pid \<longrightarrow> sw_thread x \<noteq> tid"
      "take_matching_pending_stack c ts pid tid = (sw_addresses s,
         c\<lparr>pending_stacks_by_timestamp := (pending_stacks_by_timestamp c)
            (ts := (if ys @ zs = [] then None else Some (ys @ zs)))\<rparr>)"
proof (cases "pending_stacks_by_timestamp c ts")
  case None
  then show ?thesis by (intro miss) (simp_all add: take_matching_pending_stack_def)
next
  case (Some ps)
  let ?P = "stack_match pid tid ps"
  show ?thesis
  proof (cases "List.find ?P ps")
    case None
    then have "\<forall>s\<in>set ps. sw_process s \<noteq> pid"
      by (auto simp: find_None_iff stack_match_def same_thread_def same_process_def split: if_splits)
    with None Some show ?thesis by (intro miss) (simp_all add: take_matching_pending_stack_def)
  next
    case found: (Some s)
    then obtain ys zs where z: "ps = ys @ s # zs" "erase_first ?P ps = ys @ zs" "?P s"
      using find_erase_first by metis
    then have "sw_process s = pid"
      by (auto simp: stack_match_def same_thread_def same_process_def split: if_splits)
    moreover have "\<forall>x \<in> set (ys @ zs). sw_process x = pid \<longrightarrow> sw_thread x \<noteq> tid" if "sw_thread s \<noteq> tid"
    proof -
      have "List.find (same_thread pid tid) ps = None"
        using that z(3) by (auto simp: stack_match_def same_thread_def split: if_splits)
      then show ?thesis using z(1) by (auto simp: find_None_iff same_thread_def)
    qed
    moreover have "take_matching_pending_stack c ts pid tid = (sw_addresses s,
         c\<lparr>pending_stacks_by_timestamp := (pending_stacks_by_timestamp c)
            (ts := (if ys @ zs = [] then None else Some (ys @ zs)))\<rparr>)"
      using Some found z(2) unfolding take_matching_pending_stack_def by (simp add: Let_def)
    ultimately show ?thesis using Some z(1) by (intro hit) auto
  qed
qed

lemma stacks_inv_entry:
  assumes "stacks_inv c" "pending_stacks_by_timestamp c ts = Some ps"
  shows "ts \<in> set (pending_stack_timestamp_order c)" "length ps \<le> 32"
    "x \<in> set ps \<Longrightarrow> sw_timestamp x = ts \<and> (has_root_pid c \<longrightarrow> sw_process x \<in> process_tree_pids c)"
  using assms by (force simp: stacks_inv_def)+

lemma stacks_inv_shrink:
  assumes "stacks_inv c" "pending_stacks_by_timestamp c ts = Some ps" "set qs \<subseteq> set ps" "length qs \<le> length ps"
  shows "stacks_inv (c\<lparr>pending_stacks_by_timestamp := (pending_stacks_by_timestamp c)
           (ts := (if qs = [] then None else Some qs))\<rparr>)"
proof (cases "qs = []")
  case True
  then show ?thesis using assms(1) by (auto simp: stacks_inv_def)
next
  case False
  have "length qs \<le> 32" using stacks_inv_entry(2) [OF assms(1,2)] assms(4) by simp
  moreover have "sw_timestamp x = ts \<and> (has_root_pid c \<longrightarrow> sw_process x \<in> process_tree_pids c)" if "x \<in> set qs" for x
    using stacks_inv_entry(3) [OF assms(1,2)] assms(3) that by blast
  ultimately show ?thesis
    using False assms(1) stacks_inv_entry(1) [OF assms(1,2)] by (simp add: stacks_inv_def)
qed

lemma take_matching_pending_stack_inv [inv_intros]:
  assumes "stacks_inv c"
  shows "stacks_inv (snd (take_matching_pending_stack c ts pid tid))"
proof (cases rule: take_matching_pending_stack_cases [of c ts pid tid])
  case miss
  then show ?thesis using assms by simp
next
  case (hit ys s zs)
  have "stacks_inv (c\<lparr>pending_stacks_by_timestamp := (pending_stacks_by_timestamp c)
      (ts := (if ys @ zs = [] then None else Some (ys @ zs)))\<rparr>)"
    using assms hit(1) by (rule stacks_inv_shrink) auto
  with hit(4) show ?thesis by simp
qed

lemma take_matching_pending_stack_counts:
  assumes "stacks_inv c"
  shows "let d = snd (take_matching_pending_stack c ts pid tid) in
     quality d = quality c \<and> stacks_total (pending_stacks_by_timestamp d) \<le> stacks_total (pending_stacks_by_timestamp c)
     \<and> stacks_total (pending_stacks_by_timestamp c) \<le> Suc (stacks_total (pending_stacks_by_timestamp d))"
proof (cases rule: take_matching_pending_stack_cases [of c ts pid tid])
  case miss
  then show ?thesis by simp
next
  case (hit ys s zs)
  let ?m = "pending_stacks_by_timestamp c"
  have fin: "finite (dom ?m)" using stacks_invD(1) [OF assms] .
  have "stacks_total ?m = Suc (stacks_total (?m(ts := (if ys @ zs = [] then None else Some (ys @ zs)))))"
    using stacks_total_del [OF fin, of ts] stacks_total_upd [OF fin, of ts "ys @ zs"] hit(1) by auto
  with hit(4) show ?thesis by simp
qed

lemma find_same_thread_snoc:
  assumes "\<forall>x \<in> set ps. \<not> (sw_process x = sw_process s \<and> sw_thread x = sw_thread s)"
  shows "List.find (same_thread (sw_process s) (sw_thread s)) (ps @ [s]) = Some s"
    "erase_first (same_thread (sw_process s) (sw_thread s)) (ps @ [s]) = ps"
  using assms by (induction ps) (auto simp: same_thread_def)

lemma take_cached:
  assumes "pending_stacks_by_timestamp c (sw_timestamp s) = Some (ps @ [s])"
    and "\<forall>x \<in> set ps. \<not> (sw_process x = sw_process s \<and> sw_thread x = sw_thread s)"
  shows "take_matching_pending_stack c (sw_timestamp s) (sw_process s) (sw_thread s) = (sw_addresses s,
     c\<lparr>pending_stacks_by_timestamp := (pending_stacks_by_timestamp c)
        (sw_timestamp s := (if ps = [] then None else Some ps))\<rparr>)"
proof -
  have "stack_match (sw_process s) (sw_thread s) (ps @ [s]) = same_thread (sw_process s) (sw_thread s)"
    using find_same_thread_snoc [OF assms(2)] by (simp add: stack_match_def)
  then show ?thesis
    using assms(1) find_same_thread_snoc [OF assms(2)] by (simp add: take_matching_pending_stack_def Let_def)
qed

lemma register_timestamp_entry:
  "pending_stacks_by_timestamp (register_timestamp ts c) ts = pending_stacks_by_timestamp c ts"
  by (auto simp: register_timestamp_def evict_oldest_def Let_def split: list.split option.split)

section \<open>Lemmas: frames\<close>

lemma find_module_quality [simp]: "find_module (c\<lparr>quality := q\<rparr>) pid a = find_module c pid a"
  by (simp add: find_module_lists modules_of_def split: option.split)

lemma frame_of_quality [simp]: "frame_of (c\<lparr>quality := q\<rparr>) pid a = frame_of c pid a"
  by (simp add: frame_of_def)

lemma frame_walk_spec:
  "frame_walk c as pid = (map (frame_of c pid) as,
     c\<lparr>quality := fold (\<lambda>a. count_frame (frame_resolved (frame_of c pid a))) as (quality c)\<rparr>)"
  by (induction as arbitrary: c) (simp_all add: Let_def)

lemma count_frames:
  "q_stack_frames_total (fold (\<lambda>a. count_frame (P a)) as q) = q_stack_frames_total q + of_nat (length as)"
    "q_stack_frames_resolved (fold (\<lambda>a. count_frame (P a)) as q) = q_stack_frames_resolved q + of_nat (length (filter P as))"
    "q_stack_frames_unresolved (fold (\<lambda>a. count_frame (P a)) as q) = q_stack_frames_unresolved q + of_nat (length (filter (\<lambda>a. \<not> P a) as))"
  by (induction as arbitrary: q) (simp_all add: count_frame_def)

lemma frame_of_resolved: "frame_resolved (frame_of c pid a) \<longleftrightarrow> find_module c pid a \<noteq> None"
  using module_resolver.resolve_covers [of c pid a]
  by (auto simp: frame_of_def module_contains_def split: option.split if_splits)

lemma frame_of_text:
  "find_module c pid a = Some m \<Longrightarrow> frame_text (frame_of c pid a) = mod_name m @ ''+'' @ hex_u64 (a - mod_base m) 0"
  "find_module c pid a = None \<Longrightarrow> frame_text (frame_of c pid a) = format_address a"
  using module_resolver.resolve_covers [of c pid a m]
  by (auto simp: frame_of_def module_contains_def split: if_splits)

section \<open>The contract of a bounded cache\<close>

text \<open>
  Producers put entries, consumers take some out, a counter records what was lost.
\<close>

definition cache_run :: "('s \<Rightarrow> 'c \<Rightarrow> 'c) \<Rightarrow> ('k \<Rightarrow> 'c \<Rightarrow> 'c) \<Rightarrow> ('s + 'k) list \<Rightarrow> 'c \<Rightarrow> 'c" where
  "cache_run put get ops c = fold (case_sum put get) ops c"

locale bounded_cache =
  fixes put :: "'s \<Rightarrow> 'c \<Rightarrow> 'c" and get :: "'k \<Rightarrow> 'c \<Rightarrow> 'c"
    and inv :: "'c \<Rightarrow> bool" and held :: "'c \<Rightarrow> nat" and dropped :: "'c \<Rightarrow> u32" and capacity :: nat
  assumes put_inv: "inv c \<Longrightarrow> inv (put s c)"
    and get_inv: "inv c \<Longrightarrow> inv (get k c)"
    and held_bound: "inv c \<Longrightarrow> held c \<le> capacity"
    and put_counts: "inv c \<Longrightarrow> of_nat (held (put s c)) + dropped (put s c) = of_nat (held c) + dropped c + 1"
    and get_counts: "inv c \<Longrightarrow> dropped (get k c) = dropped c \<and> held (get k c) \<le> held c \<and> held c \<le> Suc (held (get k c))"
begin

lemma run_inv: "inv c \<Longrightarrow> inv (cache_run put get ops c)"
  by (induction ops arbitrary: c) (auto simp: cache_run_def put_inv get_inv split: sum.split)

text \<open>Nothing vanishes: every entry put is still held, was taken, or was counted as dropped.\<close>

lemma run_counts:
  assumes "inv c"
  shows "\<exists>taken. taken \<le> length (filter (\<lambda>x. \<not> isl x) ops) \<and>
     of_nat (held (cache_run put get ops c)) + dropped (cache_run put get ops c) + of_nat taken
       = of_nat (held c) + dropped c + of_nat (length (filter isl ops))"
  using assms
proof (induction ops arbitrary: c)
  case (Cons oper ops)
  show ?case
  proof (cases oper)
    case (Inl s)
    with Cons.IH [of "put s c"] Cons.prems obtain taken where
      "taken \<le> length (filter (\<lambda>x. \<not> isl x) ops)"
      "of_nat (held (cache_run put get ops (put s c))) + dropped (cache_run put get ops (put s c)) + of_nat taken
         = of_nat (held (put s c)) + dropped (put s c) + of_nat (length (filter isl ops))"
      using put_inv by blast
    with Inl put_counts [OF Cons.prems, of s] show ?thesis
      by (intro exI [of _ taken]) (simp add: cache_run_def algebra_simps)
  next
    case (Inr k)
    with Cons.IH [of "get k c"] Cons.prems obtain taken where
      t: "taken \<le> length (filter (\<lambda>x. \<not> isl x) ops)"
      "of_nat (held (cache_run put get ops (get k c))) + dropped (cache_run put get ops (get k c)) + of_nat taken
         = of_nat (held (get k c)) + dropped (get k c) + of_nat (length (filter isl ops))"
      using get_inv by blast
    have "of_nat (held c) = (of_nat (held (get k c)) + of_nat (held c - held (get k c)) :: u32)"
      using get_counts [OF Cons.prems, of k] by (metis le_add_diff_inverse of_nat_add)
    with t Inr get_counts [OF Cons.prems, of k] show ?thesis
      by (intro exI [of _ "taken + (held c - held (get k c))"]) (auto simp: cache_run_def algebra_simps)
  qed
qed (simp add: cache_run_def)

end

definition take_stack :: "i64 \<times> u32 \<times> u32 \<Rightarrow> 'a extraction_context_scheme \<Rightarrow> 'a extraction_context_scheme" where
  "take_stack k c = (case k of (timestamp, pid, tid) \<Rightarrow> snd (take_matching_pending_stack c timestamp pid tid))"

interpretation stack_cache: bounded_cache
  "\<lambda>s c. cache_pending_stack c s" take_stack stacks_inv
  "\<lambda>c. stacks_total (pending_stacks_by_timestamp c)" "\<lambda>c. q_dropped_stack_walk (quality c)" "4096 * 32"
proof unfold_locales
  fix c :: "'a extraction_context_scheme" and k :: "i64 \<times> u32 \<times> u32"
  assume c: "stacks_inv c"
  obtain ts pid tid where k: "k = (ts, pid, tid)" by (cases k)
  show "stacks_inv (take_stack k c)"
    using take_matching_pending_stack_inv [OF c] by (simp add: take_stack_def k)
  show "q_dropped_stack_walk (quality (take_stack k c)) = q_dropped_stack_walk (quality c)
     \<and> stacks_total (pending_stacks_by_timestamp (take_stack k c)) \<le> stacks_total (pending_stacks_by_timestamp c)
     \<and> stacks_total (pending_stacks_by_timestamp c) \<le> Suc (stacks_total (pending_stacks_by_timestamp (take_stack k c)))"
    using take_matching_pending_stack_counts [OF c, of ts pid tid] by (simp add: take_stack_def k Let_def)
qed (use stacks_invD(2) in \<open>auto intro: cache_pending_stack_inv cache_pending_stack_counts\<close>)

section \<open>Properties\<close>

definition stack_cache_run ::
  "string \<Rightarrow> u32 \<Rightarrow> bool \<Rightarrow> u32 \<Rightarrow> (stack_walk_event + i64 \<times> u32 \<times> u32) list \<Rightarrow> extraction_world" where
  "stack_cache_run dir flags has_root root ops =
     cache_run (\<lambda>s c. cache_pending_stack c s) take_stack ops
       (initialize_process_tree (new_context dir flags has_root root))"

text \<open>
  C34 The stack cache is bounded and loses nothing silently. From a fresh extraction context, after any
  sequence of cached stack walks and lookups, at most 4096 time stamps with at most 32 stacks each are
  kept, every kept stack is filed under its own time stamp, and the number of stacks cached equals those still
  held, plus those handed out, plus the dropped counter (32-bit arithmetic).
\<close>

theorem stack_cache_bounded:
  "let c = stack_cache_run dir flags has_root root ops in
     stacks_inv c \<and> stacks_total (pending_stacks_by_timestamp c) \<le> 4096 * 32
     \<and> (\<exists>taken. taken \<le> length (filter (\<lambda>x. \<not> isl x) ops)
          \<and> of_nat (stacks_total (pending_stacks_by_timestamp c)) + q_dropped_stack_walk (quality c)
              + of_nat taken = of_nat (length (filter isl ops)))"
proof -
  let ?c0 = "initialize_process_tree (new_context dir flags has_root root)"
  have init: "stacks_inv ?c0" "stacks_total (pending_stacks_by_timestamp ?c0) = 0" "q_dropped_stack_walk (quality ?c0) = 0"
    by (simp_all add: initialize_process_tree_def new_context_def stacks_inv_def stacks_total_def initial_quality_def)
  have inv: "stacks_inv (stack_cache_run dir flags has_root root ops)"
    unfolding stack_cache_run_def by (rule stack_cache.run_inv [OF init(1)])
  show ?thesis
    using stack_cache.run_counts [OF init(1), of ops, folded stack_cache_run_def] init(2,3)
      inv stack_cache.held_bound [OF inv]
    by (simp add: Let_def)
qed

text \<open>
  A cached stack is found by its event. When the stack's process is wanted, its time stamp has room and no stack of
  the same thread waits there, looking the stack up by time stamp, process and thread returns its addresses, and the
  lookup takes exactly this stack out: the stacks waiting at that time stamp are those from before.
\<close>

theorem cached_stack_found:
  assumes "has_root_pid c \<Longrightarrow> sw_process s \<in> process_tree_pids c"
    and "length (listed (pending_stacks_by_timestamp c) (sw_timestamp s)) < 32"
    and "\<forall>x \<in> set (listed (pending_stacks_by_timestamp c) (sw_timestamp s)).
           \<not> (sw_process x = sw_process s \<and> sw_thread x = sw_thread s)"
  shows "let r = take_matching_pending_stack (cache_pending_stack c s) (sw_timestamp s) (sw_process s) (sw_thread s)
     in fst r = sw_addresses s
        \<and> listed (pending_stacks_by_timestamp (snd r)) (sw_timestamp s)
            = listed (pending_stacks_by_timestamp c) (sw_timestamp s)"
proof -
  let ?ps = "listed (pending_stacks_by_timestamp c) (sw_timestamp s)"
  let ?d = "cache_pending_stack c s"
  have "pending_stacks_by_timestamp ?d (sw_timestamp s) = Some (?ps @ [s])"
    using assms(1,2) register_timestamp_entry [of "sw_timestamp s" c]
    by (auto simp: cache_pending_stack_def store_stack_def listed_def Let_def)
  from take_cached [OF this assms(3)] show ?thesis
    by (simp add: listed_def)
qed

definition example_stack :: stack_walk_event where
  "example_stack = \<lparr>sw_timestamp = 50, sw_process = 9, sw_thread = 3, sw_addresses = [0x1010, 0x2020]\<rparr>"

theorem cached_stack_found_witness:
  "fst (take_matching_pending_stack (cache_pending_stack (new_context ''d'' 8 False 0) example_stack) 50 9 3)
     = [0x1010, 0x2020]"
  using cached_stack_found [of "new_context ''d'' 8 False 0" example_stack]
  by (simp add: new_context_def example_stack_def listed_def Let_def)

text \<open>
  A lookup that empties a time stamp leaves it in the eviction order, so the same time stamp can stand there twice
  and consumed time stamps count against the limit of 4096.
\<close>

lemma consumed_timestamp_stays_in_order:
  "let c = cache_pending_stack (new_context ''d'' 8 False 0) example_stack; d = snd (take_matching_pending_stack c 50 9 3)
   in pending_stacks_by_timestamp d = Map.empty
      \<and> pending_stack_timestamp_order (cache_pending_stack d example_stack) = [50, 50]"
  by (simp add: new_context_def example_stack_def cache_pending_stack_def store_stack_def register_timestamp_def
      take_matching_pending_stack_def stack_match_def same_thread_def Let_def)

text \<open>
  Raw stack-walk payloads decode. A payload with 64-bit frames, or with an odd number of 32-bit frames, decodes to the
  time stamp, process, thread and non-zero frame addresses it was written from.
\<close>

theorem raw_stack_walk_decodes:
  assumes "ev_user_data r = Some (stack_walk_payload w ts pid tid as)"
    and "unat (ev_user_data_length r) = 16 + w * length as"
    and "w = 8 \<or> (w = 4 \<and> odd (length as) \<and> (\<forall>a \<in> set as. unat a < 2 ^ 32))"
  shows "decode_stack_walk_raw_data r = Some \<lparr>sw_timestamp = ts, sw_process = pid, sw_thread = tid,
     sw_addresses = filter (\<lambda>a. a \<noteq> 0) as\<rparr>"
proof (rule decode_raw_payload [OF assms(1,2)])
  show "(if w * length as mod 8 = 0 then 8 else 4) = w"
    using assms(3) by (auto elim!: oddE simp: algebra_simps)
  have "unat a < 256 ^ 8" for a :: u64 using unat_bound [of a] by simp
  then show "\<forall>a \<in> set as. unat a < 256 ^ w" using assms(3) by auto
qed

definition example_stack_walk :: "u8 list \<Rightarrow> event_record" where
  "example_stack_walk data = \<lparr>ev_provider_id = DA_StackWalkGuid, ev_id = 0, ev_version = 2, ev_opcode = 32,
     ev_keyword = 0, ev_process_id = 0, ev_thread_id = 0, ev_timestamp = 60, ev_user_data = Some data,
     ev_user_data_length = of_nat (length data), ev_extended_data = []\<rparr>"

theorem raw_stack_walk_decodes_witness:
  "decode_stack_walk_raw_data (example_stack_walk (stack_walk_payload 4 50 9 3 [0x1010, 0, 0x2020]))
     = Some \<lparr>sw_timestamp = 50, sw_process = 9, sw_thread = 3, sw_addresses = [0x1010, 0x2020]\<rparr>"
  using raw_stack_walk_decodes [of "example_stack_walk (stack_walk_payload 4 50 9 3 [0x1010, 0, 0x2020])"
      4 50 9 3 "[0x1010, 0, 0x2020]"]
  by (simp add: example_stack_walk_def stack_walk_payload_def)

text \<open>The odd count is needed: two 32-bit frames are read as one 64-bit frame.\<close>

lemma even_narrow_frames_misread:
  "decode_stack_walk_raw_data (example_stack_walk (stack_walk_payload 4 50 9 3 [0x1010, 0x2020]))
     = Some \<lparr>sw_timestamp = 50, sw_process = 9, sw_thread = 3, sw_addresses = [0x202000001010]\<rparr>"
proof -
  have wide: "stack_walk_payload 4 50 9 3 [0x1010, 0x2020] = stack_walk_payload 8 50 9 3 [0x202000001010]"
    by (simp add: stack_walk_payload_def le_bytes_map upt_rec)
  show ?thesis
    using decode_raw_payload [of "example_stack_walk (stack_walk_payload 8 50 9 3 [0x202000001010])"
        8 50 9 3 "[0x202000001010]"]
    by (simp add: wide) (simp add: example_stack_walk_def stack_walk_payload_def)
qed

text \<open>
  Resolved frames. The frames are those of the addresses in reverse order; a frame is marked resolved exactly when a
  module covers its address, its text is then the module name, a plus sign and the distance from the module base
  (which is below the module size), and otherwise the address; the three counters grow by the number of frames, of
  resolved and of unresolved frames, and nothing else of the context changes.
\<close>

theorem stack_frames_resolve:
  assumes "stack_frames_from_addresses c addresses pid = (frames, c')"
  shows "frames = rev (map (frame_of c pid) addresses)
   \<and> (\<forall>a m. find_module c pid a = Some m \<longrightarrow> frame_of c pid a =
        \<lparr>frame_text = mod_name m @ ''+'' @ hex_u64 (a - mod_base m) 0, frame_resolved = True\<rparr>
        \<and> unat (mod_base m) + unat (a - mod_base m) = unat a \<and> unat (a - mod_base m) < unat (mod_size m))
   \<and> (\<forall>a. find_module c pid a = None \<longrightarrow> frame_of c pid a = \<lparr>frame_text = format_address a, frame_resolved = False\<rparr>)
   \<and> c' = c\<lparr>quality := quality c'\<rparr>
   \<and> q_stack_frames_total (quality c') = q_stack_frames_total (quality c) + of_nat (length frames)
   \<and> q_stack_frames_resolved (quality c') = q_stack_frames_resolved (quality c) + of_nat (length (filter frame_resolved frames))
   \<and> q_stack_frames_unresolved (quality c') =
        q_stack_frames_unresolved (quality c) + of_nat (length (filter (\<lambda>f. \<not> frame_resolved f) frames))"
proof -
  have f: "frames = rev (map (frame_of c pid) addresses)"
    and c': "c' = c\<lparr>quality := fold (\<lambda>a. count_frame (frame_resolved (frame_of c pid a))) addresses (quality c)\<rparr>"
    using assms by (simp_all add: stack_frames_from_addresses_def frame_walk_spec)
  have some: "frame_of c pid a = \<lparr>frame_text = mod_name m @ ''+'' @ hex_u64 (a - mod_base m) 0, frame_resolved = True\<rparr>"
    if "find_module c pid a = Some m" for a m
    using that module_resolver.resolve_covers [OF that] by (simp add: frame_of_def module_contains_def split: if_splits)
  have off: "unat (mod_base m) + unat (a - mod_base m) = unat a \<and> unat (a - mod_base m) < unat (mod_size m)"
    if "find_module c pid a = Some m" for a m
    using module_resolver.resolve_offset [OF that] by blast
  have none: "frame_of c pid a = \<lparr>frame_text = format_address a, frame_resolved = False\<rparr>"
    if "find_module c pid a = None" for a
    using that by (simp add: frame_of_def)
  show ?thesis
    using f some none off
    by (simp add: c' count_frames rev_filter [symmetric] filter_map o_def)
qed

theorem stack_frames_resolve_witness:
  "let r = stack_frames_from_addresses (new_context ''d'' 8 False 0) [0x10, 0x20] 9
   in fst r = [\<lparr>frame_text = ''0x00000020'', frame_resolved = False\<rparr>, \<lparr>frame_text = ''0x00000010'', frame_resolved = False\<rparr>]
      \<and> q_stack_frames_unresolved (quality (snd r)) = 2"
proof -
  let ?c = "new_context ''d'' 8 False 0"
  let ?r = "stack_frames_from_addresses ?c [0x10, 0x20] 9"
  have "find_module ?c 9 a = None" for a by (simp add: find_module_def new_context_def)
  moreover have "format_address 0x10 = ''0x00000010''" "format_address 0x20 = ''0x00000020''" by code_simp+
  moreover have "q_stack_frames_unresolved (quality ?c) = 0" by (simp add: new_context_def initial_quality_def)
  ultimately show ?thesis
    using stack_frames_resolve [of ?c "[0x10, 0x20]" 9 "fst ?r" "snd ?r"] by simp
qed

end
