(* ===== verification/Json_Text.thy ===== *)
theory Json_Text
  imports Prelude
begin

text \<open>
  JSON text as the adapters write it; the ETW adapter writes one object per line.
  The first group of definitions translates the adapter's own helpers
  (\<^verbatim>\<open>json_escape\<close>, \<^verbatim>\<open>json_string_or_null\<close>, \<^verbatim>\<open>json_number_or_null\<close>, the comma loops).
  The second group is the specification: a JSON document type, its canonical compact text,
  and a reader that accepts RFC 8259 objects, arrays, strings, null, truth values and integers
  and rejects raw control characters, bad escapes and leading zeros.
  The main result is that the reader recovers every document from its text, so text that
  equals a \<open>render\<close> is well-formed and means exactly that document.
\<close>

section \<open>The adapter's text helpers\<close>

abbreviation quote :: char where "quote \<equiv> CHR 0x22"
abbreviation backslash :: char where "backslash \<equiv> CHR 0x5C"
abbreviation newline :: char where "newline \<equiv> CHR 0x0A"

definition json_escape_char :: "char \<Rightarrow> string" where
  "json_escape_char c =
     (if c = backslash then [backslash, backslash]
      else if c = quote then [backslash, quote]
      else if c = CHR 0x08 then [backslash, CHR ''b'']
      else if c = CHR 0x0C then [backslash, CHR ''f'']
      else if c = CHR 0x0A then [backslash, CHR ''n'']
      else if c = CHR 0x0D then [backslash, CHR ''r'']
      else if c = CHR 0x09 then [backslash, CHR ''t'']
      else if (of_char c :: nat) < 0x20 then [backslash, CHR ''u''] @ hex_lower 4 (of_char c)
      else [c])"

fun json_escape :: "string \<Rightarrow> string" where
  "json_escape [] = []"
| "json_escape (c # cs) = json_escape_char c @ json_escape cs"

definition json_string_or_null :: "string option \<Rightarrow> string" where
  "json_string_or_null v = (case v of None \<Rightarrow> ''null'' | Some s \<Rightarrow> [quote] @ json_escape s @ [quote])"

definition json_number_or_null :: "u64 option \<Rightarrow> string" where
  "json_number_or_null v = (case v of None \<Rightarrow> ''null'' | Some n \<Rightarrow> dec_text (unat n))"

definition json_u32_or_null :: "u32 option \<Rightarrow> string" where
  "json_u32_or_null v = (case v of None \<Rightarrow> ''null'' | Some n \<Rightarrow> dec_text (unat n))"

section \<open>Documents and their text\<close>

datatype json =
    JNull
  | JNat nat
  | JString string
  | JArray "json list"
  | JObject "(string \<times> json) list"
  | JBool bool
  | JNeg nat \<comment> \<open>a number written with a minus sign\<close>

definition quoted :: "string \<Rightarrow> string" where
  "quoted s = quote # json_escape s @ [quote]"

fun commas :: "string list \<Rightarrow> string" where
  "commas [] = []"
| "commas [x] = x"
| "commas (x # y # zs) = x @ CHR '','' # commas (y # zs)"

fun render :: "json \<Rightarrow> string" where
  "render JNull = ''null''"
| "render (JNat n) = dec_text n"
| "render (JString s) = quoted s"
| "render (JArray js) = CHR ''['' # commas (map render js) @ '']''"
| "render (JObject fs) =
     CHR ''{'' # commas (map (\<lambda>f. quoted (fst f) @ CHR '':'' # render (snd f)) fs) @ ''}''"
| "render (JBool b) = (if b then ''true'' else ''false'')"
| "render (JNeg n) = CHR ''-'' # dec_text n"

definition json_opt :: "('a \<Rightarrow> json) \<Rightarrow> 'a option \<Rightarrow> json" where
  "json_opt f v = (case v of None \<Rightarrow> JNull | Some x \<Rightarrow> f x)"

lemma json_string_or_null_render: "json_string_or_null v = render (json_opt JString v)"
  by (simp add: json_string_or_null_def json_opt_def quoted_def split: option.split)

lemma json_number_or_null_render: "json_number_or_null v = render (json_opt (\<lambda>n. JNat (unat n)) v)"
  by (simp add: json_number_or_null_def json_opt_def split: option.split)

lemma json_u32_or_null_render: "json_u32_or_null v = render (json_opt (\<lambda>n. JNat (unat n)) v)"
  by (simp add: json_u32_or_null_def json_opt_def split: option.split)

text \<open>
  The adapter's loop \<^verbatim>\<open>if (!first) out << ","; first = false; out << item\<close>.
\<close>

fun comma_loop :: "bool \<Rightarrow> string list \<Rightarrow> string" where
  "comma_loop first [] = []"
| "comma_loop first (x # xs) = (if first then [] else '','') @ x @ comma_loop False xs"

lemma comma_loop_False: "xs \<noteq> [] \<Longrightarrow> comma_loop False xs = CHR '','' # commas xs"
  by (induction xs rule: commas.induct) auto

lemma comma_loop_True: "comma_loop True xs = commas xs"
  by (cases xs rule: commas.cases) (simp_all add: comma_loop_False del: comma_loop.simps(2) add: comma_loop.simps(2) [of True])

section \<open>The reader\<close>

definition short_escape :: "char \<Rightarrow> char option" where
  "short_escape e =
     (if e = backslash then Some backslash
      else if e = quote then Some quote
      else if e = CHR ''/'' then Some (CHR ''/'')
      else if e = CHR ''b'' then Some (CHR 0x08)
      else if e = CHR ''f'' then Some (CHR 0x0C)
      else if e = CHR ''n'' then Some (CHR 0x0A)
      else if e = CHR ''r'' then Some (CHR 0x0D)
      else if e = CHR ''t'' then Some (CHR 0x09)
      else None)"

abbreviation cons_fst :: "'a \<Rightarrow> ('a list \<times> 'b) option \<Rightarrow> ('a list \<times> 'b) option" where
  "cons_fst x \<equiv> map_option (\<lambda>(xs, r). (x # xs, r))"

text \<open>The body of a string, after its opening quote.\<close>

fun read_string :: "string \<Rightarrow> (string \<times> string) option" where
  "read_string [] = None"
| "read_string (c # cs) =
     (if c = quote then Some ([], cs)
      else if c = backslash then
        (case cs of
           [] \<Rightarrow> None
         | e # r \<Rightarrow>
             if e = CHR ''u'' then
               (case r of
                  h1 # h2 # h3 # h4 # r' \<Rightarrow>
                    (case text_value 16 [h1, h2, h3, h4] of
                       Some v \<Rightarrow> if v < 128 then cons_fst (char_of v) (read_string r') else None
                     | None \<Rightarrow> None)
                | _ \<Rightarrow> None)
             else (case short_escape e of Some d \<Rightarrow> cons_fst d (read_string r) | None \<Rightarrow> None))
      else if (of_char c :: nat) < 0x20 then None
      else cons_fst c (read_string cs))"

definition is_dec :: "char \<Rightarrow> bool" where
  "is_dec c \<longleftrightarrow> 48 \<le> (of_char c :: nat) \<and> (of_char c :: nat) \<le> 57"

definition read_nat :: "string \<Rightarrow> (nat \<times> string) option" where
  "read_nat s = (let ds = takeWhile is_dec s in
     if ds = [] \<or> (hd ds = CHR ''0'' \<and> tl ds \<noteq> []) then None
     else map_option (\<lambda>n. (n, dropWhile is_dec s)) (text_value 10 ds))"

fun read_value :: "nat \<Rightarrow> string \<Rightarrow> (json \<times> string) option"
and read_elems :: "nat \<Rightarrow> string \<Rightarrow> (json list \<times> string) option"
and read_fields :: "nat \<Rightarrow> string \<Rightarrow> ((string \<times> json) list \<times> string) option" where
  "read_value 0 s = None"
| "read_value (Suc n) s =
     (case s of
        [] \<Rightarrow> None
      | c # cs \<Rightarrow>
          if c = quote then map_option (\<lambda>(t, r). (JString t, r)) (read_string cs)
          else if c = CHR ''['' then
            (if cs \<noteq> [] \<and> hd cs = CHR '']'' then Some (JArray [], tl cs)
             else map_option (\<lambda>(xs, r). (JArray xs, r)) (read_elems n cs))
          else if c = CHR ''{'' then
            (if cs \<noteq> [] \<and> hd cs = CHR ''}'' then Some (JObject [], tl cs)
             else map_option (\<lambda>(xs, r). (JObject xs, r)) (read_fields n cs))
          else if prefix ''null'' s then Some (JNull, drop 4 s)
          else if prefix ''true'' s then Some (JBool True, drop 4 s)
          else if prefix ''false'' s then Some (JBool False, drop 5 s)
          else if c = CHR ''-'' then map_option (\<lambda>(k, r). (JNeg k, r)) (read_nat cs)
          else map_option (\<lambda>(k, r). (JNat k, r)) (read_nat s))"
| "read_elems 0 s = None"
| "read_elems (Suc n) s =
     (case read_value n s of
        Some (v, c # r) \<Rightarrow>
          if c = CHR '']'' then Some ([v], r)
          else if c = CHR '','' then cons_fst v (read_elems n r)
          else None
      | _ \<Rightarrow> None)"
| "read_fields 0 s = None"
| "read_fields (Suc n) s =
     (if s \<noteq> [] \<and> hd s = quote then
        (case read_string (tl s) of
           Some (k, c # r) \<Rightarrow>
             if c = CHR '':'' then
               (case read_value n r of
                  Some (v, d # r') \<Rightarrow>
                    if d = CHR ''}'' then Some ([(k, v)], r')
                    else if d = CHR '','' then cons_fst (k, v) (read_fields n r')
                    else None
                | _ \<Rightarrow> None)
             else None
         | _ \<Rightarrow> None)
      else None)"

text \<open>Every recursive call is on a shorter text, so the length of the text is fuel enough.\<close>

definition read_json :: "string \<Rightarrow> json option" where
  "read_json s = (case read_value (Suc (length s)) s of Some (j, []) \<Rightarrow> Some j | _ \<Rightarrow> None)"

section \<open>Reading back what was written\<close>

lemma json_escape_append: "json_escape (xs @ ys) = json_escape xs @ json_escape ys"
  by (induction xs) auto

lemma hex_lower_4:
  assumes "n < 65536"
  obtains h1 h2 h3 h4 where "hex_lower 4 n = [h1, h2, h3, h4]" "text_value 16 [h1, h2, h3, h4] = Some n"
proof -
  have "length (hex_lower 4 n) = 4"
    using assms by (intro length_hex_lower) auto
  then obtain h1 h2 h3 h4 where h: "hex_lower 4 n = [h1, h2, h3, h4]"
    by (auto simp: length_Suc_conv numeral_eq_Suc)
  with text_value_hex_lower [of 4 n] that show ?thesis by simp
qed

lemma read_string_quote: "read_string (quote # cs) = Some ([], cs)"
  by simp

lemma read_string_short:
  "e \<noteq> CHR ''u'' \<Longrightarrow> short_escape e = Some d \<Longrightarrow>
   read_string (backslash # e # r) = cons_fst d (read_string r)"
  by simp

lemma read_string_unicode:
  "text_value 16 [h1, h2, h3, h4] = Some v \<Longrightarrow> v < 128 \<Longrightarrow>
   read_string (backslash # CHR ''u'' # h1 # h2 # h3 # h4 # r) = cons_fst (char_of v) (read_string r)"
  by simp

lemma read_string_plain:
  "c \<noteq> quote \<Longrightarrow> c \<noteq> backslash \<Longrightarrow> \<not> (of_char c :: nat) < 0x20 \<Longrightarrow>
   read_string (c # r) = cons_fst c (read_string r)"
  by simp

declare read_string.simps(2) [simp del]

lemma read_string_escape_char:
  "read_string (json_escape_char c @ r) = cons_fst c (read_string r)"
proof (cases "c \<in> {backslash, quote, CHR 0x08, CHR 0x0C, CHR 0x0A, CHR 0x0D, CHR 0x09}")
  case True
  then show ?thesis by (auto simp: json_escape_char_def read_string_short short_escape_def)
next
  case False
  then have esc: "json_escape_char c = (if (of_char c :: nat) < 0x20
      then [backslash, CHR ''u''] @ hex_lower 4 (of_char c) else [c])"
    by (simp add: json_escape_char_def)
  show ?thesis
  proof (cases "(of_char c :: nat) < 0x20")
    case True
    then have "(of_char c :: nat) < 65536" by simp
    then obtain h1 h2 h3 h4 where
      "hex_lower 4 (of_char c) = [h1, h2, h3, h4]" "text_value 16 [h1, h2, h3, h4] = Some (of_char c)"
      by (rule hex_lower_4)
    with True show ?thesis by (simp add: esc read_string_unicode)
  next
    case plain: False
    with False show ?thesis by (simp add: esc read_string_plain)
  qed
qed

lemma read_string_escape: "read_string (json_escape s @ quote # r) = Some (s, r)"
  by (induction s) (simp_all add: read_string_escape_char read_string_quote)

lemma is_dec_digit_char: "d < 10 \<Longrightarrow> is_dec (digit_char d)"
  by (simp add: is_dec_def digit_char_def)

lemma digit_char_eq_zero: "d < 10 \<Longrightarrow> digit_char d = CHR ''0'' \<Longrightarrow> d = 0"
  using digit_val_digit_char [of d] by simp

definition ends_number :: "string \<Rightarrow> bool" where
  "ends_number r \<longleftrightarrow> r = [] \<or> \<not> is_dec (hd r)"

lemma read_nat_dec_text:
  assumes "ends_number r"
  shows "read_nat (dec_text n @ r) = Some (n, r)"
proof -
  have dec: "\<forall>c \<in> set (dec_text n). is_dec c"
    using digits_less [of 10] by (auto simp: radix_text_def is_dec_digit_char)
  have tw: "takeWhile is_dec (dec_text n @ r) = dec_text n"
    using dec assms by (cases r) (auto simp: ends_number_def takeWhile_append2)
  have dw: "dropWhile is_dec (dec_text n @ r) = r"
    using dec assms by (cases r) (auto simp: ends_number_def dropWhile_append2)
  have ne: "dec_text n \<noteq> []" by (simp add: radix_text_def)
  have lead: "tl (dec_text n) = []" if "hd (dec_text n) = CHR ''0''"
  proof -
    have "hd (digits 10 n) < 10" using digits_less [of 10 "hd (digits 10 n)" n] by simp
    with that have "hd (digits 10 n) = 0"
      using digit_char_eq_zero by (simp add: radix_text_def hd_map)
    then have "n = 0" using hd_digits_zero [of 10 n] by simp
    then show ?thesis by (simp add: radix_text_def digits.simps)
  qed
  show ?thesis
    using ne lead by (simp add: read_nat_def Let_def tw dw text_value_radix_text)
qed

fun json_size :: "json \<Rightarrow> nat" where
  "json_size JNull = 1"
| "json_size (JNat n) = 1"
| "json_size (JString s) = 1"
| "json_size (JArray js) = Suc (sum_list (map (\<lambda>j. Suc (json_size j)) js))"
| "json_size (JObject fs) = Suc (sum_list (map (\<lambda>f. Suc (json_size (snd f))) fs))"
| "json_size (JBool b) = 1"
| "json_size (JNeg n) = 1"

lemma render_not_Nil [simp]: "render j \<noteq> []"
  by (cases j) (auto simp: quoted_def radix_text_def)

lemma length_commas_ge:
  "length (commas xs) + 1 \<ge> sum_list (map (\<lambda>x. Suc (length x)) xs)"
  by (induction xs rule: commas.induct) auto

lemma json_size_le: "json_size j \<le> length (render j)"
proof (induction j)
  case (JArray js)
  have "sum_list (map (\<lambda>j. Suc (json_size j)) js) \<le> sum_list (map (\<lambda>j. Suc (length (render j))) js)"
    using JArray by (intro sum_list_mono) auto
  also have "\<dots> \<le> length (commas (map render js)) + 1"
    using length_commas_ge [of "map render js"] by (simp add: o_def)
  finally show ?case by simp
next
  case (JObject fs)
  let ?f = "\<lambda>f. quoted (fst f) @ CHR '':'' # render (snd f)"
  have "json_size (snd f) \<le> length (?f f)" if "f \<in> set fs" for f
    using JObject [of f "snd f"] that by (simp add: snds.simps trans_le_add2 le_SucI)
  then have "sum_list (map (\<lambda>f. Suc (json_size (snd f))) fs) \<le> sum_list (map (\<lambda>f. Suc (length (?f f))) fs)"
    by (intro sum_list_mono) auto
  also have "\<dots> \<le> length (commas (map ?f fs)) + 1"
    using length_commas_ge [of "map ?f fs"] by (simp add: o_def)
  finally show ?case by simp
qed (auto simp: quoted_def radix_text_def Suc_le_eq)

lemma not_ends_number_comma [simp]: "ends_number (CHR '','' # r)" "ends_number (CHR '']'' # r)" "ends_number (CHR ''}'' # r)"
  by (simp_all add: ends_number_def is_dec_def)

definition reads_back :: "json \<Rightarrow> bool" where
  "reads_back j \<longleftrightarrow>
     (\<forall>n r. json_size j \<le> n \<longrightarrow> ends_number r \<longrightarrow> read_value n (render j @ r) = Some (j, r))"

lemma reads_backD:
  "reads_back j \<Longrightarrow> json_size j \<le> n \<Longrightarrow> ends_number r \<Longrightarrow> read_value n (render j @ r) = Some (j, r)"
  by (simp add: reads_back_def)

lemma read_elems_commas:
  assumes "\<forall>j \<in> set js. reads_back j" "js \<noteq> []"
    and "sum_list (map (\<lambda>j. Suc (json_size j)) js) \<le> n"
  shows "read_elems n (commas (map render js) @ CHR '']'' # r) = Some (js, r)"
  using assms
proof (induction js arbitrary: n)
  case (Cons j js)
  then obtain m where n: "n = Suc m" by (cases n) auto
  show ?case
  proof (cases js)
    case Nil
    with Cons n show ?thesis by (simp add: reads_backD)
  next
    case (Cons k ks)
    with Cons.prems n have "read_elems m (commas (map render js) @ CHR '']'' # r) = Some (js, r)"
      by (intro Cons.IH) auto
    with Cons Cons.prems n show ?thesis by (simp add: reads_backD)
  qed
qed simp

lemma read_fields_commas:
  assumes "\<forall>f \<in> set fs. reads_back (snd f)" "fs \<noteq> []"
    and "sum_list (map (\<lambda>f. Suc (json_size (snd f))) fs) \<le> n"
  shows "read_fields n (commas (map (\<lambda>f. quoted (fst f) @ CHR '':'' # render (snd f)) fs) @ CHR ''}'' # r) = Some (fs, r)"
  using assms
proof (induction fs arbitrary: n)
  case (Cons f fs)
  then obtain m where n: "n = Suc m" by (cases n) auto
  obtain k v where f: "f = (k, v)" by (cases f)
  show ?case
  proof (cases fs)
    case Nil
    with Cons n f show ?thesis by (simp add: reads_backD quoted_def read_string_escape)
  next
    case (Cons g gs)
    with Cons.prems n have "read_fields m (commas (map (\<lambda>f. quoted (fst f) @ CHR '':'' # render (snd f)) fs) @ CHR ''}'' # r) = Some (fs, r)"
      by (intro Cons.IH) auto
    with Cons Cons.prems n f show ?thesis by (simp add: reads_backD quoted_def read_string_escape)
  qed
qed simp

lemma dec_text_first:
  obtains c cs where "dec_text n = c # cs" "is_dec c"
proof -
  obtain d ds where d: "digits 10 n = d # ds" by (cases "digits 10 n") auto
  then have "d < 10" using digits_less [of 10 d n] by simp
  with that d show ?thesis by (simp add: radix_text_def is_dec_digit_char)
qed

lemma is_dec_not_punctuation: "is_dec c \<Longrightarrow> c \<notin> {quote, CHR ''['', CHR ''{'', CHR ''n'', CHR ''t'', CHR ''f'', CHR ''-'', CHR '']'', CHR ''}''}"
  by (auto simp: is_dec_def)

lemma render_first:
  obtains c cs where "render j = c # cs" "c \<noteq> CHR '']''" "c \<noteq> CHR ''}''"
proof (cases j)
  case (JNat n)
  obtain c cs where "dec_text n = c # cs" "is_dec c" by (rule dec_text_first)
  with JNat is_dec_not_punctuation [of c] that show ?thesis by simp
next
  case (JBool b)
  then show ?thesis using that by (cases b) auto
qed (use that in \<open>auto simp: quoted_def\<close>)

lemma reads_back_JNat: "reads_back (JNat k)"
  unfolding reads_back_def
proof (intro allI impI)
  fix n r assume "json_size (JNat k) \<le> n" and r: "ends_number r"
  then obtain m where n: "n = Suc m" by (cases n) auto
  obtain c cs where c: "dec_text k = c # cs" "is_dec c" by (rule dec_text_first)
  with is_dec_not_punctuation [of c] read_nat_dec_text [OF r, of k]
  show "read_value n (render (JNat k) @ r) = Some (JNat k, r)"
    by (auto simp: n)
qed

lemma commas_first:
  assumes "xs \<noteq> []" "hd xs \<noteq> []"
  shows "commas xs \<noteq> [] \<and> hd (commas xs) = hd (hd xs)"
  using assms by (cases xs rule: commas.cases) auto

lemma reads_back_JArray:
  assumes "\<forall>j \<in> set js. reads_back j"
  shows "reads_back (JArray js)"
  unfolding reads_back_def
proof (intro allI impI)
  fix n r assume le: "json_size (JArray js) \<le> n" and "ends_number r"
  then obtain m where n: "n = Suc m" by (cases n) auto
  show "read_value n (render (JArray js) @ r) = Some (JArray js, r)"
  proof (cases js)
    case (Cons j ks)
    obtain c cs where "render j = c # cs" "c \<noteq> CHR '']''" by (rule render_first)
    then have "commas (map render js) \<noteq> []" "hd (commas (map render js)) \<noteq> CHR '']''"
      using commas_first [of "map render js"] Cons by auto
    moreover have "read_elems m (commas (map render js) @ CHR '']'' # r) = Some (js, r)"
      using assms Cons le n by (intro read_elems_commas) auto
    ultimately show ?thesis by (simp add: n hd_append)
  qed (simp add: n)
qed

lemma reads_back_JObject:
  assumes "\<forall>f \<in> set fs. reads_back (snd f)"
  shows "reads_back (JObject fs)"
  unfolding reads_back_def
proof (intro allI impI)
  let ?f = "\<lambda>f. quoted (fst f) @ CHR '':'' # render (snd f)"
  fix n r assume le: "json_size (JObject fs) \<le> n" and "ends_number r"
  then obtain m where n: "n = Suc m" by (cases n) auto
  show "read_value n (render (JObject fs) @ r) = Some (JObject fs, r)"
  proof (cases fs)
    case (Cons f gs)
    then have "commas (map ?f fs) \<noteq> []" "hd (commas (map ?f fs)) \<noteq> CHR ''}''"
      using commas_first [of "map ?f fs"] by (auto simp: quoted_def)
    moreover have "read_fields m (commas (map ?f fs) @ CHR ''}'' # r) = Some (fs, r)"
      using assms Cons le n by (intro read_fields_commas) auto
    ultimately show ?thesis by (simp add: n hd_append)
  qed (simp add: n)
qed

lemma reads_back_all: "reads_back j"
proof (induction j)
  case JNull
  show ?case by (auto simp: reads_back_def neq_Nil_conv Suc_le_eq gr0_conv_Suc)
next
  case (JNat k)
  show ?case by (rule reads_back_JNat)
next
  case (JString s)
  show ?case by (auto simp: reads_back_def quoted_def read_string_escape Suc_le_eq gr0_conv_Suc)
next
  case (JArray js)
  then show ?case by (auto intro: reads_back_JArray)
next
  case (JObject fs)
  then show ?case by (intro reads_back_JObject) (auto simp: snds.simps)
next
  case (JBool b)
  show ?case by (auto simp: reads_back_def neq_Nil_conv Suc_le_eq gr0_conv_Suc)
next
  case (JNeg k)
  show ?case by (auto simp: reads_back_def read_nat_dec_text Suc_le_eq gr0_conv_Suc)
qed

lemma read_json_render: "read_json (render j) = Some j"
proof -
  have "read_value (Suc (length (render j))) (render j @ []) = Some (j, [])"
    using reads_back_all json_size_le by (intro reads_backD) (auto simp: ends_number_def le_SucI)
  then show ?thesis by (simp add: read_json_def)
qed

lemma render_inject: "render i = render j \<longleftrightarrow> i = j"
  by (metis read_json_render option.inject)

section \<open>Lines\<close>

text \<open>A key as the adapter's string literals spell it, and text that needs no escaping.\<close>

definition json_key :: "string \<Rightarrow> string" where
  "json_key k = [quote] @ k @ [quote] @ '':''"

definition plain_text :: "string \<Rightarrow> bool" where
  "plain_text k \<longleftrightarrow> json_escape k = k"

definition render_field :: "string \<times> json \<Rightarrow> string" where
  "render_field f = quoted (fst f) @ CHR '':'' # render (snd f)"

lemma render_field_plain: "plain_text k \<Longrightarrow> render_field (k, v) = json_key k @ render v"
  by (simp add: render_field_def json_key_def plain_text_def quoted_def)

lemma commas_Cons: "commas (x # xs) = x @ concat (map (\<lambda>y. CHR '','' # y) xs)"
  by (induction xs arbitrary: x) auto

lemma render_object: "render (JObject (f # fs)) =
    CHR ''{'' # render_field f @ concat (map (\<lambda>f. CHR '','' # render_field f) fs) @ ''}''"
  by (simp add: commas_Cons render_field_def o_def)

lemma render_object_commas: "render (JObject fs) = CHR ''{'' # commas (map render_field fs) @ ''}''"
  by (simp add: render_field_def [abs_def])

lemma digit_char_printable: "n < 16 \<Longrightarrow> 32 \<le> (of_char (digit_char n) :: nat)"
  by (simp add: digit_char_def)

lemma json_escape_char_printable: "c \<in> set (json_escape_char d) \<Longrightarrow> 32 \<le> (of_char c :: nat)"
proof -
  have "n < 16" if "n \<in> set (digits 16 k)" for n k
    using that digits_less [of 16 n k] by simp
  then have "32 \<le> (of_char c :: nat)" if "c \<in> set (hex_lower w k)" for w k
    using that digit_char_printable by (auto simp: hex_lower_def pad_left_def)
  then show "c \<in> set (json_escape_char d) \<Longrightarrow> 32 \<le> (of_char c :: nat)"
    by (auto simp: json_escape_char_def split: if_splits)
qed

lemma quoted_printable: "c \<in> set (quoted s) \<Longrightarrow> 32 \<le> (of_char c :: nat)"
proof (induction s)
  case (Cons d s)
  then show ?case using json_escape_char_printable [of c d] by (auto simp: quoted_def)
qed (auto simp: quoted_def)

lemma commas_chars: "c \<in> set (commas xs) \<Longrightarrow> c = CHR '','' \<or> (\<exists>x \<in> set xs. c \<in> set x)"
  by (induction xs rule: commas.induct) auto

lemma render_printable: "c \<in> set (render j) \<Longrightarrow> 32 \<le> (of_char c :: nat)"
proof (induction j)
  case (JNat n)
  have "d < 16" if "d \<in> set (digits 10 n)" for d using that digits_less [of 10 d n] by simp
  then show ?case using JNat digit_char_printable by (auto simp: radix_text_def)
next
  case (JString s)
  then show ?case using quoted_printable by simp
next
  case (JArray js)
  then show ?case by (auto dest!: commas_chars)
next
  case (JObject fs)
  then show ?case by (auto dest!: commas_chars quoted_printable)
next
  case (JNeg n)
  have "d < 16" if "d \<in> set (digits 10 n)" for d using that digits_less [of 10 d n] by simp
  then show ?case using JNeg digit_char_printable by (auto simp: radix_text_def)
qed (auto split: if_splits)

lemma render_one_line: "newline \<notin> set (render j)"
  using render_printable [of newline j] by auto

section \<open>Properties\<close>

text \<open>
  Escaping is sound and complete: the quoted text of any byte string contains no raw control character,
  a reader of JSON strings gets the byte string back from it, and different strings have different texts.
\<close>

theorem json_escape_roundtrip:
  "read_json ([quote] @ json_escape s @ [quote]) = Some (JString s)
   \<and> list_all (\<lambda>c. 32 \<le> (of_char c :: nat)) (json_escape s)
   \<and> (json_escape s = json_escape t \<longleftrightarrow> s = t)"
proof -
  have "read_json ([quote] @ json_escape u @ [quote]) = Some (JString u)" for u
    using read_json_render [of "JString u"] by (simp add: quoted_def)
  then have "json_escape s = json_escape t \<longleftrightarrow> s = t" "read_json ([quote] @ json_escape s @ [quote]) = Some (JString s)"
    by (metis json.inject(2) option.inject)+
  moreover have "list_all (\<lambda>c. 32 \<le> (of_char c :: nat)) (json_escape s)"
    using quoted_printable [of _ s] by (simp add: quoted_def list_all_iff)
  ultimately show ?thesis by blast
qed

end
