(* ===== verification/Etw_Event_Line.thy ===== *)
theory Etw_Event_Line
  imports Etw_Stacks Json_Text
begin

text \<open>
  The JSON line of an event (\<^verbatim>\<open>dbgatlas_etw.cpp\<close>: the output statements of \<^verbatim>\<open>write_file_event\<close> and
  \<^verbatim>\<open>write_extracted_event\<close>, \<^verbatim>\<open>write_stack_json\<close>, \<^verbatim>\<open>write_category_fields\<close>). The first group of definitions is the
  text in the order the code streams it; the two functions share the head and the ETW part, which are
  written once here. The second group is the document meant; the lemmas show that the text is
  its canonical text.
\<close>

section \<open>Text\<close>

definition write_stack_json :: "stack_frame_info list \<Rightarrow> string" where
  "write_stack_json frames =
     (if frames = [] then []
      else '','' @ json_key ''stack'' @ ''{'' @ json_key ''frames'' @ ''[''
        @ comma_loop True (map (\<lambda>frame. [quote] @ json_escape (frame_text frame) @ [quote]) frames) @ '']}'')"

definition write_numeric_fields :: "(string \<times> u64) list \<Rightarrow> string" where
  "write_numeric_fields fs =
     comma_loop True (map (\<lambda>(name, value). [quote] @ json_escape name @ [quote] @ '':'' @ dec_text (unat value)) fs)"

definition write_string_fields :: "(string \<times> string) list \<Rightarrow> string" where
  "write_string_fields fs =
     comma_loop True (map (\<lambda>(name, value).
       [quote] @ json_escape name @ [quote] @ '':'' @ [quote] @ json_escape value @ [quote]) fs)"

definition write_event_head :: "i64 \<Rightarrow> string \<Rightarrow> string \<Rightarrow> u32 \<Rightarrow> u32 \<Rightarrow> event_metadata \<Rightarrow> string" where
  "write_event_head timestamp category event_type pid tid metadata =
     ''{'' @ json_key ''schema_version'' @ ''1''
     @ '','' @ json_key ''timestamp'' @ ''{'' @ json_key ''unix_millis''
     @ dec_text (unix_millis_from_etw_timestamp timestamp) @ ''}''
     @ '','' @ json_key ''category'' @ [quote] @ category @ [quote]
     @ '','' @ json_key ''event_type'' @ [quote] @ json_escape event_type @ [quote]
     @ '','' @ json_key ''pid'' @ dec_text (unat pid)
     @ '','' @ json_key ''tid'' @ dec_text (unat tid)
     @ '','' @ json_key ''process'' @ ''{'' @ json_key ''pid'' @ dec_text (unat pid)
     @ '','' @ json_key ''parent_pid''
     @ (case md_parent_pid metadata of Some parent \<Rightarrow> dec_text (unat parent) | None \<Rightarrow> ''null'')
     @ '','' @ json_key ''image_path''
     @ json_string_or_null (first_matching_string metadata [''image'', ''filename'', ''processname''])
     @ '','' @ json_key ''command_line''
     @ json_string_or_null (first_matching_string metadata [''commandline'', ''command line'']) @ ''}''"

definition write_file_fields :: "file_event_record \<Rightarrow> string" where
  "write_file_fields event =
     '','' @ json_key ''file'' @ ''{''
     @ json_key ''path'' @ json_string_or_null (fe_path event)
     @ '','' @ json_key ''path_source'' @ json_string_or_null (fe_path_source event)
     @ '','' @ json_key ''operation'' @ [quote] @ json_escape (fe_event_type event) @ [quote]
     @ '','' @ json_key ''status'' @ json_u32_or_null (fe_nt_status event)
     @ '','' @ json_key ''byte_count'' @ json_number_or_null (fe_io_size event)
     @ '','' @ json_key ''file_object'' @ json_number_or_null (fe_file_object event)
     @ '','' @ json_key ''file_key'' @ json_number_or_null (fe_file_key event)
     @ '','' @ json_key ''irp_ptr'' @ json_number_or_null (fe_irp_ptr event)
     @ '','' @ json_key ''offset'' @ json_number_or_null (fe_offset event)
     @ '','' @ json_key ''io_flags'' @ json_u32_or_null (fe_io_flags event)
     @ '','' @ json_key ''create_options'' @ json_u32_or_null (fe_create_options event)
     @ '','' @ json_key ''file_attributes'' @ json_u32_or_null (fe_file_attributes event)
     @ '','' @ json_key ''share_access'' @ json_u32_or_null (fe_share_access event)
     @ '','' @ json_key ''info_class'' @ json_u32_or_null (fe_info_class event)
     @ '','' @ json_key ''extra_info'' @ json_number_or_null (fe_extra_info event)
     @ '','' @ json_key ''completion_pid'' @ json_u32_or_null (fe_completion_pid event)
     @ '','' @ json_key ''completion_tid'' @ json_u32_or_null (fe_completion_tid event)
     @ '','' @ json_key ''completion_sequence'' @ json_u32_or_null (fe_completion_sequence event)
     @ ''}''"

definition write_etw_fields ::
  "guid \<Rightarrow> event_metadata \<Rightarrow> u16 \<Rightarrow> u8 \<Rightarrow> u8 \<Rightarrow> u64 \<Rightarrow> u16 \<Rightarrow> string" where
  "write_etw_fields provider metadata event_id version opcode keywords user_data_length =
     '','' @ json_key ''operation_id'' @ ''null''
     @ '','' @ json_key ''artifact_id'' @ ''null''
     @ '','' @ json_key ''etw'' @ ''{''
     @ json_key ''provider'' @ [quote] @ guid_to_string provider @ [quote]
     @ '','' @ json_key ''provider_name'' @ [quote] @ json_escape (names_provider (md_names metadata)) @ [quote]
     @ '','' @ json_key ''task'' @ [quote] @ json_escape (names_task (md_names metadata)) @ [quote]
     @ '','' @ json_key ''event_id'' @ dec_text (unat event_id)
     @ '','' @ json_key ''version'' @ dec_text (unat version)
     @ '','' @ json_key ''opcode'' @ dec_text (unat opcode)
     @ '','' @ json_key ''opcode_name'' @ [quote] @ json_escape (names_opcode (md_names metadata)) @ [quote]
     @ '','' @ json_key ''keywords'' @ dec_text (unat keywords)
     @ '','' @ json_key ''raw'' @ ''{'' @ json_key ''user_data_length'' @ dec_text (unat user_data_length)
     @ '','' @ json_key ''numeric_fields'' @ ''{'' @ write_numeric_fields (md_numeric_fields metadata)
     @ ''},'' @ json_key ''string_fields'' @ ''{'' @ write_string_fields (md_string_fields metadata)
     @ ''}}}}'' @ [newline]"

definition file_event_line :: "file_event_record \<Rightarrow> stack_frame_info list \<Rightarrow> string" where
  "file_event_line event frames =
     write_event_head (fe_timestamp event) ''file'' (fe_event_type event) (fe_pid event) (fe_tid event) (fe_metadata event)
     @ write_file_fields event
     @ write_stack_json frames
     @ write_etw_fields (fe_provider event) (fe_metadata event) (fe_event_id event) (fe_version event)
         (fe_opcode event) (fe_keywords event) (fe_user_data_length event)"

definition write_category_fields :: "event_metadata \<Rightarrow> string \<Rightarrow> string \<Rightarrow> string" where
  "write_category_fields metadata category event_type =
     (if category = ''process'' then
        '','' @ json_key ''process_event'' @ ''{''
        @ json_key ''image_path'' @ json_string_or_null (first_matching_string metadata [''image'', ''filename'', ''processname''])
        @ '','' @ json_key ''command_line'' @ json_string_or_null (first_matching_string metadata [''commandline'', ''command line''])
        @ '','' @ json_key ''exit_code'' @ json_number_or_null (first_matching_number metadata [''exit''])
        @ ''}''
      else if category = ''thread'' then
        '','' @ json_key ''thread'' @ ''{''
        @ json_key ''start_address'' @ json_number_or_null (first_matching_number metadata [''startaddress'', ''win32startaddr''])
        @ '','' @ json_key ''exit_status'' @ json_number_or_null (first_matching_number metadata [''exit'', ''status''])
        @ ''}''
      else if category = ''image'' then
        '','' @ json_key ''image'' @ ''{''
        @ json_key ''image_path'' @ json_string_or_null (first_matching_string metadata [''image'', ''filename'', ''file name''])
        @ '','' @ json_key ''base_address'' @ json_number_or_null (first_matching_number metadata [''imagebase'', ''baseaddress'', ''base''])
        @ '','' @ json_key ''size'' @ json_number_or_null (first_matching_number metadata [''imagesize'', ''size''])
        @ '','' @ json_key ''checksum'' @ json_number_or_null (first_matching_number metadata [''checksum''])
        @ ''}''
      else if category = ''file'' then
        '','' @ json_key ''file'' @ ''{''
        @ json_key ''path'' @ json_string_or_null (first_matching_string metadata [''filename'', ''file name'', ''path'', ''name''])
        @ '','' @ json_key ''operation'' @ [quote] @ json_escape event_type @ [quote]
        @ '','' @ json_key ''status'' @ json_number_or_null (first_matching_number metadata [''status''])
        @ '','' @ json_key ''byte_count'' @ json_number_or_null (first_matching_number metadata [''size'', ''length'', ''bytes''])
        @ ''}''
      else if category = ''registry'' then
        '','' @ json_key ''registry'' @ ''{''
        @ json_key ''key_path'' @ json_string_or_null (first_matching_string metadata [''key'', ''path'', ''object''])
        @ '','' @ json_key ''value_name'' @ json_string_or_null (first_matching_string metadata [''value''])
        @ '','' @ json_key ''value_type'' @ json_number_or_null (first_matching_number metadata [''type''])
        @ '','' @ json_key ''status'' @ json_number_or_null (first_matching_number metadata [''status''])
        @ ''}''
      else if category = ''network'' then
        '','' @ json_key ''network'' @ ''{''
        @ json_key ''protocol'' @ json_string_or_null (first_matching_string metadata [''protocol''])
        @ '','' @ json_key ''local_endpoint'' @ json_string_or_null (first_matching_string metadata [''local''])
        @ '','' @ json_key ''remote_endpoint'' @ json_string_or_null (first_matching_string metadata [''remote'', ''dest'', ''destination''])
        @ '','' @ json_key ''status'' @ json_number_or_null (first_matching_number metadata [''status''])
        @ '','' @ json_key ''byte_count'' @ json_number_or_null (first_matching_number metadata [''size'', ''length'', ''bytes''])
        @ ''}''
      else [])"

definition event_line :: "event_record \<Rightarrow> event_metadata \<Rightarrow> string \<Rightarrow> u32 \<Rightarrow> stack_frame_info list \<Rightarrow> string" where
  "event_line record metadata category process_pid frames =
     write_event_head (ev_timestamp record) category (event_type_of metadata) process_pid (ev_thread_id record) metadata
     @ write_category_fields metadata category (event_type_of metadata)
     @ write_stack_json frames
     @ write_etw_fields (ev_provider_id record) metadata (ev_id record) (ev_version record)
         (ev_opcode record) (ev_keyword record) (ev_user_data_length record)"

section \<open>Lemmas: the text is a document\<close>

definition fields_text :: "(string \<times> json) list \<Rightarrow> string" where
  "fields_text fs = concat (map (\<lambda>f. CHR '','' # render_field f) fs)"

lemma fields_text_simps [simp]:
  "fields_text [] = []" "fields_text (f # fs) = CHR '','' # render_field f @ fields_text fs"
  "fields_text (fs @ gs) = fields_text fs @ fields_text gs"
  by (simp_all add: fields_text_def)

lemma render_object_fields: "render (JObject (f # fs)) = CHR ''{'' # render_field f @ fields_text fs @ ''}''"
  by (simp only: render_object fields_text_def)

lemma plain_keys [simp]:
  "plain_text ''artifact_id''" "plain_text ''base_address''" "plain_text ''byte_count''"
  "plain_text ''category''" "plain_text ''checksum''" "plain_text ''command_line''"
  "plain_text ''completion_pid''" "plain_text ''completion_sequence''" "plain_text ''completion_tid''"
  "plain_text ''create_options''" "plain_text ''etw''" "plain_text ''event_id''"
  "plain_text ''event_type''" "plain_text ''exit_code''" "plain_text ''exit_status''"
  "plain_text ''extra_info''" "plain_text ''file''" "plain_text ''file_attributes''"
  "plain_text ''file_key''" "plain_text ''file_object''" "plain_text ''frames''"
  "plain_text ''image''" "plain_text ''image_path''" "plain_text ''info_class''"
  "plain_text ''io_flags''" "plain_text ''irp_ptr''" "plain_text ''key_path''"
  "plain_text ''keywords''" "plain_text ''local_endpoint''" "plain_text ''network''"
  "plain_text ''numeric_fields''" "plain_text ''offset''" "plain_text ''opcode''"
  "plain_text ''opcode_name''" "plain_text ''operation''" "plain_text ''operation_id''"
  "plain_text ''parent_pid''" "plain_text ''path''" "plain_text ''path_source''"
  "plain_text ''pid''" "plain_text ''process''" "plain_text ''process_event''"
  "plain_text ''protocol''" "plain_text ''provider''" "plain_text ''provider_name''"
  "plain_text ''raw''" "plain_text ''registry''" "plain_text ''remote_endpoint''"
  "plain_text ''schema_version''" "plain_text ''share_access''" "plain_text ''size''"
  "plain_text ''stack''" "plain_text ''start_address''" "plain_text ''status''"
  "plain_text ''string_fields''" "plain_text ''task''" "plain_text ''thread''"
  "plain_text ''tid''" "plain_text ''timestamp''" "plain_text ''unix_millis''"
  "plain_text ''user_data_length''" "plain_text ''value_name''" "plain_text ''value_type''"
  "plain_text ''version''"
  by code_simp+

abbreviation jopt_num :: "'a::len word option \<Rightarrow> json" where
  "jopt_num v \<equiv> json_opt (\<lambda>n. JNat (unat n)) v"

abbreviation jopt_str :: "string option \<Rightarrow> json" where
  "jopt_str v \<equiv> json_opt JString v"

definition head_fields :: "i64 \<Rightarrow> string \<Rightarrow> string \<Rightarrow> u32 \<Rightarrow> u32 \<Rightarrow> event_metadata \<Rightarrow> (string \<times> json) list" where
  "head_fields timestamp category event_type pid tid metadata =
     [(''timestamp'', JObject [(''unix_millis'', JNat (unix_millis_from_etw_timestamp timestamp))]),
      (''category'', JString category),
      (''event_type'', JString event_type),
      (''pid'', JNat (unat pid)),
      (''tid'', JNat (unat tid)),
      (''process'', JObject [(''pid'', JNat (unat pid)), (''parent_pid'', jopt_num (md_parent_pid metadata)),
         (''image_path'', jopt_str (first_matching_string metadata [''image'', ''filename'', ''processname''])),
         (''command_line'', jopt_str (first_matching_string metadata [''commandline'', ''command line'']))])]"

definition file_fields :: "file_event_record \<Rightarrow> (string \<times> json) list" where
  "file_fields event =
     [(''file'', JObject
        [(''path'', jopt_str (fe_path event)), (''path_source'', jopt_str (fe_path_source event)),
         (''operation'', JString (fe_event_type event)), (''status'', jopt_num (fe_nt_status event)),
         (''byte_count'', jopt_num (fe_io_size event)), (''file_object'', jopt_num (fe_file_object event)),
         (''file_key'', jopt_num (fe_file_key event)), (''irp_ptr'', jopt_num (fe_irp_ptr event)),
         (''offset'', jopt_num (fe_offset event)), (''io_flags'', jopt_num (fe_io_flags event)),
         (''create_options'', jopt_num (fe_create_options event)),
         (''file_attributes'', jopt_num (fe_file_attributes event)),
         (''share_access'', jopt_num (fe_share_access event)), (''info_class'', jopt_num (fe_info_class event)),
         (''extra_info'', jopt_num (fe_extra_info event)), (''completion_pid'', jopt_num (fe_completion_pid event)),
         (''completion_tid'', jopt_num (fe_completion_tid event)),
         (''completion_sequence'', jopt_num (fe_completion_sequence event))])]"

definition stack_fields :: "stack_frame_info list \<Rightarrow> (string \<times> json) list" where
  "stack_fields frames = (if frames = [] then []
     else [(''stack'', JObject [(''frames'', JArray (map (\<lambda>f. JString (frame_text f)) frames))])])"

definition etw_fields :: "guid \<Rightarrow> event_metadata \<Rightarrow> u16 \<Rightarrow> u8 \<Rightarrow> u8 \<Rightarrow> u64 \<Rightarrow> u16 \<Rightarrow> (string \<times> json) list" where
  "etw_fields provider metadata event_id version opcode keywords user_data_length =
     [(''operation_id'', JNull), (''artifact_id'', JNull),
      (''etw'', JObject
        [(''provider'', JString (guid_to_string provider)),
         (''provider_name'', JString (names_provider (md_names metadata))),
         (''task'', JString (names_task (md_names metadata))),
         (''event_id'', JNat (unat event_id)), (''version'', JNat (unat version)), (''opcode'', JNat (unat opcode)),
         (''opcode_name'', JString (names_opcode (md_names metadata))), (''keywords'', JNat (unat keywords)),
         (''raw'', JObject [(''user_data_length'', JNat (unat user_data_length)),
            (''numeric_fields'', JObject (map (\<lambda>(n, v). (n, JNat (unat v))) (md_numeric_fields metadata))),
            (''string_fields'', JObject (map (\<lambda>(n, v). (n, JString v)) (md_string_fields metadata)))])])]"

definition file_event_json :: "file_event_record \<Rightarrow> stack_frame_info list \<Rightarrow> json" where
  "file_event_json event frames = JObject ((''schema_version'', JNat 1)
     # head_fields (fe_timestamp event) ''file'' (fe_event_type event) (fe_pid event) (fe_tid event) (fe_metadata event)
     @ file_fields event @ stack_fields frames
     @ etw_fields (fe_provider event) (fe_metadata event) (fe_event_id event) (fe_version event)
         (fe_opcode event) (fe_keywords event) (fe_user_data_length event))"

definition category_fields :: "event_metadata \<Rightarrow> string \<Rightarrow> string \<Rightarrow> (string \<times> json) list" where
  "category_fields metadata category event_type =
     (let str = (\<lambda>ns. jopt_str (first_matching_string metadata ns)); num = (\<lambda>ns. jopt_num (first_matching_number metadata ns))
      in if category = ''process'' then [(''process_event'', JObject
             [(''image_path'', str [''image'', ''filename'', ''processname'']),
              (''command_line'', str [''commandline'', ''command line'']), (''exit_code'', num [''exit''])])]
         else if category = ''thread'' then [(''thread'', JObject
             [(''start_address'', num [''startaddress'', ''win32startaddr'']), (''exit_status'', num [''exit'', ''status''])])]
         else if category = ''image'' then [(''image'', JObject
             [(''image_path'', str [''image'', ''filename'', ''file name'']),
              (''base_address'', num [''imagebase'', ''baseaddress'', ''base'']),
              (''size'', num [''imagesize'', ''size'']), (''checksum'', num [''checksum''])])]
         else if category = ''file'' then [(''file'', JObject
             [(''path'', str [''filename'', ''file name'', ''path'', ''name'']), (''operation'', JString event_type),
              (''status'', num [''status'']), (''byte_count'', num [''size'', ''length'', ''bytes''])])]
         else if category = ''registry'' then [(''registry'', JObject
             [(''key_path'', str [''key'', ''path'', ''object'']), (''value_name'', str [''value'']),
              (''value_type'', num [''type'']), (''status'', num [''status''])])]
         else if category = ''network'' then [(''network'', JObject
             [(''protocol'', str [''protocol'']), (''local_endpoint'', str [''local'']),
              (''remote_endpoint'', str [''remote'', ''dest'', ''destination'']), (''status'', num [''status'']),
              (''byte_count'', num [''size'', ''length'', ''bytes''])])]
         else [])"

definition event_json :: "event_record \<Rightarrow> event_metadata \<Rightarrow> string \<Rightarrow> u32 \<Rightarrow> stack_frame_info list \<Rightarrow> json" where
  "event_json record metadata category process_pid frames = JObject ((''schema_version'', JNat 1)
     # head_fields (ev_timestamp record) category (event_type_of metadata) process_pid (ev_thread_id record) metadata
     @ category_fields metadata category (event_type_of metadata) @ stack_fields frames
     @ etw_fields (ev_provider_id record) metadata (ev_id record) (ev_version record)
         (ev_opcode record) (ev_keyword record) (ev_user_data_length record))"

lemmas field_texts = render_object_fields render_field_plain json_string_or_null_render json_number_or_null_render
  json_u32_or_null_render quoted_def

lemma dec_text_1: "dec_text (Suc 0) = ''1''"
  by code_simp

lemma render_parent: "render (jopt_num v) = (case v of Some n \<Rightarrow> dec_text (unat n) | None \<Rightarrow> ''null'')"
  by (simp add: json_opt_def split: option.split)

lemma write_event_head_text:
  assumes "plain_text category"
  shows "write_event_head ts category ty pid tid md =
    CHR ''{'' # render_field (''schema_version'', JNat 1) @ fields_text (head_fields ts category ty pid tid md)"
  using assms unfolding write_event_head_def head_fields_def plain_text_def
  by (simp add: field_texts dec_text_1 render_parent del: render.simps(5))

lemma write_file_fields_text: "write_file_fields e = fields_text (file_fields e)"
  unfolding write_file_fields_def file_fields_def
  by (simp add: field_texts del: render.simps(5))

lemma write_stack_json_text: "write_stack_json frames = fields_text (stack_fields frames)"
  unfolding write_stack_json_def stack_fields_def
  by (simp add: field_texts comma_loop_True o_def del: render.simps(5) comma_loop.simps)

lemma plain_textI: "(\<And>c. c \<in> set k \<Longrightarrow> json_escape_char c = [c]) \<Longrightarrow> plain_text k"
  unfolding plain_text_def by (induction k) auto

lemma plain_hex_digit: "d < 16 \<Longrightarrow> json_escape_char (digit_char_upper d) = [digit_char_upper d]"
proof -
  have "list_all (\<lambda>d. json_escape_char (digit_char_upper d) = [digit_char_upper d]) [0..<16]" by code_simp
  then show "d < 16 \<Longrightarrow> json_escape_char (digit_char_upper d) = [digit_char_upper d]" by (simp add: list_all_iff)
qed

lemma plain_hex_upper: "c \<in> set (hex_upper w n) \<Longrightarrow> json_escape_char c = [c]"
proof -
  assume c: "c \<in> set (hex_upper w n)"
  have "json_escape_char (CHR ''0'') = ''0''" by code_simp
  with c show ?thesis
    using digits_less [of 16 _ n] by (auto simp: hex_upper_def pad_left_def plain_hex_digit)
qed

lemma plain_guid [simp]: "json_escape (guid_to_string g) = guid_to_string g"
proof -
  have "json_escape_char (CHR ''{'') = ''{''" "json_escape_char (CHR ''}'') = ''}''" "json_escape_char (CHR ''-'') = ''-''"
    by code_simp+
  then have "plain_text (guid_to_string g)"
    by (intro plain_textI) (auto simp: guid_to_string_def plain_hex_upper split: guid.splits)
  then show ?thesis by (simp add: plain_text_def)
qed

lemma write_table_text:
  "write_numeric_fields fs = commas (map render_field (map (\<lambda>(n, v). (n, JNat (unat v))) fs))"
  "write_string_fields gs = commas (map render_field (map (\<lambda>(n, v). (n, JString v)) gs))"
  by (simp_all add: write_numeric_fields_def write_string_fields_def comma_loop_True render_field_def quoted_def
      o_def case_prod_unfold)

lemma write_etw_fields_text:
  "write_etw_fields g md i v oc kw n = fields_text (etw_fields g md i v oc kw n) @ CHR ''}'' # [newline]"
proof -
  have table: "render (JObject (map h fs)) = CHR ''{'' # commas (map render_field (map h fs)) @ ''}''"
    for h :: "'a \<times> 'b \<Rightarrow> string \<times> json" and fs
    by (simp only: render_object_commas)
  show ?thesis
    unfolding write_etw_fields_def etw_fields_def write_table_text
    by (simp add: field_texts table del: render.simps(5) map_map)
qed

lemma file_event_line_text: "file_event_line e frames = render (file_event_json e frames) @ [newline]"
  unfolding file_event_line_def file_event_json_def
  by (simp only: write_event_head_text plain_keys write_file_fields_text write_stack_json_text write_etw_fields_text
      render_object_fields fields_text_simps append_Cons append_Nil append_assoc)

lemma write_category_fields_text:
  "write_category_fields md category ty = fields_text (category_fields md category ty)"
  unfolding write_category_fields_def category_fields_def Let_def
  by (simp only: if_distrib [of fields_text]) (simp add: field_texts del: render.simps(5))

lemma event_categories_plain: "category \<in> event_categories \<Longrightarrow> plain_text category"
proof -
  have "plain_text ''process'' \<and> plain_text ''thread'' \<and> plain_text ''image'' \<and> plain_text ''file''
      \<and> plain_text ''registry'' \<and> plain_text ''network''" by (simp only: plain_keys)
  then show "category \<in> event_categories \<Longrightarrow> plain_text category" unfolding event_categories_def by blast
qed

lemma event_line_text:
  assumes "category \<in> event_categories"
  shows "event_line r md category pid frames = render (event_json r md category pid frames) @ [newline]"
  unfolding event_line_def event_json_def
  by (simp only: write_event_head_text [OF event_categories_plain [OF assms]] write_category_fields_text
      write_stack_json_text write_etw_fields_text
      render_object_fields fields_text_simps append_Cons append_Nil append_assoc)

section \<open>Properties\<close>

text \<open>
  C39 File-event lines are JSON Lines: the text written for a file event is one line, without a line break inside it, and a JSON
  reader recovers from it exactly the document with the event's fields, whatever bytes the paths, names and
  frame texts contain.
\<close>

theorem file_event_line_json:
  "\<exists>body. file_event_line e frames = body @ [newline] \<and> newline \<notin> set body
     \<and> read_json body = Some (file_event_json e frames)"
  using file_event_line_text render_one_line read_json_render by blast

text \<open>
  C40 Event lines are JSON Lines: for each of the six categories, the text written for an extracted event is one
  line whose JSON document is the event's time stamp, category, process, category-specific fields, resolved
  frames and raw ETW fields.
\<close>

theorem event_line_json:
  assumes "category \<in> event_categories"
  shows "\<exists>body. event_line r md category pid frames = body @ [newline] \<and> newline \<notin> set body
     \<and> read_json body = Some (event_json r md category pid frames)"
  using event_line_text [OF assms] render_one_line read_json_render by blast

theorem event_line_json_witness:
  "\<exists>body. event_line example_process_event empty_metadata ''process'' 9 [] = body @ [newline] \<and> newline \<notin> set body
     \<and> read_json body = Some (event_json example_process_event empty_metadata ''process'' 9 [])"
  by (rule event_line_json) (simp add: event_categories_def)

end
