(* ===== verification/Etw_File_Io.thy ===== *)
theory Etw_File_Io
  imports Etw_Event_Line
begin

text \<open>
  File I/O events (\<^verbatim>\<open>dbgatlas_etw.cpp\<close>, lines 964 to 1352): decoding, the path caches, pairing of an
  operation with its completion by IRP, attaching stack walks, and the JSON line written per event.
  An output file is its text; appending to it can only fail at opening, as in the code.
\<close>

section \<open>Event types\<close>

definition known_file_io_event_type :: "u32 \<Rightarrow> string option" where
  "known_file_io_event_type opcode =
     (if opcode = DA_FILE_IO_NAME then Some ''file_name''
      else if opcode = DA_FILE_IO_FILE_CREATE_NAME then Some ''file_create_name''
      else if opcode = DA_FILE_IO_FILE_DELETE_NAME then Some ''file_delete_name''
      else if opcode = DA_FILE_IO_RUNDOWN then Some ''file_rundown''
      else if opcode = DA_FILE_IO_CREATE then Some ''create''
      else if opcode = DA_FILE_IO_CLEANUP then Some ''cleanup''
      else if opcode = DA_FILE_IO_CLOSE then Some ''close''
      else if opcode = DA_FILE_IO_READ then Some ''read''
      else if opcode = DA_FILE_IO_WRITE then Some ''write''
      else if opcode = DA_FILE_IO_SET_INFO then Some ''set_info''
      else if opcode = DA_FILE_IO_DELETE then Some ''delete''
      else if opcode = DA_FILE_IO_RENAME then Some ''rename''
      else if opcode = DA_FILE_IO_DIR_ENUM then Some ''dir_enum''
      else if opcode = DA_FILE_IO_FLUSH then Some ''flush''
      else if opcode = DA_FILE_IO_QUERY_INFO then Some ''query_info''
      else if opcode = DA_FILE_IO_FS_CONTROL then Some ''fs_control''
      else if opcode = DA_FILE_IO_OP_END then Some ''op_end''
      else if opcode = DA_FILE_IO_DIR_NOTIFY then Some ''dir_notify''
      else None)"

definition is_known_file_io_event :: "event_record \<Rightarrow> string option \<Rightarrow> bool" where
  "is_known_file_io_event record raw_category \<longleftrightarrow>
     raw_category = Some ''file''
     \<and> known_file_io_event_type (event_opcode record) \<noteq> None
     \<and> (ev_provider_id record = DA_ClassicFileIoGuid \<or> ev_provider_id record = DA_KernelFileProviderGuid)"

section \<open>Paths\<close>

definition direct_file_path :: "event_metadata \<Rightarrow> u32 \<Rightarrow> string option" where
  "direct_file_path metadata opcode =
     (if opcode = DA_FILE_IO_CREATE
      then first_matching_string metadata [''openpath'', ''file name'', ''filename'', ''path'']
      else if opcode = DA_FILE_IO_NAME \<or> opcode = DA_FILE_IO_FILE_CREATE_NAME \<or>
        opcode = DA_FILE_IO_FILE_DELETE_NAME \<or> opcode = DA_FILE_IO_RUNDOWN \<or>
        opcode = DA_FILE_IO_DIR_ENUM \<or> opcode = DA_FILE_IO_DIR_NOTIFY
      then first_matching_string metadata [''filename'', ''file name'', ''openpath'', ''path'']
      else first_matching_string metadata [''filename'', ''file name'', ''path''])"

definition direct_file_path_source :: "u32 \<Rightarrow> string option \<Rightarrow> string option" where
  "direct_file_path_source opcode path =
     (if path = None then None
      else if opcode = DA_FILE_IO_CREATE then Some ''open_path''
      else Some ''file_name'')"

definition cache_file_path ::
  "'a extraction_context_scheme \<Rightarrow> file_event_record \<Rightarrow> 'a extraction_context_scheme" where
  "cache_file_path context event =
     (case fe_path event of
        None \<Rightarrow> context
      | Some path \<Rightarrow>
          if path = [] then context
          else
            let c1 = (case fe_file_object event of
                  None \<Rightarrow> context
                | Some ob \<Rightarrow> context\<lparr>file_paths_by_object := (file_paths_by_object context)(ob \<mapsto> path)\<rparr>)
            in (case fe_file_key event of
                  None \<Rightarrow> c1
                | Some key \<Rightarrow> c1\<lparr>file_paths_by_key := (file_paths_by_key c1)(key \<mapsto> path)\<rparr>))"

definition erase_object_path :: "u64 option \<Rightarrow> 'a extraction_context_scheme \<Rightarrow> 'a extraction_context_scheme" where
  "erase_object_path ob context = (case ob of
       None \<Rightarrow> context
     | Some o' \<Rightarrow> context\<lparr>file_paths_by_object := (file_paths_by_object context)(o' := None)\<rparr>)"

definition erase_key_path :: "u64 option \<Rightarrow> 'a extraction_context_scheme \<Rightarrow> 'a extraction_context_scheme" where
  "erase_key_path key context = (case key of
       None \<Rightarrow> context
     | Some k \<Rightarrow> context\<lparr>file_paths_by_key := (file_paths_by_key context)(k := None)\<rparr>)"

definition remove_file_path ::
  "'a extraction_context_scheme \<Rightarrow> file_event_record \<Rightarrow> 'a extraction_context_scheme" where
  "remove_file_path context event =
     erase_key_path (fe_file_key event) (erase_object_path (fe_file_object event) context)"

definition count_path_resolved :: "'a extraction_context_scheme \<Rightarrow> 'a extraction_context_scheme" where
  "count_path_resolved c =
     c\<lparr>quality := (quality c)\<lparr>q_file_path_resolved := q_file_path_resolved (quality c) + 1\<rparr>\<rparr>"

definition count_path_unresolved :: "'a extraction_context_scheme \<Rightarrow> 'a extraction_context_scheme" where
  "count_path_unresolved c =
     c\<lparr>quality := (quality c)\<lparr>q_file_path_unresolved := q_file_path_unresolved (quality c) + 1\<rparr>\<rparr>"

definition cached_path :: "(u64 \<rightharpoonup> string) \<Rightarrow> u64 option \<Rightarrow> string option" where
  "cached_path paths key = (case key of None \<Rightarrow> None | Some k \<Rightarrow> paths k)"

definition resolve_file_path ::
  "'a extraction_context_scheme \<Rightarrow> file_event_record \<Rightarrow> file_event_record \<times> 'a extraction_context_scheme" where
  "resolve_file_path context event =
     (if fe_path event \<noteq> None \<and> fe_path event \<noteq> Some [] then (event, count_path_resolved context)
      else case cached_path (file_paths_by_object context) (fe_file_object event) of
          Some found \<Rightarrow>
            (event\<lparr>fe_path := Some found, fe_path_source := Some ''file_object_cache''\<rparr>, count_path_resolved context)
        | None \<Rightarrow>
            (case cached_path (file_paths_by_key context) (fe_file_key event) of
               Some found \<Rightarrow>
                 (event\<lparr>fe_path := Some found, fe_path_source := Some ''file_key_cache''\<rparr>, count_path_resolved context)
             | None \<Rightarrow> (event, count_path_unresolved context)))"

section \<open>Decoding\<close>

definition file_event_fields :: "event_record \<Rightarrow> event_metadata \<Rightarrow> u64 list \<Rightarrow> file_event_record" where
  "file_event_fields record metadata addresses =
     (let opcode = event_opcode record; path = direct_file_path metadata opcode in
      \<lparr>fe_metadata = metadata, fe_provider = ev_provider_id record, fe_event_id = ev_id record,
       fe_version = ev_version record, fe_opcode = ev_opcode record, fe_keywords = ev_keyword record,
       fe_user_data_length = ev_user_data_length record, fe_timestamp = ev_timestamp record,
       fe_pid = (case md_process_pid metadata of Some pid \<Rightarrow> pid | None \<Rightarrow> ev_process_id record),
       fe_tid = ev_thread_id record,
       fe_event_type = (case known_file_io_event_type opcode of Some t \<Rightarrow> t | None \<Rightarrow> ''file_event''),
       fe_path = path, fe_path_source = direct_file_path_source opcode path,
       fe_file_object = first_matching_number metadata [''fileobject'', ''fileobj''],
       fe_file_key = first_matching_number metadata [''filekey'', ''fileobjectkey''],
       fe_irp_ptr = first_matching_number metadata [''irpptr'', ''irp'', ''irppointer''],
       fe_offset = first_matching_number metadata [''offset'', ''byteoffset''],
       fe_io_size = first_matching_number metadata [''iosize'', ''size'', ''transfersize''],
       fe_io_flags = number_to_u32 (first_matching_number metadata [''ioflags'', ''flags'']),
       fe_create_options = number_to_u32 (first_matching_number metadata [''createoptions'']),
       fe_file_attributes = number_to_u32 (first_matching_number metadata [''fileattributes'']),
       fe_share_access = number_to_u32 (first_matching_number metadata [''shareaccess'']),
       fe_info_class = number_to_u32 (first_matching_number metadata [''infoclass'']),
       fe_extra_info = first_matching_number metadata [''extrainfo''],
       fe_nt_status = number_to_u32 (first_matching_number metadata [''ntstatus'', ''status'']),
       fe_stack_addresses = addresses,
       fe_completion_pid = None, fe_completion_tid = None, fe_completion_sequence = None\<rparr>)"

definition decoded_file_event ::
  "'a extraction_context_scheme \<Rightarrow> event_record \<Rightarrow> event_metadata \<Rightarrow> file_event_record \<times> 'a extraction_context_scheme" where
  "decoded_file_event context record metadata =
     (let event = file_event_fields record metadata [] in
      if event_opcode record \<noteq> DA_FILE_IO_OP_END
      then let (pending, context') =
                 take_matching_pending_stack context (fe_timestamp event) (fe_pid event) (fe_tid event)
           in (event\<lparr>fe_stack_addresses := append_stack_addresses (stack_addresses record) pending\<rparr>, context')
      else (event, context))"

definition file_event_allowed :: "'a extraction_context_scheme \<Rightarrow> file_event_record \<Rightarrow> bool" where
  "file_event_allowed context event \<longleftrightarrow>
     (if \<not> has_root_pid context then True else fe_pid event \<in> process_tree_pids context)"

section \<open>Writing\<close>

text \<open>\<^verbatim>\<open>std::ofstream out(path, binary | app)\<close>: one attempt per call, and whether it succeeded.\<close>

definition open_append ::
  "platform \<Rightarrow> string \<Rightarrow> extraction_world \<Rightarrow> (bool \<times> extraction_world)" where
  "open_append p name w =
     (open_ok p (open_attempts w) (events_dir w, name), w\<lparr>open_attempts := open_attempts w + 1\<rparr>)"

definition write_file_event :: "platform \<Rightarrow> extraction_world \<Rightarrow> file_event_record \<Rightarrow> extraction_world" where
  "write_file_event p w event =
     (let (opened, w1) = open_append p ''file.jsonl'' w in
      if \<not> opened then w1\<lparr>skipped_events := skipped_events w1 + 1\<rparr>
      else
        let (frames, w2) = stack_frames_from_addresses w1 (fe_stack_addresses event) (fe_pid event);
            file = (events_dir w2, ''file.jsonl'')
        in w2\<lparr>out_files := (out_files w2)(file := out_files w2 file @ file_event_line event frames),
              files_written := insert ''file'' (files_written w2),
              events_written := events_written w2 + 1\<rparr>)"

section \<open>Attaching stacks\<close>

text \<open>
  The scan over the pending events: the position of the first one of the stack's thread, else of the last one of its
  process at that time stamp (\<open>fallback\<close>).
\<close>

fun attach_scan ::
  "stack_walk_event \<Rightarrow> nat \<Rightarrow> nat option \<Rightarrow> (u64 \<times> file_event_record) list \<Rightarrow> nat option" where
  "attach_scan stack i fallback [] = fallback"
| "attach_scan stack i fallback ((irp, event) # events) =
     (if fe_timestamp event \<noteq> sw_timestamp stack \<or> fe_pid event \<noteq> sw_process stack
      then attach_scan stack (i + 1) fallback events
      else if fe_tid event = sw_thread stack then Some i
      else attach_scan stack (i + 1) (Some i) events)"

definition add_stack :: "stack_walk_event \<Rightarrow> u64 \<times> file_event_record \<Rightarrow> u64 \<times> file_event_record" where
  "add_stack stack entry = (fst entry, (snd entry)
     \<lparr>fe_stack_addresses := append_stack_addresses (fe_stack_addresses (snd entry)) (sw_addresses stack)\<rparr>)"

definition attach_stack_to_pending_file ::
  "'a extraction_context_scheme \<Rightarrow> stack_walk_event \<Rightarrow> bool \<times> 'a extraction_context_scheme" where
  "attach_stack_to_pending_file context stack =
     (case attach_scan stack 0 None (pending_file_irps context) of
        None \<Rightarrow> (False, context)
      | Some i \<Rightarrow> (True, context\<lparr>pending_file_irps := (pending_file_irps context)
            [i := add_stack stack (pending_file_irps context ! i)]\<rparr>))"

definition process_stack_walk_event ::
  "'a extraction_context_scheme \<Rightarrow> stack_walk_event \<Rightarrow> 'a extraction_context_scheme" where
  "process_stack_walk_event context stack =
     (let (attached, context') = attach_stack_to_pending_file context stack
      in if \<not> attached then cache_pending_stack context' stack else context')"

section \<open>The file I/O handler\<close>

definition skip_event :: "'a extraction_context_scheme \<Rightarrow> 'a extraction_context_scheme" where
  "skip_event c = c\<lparr>skipped_events := skipped_events c + 1\<rparr>"

definition unmatched_op_end :: "'a extraction_context_scheme \<Rightarrow> 'a extraction_context_scheme" where
  "unmatched_op_end c =
     c\<lparr>quality := (quality c)\<lparr>q_unmatched_op_end := q_unmatched_op_end (quality c) + 1\<rparr>\<rparr>"

definition matched_op_end :: "'a extraction_context_scheme \<Rightarrow> 'a extraction_context_scheme" where
  "matched_op_end c =
     c\<lparr>quality := (quality c)\<lparr>q_matched_op_end := q_matched_op_end (quality c) + 1\<rparr>\<rparr>"

definition count_reused_irp :: "'a extraction_context_scheme \<Rightarrow> 'a extraction_context_scheme" where
  "count_reused_irp c =
     c\<lparr>quality := (quality c)\<lparr>q_reused_irp := q_reused_irp (quality c) + 1\<rparr>\<rparr>"

definition erase_pending :: "u64 \<Rightarrow> 'a extraction_context_scheme \<Rightarrow> 'a extraction_context_scheme" where
  "erase_pending irp c = c\<lparr>pending_file_irps := um_erase irp (pending_file_irps c)\<rparr>"

text \<open>What a completion adds to its operation.\<close>

definition merge_completion :: "file_event_record \<Rightarrow> file_event_record \<Rightarrow> u32 \<Rightarrow> file_event_record" where
  "merge_completion merged event seq_no =
     (let m1 = (if fe_extra_info event \<noteq> None then merged\<lparr>fe_extra_info := fe_extra_info event\<rparr> else merged);
          m2 = (if fe_nt_status event \<noteq> None then m1\<lparr>fe_nt_status := fe_nt_status event\<rparr> else m1)
      in m2\<lparr>fe_completion_pid := Some (fe_pid event), fe_completion_tid := Some (fe_tid event),
            fe_completion_sequence := Some seq_no\<rparr>)"

definition process_op_end :: "platform \<Rightarrow> extraction_world \<Rightarrow> file_event_record \<Rightarrow> extraction_world" where
  "process_op_end p w event =
     (case fe_irp_ptr event of
        None \<Rightarrow> unmatched_op_end w
      | Some irp \<Rightarrow>
          (case map_of (pending_file_irps w) irp of
             None \<Rightarrow>
               if irp \<in> ignored_file_irps w
               then w\<lparr>ignored_file_irps := ignored_file_irps w - {irp}\<rparr>
               else unmatched_op_end w
           | Some merged \<Rightarrow>
               write_file_event p (matched_op_end (erase_pending irp w))
                 (merge_completion merged event (file_io_raw_sequence w))))"

definition process_close :: "platform \<Rightarrow> extraction_world \<Rightarrow> file_event_record \<Rightarrow> extraction_world" where
  "process_close p w event =
     (let w1 = (case fe_irp_ptr event of
            None \<Rightarrow> w
          | Some irp \<Rightarrow>
              let w' = (if map_of (pending_file_irps w) irp \<noteq> None then count_reused_irp (erase_pending irp w) else w)
              in w'\<lparr>ignored_file_irps := insert irp (ignored_file_irps w')\<rparr>)
      in remove_file_path (write_file_event p w1 event) event)"

text \<open>An operation that waits for its completion, or is written at once when it has no IRP.\<close>

definition begin_operation :: "platform \<Rightarrow> extraction_world \<Rightarrow> file_event_record \<Rightarrow> extraction_world" where
  "begin_operation p w event =
     (case fe_irp_ptr event of
        None \<Rightarrow> write_file_event p w event
      | Some irp \<Rightarrow>
          let w1 = (case map_of (pending_file_irps w) irp of
                None \<Rightarrow> w
              | Some existing \<Rightarrow> erase_pending irp (write_file_event p (count_reused_irp w) existing))
          in w1\<lparr>pending_file_irps := um_emplace (irp_order p) irp event (pending_file_irps w1)\<rparr>)"

definition forget_cleaned_paths :: "extraction_world \<Rightarrow> file_event_record \<Rightarrow> extraction_world" where
  "forget_cleaned_paths w event =
     (let w1 = (case fe_irp_ptr event of
            None \<Rightarrow> w
          | Some irp \<Rightarrow> (case map_of (pending_file_irps w) irp of None \<Rightarrow> w | Some q \<Rightarrow> remove_file_path w q))
      in erase_key_path (fe_file_key event) (erase_object_path (fe_file_object event) w1))"

definition process_operation :: "platform \<Rightarrow> extraction_world \<Rightarrow> u32 \<Rightarrow> file_event_record \<Rightarrow> extraction_world" where
  "process_operation p w opcode event0 =
     (if \<not> file_event_allowed w event0 then skip_event w
      else
        let (event, w1) = resolve_file_path (cache_file_path w event0) event0
        in if opcode = DA_FILE_IO_CLOSE then process_close p w1 event
           else let w2 = begin_operation p w1 event
                in if opcode = DA_FILE_IO_CLEANUP then forget_cleaned_paths w2 event else w2)"

definition process_file_io_event ::
  "platform \<Rightarrow> extraction_world \<Rightarrow> event_record \<Rightarrow> event_metadata \<Rightarrow> extraction_world" where
  "process_file_io_event p w record metadata =
     (if \<not> preset_enabled (preset_flags w) ''file'' then skip_event w
      else
        let (event, w1) = decoded_file_event w record metadata;
            opcode = event_opcode record;
            w2 = w1\<lparr>file_io_raw_sequence := file_io_raw_sequence w1 + 1\<rparr>
        in if opcode = DA_FILE_IO_OP_END then process_op_end p w2 event
           else process_operation p w2 opcode event)"

definition flush_pending_file_events :: "platform \<Rightarrow> extraction_world \<Rightarrow> extraction_world" where
  "flush_pending_file_events p w =
     (let w1 = w\<lparr>quality := (quality w)\<lparr>q_incomplete_io := q_incomplete_io (quality w)
                   + of_nat (length (pending_file_irps w))\<rparr>\<rparr>;
          pending = map snd (pending_file_irps w1);
          w2 = w1\<lparr>pending_file_irps := []\<rparr>
      in foldl (write_file_event p) w2 pending)"

section \<open>Lemmas: what the helpers leave alone\<close>

lemma count_path_resolved_frame [simp]:
  "has_root_pid (count_path_resolved w) = has_root_pid w"
  "process_tree_pids (count_path_resolved w) = process_tree_pids w"
  "preset_flags (count_path_resolved w) = preset_flags w"
  "events_dir (count_path_resolved w) = events_dir w"
  "pending_stacks_by_timestamp (count_path_resolved w) = pending_stacks_by_timestamp w"
  "pending_stack_timestamp_order (count_path_resolved w) = pending_stack_timestamp_order w"
  "modules_by_pid (count_path_resolved w) = modules_by_pid w"
  "pending_file_irps (count_path_resolved w) = pending_file_irps w"
  "events_written (count_path_resolved w) = events_written w"
  "skipped_events (count_path_resolved w) = skipped_events w"
  "ignored_file_irps (count_path_resolved w) = ignored_file_irps w"
  "file_io_raw_sequence (count_path_resolved w) = file_io_raw_sequence w"
  "file_paths_by_object (count_path_resolved w) = file_paths_by_object w"
  "file_paths_by_key (count_path_resolved w) = file_paths_by_key w"
  "root_pid (count_path_resolved w) = root_pid w"
  "files_written (count_path_resolved w) = files_written w"
  by (simp_all add: count_path_resolved_def)

lemma count_path_unresolved_frame [simp]:
  "has_root_pid (count_path_unresolved w) = has_root_pid w"
  "process_tree_pids (count_path_unresolved w) = process_tree_pids w"
  "preset_flags (count_path_unresolved w) = preset_flags w"
  "events_dir (count_path_unresolved w) = events_dir w"
  "pending_stacks_by_timestamp (count_path_unresolved w) = pending_stacks_by_timestamp w"
  "pending_stack_timestamp_order (count_path_unresolved w) = pending_stack_timestamp_order w"
  "modules_by_pid (count_path_unresolved w) = modules_by_pid w"
  "pending_file_irps (count_path_unresolved w) = pending_file_irps w"
  "events_written (count_path_unresolved w) = events_written w"
  "skipped_events (count_path_unresolved w) = skipped_events w"
  "ignored_file_irps (count_path_unresolved w) = ignored_file_irps w"
  "file_io_raw_sequence (count_path_unresolved w) = file_io_raw_sequence w"
  "file_paths_by_object (count_path_unresolved w) = file_paths_by_object w"
  "file_paths_by_key (count_path_unresolved w) = file_paths_by_key w"
  "root_pid (count_path_unresolved w) = root_pid w"
  "files_written (count_path_unresolved w) = files_written w"
  by (simp_all add: count_path_unresolved_def)

lemma unmatched_op_end_frame [simp]:
  "has_root_pid (unmatched_op_end w) = has_root_pid w"
  "process_tree_pids (unmatched_op_end w) = process_tree_pids w"
  "preset_flags (unmatched_op_end w) = preset_flags w"
  "events_dir (unmatched_op_end w) = events_dir w"
  "pending_stacks_by_timestamp (unmatched_op_end w) = pending_stacks_by_timestamp w"
  "pending_stack_timestamp_order (unmatched_op_end w) = pending_stack_timestamp_order w"
  "modules_by_pid (unmatched_op_end w) = modules_by_pid w"
  "pending_file_irps (unmatched_op_end w) = pending_file_irps w"
  "events_written (unmatched_op_end w) = events_written w"
  "skipped_events (unmatched_op_end w) = skipped_events w"
  "ignored_file_irps (unmatched_op_end w) = ignored_file_irps w"
  "file_io_raw_sequence (unmatched_op_end w) = file_io_raw_sequence w"
  "file_paths_by_object (unmatched_op_end w) = file_paths_by_object w"
  "file_paths_by_key (unmatched_op_end w) = file_paths_by_key w"
  "root_pid (unmatched_op_end w) = root_pid w"
  "files_written (unmatched_op_end w) = files_written w"
  by (simp_all add: unmatched_op_end_def)

lemma matched_op_end_frame [simp]:
  "has_root_pid (matched_op_end w) = has_root_pid w"
  "process_tree_pids (matched_op_end w) = process_tree_pids w"
  "preset_flags (matched_op_end w) = preset_flags w"
  "events_dir (matched_op_end w) = events_dir w"
  "pending_stacks_by_timestamp (matched_op_end w) = pending_stacks_by_timestamp w"
  "pending_stack_timestamp_order (matched_op_end w) = pending_stack_timestamp_order w"
  "modules_by_pid (matched_op_end w) = modules_by_pid w"
  "pending_file_irps (matched_op_end w) = pending_file_irps w"
  "events_written (matched_op_end w) = events_written w"
  "skipped_events (matched_op_end w) = skipped_events w"
  "ignored_file_irps (matched_op_end w) = ignored_file_irps w"
  "file_io_raw_sequence (matched_op_end w) = file_io_raw_sequence w"
  "file_paths_by_object (matched_op_end w) = file_paths_by_object w"
  "file_paths_by_key (matched_op_end w) = file_paths_by_key w"
  "root_pid (matched_op_end w) = root_pid w"
  "files_written (matched_op_end w) = files_written w"
  by (simp_all add: matched_op_end_def)

lemma count_reused_irp_frame [simp]:
  "has_root_pid (count_reused_irp w) = has_root_pid w"
  "process_tree_pids (count_reused_irp w) = process_tree_pids w"
  "preset_flags (count_reused_irp w) = preset_flags w"
  "events_dir (count_reused_irp w) = events_dir w"
  "pending_stacks_by_timestamp (count_reused_irp w) = pending_stacks_by_timestamp w"
  "pending_stack_timestamp_order (count_reused_irp w) = pending_stack_timestamp_order w"
  "modules_by_pid (count_reused_irp w) = modules_by_pid w"
  "pending_file_irps (count_reused_irp w) = pending_file_irps w"
  "events_written (count_reused_irp w) = events_written w"
  "skipped_events (count_reused_irp w) = skipped_events w"
  "ignored_file_irps (count_reused_irp w) = ignored_file_irps w"
  "file_io_raw_sequence (count_reused_irp w) = file_io_raw_sequence w"
  "file_paths_by_object (count_reused_irp w) = file_paths_by_object w"
  "file_paths_by_key (count_reused_irp w) = file_paths_by_key w"
  "root_pid (count_reused_irp w) = root_pid w"
  "files_written (count_reused_irp w) = files_written w"
  by (simp_all add: count_reused_irp_def)

lemma erase_pending_frame [simp]:
  "has_root_pid (erase_pending irp w) = has_root_pid w"
  "process_tree_pids (erase_pending irp w) = process_tree_pids w"
  "preset_flags (erase_pending irp w) = preset_flags w"
  "events_dir (erase_pending irp w) = events_dir w"
  "pending_stacks_by_timestamp (erase_pending irp w) = pending_stacks_by_timestamp w"
  "pending_stack_timestamp_order (erase_pending irp w) = pending_stack_timestamp_order w"
  "modules_by_pid (erase_pending irp w) = modules_by_pid w"
  "events_written (erase_pending irp w) = events_written w"
  "skipped_events (erase_pending irp w) = skipped_events w"
  "ignored_file_irps (erase_pending irp w) = ignored_file_irps w"
  "file_io_raw_sequence (erase_pending irp w) = file_io_raw_sequence w"
  "file_paths_by_object (erase_pending irp w) = file_paths_by_object w"
  "file_paths_by_key (erase_pending irp w) = file_paths_by_key w"
  "root_pid (erase_pending irp w) = root_pid w"
  "files_written (erase_pending irp w) = files_written w"
  by (simp_all add: erase_pending_def)

lemma skip_event_frame [simp]:
  "has_root_pid (skip_event w) = has_root_pid w"
  "process_tree_pids (skip_event w) = process_tree_pids w"
  "preset_flags (skip_event w) = preset_flags w"
  "events_dir (skip_event w) = events_dir w"
  "pending_stacks_by_timestamp (skip_event w) = pending_stacks_by_timestamp w"
  "pending_stack_timestamp_order (skip_event w) = pending_stack_timestamp_order w"
  "modules_by_pid (skip_event w) = modules_by_pid w"
  "pending_file_irps (skip_event w) = pending_file_irps w"
  "events_written (skip_event w) = events_written w"
  "ignored_file_irps (skip_event w) = ignored_file_irps w"
  "file_io_raw_sequence (skip_event w) = file_io_raw_sequence w"
  "file_paths_by_object (skip_event w) = file_paths_by_object w"
  "file_paths_by_key (skip_event w) = file_paths_by_key w"
  "root_pid (skip_event w) = root_pid w"
  "files_written (skip_event w) = files_written w"
  by (simp_all add: skip_event_def)

lemma cache_file_path_frame [simp]:
  "has_root_pid (cache_file_path w e) = has_root_pid w"
  "process_tree_pids (cache_file_path w e) = process_tree_pids w"
  "preset_flags (cache_file_path w e) = preset_flags w"
  "events_dir (cache_file_path w e) = events_dir w"
  "pending_stacks_by_timestamp (cache_file_path w e) = pending_stacks_by_timestamp w"
  "pending_stack_timestamp_order (cache_file_path w e) = pending_stack_timestamp_order w"
  "modules_by_pid (cache_file_path w e) = modules_by_pid w"
  "pending_file_irps (cache_file_path w e) = pending_file_irps w"
  "events_written (cache_file_path w e) = events_written w"
  "skipped_events (cache_file_path w e) = skipped_events w"
  "ignored_file_irps (cache_file_path w e) = ignored_file_irps w"
  "file_io_raw_sequence (cache_file_path w e) = file_io_raw_sequence w"
  "root_pid (cache_file_path w e) = root_pid w"
  "files_written (cache_file_path w e) = files_written w"
  by (simp_all add: cache_file_path_def Let_def split: option.split)

lemma erase_object_path_frame [simp]:
  "has_root_pid (erase_object_path ob w) = has_root_pid w"
  "process_tree_pids (erase_object_path ob w) = process_tree_pids w"
  "preset_flags (erase_object_path ob w) = preset_flags w"
  "events_dir (erase_object_path ob w) = events_dir w"
  "pending_stacks_by_timestamp (erase_object_path ob w) = pending_stacks_by_timestamp w"
  "pending_stack_timestamp_order (erase_object_path ob w) = pending_stack_timestamp_order w"
  "modules_by_pid (erase_object_path ob w) = modules_by_pid w"
  "pending_file_irps (erase_object_path ob w) = pending_file_irps w"
  "events_written (erase_object_path ob w) = events_written w"
  "skipped_events (erase_object_path ob w) = skipped_events w"
  "ignored_file_irps (erase_object_path ob w) = ignored_file_irps w"
  "file_io_raw_sequence (erase_object_path ob w) = file_io_raw_sequence w"
  "file_paths_by_key (erase_object_path ob w) = file_paths_by_key w"
  "root_pid (erase_object_path ob w) = root_pid w"
  "files_written (erase_object_path ob w) = files_written w"
  by (simp_all add: erase_object_path_def split: option.split)

lemma erase_key_path_frame [simp]:
  "has_root_pid (erase_key_path k w) = has_root_pid w"
  "process_tree_pids (erase_key_path k w) = process_tree_pids w"
  "preset_flags (erase_key_path k w) = preset_flags w"
  "events_dir (erase_key_path k w) = events_dir w"
  "pending_stacks_by_timestamp (erase_key_path k w) = pending_stacks_by_timestamp w"
  "pending_stack_timestamp_order (erase_key_path k w) = pending_stack_timestamp_order w"
  "modules_by_pid (erase_key_path k w) = modules_by_pid w"
  "pending_file_irps (erase_key_path k w) = pending_file_irps w"
  "events_written (erase_key_path k w) = events_written w"
  "skipped_events (erase_key_path k w) = skipped_events w"
  "ignored_file_irps (erase_key_path k w) = ignored_file_irps w"
  "file_io_raw_sequence (erase_key_path k w) = file_io_raw_sequence w"
  "file_paths_by_object (erase_key_path k w) = file_paths_by_object w"
  "root_pid (erase_key_path k w) = root_pid w"
  "files_written (erase_key_path k w) = files_written w"
  by (simp_all add: erase_key_path_def split: option.split)

lemma remove_file_path_frame [simp]:
  "has_root_pid (remove_file_path w e) = has_root_pid w"
  "process_tree_pids (remove_file_path w e) = process_tree_pids w"
  "preset_flags (remove_file_path w e) = preset_flags w"
  "events_dir (remove_file_path w e) = events_dir w"
  "pending_stacks_by_timestamp (remove_file_path w e) = pending_stacks_by_timestamp w"
  "pending_stack_timestamp_order (remove_file_path w e) = pending_stack_timestamp_order w"
  "modules_by_pid (remove_file_path w e) = modules_by_pid w"
  "pending_file_irps (remove_file_path w e) = pending_file_irps w"
  "events_written (remove_file_path w e) = events_written w"
  "skipped_events (remove_file_path w e) = skipped_events w"
  "ignored_file_irps (remove_file_path w e) = ignored_file_irps w"
  "file_io_raw_sequence (remove_file_path w e) = file_io_raw_sequence w"
  "root_pid (remove_file_path w e) = root_pid w"
  "files_written (remove_file_path w e) = files_written w"
  by (simp_all add: remove_file_path_def)

lemma resolve_file_path_frame [simp]:
  "has_root_pid (snd (resolve_file_path w e)) = has_root_pid w"
  "process_tree_pids (snd (resolve_file_path w e)) = process_tree_pids w"
  "preset_flags (snd (resolve_file_path w e)) = preset_flags w"
  "events_dir (snd (resolve_file_path w e)) = events_dir w"
  "pending_stacks_by_timestamp (snd (resolve_file_path w e)) = pending_stacks_by_timestamp w"
  "pending_stack_timestamp_order (snd (resolve_file_path w e)) = pending_stack_timestamp_order w"
  "modules_by_pid (snd (resolve_file_path w e)) = modules_by_pid w"
  "pending_file_irps (snd (resolve_file_path w e)) = pending_file_irps w"
  "events_written (snd (resolve_file_path w e)) = events_written w"
  "skipped_events (snd (resolve_file_path w e)) = skipped_events w"
  "ignored_file_irps (snd (resolve_file_path w e)) = ignored_file_irps w"
  "file_io_raw_sequence (snd (resolve_file_path w e)) = file_io_raw_sequence w"
  "file_paths_by_object (snd (resolve_file_path w e)) = file_paths_by_object w"
  "file_paths_by_key (snd (resolve_file_path w e)) = file_paths_by_key w"
  "root_pid (snd (resolve_file_path w e)) = root_pid w"
  "files_written (snd (resolve_file_path w e)) = files_written w"
  by (simp_all add: resolve_file_path_def split: option.split)

lemma forget_cleaned_paths_frame [simp]:
  "has_root_pid (forget_cleaned_paths w e) = has_root_pid w"
  "process_tree_pids (forget_cleaned_paths w e) = process_tree_pids w"
  "preset_flags (forget_cleaned_paths w e) = preset_flags w"
  "events_dir (forget_cleaned_paths w e) = events_dir w"
  "pending_stacks_by_timestamp (forget_cleaned_paths w e) = pending_stacks_by_timestamp w"
  "pending_stack_timestamp_order (forget_cleaned_paths w e) = pending_stack_timestamp_order w"
  "modules_by_pid (forget_cleaned_paths w e) = modules_by_pid w"
  "pending_file_irps (forget_cleaned_paths w e) = pending_file_irps w"
  "events_written (forget_cleaned_paths w e) = events_written w"
  "skipped_events (forget_cleaned_paths w e) = skipped_events w"
  "ignored_file_irps (forget_cleaned_paths w e) = ignored_file_irps w"
  "file_io_raw_sequence (forget_cleaned_paths w e) = file_io_raw_sequence w"
  "root_pid (forget_cleaned_paths w e) = root_pid w"
  "files_written (forget_cleaned_paths w e) = files_written w"
  by (simp_all add: forget_cleaned_paths_def Let_def split: option.split)

lemma write_file_event_frame [simp]:
  "has_root_pid (write_file_event p w e) = has_root_pid w"
  "process_tree_pids (write_file_event p w e) = process_tree_pids w"
  "preset_flags (write_file_event p w e) = preset_flags w"
  "events_dir (write_file_event p w e) = events_dir w"
  "pending_stacks_by_timestamp (write_file_event p w e) = pending_stacks_by_timestamp w"
  "pending_stack_timestamp_order (write_file_event p w e) = pending_stack_timestamp_order w"
  "modules_by_pid (write_file_event p w e) = modules_by_pid w"
  "pending_file_irps (write_file_event p w e) = pending_file_irps w"
  "ignored_file_irps (write_file_event p w e) = ignored_file_irps w"
  "file_io_raw_sequence (write_file_event p w e) = file_io_raw_sequence w"
  "file_paths_by_object (write_file_event p w e) = file_paths_by_object w"
  "file_paths_by_key (write_file_event p w e) = file_paths_by_key w"
  "root_pid (write_file_event p w e) = root_pid w"
  by (simp_all add: write_file_event_def open_append_def stack_frames_from_addresses_def frame_walk_spec Let_def)

lemma begin_operation_frame [simp]:
  "has_root_pid (begin_operation p w e) = has_root_pid w"
  "process_tree_pids (begin_operation p w e) = process_tree_pids w"
  "preset_flags (begin_operation p w e) = preset_flags w"
  "events_dir (begin_operation p w e) = events_dir w"
  "pending_stacks_by_timestamp (begin_operation p w e) = pending_stacks_by_timestamp w"
  "pending_stack_timestamp_order (begin_operation p w e) = pending_stack_timestamp_order w"
  "modules_by_pid (begin_operation p w e) = modules_by_pid w"
  "ignored_file_irps (begin_operation p w e) = ignored_file_irps w"
  "file_io_raw_sequence (begin_operation p w e) = file_io_raw_sequence w"
  "file_paths_by_object (begin_operation p w e) = file_paths_by_object w"
  "file_paths_by_key (begin_operation p w e) = file_paths_by_key w"
  "root_pid (begin_operation p w e) = root_pid w"
  by (simp_all add: begin_operation_def Let_def split: option.split)

lemma process_close_frame [simp]:
  "has_root_pid (process_close p w e) = has_root_pid w"
  "process_tree_pids (process_close p w e) = process_tree_pids w"
  "preset_flags (process_close p w e) = preset_flags w"
  "events_dir (process_close p w e) = events_dir w"
  "pending_stacks_by_timestamp (process_close p w e) = pending_stacks_by_timestamp w"
  "pending_stack_timestamp_order (process_close p w e) = pending_stack_timestamp_order w"
  "modules_by_pid (process_close p w e) = modules_by_pid w"
  "file_io_raw_sequence (process_close p w e) = file_io_raw_sequence w"
  "root_pid (process_close p w e) = root_pid w"
  by (simp_all add: process_close_def Let_def split: option.split)

lemma process_op_end_frame [simp]:
  "has_root_pid (process_op_end p w e) = has_root_pid w"
  "process_tree_pids (process_op_end p w e) = process_tree_pids w"
  "preset_flags (process_op_end p w e) = preset_flags w"
  "events_dir (process_op_end p w e) = events_dir w"
  "pending_stacks_by_timestamp (process_op_end p w e) = pending_stacks_by_timestamp w"
  "pending_stack_timestamp_order (process_op_end p w e) = pending_stack_timestamp_order w"
  "modules_by_pid (process_op_end p w e) = modules_by_pid w"
  "file_io_raw_sequence (process_op_end p w e) = file_io_raw_sequence w"
  "file_paths_by_object (process_op_end p w e) = file_paths_by_object w"
  "file_paths_by_key (process_op_end p w e) = file_paths_by_key w"
  "root_pid (process_op_end p w e) = root_pid w"
  by (simp_all add: process_op_end_def split: option.split)

lemma erase_pending_pending [simp]: "pending_file_irps (erase_pending irp w) = um_erase irp (pending_file_irps w)"
  by (simp add: erase_pending_def)

lemma skip_event_skipped [simp]: "skipped_events (skip_event w) = skipped_events w + 1"
  by (simp add: skip_event_def)

lemma resolve_file_path_event [simp]:
  "fe_irp_ptr (fst (resolve_file_path w e)) = fe_irp_ptr e"
  "fe_pid (fst (resolve_file_path w e)) = fe_pid e"
  "fe_opcode (fst (resolve_file_path w e)) = fe_opcode e"
  "fe_completion_sequence (fst (resolve_file_path w e)) = fe_completion_sequence e"
  by (simp_all add: resolve_file_path_def split: option.split)

text \<open>A write either appends one line and counts it, or counts a skipped event.\<close>

lemma write_file_event_counts:
  "events_written (write_file_event p w e) + skipped_events (write_file_event p w e)
     = events_written w + skipped_events w + 1"
  by (simp add: write_file_event_def open_append_def stack_frames_from_addresses_def frame_walk_spec Let_def)

lemma take_matching_pending_stack_frame [simp]:
  "has_root_pid (snd (take_matching_pending_stack w ts pid tid)) = has_root_pid w"
  "process_tree_pids (snd (take_matching_pending_stack w ts pid tid)) = process_tree_pids w"
  "preset_flags (snd (take_matching_pending_stack w ts pid tid)) = preset_flags w"
  "events_dir (snd (take_matching_pending_stack w ts pid tid)) = events_dir w"
  "pending_stack_timestamp_order (snd (take_matching_pending_stack w ts pid tid)) = pending_stack_timestamp_order w"
  "modules_by_pid (snd (take_matching_pending_stack w ts pid tid)) = modules_by_pid w"
  "pending_file_irps (snd (take_matching_pending_stack w ts pid tid)) = pending_file_irps w"
  "events_written (snd (take_matching_pending_stack w ts pid tid)) = events_written w"
  "skipped_events (snd (take_matching_pending_stack w ts pid tid)) = skipped_events w"
  "ignored_file_irps (snd (take_matching_pending_stack w ts pid tid)) = ignored_file_irps w"
  "file_io_raw_sequence (snd (take_matching_pending_stack w ts pid tid)) = file_io_raw_sequence w"
  "file_paths_by_object (snd (take_matching_pending_stack w ts pid tid)) = file_paths_by_object w"
  "file_paths_by_key (snd (take_matching_pending_stack w ts pid tid)) = file_paths_by_key w"
  "root_pid (snd (take_matching_pending_stack w ts pid tid)) = root_pid w"
  "files_written (snd (take_matching_pending_stack w ts pid tid)) = files_written w"
  by (simp_all add: take_matching_pending_stack_def Let_def split: option.split)

lemma decoded_file_event_frame [simp]:
  "has_root_pid (snd (decoded_file_event w r m)) = has_root_pid w"
  "process_tree_pids (snd (decoded_file_event w r m)) = process_tree_pids w"
  "preset_flags (snd (decoded_file_event w r m)) = preset_flags w"
  "events_dir (snd (decoded_file_event w r m)) = events_dir w"
  "pending_stack_timestamp_order (snd (decoded_file_event w r m)) = pending_stack_timestamp_order w"
  "modules_by_pid (snd (decoded_file_event w r m)) = modules_by_pid w"
  "pending_file_irps (snd (decoded_file_event w r m)) = pending_file_irps w"
  "events_written (snd (decoded_file_event w r m)) = events_written w"
  "skipped_events (snd (decoded_file_event w r m)) = skipped_events w"
  "ignored_file_irps (snd (decoded_file_event w r m)) = ignored_file_irps w"
  "file_io_raw_sequence (snd (decoded_file_event w r m)) = file_io_raw_sequence w"
  "file_paths_by_object (snd (decoded_file_event w r m)) = file_paths_by_object w"
  "file_paths_by_key (snd (decoded_file_event w r m)) = file_paths_by_key w"
  "root_pid (snd (decoded_file_event w r m)) = root_pid w"
  "files_written (snd (decoded_file_event w r m)) = files_written w"
  by (simp_all add: decoded_file_event_def Let_def case_prod_unfold)

lemma decoded_file_event_event [simp]:
  "fe_completion_sequence (fst (decoded_file_event w r m)) = None"
  by (simp_all add: decoded_file_event_def file_event_fields_def Let_def case_prod_unfold)

section \<open>Lemmas: accounting and invariant\<close>

text \<open>Operations that are written, skipped or waiting (32-bit, as the counters are).\<close>

definition accounted :: "'a extraction_context_scheme \<Rightarrow> u32" where
  "accounted w = events_written w + skipped_events w + of_nat (length (pending_file_irps w))"

definition file_inv :: "'a extraction_context_scheme \<Rightarrow> bool" where
  "file_inv w \<longleftrightarrow> um_wf (pending_file_irps w)
     \<and> (\<forall>(irp, e) \<in> set (pending_file_irps w). fe_irp_ptr e = Some irp
          \<and> (has_root_pid w \<longrightarrow> fe_pid e \<in> process_tree_pids w) \<and> fe_completion_sequence e = None)"

lemma write_accounted: "accounted (write_file_event p w e) = accounted w + 1"
  using write_file_event_counts [of p w e] by (simp add: accounted_def)

lemma um_emplace_length:
  "iteration_order ord \<Longrightarrow> map_of m k = None \<Longrightarrow> length (um_emplace ord k v m) = Suc (length m)"
  by (simp add: um_emplace_def)

lemma accounted_frame [simp]:
  "accounted (remove_file_path w e) = accounted w" "accounted (matched_op_end w) = accounted w"
  "accounted (unmatched_op_end w) = accounted w" "accounted (count_reused_irp w) = accounted w"
  "accounted (cache_file_path w e) = accounted w" "accounted (snd (resolve_file_path w e)) = accounted w"
  "accounted (forget_cleaned_paths w e) = accounted w" "accounted (w\<lparr>ignored_file_irps := I\<rparr>) = accounted w"
  "accounted (w\<lparr>file_io_raw_sequence := n\<rparr>) = accounted w" "accounted (snd (decoded_file_event w r m)) = accounted w"
  "accounted (w\<lparr>quality := q\<rparr>) = accounted w" "accounted (skip_event w) = accounted w + 1"
  by (simp_all add: accounted_def)

lemma accounted_erase_pending:
  "um_wf (pending_file_irps w) \<Longrightarrow> map_of (pending_file_irps w) irp = Some e \<Longrightarrow>
   accounted (erase_pending irp w) + 1 = accounted w"
  using length_um_erase [of "pending_file_irps w" irp e, symmetric] by (simp add: accounted_def)

lemma accounted_emplace:
  "iteration_order ord \<Longrightarrow> map_of (pending_file_irps w) irp = None \<Longrightarrow>
   accounted (w\<lparr>pending_file_irps := um_emplace ord irp e (pending_file_irps w)\<rparr>) = accounted w + 1"
  by (simp add: accounted_def um_emplace_length)

lemma begin_operation_accounted:
  assumes "iteration_order (irp_order p)" "um_wf (pending_file_irps w)"
  shows "accounted (begin_operation p w e) = accounted w + 1"
proof (cases "fe_irp_ptr e")
  case None
  then show ?thesis by (simp add: begin_operation_def write_accounted)
next
  case (Some irp)
  show ?thesis
  proof (cases "map_of (pending_file_irps w) irp")
    case None
    with Some assms(1) show ?thesis by (simp add: begin_operation_def accounted_emplace)
  next
    case (Some old)
    let ?w1 = "erase_pending irp (write_file_event p (count_reused_irp w) old)"
    have "accounted ?w1 + 1 = accounted w + 1"
      using accounted_erase_pending [of "write_file_event p (count_reused_irp w) old" irp old] Some assms(2)
      by (simp add: write_accounted)
    moreover have "accounted (begin_operation p w e) = accounted ?w1 + 1"
      using Some \<open>fe_irp_ptr e = Some irp\<close> assms(1) accounted_emplace [of "irp_order p" ?w1 irp e]
      by (simp add: begin_operation_def)
    ultimately show ?thesis by simp
  qed
qed

lemma process_close_accounted:
  assumes "um_wf (pending_file_irps w)"
  shows "accounted (process_close p w e) =
    accounted w + (if \<exists>irp. fe_irp_ptr e = Some irp \<and> map_of (pending_file_irps w) irp \<noteq> None then 0 else 1)"
proof (cases "fe_irp_ptr e")
  case (Some irp)
  then show ?thesis
    using accounted_erase_pending [OF assms, of irp]
    by (cases "map_of (pending_file_irps w) irp") (simp_all add: process_close_def Let_def write_accounted)
qed (simp add: process_close_def write_accounted)

lemma process_op_end_accounted:
  assumes "um_wf (pending_file_irps w)"
  shows "accounted (process_op_end p w e) = accounted w"
proof (cases "fe_irp_ptr e")
  case (Some irp)
  then show ?thesis
    using accounted_erase_pending [OF assms, of irp]
    by (cases "map_of (pending_file_irps w) irp") (simp_all add: process_op_end_def write_accounted)
qed (simp add: process_op_end_def)

text \<open>The one way an operation disappears: a close that carries the IRP of a waiting operation.\<close>

definition close_drops_pending :: "'a extraction_context_scheme \<Rightarrow> event_record \<Rightarrow> event_metadata \<Rightarrow> bool" where
  "close_drops_pending w record metadata \<longleftrightarrow>
     (let event = fst (decoded_file_event w record metadata) in
      event_opcode record = DA_FILE_IO_CLOSE \<and> file_event_allowed w event
      \<and> (\<exists>irp. fe_irp_ptr event = Some irp \<and> map_of (pending_file_irps w) irp \<noteq> None))"

lemma process_operation_accounted:
  assumes "iteration_order (irp_order p)" "um_wf (pending_file_irps w)"
  shows "accounted (process_operation p w oc e) = accounted w +
    (if oc = DA_FILE_IO_CLOSE \<and> file_event_allowed w e
        \<and> (\<exists>irp. fe_irp_ptr e = Some irp \<and> map_of (pending_file_irps w) irp \<noteq> None) then 0 else 1)"
proof -
  let ?r = "resolve_file_path (cache_file_path w e) e"
  have wf: "um_wf (pending_file_irps (snd ?r))" using assms(2) by simp
  show ?thesis
    using begin_operation_accounted [OF assms(1) wf, of "fst ?r"] process_close_accounted [OF wf, of p "fst ?r"]
    by (auto simp: process_operation_def Let_def case_prod_unfold)
qed

lemma process_file_io_event_accounted:
  assumes "iteration_order (irp_order p)" "um_wf (pending_file_irps w)" "preset_enabled (preset_flags w) ''file''"
  shows "accounted (process_file_io_event p w r m) = accounted w
    + (if event_opcode r = DA_FILE_IO_OP_END \<or> close_drops_pending w r m then 0 else 1)"
proof -
  let ?d = "decoded_file_event w r m"
  let ?w2 = "(snd ?d)\<lparr>file_io_raw_sequence := file_io_raw_sequence (snd ?d) + 1\<rparr>"
  have wf: "um_wf (pending_file_irps ?w2)" using assms(2) by simp
  show ?thesis
  proof (cases "event_opcode r = DA_FILE_IO_OP_END")
    case True
    with assms(3) process_op_end_accounted [OF wf, of p "fst ?d"] show ?thesis
      by (simp add: process_file_io_event_def Let_def case_prod_unfold)
  next
    case False
    have "file_event_allowed ?w2 e = file_event_allowed w e" for e by (simp add: file_event_allowed_def)
    with False assms(3) process_operation_accounted [OF assms(1) wf, of "event_opcode r" "fst ?d"] show ?thesis
      by (simp add: process_file_io_event_def close_drops_pending_def Let_def case_prod_unfold)
  qed
qed

lemma file_inv_wf: "file_inv w \<Longrightarrow> um_wf (pending_file_irps w)"
  by (simp add: file_inv_def)

lemma file_inv_cong:
  "pending_file_irps w' = pending_file_irps w \<Longrightarrow> has_root_pid w' = has_root_pid w \<Longrightarrow>
   process_tree_pids w \<subseteq> process_tree_pids w' \<Longrightarrow> file_inv w \<Longrightarrow> file_inv w'"
  by (fastforce simp: file_inv_def)

lemma file_inv_erase [inv_intros]: "file_inv w \<Longrightarrow> file_inv (erase_pending irp w)"
  by (auto simp: file_inv_def um_erase_def um_wf_def distinct_map_filter)

lemma file_inv_frame [inv_intros]:
  "file_inv w \<Longrightarrow> file_inv (write_file_event p w e)" "file_inv w \<Longrightarrow> file_inv (remove_file_path w e)"
  "file_inv w \<Longrightarrow> file_inv (count_reused_irp w)" "file_inv w \<Longrightarrow> file_inv (matched_op_end w)"
  "file_inv w \<Longrightarrow> file_inv (unmatched_op_end w)" "file_inv w \<Longrightarrow> file_inv (w\<lparr>ignored_file_irps := I\<rparr>)"
  "file_inv w \<Longrightarrow> file_inv (w\<lparr>file_io_raw_sequence := n\<rparr>)" "file_inv w \<Longrightarrow> file_inv (snd (decoded_file_event w r m))"
  "file_inv w \<Longrightarrow> file_inv (cache_file_path w e)" "file_inv w \<Longrightarrow> file_inv (snd (resolve_file_path w e))"
  "file_inv w \<Longrightarrow> file_inv (forget_cleaned_paths w e)" "file_inv w \<Longrightarrow> file_inv (skip_event w)"
  by (erule file_inv_cong [rotated 3]; simp)+

lemma file_inv_emplace:
  assumes "iteration_order ord" "file_inv w" "fe_irp_ptr e = Some irp" "fe_completion_sequence e = None"
    and "has_root_pid w \<Longrightarrow> fe_pid e \<in> process_tree_pids w"
  shows "file_inv (w\<lparr>pending_file_irps := um_emplace ord irp e (pending_file_irps w)\<rparr>)"
proof -
  have "um_wf (um_emplace ord irp e (pending_file_irps w))"
    using assms(1) file_inv_wf [OF assms(2)] by (rule um_wf_emplace)
  moreover have "set (um_emplace ord irp e (pending_file_irps w)) \<subseteq> insert (irp, e) (set (pending_file_irps w))"
    using assms(1) by (auto simp: um_emplace_def)
  ultimately show ?thesis using assms by (fastforce simp: file_inv_def)
qed

lemma begin_operation_inv [inv_intros]:
  assumes "iteration_order (irp_order p)" "file_inv w" "file_event_allowed w e" "fe_completion_sequence e = None"
  shows "file_inv (begin_operation p w e)"
proof (cases "fe_irp_ptr e")
  case None
  then show ?thesis using assms by (simp add: begin_operation_def inv_intros)
next
  case (Some irp)
  have old: "file_inv (erase_pending irp (write_file_event p (count_reused_irp w) x))" for x
    using assms(2) by (intro inv_intros)
  have allowed: "has_root_pid w \<Longrightarrow> fe_pid e \<in> process_tree_pids w"
    using assms(3) by (simp add: file_event_allowed_def)
  show ?thesis
    using file_inv_emplace [OF assms(1,2) Some assms(4) allowed] file_inv_emplace [OF assms(1) old Some assms(4)] allowed
    by (simp add: begin_operation_def Some Let_def split: option.split)
qed

lemma process_close_inv [inv_intros]: "file_inv w \<Longrightarrow> file_inv (process_close p w e)"
  by (auto simp: process_close_def Let_def intro!: inv_intros split: option.split)

lemma process_op_end_inv [inv_intros]: "file_inv w \<Longrightarrow> file_inv (process_op_end p w e)"
  by (auto simp: process_op_end_def intro!: inv_intros split: option.split)

lemma process_operation_inv [inv_intros]:
  assumes "iteration_order (irp_order p)" "file_inv w" "fe_completion_sequence e = None"
  shows "file_inv (process_operation p w oc e)"
proof -
  let ?r = "resolve_file_path (cache_file_path w e) e"
  have inv: "file_inv (snd ?r)" using assms(2) by (intro inv_intros)
  have "file_event_allowed (snd ?r) (fst ?r) = file_event_allowed w e" by (simp add: file_event_allowed_def)
  then show ?thesis
    using inv assms begin_operation_inv [OF assms(1) inv, of "fst ?r"]
    by (auto simp: process_operation_def Let_def case_prod_unfold intro!: inv_intros)
qed

lemma process_file_io_event_inv [inv_intros]:
  assumes "iteration_order (irp_order p)" "file_inv w"
  shows "file_inv (process_file_io_event p w r m)"
  using assms by (auto simp: process_file_io_event_def Let_def case_prod_unfold intro!: inv_intros)

lemma attach_scan_bound:
  "attach_scan s i fb es = Some j \<Longrightarrow> (\<forall>k. fb = Some k \<longrightarrow> k < i) \<Longrightarrow> j < i + length es"
proof (induction s i fb es rule: attach_scan.induct)
  case (2 s i fb irp e es)
  then show ?case by (fastforce split: if_splits)
qed auto

lemma attach_stack_inv [inv_intros]:
  assumes "file_inv w"
  shows "file_inv (snd (attach_stack_to_pending_file w s))"
proof (cases "attach_scan s 0 None (pending_file_irps w)")
  case (Some i)
  let ?m = "pending_file_irps w"
  have i: "i < length ?m" using attach_scan_bound [OF Some] by simp
  have "map fst (?m[i := add_stack s (?m ! i)]) = map fst ?m"
    by (simp add: map_update add_stack_def i list_update_same_conv)
  moreover have "fe_irp_ptr (snd x) = Some (fst x) \<and> (has_root_pid w \<longrightarrow> fe_pid (snd x) \<in> process_tree_pids w)
      \<and> fe_completion_sequence (snd x) = None" if "x \<in> set (?m[i := add_stack s (?m ! i)])" for x
    using that assms nth_mem [OF i] set_update_subset_insert [of ?m i "add_stack s (?m ! i)"]
    by (auto simp: file_inv_def add_stack_def case_prod_unfold)
  ultimately show ?thesis
    using assms Some by (auto simp: file_inv_def um_wf_def attach_stack_to_pending_file_def case_prod_unfold)
qed (use assms in \<open>simp add: attach_stack_to_pending_file_def\<close>)

lemma cache_pending_stack_pending [simp]:
  "pending_file_irps (cache_pending_stack w s) = pending_file_irps w"
  "has_root_pid (cache_pending_stack w s) = has_root_pid w"
  "process_tree_pids (cache_pending_stack w s) = process_tree_pids w"
  by (auto simp: cache_pending_stack_def store_stack_def register_timestamp_def evict_oldest_def drop_stack_walks_def Let_def
      split: list.split option.split)

lemma process_stack_walk_event_inv [inv_intros]:
  assumes "file_inv w"
  shows "file_inv (process_stack_walk_event w s)"
proof -
  have "file_inv (cache_pending_stack v s)" if "file_inv v" for v :: "'a extraction_context_scheme"
    using that by (rule file_inv_cong [rotated 3]) simp_all
  then show ?thesis using attach_stack_inv [OF assms, of s]
    by (simp add: process_stack_walk_event_def Let_def case_prod_unfold)
qed

lemma flush_writes:
  "accounted (foldl (write_file_event p) w es) = accounted w + of_nat (length es)
   \<and> pending_file_irps (foldl (write_file_event p) w es) = pending_file_irps w"
  by (induction es arbitrary: w) (simp_all add: write_accounted)

lemma flush_accounted:
  "accounted (flush_pending_file_events p w) = accounted w"
  "pending_file_irps (flush_pending_file_events p w) = []"
  using flush_writes [of p] by (simp_all add: flush_pending_file_events_def Let_def) (simp add: accounted_def)

lemma write_file_event_output:
  assumes "open_ok p (open_attempts w) (events_dir w, ''file.jsonl'')"
  shows "out_files (write_file_event p w e) = (out_files w)((events_dir w, ''file.jsonl'') :=
      out_files w (events_dir w, ''file.jsonl'')
        @ file_event_line e (rev (map (frame_of w (fe_pid e)) (fe_stack_addresses e))))"
proof -
  have "frame_of (w\<lparr>open_attempts := n\<rparr>) = frame_of w" for n
    by (intro ext) (simp add: frame_of_def find_module_lists modules_of_def split: option.split)
  then show ?thesis
    using assms by (simp add: write_file_event_def open_append_def stack_frames_from_addresses_def frame_walk_spec Let_def)
qed

definition attach_candidate :: "stack_walk_event \<Rightarrow> u64 \<times> file_event_record \<Rightarrow> bool" where
  "attach_candidate s x \<longleftrightarrow> fe_timestamp (snd x) = sw_timestamp s \<and> fe_pid (snd x) = sw_process s"

lemma attach_scan_exact:
  "attach_scan s i fb es = Some j \<Longrightarrow> (\<exists>x \<in> set es. attach_candidate s x \<and> fe_tid (snd x) = sw_thread s) \<Longrightarrow>
   i \<le> j \<and> j < i + length es \<and> attach_candidate s (es ! (j - i)) \<and> fe_tid (snd (es ! (j - i))) = sw_thread s"
proof (induction s i fb es rule: attach_scan.induct)
  case (2 s i fb irp e es)
  show ?case
  proof (cases "attach_candidate s (irp, e) \<and> fe_tid e = sw_thread s")
    case True
    with 2 show ?thesis by (auto simp: attach_candidate_def)
  next
    case False
    then have ex: "\<exists>x \<in> set es. attach_candidate s x \<and> fe_tid (snd x) = sw_thread s" using 2(4) by auto
    obtain fb' where "attach_scan s (i + 1) fb' es = Some j"
      using 2(3) False by (auto simp: attach_candidate_def split: if_splits)
    with 2(1,2) False ex have "i + 1 \<le> j \<and> j < i + 1 + length es \<and> attach_candidate s (es ! (j - (i + 1)))
        \<and> fe_tid (snd (es ! (j - (i + 1)))) = sw_thread s"
      using 2(3) by (auto simp: attach_candidate_def split: if_splits)
    then show ?thesis by (auto simp: nth_Cons')
  qed
qed simp

lemma attach_scan_candidate:
  "attach_scan s i fb es = Some j \<Longrightarrow>
   fb = Some j \<or> (i \<le> j \<and> j < i + length es \<and> attach_candidate s (es ! (j - i)))"
proof (induction s i fb es rule: attach_scan.induct)
  case (2 s i fb irp e es)
  then show ?case by (auto simp: attach_candidate_def nth_Cons' split: if_splits)
qed simp

lemma attach_scan_None: "attach_scan s i None es = None \<longleftrightarrow> (\<forall>x \<in> set es. \<not> attach_candidate s x)"
proof -
  have "attach_scan s i (Some k) es \<noteq> None" for k i es
  proof (induction es arbitrary: i k)
    case (Cons x es)
    then show ?case by (cases x) auto
  qed simp
  then show ?thesis
  proof (induction es arbitrary: i)
    case (Cons x es)
    then show ?case by (cases x) (auto simp: attach_candidate_def)
  qed simp
qed

section \<open>Properties\<close>

text \<open>The handler over a sequence of file events, and the operations lost to closes on the way.\<close>

fun file_run :: "platform \<Rightarrow> extraction_world \<Rightarrow> (event_record \<times> event_metadata) list \<Rightarrow> extraction_world" where
  "file_run p w [] = w"
| "file_run p w ((r, m) # es) = file_run p (process_file_io_event p w r m) es"

fun lost_to_close :: "platform \<Rightarrow> extraction_world \<Rightarrow> (event_record \<times> event_metadata) list \<Rightarrow> nat" where
  "lost_to_close p w [] = 0"
| "lost_to_close p w ((r, m) # es) =
     (if close_drops_pending w r m then 1 else 0) + lost_to_close p (process_file_io_event p w r m) es"

lemma process_file_io_event_flags [simp]: "preset_flags (process_file_io_event p w r m) = preset_flags w"
  by (simp add: process_file_io_event_def process_operation_def Let_def case_prod_unfold)

lemma close_not_op_end: "close_drops_pending w r m \<Longrightarrow> event_opcode r \<noteq> DA_FILE_IO_OP_END"
  by (auto simp: close_drops_pending_def Let_def)

lemma file_run_accounted:
  assumes "iteration_order (irp_order p)" "file_inv w" "preset_enabled (preset_flags w) ''file''"
  shows "accounted (file_run p w es) + of_nat (lost_to_close p w es)
    = accounted w + of_nat (length (filter (\<lambda>(r, m). event_opcode r \<noteq> DA_FILE_IO_OP_END) es))"
  using assms
proof (induction p w es rule: file_run.induct)
  case (2 p w r m es)
  have "accounted (process_file_io_event p w r m) + of_nat (if close_drops_pending w r m then 1 else 0)
      = accounted w + (if event_opcode r = DA_FILE_IO_OP_END then 0 else 1)"
    using process_file_io_event_accounted [OF 2(2) file_inv_wf [OF 2(3)] 2(4), of r m] close_not_op_end [of w r m]
    by auto
  moreover have "file_inv (process_file_io_event p w r m)"
    using 2 by (intro inv_intros)
  ultimately show ?case using 2 by (simp add: algebra_simps)
qed simp

text \<open>
  C9 Every file operation is accounted for. From a fresh context with the file preset on, after any sequence of file events
  and the final flush no operation is left waiting, and the lines written plus the events skipped plus the
  operations a close discarded equal the number of events that are not completions (32-bit arithmetic).
\<close>

theorem file_operations_accounted:
  assumes "platform_orders p" "preset_enabled flags ''file''"
  shows "let c = initialize_process_tree (new_context dir flags has_root root);
             w = flush_pending_file_events p (file_run p c es)
         in pending_file_irps w = []
            \<and> events_written w + skipped_events w + of_nat (lost_to_close p c es)
                = of_nat (length (filter (\<lambda>(r, m). event_opcode r \<noteq> DA_FILE_IO_OP_END) es))"
proof -
  let ?c = "initialize_process_tree (new_context dir flags has_root root)"
  have c: "file_inv ?c" "preset_flags ?c = flags" "accounted ?c = 0"
    by (simp_all add: initialize_process_tree_def new_context_def file_inv_def accounted_def)
  have "accounted (file_run p ?c es) + of_nat (lost_to_close p ?c es)
      = of_nat (length (filter (\<lambda>(r, m). event_opcode r \<noteq> DA_FILE_IO_OP_END) es))"
    using file_run_accounted [of p ?c es] platform_ordersD(3) [OF assms(1)] assms(2) c by simp
  then show ?thesis
    using flush_accounted [of p "file_run p ?c es"] by (simp add: Let_def accounted_def)
qed

definition example_file_event :: "u8 \<Rightarrow> event_record" where
  "example_file_event opcode = \<lparr>ev_provider_id = DA_ClassicFileIoGuid, ev_id = 0, ev_version = 2, ev_opcode = opcode,
     ev_keyword = 0, ev_process_id = 9, ev_thread_id = 3, ev_timestamp = 50, ev_user_data = Some [],
     ev_user_data_length = 0, ev_extended_data = []\<rparr>"

definition example_irp_metadata :: event_metadata where
  "example_irp_metadata = empty_metadata\<lparr>md_numeric_fields := [(''IrpPtr'', 5)]\<rparr>"

lemma example_irp_field: "first_matching_number example_irp_metadata [''irpptr'', ''irp'', ''irppointer''] = Some 5"
  by code_simp

lemma example_presets: "preset_enabled 8 ''file''"
  by code_simp

theorem file_operations_accounted_witness:
  "let c = initialize_process_tree (new_context ''d'' 8 False 0);
       es = [(example_file_event 67, empty_metadata), (example_file_event 76, empty_metadata)];
       w = flush_pending_file_events sample_platform (file_run sample_platform c es)
   in pending_file_irps w = [] \<and> events_written w + skipped_events w + of_nat (lost_to_close sample_platform c es) = 1"
  using file_operations_accounted [of sample_platform 8 "''d''" False 0
      "[(example_file_event 67, empty_metadata), (example_file_event 76, empty_metadata)]"] example_presets
  by (simp add: Let_def example_file_event_def event_opcode_def)

text \<open>
  A close that carries the IRP of a waiting read discards the read: two operations come in, one is accounted for.
\<close>

lemma close_discards_waiting_operation:
  "let c = new_context ''d'' 8 False 0;
       w1 = process_file_io_event sample_platform c (example_file_event 67) example_irp_metadata;
       w2 = process_file_io_event sample_platform w1 (example_file_event 66) example_irp_metadata
   in accounted w1 = 1 \<and> pending_file_irps w1 \<noteq> [] \<and> accounted w2 = 1 \<and> pending_file_irps w2 = []"
proof -
  let ?c = "new_context ''d'' 8 False 0"
  let ?w1 = "process_file_io_event sample_platform ?c (example_file_event 67) example_irp_metadata"
  let ?w2 = "process_file_io_event sample_platform ?w1 (example_file_event 66) example_irp_metadata"
  have c: "pending_file_irps ?c = []" "preset_flags ?c = 8" "has_root_pid ?c = False" "accounted ?c = 0"
    by (simp_all add: new_context_def accounted_def)
  have op: "event_opcode (example_file_event 67) = 67" "event_opcode (example_file_event 66) = 66"
    by (simp_all add: event_opcode_def example_file_event_def)
  have irp: "fe_irp_ptr (fst (decoded_file_event v r example_irp_metadata)) = Some 5"
    for v :: extraction_world and r
    by (simp add: decoded_file_event_def file_event_fields_def example_irp_field Let_def case_prod_unfold)
  have w1: "\<exists>q. pending_file_irps ?w1 = [(5, q)]"
    using example_presets by (simp add: process_file_io_event_def process_operation_def begin_operation_def c op irp
        file_event_allowed_def um_emplace_def sample_platform_def Let_def case_prod_unfold)
  have root: "has_root_pid ?w1 = False"
    using example_presets by (simp add: process_file_io_event_def process_operation_def c op
        file_event_allowed_def Let_def case_prod_unfold)
  have "pending_file_irps ?w2 = []"
    using w1 root example_presets by (auto simp: process_file_io_event_def process_operation_def process_close_def c op irp
        file_event_allowed_def um_erase_def Let_def case_prod_unfold)
  moreover have "close_drops_pending ?w1 (example_file_event 66) example_irp_metadata"
    using w1 root by (auto simp: close_drops_pending_def op irp file_event_allowed_def)
  moreover have "\<not> close_drops_pending ?c (example_file_event 67) example_irp_metadata"
    by (simp add: close_drops_pending_def op)
  moreover have "iteration_order (irp_order sample_platform)" by (simp add: sample_platform_def)
  ultimately show ?thesis
    using w1 example_presets c op process_file_io_event_accounted [of sample_platform ?c "example_file_event 67" example_irp_metadata]
      process_file_io_event_accounted [of sample_platform ?w1 "example_file_event 66" example_irp_metadata]
    by (auto simp: Let_def um_wf_def)
qed

lemma out_files_frame [simp]:
  "out_files (cache_file_path v e) = out_files v" "out_files (snd (resolve_file_path v e)) = out_files v"
  "out_files (snd (decoded_file_event v r m)) = out_files v" "out_files (matched_op_end v) = out_files v"
  "out_files (erase_pending irp v) = out_files v"
  for v :: extraction_world
  by (simp_all add: cache_file_path_def resolve_file_path_def count_path_resolved_def count_path_unresolved_def
      decoded_file_event_def take_matching_pending_stack_def matched_op_end_def erase_pending_def Let_def case_prod_unfold
      split: option.split)

lemma resolve_after_cache_cong:
  fixes v w :: "'a extraction_context_scheme"
  assumes "file_paths_by_object v = file_paths_by_object w" "file_paths_by_key v = file_paths_by_key w"
  shows "fst (resolve_file_path (cache_file_path v e) e) = fst (resolve_file_path (cache_file_path w e) e)"
  using assms by (simp add: resolve_file_path_def cache_file_path_def cached_path_def Let_def split: option.split)

lemma frame_of_cong: "modules_by_pid v = modules_by_pid w \<Longrightarrow> frame_of v = frame_of w"
  for v w :: "'a extraction_context_scheme"
  by (intro ext) (simp add: frame_of_def find_module_def split: option.split)

lemma merge_completion_event [simp]:
  "fe_pid (merge_completion a b n) = fe_pid a" "fe_stack_addresses (merge_completion a b n) = fe_stack_addresses a"
  by (simp_all add: merge_completion_def Let_def)

lemma resolve_file_path_stack [simp]:
  "fe_stack_addresses (fst (resolve_file_path w e)) = fe_stack_addresses e"
  by (simp add: resolve_file_path_def split: option.split)

text \<open>The path of an event after the caches: its own, else that of its file object, else that of its file key.\<close>

definition path_and_source :: "extraction_world \<Rightarrow> file_event_record \<Rightarrow> string option \<times> string option" where
  "path_and_source w e =
     (if fe_path e \<noteq> None \<and> fe_path e \<noteq> Some [] then (fe_path e, fe_path_source e)
      else case (Option.bind (fe_file_object e) (file_paths_by_object w), Option.bind (fe_file_key e) (file_paths_by_key w)) of
             (Some found, _) \<Rightarrow> (Some found, Some ''file_object_cache'')
           | (None, Some found) \<Rightarrow> (Some found, Some ''file_key_cache'')
           | (None, None) \<Rightarrow> (fe_path e, fe_path_source e))"

lemma cached_path_bind: "cached_path paths key = Option.bind key paths"
  by (simp add: cached_path_def split: option.split)

lemma resolved_path:
  "fst (resolve_file_path (cache_file_path w e) e) =
     e\<lparr>fe_path := fst (path_and_source w e), fe_path_source := snd (path_and_source w e)\<rparr>"
proof -
  have same: "e\<lparr>fe_path := fe_path e, fe_path_source := fe_path_source e\<rparr> = e" by (cases e) simp
  show ?thesis
  proof (cases "fe_path e \<noteq> None \<and> fe_path e \<noteq> Some []")
    case True
    then show ?thesis using same by (simp add: path_and_source_def resolve_file_path_def)
  next
    case False
    then have "cache_file_path w e = w" by (auto simp: cache_file_path_def)
    then show ?thesis
      unfolding path_and_source_def resolve_file_path_def cached_path_bind
      by (cases "Option.bind (fe_file_object e) (file_paths_by_object w)"; cases "Option.bind (fe_file_key e) (file_paths_by_key w)")
        (simp_all only: False same fst_conv snd_conv prod.case if_False option.case)
  qed
qed

lemma merged_fields:
  assumes "path_and_source w e = (path, source)"
  shows "merge_completion (fst (resolve_file_path (cache_file_path w e) e)) (file_event_fields r m []) n =
     e\<lparr>fe_path := path, fe_path_source := source,
       fe_nt_status := (case number_to_u32 (first_matching_number m [''ntstatus'', ''status'']) of
          None \<Rightarrow> fe_nt_status e | Some status \<Rightarrow> Some status),
       fe_extra_info := (case first_matching_number m [''extrainfo''] of None \<Rightarrow> fe_extra_info e | Some x \<Rightarrow> Some x),
       fe_completion_pid := Some (case md_process_pid m of Some pid \<Rightarrow> pid | None \<Rightarrow> ev_process_id r),
       fe_completion_tid := Some (ev_thread_id r), fe_completion_sequence := Some n\<rparr>"
  unfolding resolved_path assms fst_conv snd_conv
  by (cases "number_to_u32 (first_matching_number m [''ntstatus'', ''status''])"; cases "first_matching_number m [''extrainfo'']"; cases e)
    (simp_all add: merge_completion_def file_event_fields_def Let_def)

lemma completion_written:
  fixes w :: extraction_world
  assumes "oper = fst (decoded_file_event w r1 m1)"
    and "platform_orders p" "file_inv w" "preset_enabled (preset_flags w) ''file''" "\<forall>n f. open_ok p n f"
    and "event_opcode r1 \<notin> {DA_FILE_IO_OP_END, DA_FILE_IO_CLOSE, DA_FILE_IO_CLEANUP}"
    and "event_opcode r2 = DA_FILE_IO_OP_END"
    and "fe_irp_ptr oper = Some irp" "fe_irp_ptr (file_event_fields r2 m2 []) = Some irp"
    and "map_of (pending_file_irps w) irp = None" "file_event_allowed w oper"
  shows "let w' = process_file_io_event p (process_file_io_event p w r1 m1) r2 m2;
         merged = merge_completion (fst (resolve_file_path (cache_file_path w oper) oper)) (file_event_fields r2 m2 [])
                    (file_io_raw_sequence w + 2);
         file = (events_dir w, ''file.jsonl'')
     in out_files w' = (out_files w)(file := out_files w file
            @ file_event_line merged (rev (map (frame_of w (fe_pid oper)) (fe_stack_addresses oper))))
        \<and> map_of (pending_file_irps w') = map_of (pending_file_irps w)"
proof -
  let ?w1 = "(snd (decoded_file_event w r1 m1))\<lparr>file_io_raw_sequence := file_io_raw_sequence w + 1\<rparr>"
  let ?r = "resolve_file_path (cache_file_path ?w1 oper) oper"
  let ?b = "(snd ?r)\<lparr>pending_file_irps := um_emplace (irp_order p) irp (fst ?r) (pending_file_irps w)\<rparr>"
  let ?b2 = "?b\<lparr>file_io_raw_sequence := file_io_raw_sequence w + 2\<rparr>"
  let ?m = "merge_completion (fst ?r) (file_event_fields r2 m2 []) (file_io_raw_sequence w + 2)"
  have ord: "iteration_order (irp_order p)" using platform_ordersD(3) [OF assms(2)] .
  have irp: "fe_irp_ptr (fst ?r) = Some irp" using assms(8) by simp
  have allowed: "file_event_allowed ?w1 oper" using assms(11) by (simp add: file_event_allowed_def)
  have first: "process_file_io_event p w r1 m1 = ?b"
    using assms(4,6) allowed irp assms(10)
    by (simp add: process_file_io_event_def process_operation_def begin_operation_def assms(1) [symmetric] Let_def case_prod_unfold)
  have pend: "map_of (pending_file_irps ?b) = (map_of (pending_file_irps w))(irp \<mapsto> fst ?r)"
    using map_of_emplace [OF ord file_inv_wf [OF assms(3)], of irp "fst ?r"] assms(10) by simp
  have seq: "file_io_raw_sequence w + 1 + 1 = file_io_raw_sequence w + 2" by simp
  have second: "process_file_io_event p ?b r2 m2 = write_file_event p (matched_op_end (erase_pending irp ?b2)) ?m"
    using assms(4,7,9) pend
    by (simp add: process_file_io_event_def process_op_end_def decoded_file_event_def seq Let_def case_prod_unfold)
  have res: "fst ?r = fst (resolve_file_path (cache_file_path w oper) oper)"
    by (rule resolve_after_cache_cong) simp_all
  have frames: "frame_of (matched_op_end (erase_pending irp ?b2)) = frame_of w"
    by (rule frame_of_cong) simp
  have "map_of (pending_file_irps (process_file_io_event p ?b r2 m2)) = map_of (pending_file_irps w)"
    using pend assms(10) by (auto simp: second)
  moreover have "out_files (process_file_io_event p ?b r2 m2) = (out_files w)((events_dir w, ''file.jsonl'') :=
      out_files w (events_dir w, ''file.jsonl'') @ file_event_line ?m (rev (map (frame_of w (fe_pid oper)) (fe_stack_addresses oper))))"
    using write_file_event_output [of p "matched_op_end (erase_pending irp ?b2)" ?m] assms(5) by (simp add: second frames)
  ultimately show ?thesis unfolding first Let_def res [symmetric] by blast
qed

text \<open>
  C11 An operation and its completion become one line. When an allowed operation that is not a close and not a cleanup begins
  with an IRP that is not in use, and the next file event is the completion of that IRP, exactly one line is appended to
  \<^verbatim>\<open>file.jsonl\<close>, and a JSON reader gets from it the document of one event: all fields of the operation; its own path, or
  the one the caches hold for its file object or else its file key, with that source; the status and extra information of
  the completion where the completion has them, else those of the operation; the completion's process (payload before
  header), thread and sequence number. The frames are those of the operation's addresses in reverse order. The waiting
  operations are those from before.
\<close>

theorem completion_merges:
  fixes w :: extraction_world
  assumes "oper = fst (decoded_file_event w r1 m1)"
    and "platform_orders p" "file_inv w" "preset_enabled (preset_flags w) ''file''" "\<forall>n f. open_ok p n f"
    and "event_opcode r1 \<notin> {DA_FILE_IO_OP_END, DA_FILE_IO_CLOSE, DA_FILE_IO_CLEANUP}"
    and "event_opcode r2 = DA_FILE_IO_OP_END"
    and "fe_irp_ptr oper = Some irp" "first_matching_number m2 [''irpptr'', ''irp'', ''irppointer''] = Some irp"
    and "map_of (pending_file_irps w) irp = None" "file_event_allowed w oper"
  shows "let w' = process_file_io_event p (process_file_io_event p w r1 m1) r2 m2;
         file = (events_dir w, ''file.jsonl'');
         (path, source) = path_and_source w oper;
         merged = oper
           \<lparr>fe_path := path, fe_path_source := source,
            fe_nt_status := (case number_to_u32 (first_matching_number m2 [''ntstatus'', ''status'']) of
               None \<Rightarrow> fe_nt_status oper | Some status \<Rightarrow> Some status),
            fe_extra_info := (case first_matching_number m2 [''extrainfo''] of None \<Rightarrow> fe_extra_info oper | Some x \<Rightarrow> Some x),
            fe_completion_pid := Some (case md_process_pid m2 of Some pid \<Rightarrow> pid | None \<Rightarrow> ev_process_id r2),
            fe_completion_tid := Some (ev_thread_id r2), fe_completion_sequence := Some (file_io_raw_sequence w + 2)\<rparr>
     in (\<exists>line. out_files w' = (out_files w)(file := out_files w file @ line @ [newline]) \<and> newline \<notin> set line
          \<and> read_json line = Some (file_event_json merged (rev (map (frame_of w (fe_pid oper)) (fe_stack_addresses oper)))))
        \<and> map_of (pending_file_irps w') = map_of (pending_file_irps w)"
proof -
  have irp: "fe_irp_ptr (file_event_fields r2 m2 []) = Some irp" using assms(9) by (simp add: file_event_fields_def Let_def)
  obtain path source where ps: "path_and_source w oper = (path, source)" by fastforce
  show ?thesis
    using completion_written [OF assms(1-8) irp assms(10,11), unfolded Let_def merged_fields [OF ps] file_event_line_text]
    unfolding Let_def ps prod.case by (meson read_json_render render_one_line)
qed

text \<open>A read of process 9 whose completion, in process 4, has the status 0xC0000022.\<close>

definition example_completion :: event_record where
  "example_completion = (example_file_event 76)\<lparr>ev_process_id := 4, ev_thread_id := 6\<rparr>"

definition example_completion_metadata :: event_metadata where
  "example_completion_metadata = empty_metadata\<lparr>md_numeric_fields := [(''IrpPtr'', 5), (''NtStatus'', 0xC0000022), (''ExtraInfo'', 512)]\<rparr>"

lemma example_completion_fields:
  "first_matching_number example_completion_metadata [''irpptr'', ''irp'', ''irppointer''] = Some 5"
  "number_to_u32 (first_matching_number example_completion_metadata [''ntstatus'', ''status'']) = Some 0xC0000022"
  "first_matching_number example_completion_metadata [''extrainfo''] = Some 512"
  by code_simp+

theorem completion_merges_witness:
  "let c = new_context ''d'' 8 False 0; r1 = example_file_event 67;
       w' = process_file_io_event sample_platform (process_file_io_event sample_platform c r1 example_irp_metadata)
              example_completion example_completion_metadata
   in \<exists>line. out_files w' (''d'', ''file.jsonl'') = line @ [newline]
        \<and> read_json line = Some (file_event_json ((file_event_fields r1 example_irp_metadata [])
             \<lparr>fe_nt_status := Some 0xC0000022, fe_extra_info := Some 512, fe_completion_pid := Some 4, fe_completion_tid := Some 6,
              fe_completion_sequence := Some 2\<rparr>) [])"
proof -
  let ?c = "new_context ''d'' 8 False 0"
  let ?oper = "fst (decoded_file_event ?c (example_file_event 67) example_irp_metadata)"
  have c: "file_inv ?c" "preset_flags ?c = 8" "pending_file_irps ?c = []" "file_event_allowed ?c ?oper"
      "events_dir ?c = ''d''" "out_files ?c = (\<lambda>_. [])" "file_io_raw_sequence ?c = 0"
    by (simp_all add: new_context_def file_inv_def file_event_allowed_def)
  have oper: "?oper = file_event_fields (example_file_event 67) example_irp_metadata []"
    by (simp add: decoded_file_event_def file_event_fields_def stack_addresses_def example_file_event_def
        take_matching_pending_stack_def new_context_def Let_def event_opcode_def)
  have irp: "fe_irp_ptr ?oper = Some 5" "fe_stack_addresses ?oper = []" "path_and_source ?c ?oper = (fe_path ?oper, fe_path_source ?oper)"
    unfolding oper by (simp_all add: file_event_fields_def example_irp_field Let_def path_and_source_def new_context_def split: option.split)
  have r: "event_opcode (example_file_event 67) = 67" "event_opcode example_completion = 76"
      "ev_process_id example_completion = 4" "ev_thread_id example_completion = 6" "md_process_pid example_completion_metadata = None"
    by (simp_all add: event_opcode_def example_file_event_def example_completion_def example_completion_metadata_def empty_metadata_def)
  from completion_merges [OF refl platform_orders_sample c(1), of "example_file_event 67" example_completion
      example_irp_metadata 5 example_completion_metadata]
  show ?thesis
    using example_presets irp(1) c example_completion_fields(1)
    by (simp add: Let_def r sample_platform_def irp example_completion_fields) (auto simp: oper)
qed

text \<open>
  The path caches. An event with a path teaches its file object and file key; a later event of the same file
  object without a path of its own gets that path (with the source recorded), also when only its
  file key is known; once the path is removed by a close the file object no longer resolves;
  and each resolution counts as resolved or unresolved, never both.
\<close>

theorem file_path_cache:
  assumes "fe_path e = Some path" "path \<noteq> []" "fe_file_object e = Some ob" "fe_file_key e = Some key"
    and "fe_path f = None \<or> fe_path f = Some []" "fe_file_key f = Some key"
  shows "(fe_file_object f = Some ob \<longrightarrow>
       fe_path (fst (resolve_file_path (cache_file_path c e) f)) = Some path
       \<and> fe_path_source (fst (resolve_file_path (cache_file_path c e) f)) = Some ''file_object_cache'')
   \<and> (fe_file_object f = None \<longrightarrow>
       fe_path (fst (resolve_file_path (cache_file_path c e) f)) = Some path
       \<and> fe_path_source (fst (resolve_file_path (cache_file_path c e) f)) = Some ''file_key_cache'')
   \<and> (fe_file_object f = Some ob \<longrightarrow> fst (resolve_file_path (remove_file_path (cache_file_path c e) e) f) = f)
   \<and> q_file_path_resolved (quality (snd (resolve_file_path d g))) + q_file_path_unresolved (quality (snd (resolve_file_path d g)))
       = q_file_path_resolved (quality d) + q_file_path_unresolved (quality d) + 1"
  using assms by (auto simp: resolve_file_path_def cache_file_path_def cached_path_def remove_file_path_def
      erase_object_path_def erase_key_path_def count_path_resolved_def count_path_unresolved_def split: option.split)

definition example_named_file :: file_event_record where
  "example_named_file = (file_event_fields (example_file_event 64) empty_metadata [])
     \<lparr>fe_path := Some ''C:'', fe_file_object := Some 7, fe_file_key := Some 8\<rparr>"

theorem file_path_cache_witness:
  "fe_path (fst (resolve_file_path (cache_file_path (new_context ''d'' 8 False 0) example_named_file)
      (example_named_file\<lparr>fe_path := None\<rparr>))) = Some ''C:''"
  using file_path_cache [of example_named_file "''C:''" 7 8 "example_named_file\<lparr>fe_path := None\<rparr>"
      "new_context ''d'' 8 False 0" "new_context ''d'' 8 False 0" example_named_file]
  by (simp add: example_named_file_def)

text \<open>
  A stack walk reaches the right waiting operation: if some waiting operation has the stack's time stamp and process, the stack's
  addresses go to exactly one such operation, one of the stack's thread when there is one, and everything
  else of the context is unchanged; otherwise the stack goes to the cache.
\<close>

theorem stack_reaches_operation:
  assumes "file_inv c"
  shows "if \<exists>x \<in> set (pending_file_irps c). attach_candidate s x
     then \<exists>i < length (pending_file_irps c).
            attach_candidate s (pending_file_irps c ! i)
            \<and> ((\<exists>x \<in> set (pending_file_irps c). attach_candidate s x \<and> fe_tid (snd x) = sw_thread s) \<longrightarrow>
                 fe_tid (snd (pending_file_irps c ! i)) = sw_thread s)
            \<and> process_stack_walk_event c s = c\<lparr>pending_file_irps := (pending_file_irps c)
                 [i := add_stack s (pending_file_irps c ! i)]\<rparr>
     else process_stack_walk_event c s = cache_pending_stack c s"
proof (cases "attach_scan s 0 None (pending_file_irps c)")
  case None
  then show ?thesis
    using attach_scan_None [of s 0 "pending_file_irps c"]
    by (auto simp: process_stack_walk_event_def attach_stack_to_pending_file_def)
next
  case (Some i)
  then have "\<exists>x \<in> set (pending_file_irps c). attach_candidate s x"
    using attach_scan_None [of s 0 "pending_file_irps c"] by auto
  moreover have "process_stack_walk_event c s = c\<lparr>pending_file_irps := (pending_file_irps c)
      [i := add_stack s (pending_file_irps c ! i)]\<rparr>"
    using Some by (simp add: process_stack_walk_event_def attach_stack_to_pending_file_def)
  ultimately show ?thesis
    using attach_scan_candidate [OF Some] attach_scan_exact [OF Some] by auto
qed

theorem stack_reaches_operation_witness:
  "process_stack_walk_event (new_context ''d'' 8 False 0) example_stack
     = cache_pending_stack (new_context ''d'' 8 False 0) example_stack"
  using stack_reaches_operation [of "new_context ''d'' 8 False 0" example_stack]
  by (simp add: new_context_def file_inv_def)

end
