(* ===== verification/Etw_Extraction.thy ===== *)
theory Etw_Extraction
  imports Etw_File_Io
begin

text \<open>
  The extraction callback (\<^verbatim>\<open>dbgatlas_etw.cpp\<close>, \<^verbatim>\<open>write_extracted_event\<close> and
  \<^verbatim>\<open>event_record_callback\<close>) and a whole extraction: the callback over the events of a trace, then the
  flush of the waiting file operations.
\<close>

section \<open>Operations\<close>

definition event_process_pid :: "event_record \<Rightarrow> event_metadata \<Rightarrow> u32" where
  "event_process_pid record metadata =
     (case md_process_pid metadata of Some pid \<Rightarrow> pid | None \<Rightarrow> ev_process_id record)"

definition write_extracted_event ::
  "platform \<Rightarrow> extraction_world \<Rightarrow> event_record \<Rightarrow> event_metadata \<Rightarrow> string \<Rightarrow> extraction_world" where
  "write_extracted_event p w record metadata category =
     (let (allowed, w1) = process_tree_allows_event w metadata category (ev_process_id record) in
      if \<not> allowed then skip_event w1
      else
        let (opened, w2) = open_append p (category @ ''.jsonl'') w1 in
        if \<not> opened then skip_event w2
        else
          let process_pid = event_process_pid record metadata;
              w3 = (if category = ''image'' then update_module_map w2 metadata (event_type_of metadata) process_pid else w2);
              (frames, w4) = stack_frames w3 record process_pid;
              file = (events_dir w4, category @ ''.jsonl'')
          in w4\<lparr>out_files := (out_files w4)(file := out_files w4 file @ event_line record metadata category process_pid frames),
                files_written := insert category (files_written w4),
                events_written := events_written w4 + 1\<rparr>)"

text \<open>Image events feed the module table whether or not the image preset is on.\<close>

definition learn_image ::
  "extraction_world \<Rightarrow> event_record \<Rightarrow> event_metadata \<Rightarrow> string \<Rightarrow> extraction_world" where
  "learn_image w record metadata raw_category =
     (if raw_category = ''image'' then
        let (allowed, w1) = process_tree_allows_event w metadata raw_category (ev_process_id record)
        in if allowed then update_module_map w1 metadata (event_type_of metadata) (event_process_pid record metadata) else w1
      else w)"

definition handle_event :: "platform \<Rightarrow> extraction_world \<Rightarrow> event_record \<Rightarrow> event_metadata \<Rightarrow> extraction_world" where
  "handle_event p w record metadata =
     (case decode_stack_walk_event record metadata of
        Some stack \<Rightarrow> process_stack_walk_event w stack
      | None \<Rightarrow>
          (case event_category (md_names metadata) of
             None \<Rightarrow> skip_event w
           | Some raw_category \<Rightarrow>
               let w1 = learn_image w record metadata raw_category
               in if is_known_file_io_event record (Some raw_category) then process_file_io_event p w1 record metadata
                  else if preset_enabled (preset_flags w1) raw_category
                  then write_extracted_event p w1 record metadata raw_category
                  else skip_event w1))"

definition event_record_callback :: "platform \<Rightarrow> extraction_world \<Rightarrow> event_record \<Rightarrow> extraction_world throws" where
  "event_record_callback p w record =
     (case event_metadata p record of
        Inl e \<Rightarrow> Inl e
      | Inr metadata \<Rightarrow> Inr (handle_event p w record metadata))"

text \<open>The callback over the records a trace delivers; an exception ends the delivery.\<close>

fun deliver :: "platform \<Rightarrow> extraction_world \<Rightarrow> event_record list \<Rightarrow> extraction_world throws" where
  "deliver p w [] = Inr w"
| "deliver p w (record # records) =
     (case event_record_callback p w record of
        Inl e \<Rightarrow> Inl e
      | Inr w' \<Rightarrow> deliver p w' records)"

text \<open>A whole extraction from a fresh context, as \<^verbatim>\<open>da_etw_extract_file_events\<close> runs it.\<close>

definition extract_events ::
  "platform \<Rightarrow> string \<Rightarrow> u32 \<Rightarrow> bool \<Rightarrow> u32 \<Rightarrow> event_record list \<Rightarrow> extraction_world throws" where
  "extract_events p dir flags has_root root records =
     map_sum id (flush_pending_file_events p)
       (deliver p (initialize_process_tree (new_context dir flags has_root root)) records)"

section \<open>The invariant\<close>

text \<open>
  The context invariant: the bounded stack cache, distinct module bases, well-formed waiting operations, and the root in
  the tree.
\<close>

definition context_inv :: "'a extraction_context_scheme \<Rightarrow> bool" where
  "context_inv w \<longleftrightarrow> stacks_inv w \<and> modules_wf w \<and> file_inv w \<and> (has_root_pid w \<longrightarrow> root_pid w \<in> process_tree_pids w)"

lemma stacks_inv_cong:
  "pending_stacks_by_timestamp w' = pending_stacks_by_timestamp w \<Longrightarrow>
   pending_stack_timestamp_order w' = pending_stack_timestamp_order w \<Longrightarrow> has_root_pid w' = has_root_pid w \<Longrightarrow>
   process_tree_pids w \<subseteq> process_tree_pids w' \<Longrightarrow> stacks_inv w \<Longrightarrow> stacks_inv w'"
  unfolding stacks_inv_def by (metis (no_types, lifting) subsetD)

lemma modules_wf_cong: "modules_by_pid w' = modules_by_pid w \<Longrightarrow> modules_wf w \<Longrightarrow> modules_wf w'"
  by (simp add: modules_wf_def modules_of_def)

lemma context_inv_cong:
  assumes "context_inv w" "pending_stacks_by_timestamp w' = pending_stacks_by_timestamp w"
    "pending_stack_timestamp_order w' = pending_stack_timestamp_order w" "has_root_pid w' = has_root_pid w"
    "process_tree_pids w \<subseteq> process_tree_pids w'" "modules_by_pid w' = modules_by_pid w"
    "pending_file_irps w' = pending_file_irps w" "root_pid w' = root_pid w"
  shows "context_inv w'"
  using assms stacks_inv_cong [of w' w] modules_wf_cong [of w' w] file_inv_cong [of w' w]
  by (auto simp: context_inv_def)

lemma open_append_frame [simp]:
  "has_root_pid (snd (open_append p name w)) = has_root_pid w"
  "root_pid (snd (open_append p name w)) = root_pid w"
  "process_tree_pids (snd (open_append p name w)) = process_tree_pids w"
  "preset_flags (snd (open_append p name w)) = preset_flags w"
  "events_dir (snd (open_append p name w)) = events_dir w"
  "pending_stacks_by_timestamp (snd (open_append p name w)) = pending_stacks_by_timestamp w"
  "pending_stack_timestamp_order (snd (open_append p name w)) = pending_stack_timestamp_order w"
  "modules_by_pid (snd (open_append p name w)) = modules_by_pid w"
  "pending_file_irps (snd (open_append p name w)) = pending_file_irps w"
  "events_written (snd (open_append p name w)) = events_written w"
  "skipped_events (snd (open_append p name w)) = skipped_events w"
  "out_files (snd (open_append p name w)) = out_files w"
  "files_written (snd (open_append p name w)) = files_written w"
  by (simp_all add: open_append_def)

lemma update_module_map_more [simp]:
  "root_pid (update_module_map w m ty pid) = root_pid w"
  "events_dir (update_module_map w m ty pid) = events_dir w"
  "events_written (update_module_map w m ty pid) = events_written w"
  "skipped_events (update_module_map w m ty pid) = skipped_events w"
  "files_written (update_module_map w m ty pid) = files_written w"
  by (simp_all add: update_module_map_def Let_def split: option.split)

lemma stack_frames_frame [simp]:
  "has_root_pid (snd (stack_frames w r pid)) = has_root_pid w"
  "root_pid (snd (stack_frames w r pid)) = root_pid w"
  "process_tree_pids (snd (stack_frames w r pid)) = process_tree_pids w"
  "preset_flags (snd (stack_frames w r pid)) = preset_flags w"
  "events_dir (snd (stack_frames w r pid)) = events_dir w"
  "modules_by_pid (snd (stack_frames w r pid)) = modules_by_pid w"
  "pending_file_irps (snd (stack_frames w r pid)) = pending_file_irps w"
  "events_written (snd (stack_frames w r pid)) = events_written w"
  "skipped_events (snd (stack_frames w r pid)) = skipped_events w"
  "files_written (snd (stack_frames w r pid)) = files_written w"
  by (simp_all add: stack_frames_def stack_frames_from_addresses_def frame_walk_spec Let_def case_prod_unfold)

lemma tree_more [simp]:
  "events_dir (snd (process_tree_allows_event w m cat pid)) = events_dir w"
  "events_written (snd (process_tree_allows_event w m cat pid)) = events_written w"
  "skipped_events (snd (process_tree_allows_event w m cat pid)) = skipped_events w"
  "files_written (snd (process_tree_allows_event w m cat pid)) = files_written w"
  by (simp_all add: process_tree_allows_event_def Let_def)

lemma world_out_files [simp]:
  "out_files (update_module_map w m ty pid) = out_files w" "out_files (snd (stack_frames w r pid)) = out_files w"
  "out_files (snd (process_tree_allows_event w m cat pid)) = out_files w" "out_files (skip_event w) = out_files w"
  for w :: extraction_world
  by (simp_all add: update_module_map_def stack_frames_def stack_frames_from_addresses_def frame_walk_spec
      take_matching_pending_stack_def process_tree_allows_event_def skip_event_def Let_def case_prod_unfold split: option.split)

lemma stack_frames_stacks:
  "pending_stacks_by_timestamp (snd (stack_frames w r pid)) =
     pending_stacks_by_timestamp (snd (take_matching_pending_stack w (ev_timestamp r) pid (ev_thread_id r)))"
  "pending_stack_timestamp_order (snd (stack_frames w r pid)) = pending_stack_timestamp_order w"
  by (simp_all add: stack_frames_def stack_frames_from_addresses_def frame_walk_spec Let_def case_prod_unfold)

lemma context_inv_tree [inv_intros]: "context_inv w \<Longrightarrow> context_inv (snd (process_tree_allows_event w m cat pid))"
  by (erule context_inv_cong) (simp_all add: tree_mono)

lemma context_inv_skip [inv_intros]: "context_inv w \<Longrightarrow> context_inv (skip_event w)"
  by (erule context_inv_cong) simp_all

lemma context_inv_open [inv_intros]: "context_inv w \<Longrightarrow> context_inv (snd (open_append p name w))"
  by (erule context_inv_cong) simp_all

lemma context_inv_update_module_map [inv_intros]:
  assumes "context_inv w"
  shows "context_inv (update_module_map w m ty pid)"
  using assms update_module_map_wf [of w m ty pid] stacks_inv_cong [of "update_module_map w m ty pid" w]
    file_inv_cong [of "update_module_map w m ty pid" w]
  by (simp add: context_inv_def)

lemma context_inv_stack_frames [inv_intros]:
  assumes "context_inv w"
  shows "context_inv (snd (stack_frames w r pid))"
proof -
  let ?t = "snd (take_matching_pending_stack w (ev_timestamp r) pid (ev_thread_id r))"
  have "stacks_inv ?t" using assms by (intro inv_intros) (simp add: context_inv_def)
  then have "stacks_inv (snd (stack_frames w r pid))"
    by (rule stacks_inv_cong [rotated 4]) (simp_all add: stack_frames_stacks)
  then show ?thesis
    using assms modules_wf_cong [of "snd (stack_frames w r pid)" w] file_inv_cong [of "snd (stack_frames w r pid)" w]
    by (simp add: context_inv_def)
qed

lemma write_extracted_event_inv [inv_intros]:
  assumes "context_inv w"
  shows "context_inv (write_extracted_event p w r m cat)"
proof -
  have out: "context_inv (v\<lparr>out_files := x, files_written := y, events_written := z\<rparr>)" if "context_inv v" for v x y z
    using that by (rule context_inv_cong) simp_all
  show ?thesis
    using assms by (auto simp: write_extracted_event_def Let_def case_prod_unfold intro!: inv_intros out)
qed

lemma cache_pending_stack_frame [simp]:
  "modules_by_pid (cache_pending_stack w s) = modules_by_pid w" "root_pid (cache_pending_stack w s) = root_pid w"
  by (auto simp: cache_pending_stack_def store_stack_def register_timestamp_def evict_oldest_def drop_stack_walks_def Let_def
      split: list.split option.split)

lemma attach_stack_frame [simp]:
  "pending_stacks_by_timestamp (snd (attach_stack_to_pending_file w s)) = pending_stacks_by_timestamp w"
  "pending_stack_timestamp_order (snd (attach_stack_to_pending_file w s)) = pending_stack_timestamp_order w"
  "has_root_pid (snd (attach_stack_to_pending_file w s)) = has_root_pid w"
  "root_pid (snd (attach_stack_to_pending_file w s)) = root_pid w"
  "process_tree_pids (snd (attach_stack_to_pending_file w s)) = process_tree_pids w"
  "modules_by_pid (snd (attach_stack_to_pending_file w s)) = modules_by_pid w"
  by (simp_all add: attach_stack_to_pending_file_def split: option.split)

lemma context_inv_attach: "context_inv w \<Longrightarrow> context_inv (snd (attach_stack_to_pending_file w s))"
  using attach_stack_inv [of w s] stacks_inv_cong [of "snd (attach_stack_to_pending_file w s)" w]
    modules_wf_cong [of "snd (attach_stack_to_pending_file w s)" w]
  by (simp add: context_inv_def)

lemma context_inv_cache: "context_inv w \<Longrightarrow> context_inv (cache_pending_stack w s)"
  using cache_pending_stack_inv [of w s] modules_wf_cong [of "cache_pending_stack w s" w]
    file_inv_cong [of "cache_pending_stack w s" w]
  by (simp add: context_inv_def)

lemma context_inv_stack_walk [inv_intros]: "context_inv w \<Longrightarrow> context_inv (process_stack_walk_event w s)"
  using context_inv_attach [of w s] context_inv_cache [of "snd (attach_stack_to_pending_file w s)" s]
  by (simp add: process_stack_walk_event_def Let_def case_prod_unfold)

lemma process_operation_frame [simp]:
  "has_root_pid (process_operation p w oc e) = has_root_pid w"
  "root_pid (process_operation p w oc e) = root_pid w"
  "process_tree_pids (process_operation p w oc e) = process_tree_pids w"
  "modules_by_pid (process_operation p w oc e) = modules_by_pid w"
  "pending_stacks_by_timestamp (process_operation p w oc e) = pending_stacks_by_timestamp w"
  "pending_stack_timestamp_order (process_operation p w oc e) = pending_stack_timestamp_order w"
  "events_dir (process_operation p w oc e) = events_dir w"
  by (simp_all add: process_operation_def Let_def case_prod_unfold)

lemma process_file_io_event_frame [simp]:
  "has_root_pid (process_file_io_event p w r m) = has_root_pid w"
  "root_pid (process_file_io_event p w r m) = root_pid w"
  "process_tree_pids (process_file_io_event p w r m) = process_tree_pids w"
  "modules_by_pid (process_file_io_event p w r m) = modules_by_pid w"
  "events_dir (process_file_io_event p w r m) = events_dir w"
  by (simp_all add: process_file_io_event_def Let_def case_prod_unfold)

lemma decoded_file_event_stacks_inv: "stacks_inv w \<Longrightarrow> stacks_inv (snd (decoded_file_event w r m))"
  using take_matching_pending_stack_inv by (auto simp: decoded_file_event_def Let_def case_prod_unfold)

lemma context_inv_file_io [inv_intros]:
  assumes "platform_orders p" "context_inv w"
  shows "context_inv (process_file_io_event p w r m)"
proof -
  let ?d = "snd (decoded_file_event w r m)" and ?w' = "process_file_io_event p w r m"
  have "stacks_inv w" "stacks_inv ?d"
    using assms(2) decoded_file_event_stacks_inv by (auto simp: context_inv_def)
  then have "stacks_inv ?w'"
    using stacks_inv_cong [of ?w' w] stacks_inv_cong [of ?w' ?d]
    by (auto simp: process_file_io_event_def Let_def case_prod_unfold)
  moreover have "file_inv ?w'"
    using assms platform_ordersD(3) by (auto simp: context_inv_def intro: inv_intros)
  ultimately show ?thesis
    using assms(2) modules_wf_cong [of ?w' w] by (simp add: context_inv_def)
qed

lemma learn_image_inv [inv_intros]: "context_inv w \<Longrightarrow> context_inv (learn_image w r m cat)"
  by (auto simp: learn_image_def Let_def case_prod_unfold intro!: inv_intros)

lemma handle_event_inv [inv_intros]:
  "platform_orders p \<Longrightarrow> context_inv w \<Longrightarrow> context_inv (handle_event p w r m)"
  by (auto simp: handle_event_def Let_def intro!: inv_intros split: option.split)

lemma deliver_invariant:
  assumes "\<And>v r m. event_metadata p r = Inr m \<Longrightarrow> I v \<Longrightarrow> I (handle_event p v r m)" "I w" "deliver p w rs = Inr w'"
  shows "I w'"
  using assms(2,3)
  by (induction rs arbitrary: w) (auto simp: event_record_callback_def intro: assms(1) split: sum.splits)

section \<open>The output\<close>

definition jsonl :: "string \<Rightarrow> bool" where
  "jsonl s \<longleftrightarrow> (\<exists>docs. s = concat (map (\<lambda>j. render j @ [newline]) docs))"

definition lines :: "string \<Rightarrow> nat" where
  "lines s = length (filter (\<lambda>c. c = newline) s)"

definition category_file :: "'a extraction_context_scheme \<Rightarrow> string \<Rightarrow> string \<times> string" where
  "category_file w category = (events_dir w, category @ ''.jsonl'')"

definition total_lines :: "extraction_world \<Rightarrow> nat" where
  "total_lines w = (\<Sum>c\<in>event_categories. lines (out_files w (category_file w c)))"

definition outputs_ok :: "extraction_world \<Rightarrow> bool" where
  "outputs_ok w \<longleftrightarrow>
     (\<forall>f. jsonl (out_files w f))
     \<and> (\<forall>f. out_files w f \<noteq> [] \<longrightarrow> f \<in> category_file w ` event_categories)
     \<and> files_written w = {c \<in> event_categories. out_files w (category_file w c) \<noteq> []}
     \<and> of_nat (total_lines w) = events_written w"

lemma jsonl_append: "jsonl s \<Longrightarrow> jsonl (s @ render j @ [newline])"
proof -
  assume "jsonl s"
  then obtain docs where "s = concat (map (\<lambda>j. render j @ [newline]) docs)" by (auto simp: jsonl_def)
  then have "s @ render j @ [newline] = concat (map (\<lambda>j. render j @ [newline]) (docs @ [j]))" by simp
  then show ?thesis unfolding jsonl_def by blast
qed

lemma lines_append: "lines (s @ render j @ [newline]) = Suc (lines s)"
  using render_one_line [of j] by (auto simp: lines_def filter_empty_conv)

lemma category_file_inject [simp]: "category_file w a = category_file w b \<longleftrightarrow> a = b"
  by (simp add: category_file_def)

lemma finite_event_categories [simp]: "finite event_categories"
  by (simp add: event_categories_def)

lemma outputs_ok_append:
  assumes "outputs_ok w" "c \<in> event_categories" "line = render j @ [newline]"
  shows "outputs_ok (w\<lparr>out_files := (out_files w)(category_file w c := out_files w (category_file w c) @ line),
     files_written := insert c (files_written w), events_written := events_written w + 1\<rparr>)"
proof -
  let ?o = "(out_files w)(category_file w c := out_files w (category_file w c) @ line)"
  let ?w = "w\<lparr>out_files := ?o, files_written := insert c (files_written w), events_written := events_written w + 1\<rparr>"
  have cat: "category_file ?w = category_file w" by (simp add: category_file_def fun_eq_iff)
  have rest: "(\<Sum>d\<in>event_categories - {c}. lines (?o (category_file w d)))
      = (\<Sum>d\<in>event_categories - {c}. lines (out_files w (category_file w d)))"
    by (rule sum.cong) auto
  have total: "total_lines ?w = Suc (total_lines w)"
  proof -
    have "total_lines ?w = (\<Sum>d\<in>event_categories. lines (?o (category_file w d)))"
      unfolding total_lines_def cat by simp
    also have "\<dots> = lines (?o (category_file w c)) + (\<Sum>d\<in>event_categories - {c}. lines (?o (category_file w d)))"
      using assms(2) by (simp add: sum.remove)
    finally show ?thesis
      unfolding rest using assms(2,3) by (simp add: total_lines_def sum.remove [of _ c] lines_append)
  qed
  have js: "jsonl (out_files w f)" for f
    using assms(1) unfolding outputs_ok_def by blast
  have "jsonl (?o f)" for f
    using js [of f] js [of "category_file w c"] assms(3) by (simp add: jsonl_append)
  moreover have "?o f \<noteq> [] \<longrightarrow> f \<in> category_file w ` event_categories" for f
    using assms(1,2) unfolding outputs_ok_def by (cases f) auto
  moreover have "insert c (files_written w) = {d \<in> event_categories. ?o (category_file w d) \<noteq> []}"
    using assms unfolding outputs_ok_def by auto
  moreover have "of_nat (total_lines w) = events_written w"
    using assms(1) unfolding outputs_ok_def by blast
  ultimately show ?thesis
    unfolding outputs_ok_def cat total by simp
qed

lemma outputs_ok_cong:
  assumes "outputs_ok w" "out_files w' = out_files w" "events_dir w' = events_dir w"
    "files_written w' = files_written w" "events_written w' = events_written w"
  shows "outputs_ok w'"
  using assms by (simp add: outputs_ok_def total_lines_def category_file_def)

lemma world_frame [simp]:
  "out_files (remove_file_path w e) = out_files w" "out_files (unmatched_op_end w) = out_files w"
  "out_files (count_reused_irp w) = out_files w" "out_files (forget_cleaned_paths w e) = out_files w"
  "out_files (process_stack_walk_event w s) = out_files w" "out_files (learn_image w r m cat) = out_files w"
  for w :: extraction_world
proof -
  have out: "out_files (erase_object_path a v) = out_files v" "out_files (erase_key_path a v) = out_files v"
    for a and v :: extraction_world
    by (simp_all add: erase_object_path_def erase_key_path_def split: option.split)
  then show "out_files (remove_file_path w e) = out_files w" "out_files (forget_cleaned_paths w e) = out_files w"
    by (simp_all add: remove_file_path_def forget_cleaned_paths_def Let_def split: option.split)
  show "out_files (unmatched_op_end w) = out_files w" "out_files (count_reused_irp w) = out_files w"
    by (simp_all add: unmatched_op_end_def count_reused_irp_def)
  show "out_files (process_stack_walk_event w s) = out_files w"
    by (auto simp: process_stack_walk_event_def attach_stack_to_pending_file_def cache_pending_stack_def store_stack_def
        register_timestamp_def evict_oldest_def drop_stack_walks_def Let_def split: list.split option.split)
  show "out_files (learn_image w r m cat) = out_files w"
    by (simp add: learn_image_def Let_def case_prod_unfold)
qed

lemma stack_walk_frame [simp]:
  "events_dir (process_stack_walk_event w s) = events_dir w" "files_written (process_stack_walk_event w s) = files_written w"
  "events_written (process_stack_walk_event w s) = events_written w"
  by (auto simp: process_stack_walk_event_def attach_stack_to_pending_file_def cache_pending_stack_def store_stack_def
        register_timestamp_def evict_oldest_def drop_stack_walks_def Let_def split: list.split option.split)

lemma learn_image_frame [simp]:
  "events_dir (learn_image w r m cat) = events_dir w" "files_written (learn_image w r m cat) = files_written w"
  "events_written (learn_image w r m cat) = events_written w"
  by (simp_all add: learn_image_def Let_def case_prod_unfold)

lemma outputs_ok_frame [inv_intros]:
  "outputs_ok w \<Longrightarrow> outputs_ok (remove_file_path w e)" "outputs_ok w \<Longrightarrow> outputs_ok (unmatched_op_end w)"
  "outputs_ok w \<Longrightarrow> outputs_ok (count_reused_irp w)" "outputs_ok w \<Longrightarrow> outputs_ok (forget_cleaned_paths w e)"
  "outputs_ok w \<Longrightarrow> outputs_ok (process_stack_walk_event w s)" "outputs_ok w \<Longrightarrow> outputs_ok (learn_image w r m cat)"
  "outputs_ok w \<Longrightarrow> outputs_ok (matched_op_end w)" "outputs_ok w \<Longrightarrow> outputs_ok (erase_pending irp w)"
  "outputs_ok w \<Longrightarrow> outputs_ok (skip_event w)" "outputs_ok w \<Longrightarrow> outputs_ok (cache_file_path w e)"
  "outputs_ok w \<Longrightarrow> outputs_ok (snd (resolve_file_path w e))" "outputs_ok w \<Longrightarrow> outputs_ok (snd (decoded_file_event w r m))"
  "outputs_ok w \<Longrightarrow> outputs_ok (w\<lparr>ignored_file_irps := I\<rparr>)" "outputs_ok w \<Longrightarrow> outputs_ok (w\<lparr>file_io_raw_sequence := n\<rparr>)"
  "outputs_ok w \<Longrightarrow> outputs_ok (w\<lparr>pending_file_irps := ps\<rparr>)" "outputs_ok w \<Longrightarrow> outputs_ok (w\<lparr>quality := q\<rparr>)"
  "outputs_ok w \<Longrightarrow> outputs_ok (snd (open_append p name w))" "outputs_ok w \<Longrightarrow> outputs_ok (update_module_map w m ty pid)"
  "outputs_ok w \<Longrightarrow> outputs_ok (snd (process_tree_allows_event w m cat pid))"
  "outputs_ok w \<Longrightarrow> outputs_ok (snd (stack_frames w r pid))"
  "outputs_ok w \<Longrightarrow> outputs_ok (snd (stack_frames_from_addresses w as pid))"
  by (erule outputs_ok_cong; simp add: stack_frames_from_addresses_def frame_walk_spec)+

lemma file_is_category [simp]: "''file'' \<in> event_categories"
  by (simp add: event_categories_def)

lemma write_file_event_ok [inv_intros]:
  assumes "outputs_ok w"
  shows "outputs_ok (write_file_event p w e)"
proof -
  let ?w1 = "snd (open_append p ''file.jsonl'' w)"
  let ?f = "stack_frames_from_addresses ?w1 (fe_stack_addresses e) (fe_pid e)"
  have ok: "outputs_ok (snd ?f)" "outputs_ok (skip_event ?w1)" using assms by (auto intro!: inv_intros)
  have "category_file (snd ?f) ''file'' = (events_dir (snd ?f), ''file.jsonl'')" by (simp add: category_file_def)
  then show ?thesis
    using ok(2) outputs_ok_append [OF ok(1) file_is_category file_event_line_text [of e "fst ?f"]]
    by (simp add: write_file_event_def skip_event_def Let_def case_prod_unfold)
qed

lemma outputs_ok_if: "outputs_ok v \<Longrightarrow> outputs_ok w \<Longrightarrow> outputs_ok (if b then v else w)"
  by simp

lemma write_extracted_event_ok [inv_intros]:
  assumes "outputs_ok w" "cat \<in> event_categories"
  shows "outputs_ok (write_extracted_event p w r m cat)"
proof -
  have append: "outputs_ok (v\<lparr>out_files := (out_files v)((events_dir v, cat @ ''.jsonl'') :=
      out_files v (events_dir v, cat @ ''.jsonl'') @ event_line r m cat pid frames),
      files_written := insert cat (files_written v), events_written := events_written v + 1\<rparr>)"
    if "outputs_ok v" for v pid frames
    using outputs_ok_append [OF that assms(2) event_line_text [OF assms(2)]] by (simp add: category_file_def)
  show ?thesis
    unfolding write_extracted_event_def Let_def case_prod_unfold
    by (intro outputs_ok_if append inv_intros assms(1))
qed

lemma begin_operation_ok [inv_intros]: "outputs_ok w \<Longrightarrow> outputs_ok (begin_operation p w e)"
  by (auto simp: begin_operation_def Let_def intro!: inv_intros split: option.split)

lemma process_close_ok [inv_intros]: "outputs_ok w \<Longrightarrow> outputs_ok (process_close p w e)"
  by (auto simp: process_close_def Let_def intro!: inv_intros split: option.split)

lemma process_op_end_ok [inv_intros]: "outputs_ok w \<Longrightarrow> outputs_ok (process_op_end p w e)"
  by (auto simp: process_op_end_def intro!: inv_intros split: option.split)

lemma process_operation_ok [inv_intros]: "outputs_ok w \<Longrightarrow> outputs_ok (process_operation p w oc e)"
  by (auto simp: process_operation_def Let_def case_prod_unfold intro!: inv_intros)

lemma process_file_io_event_ok [inv_intros]: "outputs_ok w \<Longrightarrow> outputs_ok (process_file_io_event p w r m)"
  by (auto simp: process_file_io_event_def Let_def case_prod_unfold intro!: inv_intros)

lemma handle_event_ok [inv_intros]: "outputs_ok w \<Longrightarrow> outputs_ok (handle_event p w r m)"
  by (auto simp: handle_event_def Let_def intro!: inv_intros split: option.split dest: event_category_range)

lemma flush_ok [inv_intros]:
  assumes "outputs_ok w"
  shows "outputs_ok (flush_pending_file_events p w)"
proof -
  have "outputs_ok (foldl (write_file_event p) v es)" if "outputs_ok v" for v es
    using that by (induction es arbitrary: v) (auto intro: inv_intros)
  then show ?thesis
    unfolding flush_pending_file_events_def Let_def using assms outputs_ok_cong [of w] by simp
qed

section \<open>Properties\<close>

lemma initial_context_inv: "context_inv (initialize_process_tree (new_context dir flags has_root root))"
  by (simp add: context_inv_def stacks_inv_def modules_wf_def modules_of_def file_inv_def initialize_process_tree_def new_context_def)

lemma initial_outputs_ok: "outputs_ok (initialize_process_tree (new_context dir flags has_root root))"
proof -
  have "jsonl []" by (simp add: jsonl_def exI [of _ "[]"])
  then show ?thesis
    by (simp add: outputs_ok_def total_lines_def lines_def initialize_process_tree_def new_context_def)
qed

lemma example_delivery:
  "deliver sample_platform (initialize_process_tree (new_context ''d'' 8 True 7)) [example_process_event]
     = Inr (skip_event (initialize_process_tree (new_context ''d'' 8 True 7)))"
proof -
  have "event_metadata sample_platform example_process_event = Inr empty_metadata"
    by (simp add: event_metadata_def sample_platform_def)
  moreover have "decode_stack_walk_event example_process_event empty_metadata = None"
    by (simp add: decode_stack_walk_event_def example_process_event_def DA_ClassicProcessGuid_def DA_StackWalkGuid_def)
  moreover have "event_category (md_names empty_metadata) = None"
    by code_simp
  ultimately show ?thesis
    by (simp add: event_record_callback_def handle_event_def)
qed

text \<open>
  C10 The context invariant holds throughout an extraction. Whatever records a trace delivers, if the callback does not throw then
  afterwards the stack cache is within its bounds and consistent, no process has two modules at one base, the
  waiting operations are keyed by their IRP without duplicates and belong to processes of the tree,
  and the root is in the tree.
\<close>

theorem extraction_invariant:
  assumes "platform_orders p"
    and "deliver p (initialize_process_tree (new_context dir flags has_root root)) records = Inr w"
  shows "context_inv w"
  using deliver_invariant [of p context_inv, OF _ initial_context_inv assms(2)] assms(1) by (auto intro: inv_intros)

theorem extraction_invariant_witness:
  "context_inv (skip_event (initialize_process_tree (new_context ''d'' 8 True 7)))"
  by (rule extraction_invariant [OF platform_orders_sample example_delivery])

text \<open>
  C1 The output of an extraction. When an extraction ends without an exception, what it appended to every output file is a sequence of complete JSON lines,
  only the six category files of the events directory were written, the reported set of files is exactly the set of
  those it appended to, the reported number of events is the number of lines (32-bit), and no file operation is left waiting.
\<close>

theorem extraction_output:
  assumes "extract_events p dir flags has_root root records = Inr w"
  shows "(\<forall>f. \<exists>docs. out_files w f = concat (map (\<lambda>j. render j @ [newline]) docs))
    \<and> (\<forall>f. out_files w f \<noteq> [] \<longrightarrow> f \<in> category_file w ` event_categories)
    \<and> files_written w = {c \<in> event_categories. out_files w (category_file w c) \<noteq> []}
    \<and> of_nat (total_lines w) = events_written w
    \<and> pending_file_irps w = []"
proof -
  let ?c = "initialize_process_tree (new_context dir flags has_root root)"
  from assms obtain v where v: "deliver p ?c records = Inr v" "w = flush_pending_file_events p v"
    by (auto simp: extract_events_def map_sum_def split: sum.splits)
  have "outputs_ok v"
    using deliver_invariant [of p outputs_ok, OF _ initial_outputs_ok v(1)] by (auto intro: inv_intros)
  then have "outputs_ok w" unfolding v(2) by (intro inv_intros)
  then show ?thesis
    unfolding outputs_ok_def jsonl_def using flush_accounted(2) [of p v] v(2) by blast
qed

theorem extraction_output_witness:
  "\<exists>w. extract_events sample_platform ''d'' 8 True 7 [] = Inr w \<and> of_nat (total_lines w) = events_written w
     \<and> files_written w = {c \<in> event_categories. out_files w (category_file w c) \<noteq> []}"
proof -
  have "extract_events sample_platform ''d'' 8 True 7 [] =
      Inr (flush_pending_file_events sample_platform (initialize_process_tree (new_context ''d'' 8 True 7)))"
    by (simp add: extract_events_def)
  with extraction_output [OF this] show ?thesis by blast
qed

lemma tree_growth:
  "cat \<noteq> ''process'' \<Longrightarrow> process_tree_pids (snd (process_tree_allows_event w m cat pid)) = process_tree_pids w"
  by (simp add: process_tree_allows_event_def)

lemma write_extracted_event_tree:
  "process_tree_pids (write_extracted_event p w r m cat) =
     process_tree_pids (snd (process_tree_allows_event w m cat (ev_process_id r)))"
  "preset_flags (write_extracted_event p w r m cat) = preset_flags w"
  by (simp_all add: write_extracted_event_def Let_def case_prod_unfold)

lemma stack_walk_tree [simp]:
  "process_tree_pids (process_stack_walk_event w s) = process_tree_pids w"
  "preset_flags (process_stack_walk_event w s) = preset_flags w"
  by (auto simp: process_stack_walk_event_def attach_stack_to_pending_file_def cache_pending_stack_def store_stack_def
        register_timestamp_def evict_oldest_def drop_stack_walks_def Let_def split: list.split option.split)

lemma learn_image_tree [simp]:
  "process_tree_pids (learn_image w r m cat) = process_tree_pids w" "preset_flags (learn_image w r m cat) = preset_flags w"
  "has_root_pid (learn_image w r m cat) = has_root_pid w"
  by (simp_all add: learn_image_def tree_growth Let_def case_prod_unfold)

lemma handle_event_tree:
  assumes "\<not> preset_enabled (preset_flags w) ''process''"
  shows "process_tree_pids (handle_event p w r m) = process_tree_pids w \<and> preset_flags (handle_event p w r m) = preset_flags w"
proof -
  have cat: "cat \<noteq> ''process''" if "preset_enabled (preset_flags w) cat" for cat using that assms by blast
  show ?thesis
    by (auto simp: handle_event_def Let_def write_extracted_event_tree tree_growth [OF cat] split: option.split)
qed

text \<open>
  The process tree only grows with the process preset. In an extraction for a root pid whose preset flags leave out the process
  preset, the tree stays the root alone whatever process-start events the trace has, so events of child processes are filtered out.
\<close>

theorem tree_needs_process_preset:
  assumes "deliver p (initialize_process_tree (new_context dir flags True root)) records = Inr w"
    and "flags AND DA_ETW_PRESET_PROCESS = 0"
  shows "process_tree_pids w = {root}"
proof -
  let ?I = "\<lambda>v. process_tree_pids v = {root} \<and> \<not> preset_enabled (preset_flags v) ''process''"
  have "?I (initialize_process_tree (new_context dir flags True root))"
    using assms(2) by (simp add: initialize_process_tree_def new_context_def preset_enabled_def)
  then show ?thesis
    using deliver_invariant [of p ?I, OF _ _ assms(1)] handle_event_tree by simp
qed

theorem tree_needs_process_preset_witness:
  "process_tree_pids (skip_event (initialize_process_tree (new_context ''d'' 8 True 7))) = {7}"
  by (rule tree_needs_process_preset [of sample_platform "''d''" 8 7 "[example_process_event]"])
    (simp_all only: example_delivery, simp)

text \<open>
  Events of other processes leave no trace in the output: when a root pid is set, an event that is neither a stack walk
  nor a process event nor a known file event, and whose header pid is not in the tree, writes nothing, teaches no module,
  and is counted as skipped.
\<close>

theorem foreign_event_skipped:
  assumes "has_root_pid w" "ev_process_id r \<notin> process_tree_pids w"
    and "decode_stack_walk_event r m = None" "event_category (md_names m) = Some cat" "cat \<noteq> ''process''"
    and "\<not> is_known_file_io_event r (Some cat)"
  shows "handle_event p w r m = skip_event w"
proof -
  have refuse: "process_tree_allows_event w m cat (ev_process_id r) = (False, w)"
    using assms by (simp add: process_tree_allows_event_def)
  then have "learn_image w r m cat = w" by (auto simp: learn_image_def)
  then show ?thesis using assms refuse by (simp add: handle_event_def write_extracted_event_def)
qed

definition example_image_event :: event_metadata where
  "example_image_event = empty_metadata\<lparr>md_names := \<lparr>names_provider = [], names_task = ''Image'', names_opcode = ''Load''\<rparr>\<rparr>"

theorem foreign_event_skipped_witness:
  "handle_event sample_platform (initialize_process_tree (new_context ''d'' 4 True 7)) example_process_event example_image_event
     = skip_event (initialize_process_tree (new_context ''d'' 4 True 7))"
proof (rule foreign_event_skipped)
  show "event_category (md_names example_image_event) = Some ''image''" by code_simp
qed (simp_all add: initialize_process_tree_def new_context_def example_process_event_def decode_stack_walk_event_def
    DA_ClassicProcessGuid_def DA_StackWalkGuid_def is_known_file_io_event_def)

end
