(* ===== verification/Etw_Result.thy ===== *)
theory Etw_Result
  imports Etw_Extraction
begin

text \<open>
  The result struct handed back to the caller (\<^verbatim>\<open>result_has_field\<close>, \<^verbatim>\<open>initialize_extraction_result\<close>,
  \<^verbatim>\<open>copy_extraction_result\<close>). A caller compiled against an older header passes a smaller \<^verbatim>\<open>struct_size\<close>; the
  struct is bytes at offsets from the caller's pointer, so that writes past the caller's struct are visible.
\<close>

section \<open>Memory\<close>

type_synonym memory = "nat \<Rightarrow> u8"

definition store_bytes :: "nat \<Rightarrow> u8 list \<Rightarrow> memory \<Rightarrow> memory" where
  "store_bytes off bs mem = (\<lambda>i. if off \<le> i \<and> i < off + length bs then bs ! (i - off) else mem i)"

definition store_u32 :: "nat \<Rightarrow> u32 \<Rightarrow> memory \<Rightarrow> memory" where
  "store_u32 off v mem = store_bytes off (le_bytes 4 (unat v)) mem"

definition load_u32 :: "nat \<Rightarrow> memory \<Rightarrow> u32" where
  "load_u32 off mem = of_nat (le_nat (map mem [off..<off + 4]))"

section \<open>Operations\<close>

definition sizeof_extraction_result :: nat where
  [simp]: "sizeof_extraction_result = 56"

definition offsetof_stack_frames_total :: nat where
  [simp]: "offsetof_stack_frames_total = 16"

definition result_has_field :: "u32 \<Rightarrow> nat \<Rightarrow> nat \<Rightarrow> bool" where
  "result_has_field caller_size offset field_size \<longleftrightarrow> unat caller_size \<ge> offset + field_size"

definition initialize_extraction_result :: "memory \<Rightarrow> u32 \<times> memory" where
  "initialize_extraction_result out =
     (let caller_size = (if load_u32 0 out = 0 then of_nat offsetof_stack_frames_total else load_u32 0 out);
          clear_size = min (unat caller_size) sizeof_extraction_result
      in (caller_size, store_u32 0 (of_nat sizeof_extraction_result) (store_bytes 0 (replicate clear_size 0) out)))"

text \<open>The fields in declaration order with their offsets.\<close>

definition result_fields :: "'a extraction_context_scheme \<Rightarrow> (nat \<times> u32) list" where
  "result_fields context =
     [(4, events_written context),
      (8, of_nat (card (files_written context))),
      (12, skipped_events context),
      (16, q_stack_frames_total (quality context)),
      (20, q_stack_frames_resolved (quality context)),
      (24, q_stack_frames_unresolved (quality context)),
      (28, q_file_path_resolved (quality context)),
      (32, q_file_path_unresolved (quality context)),
      (36, q_matched_op_end (quality context)),
      (40, q_unmatched_op_end (quality context)),
      (44, q_incomplete_io (quality context)),
      (48, q_reused_irp (quality context)),
      (52, q_dropped_stack_walk (quality context))]"

definition set_result_field :: "u32 \<Rightarrow> nat \<times> u32 \<Rightarrow> memory \<Rightarrow> memory" where
  "set_result_field caller_size field out =
     (if result_has_field caller_size (fst field) 4 then store_u32 (fst field) (snd field) out else out)"

definition copy_extraction_result :: "memory \<Rightarrow> u32 \<Rightarrow> 'a extraction_context_scheme \<Rightarrow> memory" where
  "copy_extraction_result out caller_size context =
     fold (set_result_field caller_size) (result_fields context)
       (store_u32 0 (of_nat sizeof_extraction_result) out)"

section \<open>Lemmas\<close>

lemma load_store_same [simp]: "load_u32 off (store_u32 off v mem) = v"
proof -
  have "map (store_u32 off v mem) [off..<off + 4] = le_bytes 4 (unat v)"
    by (rule nth_equalityI) (simp_all add: store_u32_def store_bytes_def)
  then show ?thesis
    using unat_bound [of v] by (simp add: load_u32_def le_nat_le_bytes)
qed

lemma load_store_other:
  "a + 4 \<le> b \<or> b + 4 \<le> a \<Longrightarrow> load_u32 a (store_u32 b v mem) = load_u32 a mem"
  unfolding load_u32_def
  by (rule arg_cong [where f = "\<lambda>xs. of_nat (le_nat xs)"]) (auto simp: store_u32_def store_bytes_def)

lemma store_u32_outside: "i < off \<or> off + 4 \<le> i \<Longrightarrow> store_u32 off v mem i = mem i"
  by (auto simp: store_u32_def store_bytes_def)

lemma store_bytes_outside: "i < off \<or> off + length bs \<le> i \<Longrightarrow> store_bytes off bs mem i = mem i"
  by (auto simp: store_bytes_def)

lemma set_result_field_outside:
  "unat caller_size \<le> i \<Longrightarrow> set_result_field caller_size f mem i = mem i"
  by (auto simp: set_result_field_def result_has_field_def intro: store_u32_outside)

lemma fold_set_outside:
  "unat caller_size \<le> i \<Longrightarrow> fold (set_result_field caller_size) fs mem i = mem i"
  by (induction fs arbitrary: mem) (simp_all add: set_result_field_outside)

text \<open>A field survives the writes of fields that do not overlap it.\<close>

lemma fold_set_keeps:
  "\<forall>f \<in> set fs. a + 4 \<le> fst f \<or> fst f + 4 \<le> a \<Longrightarrow> load_u32 a (fold (set_result_field n) fs mem) = load_u32 a mem"
  by (induction fs arbitrary: mem) (auto simp: set_result_field_def load_store_other)

lemma fold_set_field:
  assumes "sorted_wrt (\<lambda>f g. fst f + 4 \<le> fst g) fs" "(off, v) \<in> set fs" "off + 4 \<le> unat n"
  shows "load_u32 off (fold (set_result_field n) fs mem) = v"
  using assms(1,2)
proof (induction fs arbitrary: mem)
  case (Cons f fs)
  show ?case
  proof (cases "f = (off, v)")
    case True
    have "load_u32 off (fold (set_result_field n) (f # fs) mem) = load_u32 off (set_result_field n f mem)"
      using Cons.prems True by (simp add: fold_set_keeps)
    also have "\<dots> = v" using True assms(3) by (simp add: set_result_field_def result_has_field_def)
    finally show ?thesis .
  qed (use Cons in auto)
qed simp

section \<open>Properties\<close>

text \<open>
  C37 The result struct respects the caller's size. Whatever size the caller declares (0 meaning the original four fields), filling
  the result changes no byte at or after the declared size (the leading size field is always written), every
  field that fits in it holds its value from the context, and the size field holds the size of the current struct.
\<close>

theorem result_within_caller_size:
  assumes "initialize_extraction_result mem = (caller_size, mem1)"
  shows "let out = copy_extraction_result mem1 caller_size context in
     caller_size = (if load_u32 0 mem = 0 then 16 else load_u32 0 mem)
     \<and> (\<forall>i \<ge> max 4 (unat caller_size). out i = mem i)
     \<and> (\<forall>(off, v) \<in> set (result_fields context). off + 4 \<le> unat caller_size \<longrightarrow> load_u32 off out = v)
     \<and> load_u32 0 out = 56"
proof -
  have c: "caller_size = (if load_u32 0 mem = 0 then 16 else load_u32 0 mem)"
    and m: "mem1 = store_u32 0 56 (store_bytes 0 (replicate (min (unat caller_size) 56) 0) mem)"
    using assms by (auto simp: initialize_extraction_result_def Let_def)
  have sorted: "sorted_wrt (\<lambda>f g. fst f + 4 \<le> fst g) (result_fields context)"
    by (simp add: result_fields_def)
  have first: "\<forall>f \<in> set (result_fields context). 0 + 4 \<le> fst f \<or> fst f + 4 \<le> 0"
    by (simp add: result_fields_def)
  have outside: "copy_extraction_result mem1 caller_size context i = mem i" if "max 4 (unat caller_size) \<le> i" for i
    using that store_bytes_outside [of i 0 "replicate (min (unat caller_size) 56) 0" mem]
    by (simp add: copy_extraction_result_def m fold_set_outside store_u32_outside min_def)
  have size: "load_u32 0 (copy_extraction_result mem1 caller_size context) = 56"
    unfolding copy_extraction_result_def by (simp only: fold_set_keeps [OF first] load_store_same) simp
  show ?thesis
    using c outside size fold_set_field [OF sorted]
    by (auto simp: Let_def copy_extraction_result_def)
qed

theorem result_within_caller_size_witness:
  "let mem = store_u32 0 16 (\<lambda>_. 0xFF); (caller_size, mem1) = initialize_extraction_result mem;
       out = copy_extraction_result mem1 caller_size (new_context ''d'' 8 False 0)
   in load_u32 0 out = 56 \<and> load_u32 4 out = 0 \<and> out 16 = 0xFF"
proof -
  let ?mem = "store_u32 0 16 (\<lambda>_. 0xFF)"
  have "?mem 16 = 0xFF" by (simp add: store_u32_outside)
  moreover have "(4, 0) \<in> set (result_fields (new_context ''d'' 8 False 0))" by (simp add: result_fields_def new_context_def)
  ultimately show ?thesis
    using result_within_caller_size [of ?mem "fst (initialize_extraction_result ?mem)"
        "snd (initialize_extraction_result ?mem)" "new_context ''d'' 8 False 0"]
    by (force simp: Let_def case_prod_unfold)
qed

end
