(* ===== verification/Etw_Filter.thy ===== *)
theory Etw_Filter
  imports Etw_Extraction
begin

text \<open>
  The trace filter (\<^verbatim>\<open>keep_stack_walk_for_filter\<close>, \<^verbatim>\<open>keep_file_completion_for_filter\<close> and the class
  \<^verbatim>\<open>FilteringReloggerCallback\<close>): which events of a trace are injected into the filtered trace. The main result is
  that an event the filter drops is one the extraction would only have counted.
\<close>

section \<open>Reference counting\<close>

record relogger_callback =
  cb_reference_count :: u32
  cb_context :: extraction_world

definition filtering_relogger_callback :: "extraction_world \<Rightarrow> relogger_callback" where
  "filtering_relogger_callback context = \<lparr>cb_reference_count = 1, cb_context = initialize_process_tree context\<rparr>"

datatype hresult = S_OK | E_POINTER | E_NOINTERFACE

definition IID_ITraceEventCallback :: guid where
  "IID_ITraceEventCallback = GUID 0x3ed25501 0x593f 0x43e9 0x8f 0x38 0x3a 0xb4 0x6f 0x5a 0x4a 0x52"

text \<open>The COM identifier of \<^verbatim>\<open>IUnknown\<close>.\<close>

definition IID_IUnknown :: guid where
  "IID_IUnknown = GUID 0x00000000 0x0000 0x0000 0xC0 0x00 0x00 0x00 0x00 0x00 0x00 0x46"

definition callback_add_ref :: "relogger_callback \<Rightarrow> u32 \<times> relogger_callback" where
  "callback_add_ref cb = (cb_reference_count cb + 1, cb\<lparr>cb_reference_count := cb_reference_count cb + 1\<rparr>)"

text \<open>The object is gone (\<open>None\<close>) when the count reaches zero.\<close>

definition callback_release :: "relogger_callback \<Rightarrow> u32 \<times> relogger_callback option" where
  "callback_release cb =
     (let count = cb_reference_count cb - 1
      in (count, if count = 0 then None else Some (cb\<lparr>cb_reference_count := count\<rparr>)))"

text \<open>
  \<open>object\<close> says whether the caller gave a place for the result; the second component is what is stored there:
  \<open>Some True\<close> for this object, \<open>Some False\<close> for a null pointer, \<open>None\<close> for no store.
\<close>

definition callback_query_interface ::
  "relogger_callback \<Rightarrow> guid \<Rightarrow> bool \<Rightarrow> hresult \<times> bool option \<times> relogger_callback" where
  "callback_query_interface cb riid object =
     (if \<not> object then (E_POINTER, None, cb)
      else if riid = IID_IUnknown \<or> riid = IID_ITraceEventCallback then (S_OK, Some True, snd (callback_add_ref cb))
      else (E_NOINTERFACE, Some False, cb))"

section \<open>The decision\<close>

definition keep_stack_walk_for_filter :: "'a extraction_context_scheme \<Rightarrow> event_record \<Rightarrow> event_metadata \<Rightarrow> bool" where
  "keep_stack_walk_for_filter context record metadata =
     (case decode_stack_walk_event record metadata of
        None \<Rightarrow> False
      | Some stack \<Rightarrow> if \<not> has_root_pid context then True else sw_process stack \<in> process_tree_pids context)"

definition keep_file_completion_for_filter ::
  "'a extraction_context_scheme \<Rightarrow> event_record \<Rightarrow> string option \<Rightarrow> bool" where
  "keep_file_completion_for_filter context record category \<longleftrightarrow>
     preset_enabled (preset_flags context) ''file'' \<and> is_known_file_io_event record category
     \<and> event_opcode record = DA_FILE_IO_OP_END"

datatype verdict = Keep | Drop | Null_category

definition keep_for_output :: "'a extraction_context_scheme \<Rightarrow> string option \<Rightarrow> bool" where
  "keep_for_output context category =
     (case category of None \<Rightarrow> False | Some c \<Rightarrow> preset_enabled (preset_flags context) c)"

text \<open>
  The condition of \<^verbatim>\<open>OnEvent\<close> with its evaluation order; \<open>Null_category\<close> stands for passing the null category to
  \<^verbatim>\<open>process_tree_allows_event\<close>, which compares it as a string.
\<close>

definition filter_event ::
  "'a extraction_context_scheme \<Rightarrow> event_record \<Rightarrow> event_metadata \<Rightarrow> verdict \<times> 'a extraction_context_scheme" where
  "filter_event context record metadata =
     (let category = event_category (md_names metadata);
          for_output = keep_for_output context category;
          for_module_map = (category = Some ''image'');
          for_stack_walk = keep_stack_walk_for_filter context record metadata;
          for_file_completion = keep_file_completion_for_filter context record category;
          needs_process_tree_filter = (\<not> for_stack_walk \<and> \<not> for_file_completion)
      in if \<not> for_output \<and> \<not> for_module_map \<and> \<not> for_stack_walk \<and> \<not> for_file_completion then (Drop, context)
         else if needs_process_tree_filter
         then (case category of
                 None \<Rightarrow> (Null_category, context)
               | Some c \<Rightarrow>
                   let (allowed, context') = process_tree_allows_event context metadata c (ev_process_id record)
                   in (if allowed then Keep else Drop, context'))
         else (Keep, context))"

section \<open>OnEvent\<close>

text \<open>
  The record is \<open>None\<close> when the event or the relogger is null or \<^verbatim>\<open>GetEventRecord\<close> fails; \<open>injected\<close> is
  whether \<^verbatim>\<open>Inject\<close> succeeds. The result has the new object and whether the event is in the filtered trace.
\<close>

definition on_event ::
  "platform \<Rightarrow> relogger_callback \<Rightarrow> event_record option \<Rightarrow> bool \<Rightarrow> (bool \<times> relogger_callback) throws" where
  "on_event p cb record injected =
     (case record of
        None \<Rightarrow> Inr (False, cb\<lparr>cb_context := skip_event (cb_context cb)\<rparr>)
      | Some r \<Rightarrow>
          (case event_metadata p r of
             Inl e \<Rightarrow> Inl e
           | Inr metadata \<Rightarrow>
               (case filter_event (cb_context cb) r metadata of
                  (Keep, context) \<Rightarrow>
                    if injected then
                      let written = context\<lparr>events_written := events_written context + 1\<rparr>
                      in Inr (True, cb\<lparr>cb_context :=
                           (case event_category (md_names metadata) of
                              None \<Rightarrow> written
                            | Some category \<Rightarrow>
                                if preset_enabled (preset_flags context) category
                                then written\<lparr>files_written := insert category (files_written written)\<rparr> else written)\<rparr>)
                    else Inr (False, cb\<lparr>cb_context := skip_event context\<rparr>)
                | (_, context) \<Rightarrow> Inr (False, cb\<lparr>cb_context := skip_event context\<rparr>))))"

text \<open>A whole filtering run: the records that are injected, with the final object.\<close>

fun filter_trace ::
  "platform \<Rightarrow> relogger_callback \<Rightarrow> (event_record \<times> bool) list \<Rightarrow> (event_record list \<times> relogger_callback) throws" where
  "filter_trace p cb [] = Inr ([], cb)"
| "filter_trace p cb ((record, injected) # events) =
     (case on_event p cb (Some record) injected of
        Inl e \<Rightarrow> Inl e
      | Inr (kept, cb') \<Rightarrow>
          (case filter_trace p cb' events of
             Inl e \<Rightarrow> Inl e
           | Inr (records, cb'') \<Rightarrow> Inr (if kept then record # records else records, cb'')))"

section \<open>Lemmas\<close>

lemma filter_event_never_null: "fst (filter_event c r m) \<noteq> Null_category"
  by (auto simp: filter_event_def keep_for_output_def Let_def case_prod_unfold split: option.splits)

lemma filter_event_tree:
  "process_tree_pids (snd (filter_event c r m)) = process_tree_pids c
   \<or> (\<exists>cat. event_category (md_names m) = Some cat
        \<and> snd (filter_event c r m) = snd (process_tree_allows_event c m cat (ev_process_id r)))"
  by (auto simp: filter_event_def Let_def case_prod_unfold split: option.splits)

text \<open>The pid of a file event as the extraction reads it: the payload's, else the header's.\<close>

definition file_event_pid :: "event_record \<Rightarrow> event_metadata \<Rightarrow> u32" where
  "file_event_pid record metadata = fe_pid (file_event_fields record metadata [])"

text \<open>
  The one kind of event on which the two sides disagree: a file operation whose payload names a process of the tree while
  the header, which alone the filter reads, names one outside it.
\<close>

definition foreign_header_operation :: "'a extraction_context_scheme \<Rightarrow> event_record \<Rightarrow> event_metadata \<Rightarrow> bool" where
  "foreign_header_operation c r m \<longleftrightarrow>
     decode_stack_walk_event r m = None \<and> is_known_file_io_event r (event_category (md_names m))
     \<and> event_opcode r \<noteq> DA_FILE_IO_OP_END \<and> preset_enabled (preset_flags c) ''file'' \<and> has_root_pid c
     \<and> ev_process_id r \<notin> process_tree_pids c \<and> (\<exists>pid. md_process_pid m = Some pid \<and> pid \<in> process_tree_pids c)"

lemma take_foreign:
  assumes "stacks_inv w" "has_root_pid w" "pid \<notin> process_tree_pids w"
  shows "take_matching_pending_stack w ts pid tid = ([], w)"
proof (cases rule: take_matching_pending_stack_cases [of w ts pid tid])
  case (hit ys s zs)
  then have "sw_process s \<in> process_tree_pids w"
    using stacks_inv_entry(3) [OF assms(1) hit(1), of s] assms(2) by simp
  with hit(2) assms(3) show ?thesis by simp
qed

lemma attach_foreign:
  assumes "file_inv w" "has_root_pid w" "sw_process s \<notin> process_tree_pids w"
  shows "process_stack_walk_event w s = drop_stack_walks 1 w"
proof -
  have "\<forall>x \<in> set (pending_file_irps w). \<not> attach_candidate s x"
    using assms by (fastforce simp: file_inv_def attach_candidate_def case_prod_unfold)
  then have "attach_scan s 0 None (pending_file_irps w) = None" by (simp add: attach_scan_None)
  then show ?thesis
    using assms(2,3) by (simp add: process_stack_walk_event_def attach_stack_to_pending_file_def cache_pending_stack_def)
qed

lemma tree_refused:
  "\<not> fst (process_tree_allows_event c m cat pid) \<Longrightarrow> snd (process_tree_allows_event c m cat pid) = c"
  "\<not> fst (process_tree_allows_event c m cat pid) \<Longrightarrow> cat \<noteq> ''process'' \<Longrightarrow>
     has_root_pid c \<and> pid \<notin> process_tree_pids c"
  by (auto simp: process_tree_allows_event_def Let_def split: if_splits)

text \<open>The filter's context and the extraction's agree on what the decision depends on.\<close>

definition same_filter :: "'a extraction_context_scheme \<Rightarrow> 'b extraction_context_scheme \<Rightarrow> bool" where
  "same_filter c w \<longleftrightarrow> has_root_pid c = has_root_pid w \<and> process_tree_pids c = process_tree_pids w
     \<and> preset_flags c = preset_flags w"

lemma tree_allows_same:
  assumes "same_filter c w"
  shows "fst (process_tree_allows_event c m cat pid) = fst (process_tree_allows_event w m cat pid)"
    "process_tree_pids (snd (process_tree_allows_event c m cat pid)) = process_tree_pids (snd (process_tree_allows_event w m cat pid))"
proof -
  have eq: "has_root_pid c = has_root_pid w" "process_tree_pids c = process_tree_pids w"
    using assms by (simp_all add: same_filter_def)
  show "fst (process_tree_allows_event c m cat pid) = fst (process_tree_allows_event w m cat pid)"
  proof (cases "has_root_pid w")
    case True
    with eq(1) have "has_root_pid c" by simp
    show ?thesis by (simp only: tree_allows_iff [OF \<open>has_root_pid c\<close>] tree_allows_iff [OF True] eq(2))
  qed (simp add: process_tree_allows_event_def eq(1))
  show "process_tree_pids (snd (process_tree_allows_event c m cat pid)) = process_tree_pids (snd (process_tree_allows_event w m cat pid))"
  proof (cases "has_root_pid w")
    case True
    with eq(1) have "has_root_pid c" by simp
    show ?thesis by (simp only: tree_after [OF \<open>has_root_pid c\<close>] tree_after [OF True] eq(2))
  qed (simp add: process_tree_allows_event_def eq)
qed

lemma filter_event_same:
  assumes "same_filter c w"
  shows "fst (filter_event c r m) = fst (filter_event w r m)"
    "process_tree_pids (snd (filter_event c r m)) = process_tree_pids (snd (filter_event w r m))"
proof -
  have keep: "keep_for_output c x = keep_for_output w x" "keep_stack_walk_for_filter c r m = keep_stack_walk_for_filter w r m"
    "keep_file_completion_for_filter c r x = keep_file_completion_for_filter w r x" for x
    using assms by (simp_all add: same_filter_def keep_for_output_def keep_stack_walk_for_filter_def
        keep_file_completion_for_filter_def split: option.split)
  have tree: "process_tree_pids c = process_tree_pids w" using assms by (simp add: same_filter_def)
  show "fst (filter_event c r m) = fst (filter_event w r m)"
    "process_tree_pids (snd (filter_event c r m)) = process_tree_pids (snd (filter_event w r m))"
    unfolding filter_event_def Let_def keep case_prod_unfold
    by (cases "event_category (md_names m)"; simp add: tree tree_allows_same [OF assms])+
qed

text \<open>What a dropped event is: a stack of a foreign process, or an event that no preset wants or that the tree refuses.\<close>

lemma filter_event_drop_cases:
  assumes "fst (filter_event w r m) = Drop"
  shows "\<not> keep_stack_walk_for_filter w r m"
    and "event_category (md_names m) = Some cat \<Longrightarrow> \<not> keep_file_completion_for_filter w r (Some cat)"
    and "event_category (md_names m) = Some cat \<Longrightarrow> preset_enabled (preset_flags w) cat \<or> cat = ''image'' \<Longrightarrow>
          \<not> fst (process_tree_allows_event w m cat (ev_process_id r))"
  using assms by (auto simp: filter_event_def keep_for_output_def Let_def case_prod_unfold split: option.splits if_splits)

lemma refused_file_event:
  assumes "context_inv w" "has_root_pid w" "file_event_pid r m \<notin> process_tree_pids w"
    and "preset_enabled (preset_flags w) ''file''" "event_opcode r \<noteq> DA_FILE_IO_OP_END"
  shows "process_file_io_event p w r m = skip_event (w\<lparr>file_io_raw_sequence := file_io_raw_sequence w + 1\<rparr>)"
proof -
  have pid: "fe_pid (file_event_fields r m []) = file_event_pid r m" by (simp add: file_event_pid_def)
  have "stacks_inv w" using assms(1) by (simp add: context_inv_def)
  from take_foreign [OF this assms(2,3)] have d: "snd (decoded_file_event w r m) = w"
      "fe_pid (fst (decoded_file_event w r m)) = file_event_pid r m"
    using assms(5) pid by (simp_all add: decoded_file_event_def Let_def case_prod_unfold)
  then show ?thesis
    using assms(2,3,4,5) by (simp add: process_file_io_event_def process_operation_def file_event_allowed_def Let_def case_prod_unfold)
qed

lemma file_event_pid_cases: "file_event_pid r m = (case md_process_pid m of Some pid \<Rightarrow> pid | None \<Rightarrow> ev_process_id r)"
  by (simp add: file_event_pid_def file_event_fields_def Let_def)

lemma dropped_event_handled:
  assumes "context_inv w" "fst (filter_event w r m) = Drop" "\<not> foreign_header_operation w r m"
  shows "handle_event p w r m \<in>
    {skip_event w, drop_stack_walks 1 w, skip_event (w\<lparr>file_io_raw_sequence := file_io_raw_sequence w + 1\<rparr>)}"
proof (cases "decode_stack_walk_event r m")
  case (Some s)
  then have "has_root_pid w" "sw_process s \<notin> process_tree_pids w"
    using filter_event_drop_cases(1) [OF assms(2)] by (auto simp: keep_stack_walk_for_filter_def split: if_splits)
  with Some assms(1) show ?thesis using attach_foreign [of w s] by (simp add: handle_event_def context_inv_def)
next
  case None
  show ?thesis
  proof (cases "event_category (md_names m)")
    case (Some cat)
    note refused = filter_event_drop_cases(3) [OF assms(2) Some]
    have learn: "learn_image w r m cat = w"
      using refused tree_refused(1) by (auto simp: learn_image_def Let_def case_prod_unfold)
    have wr: "write_extracted_event p w r m cat = skip_event w" if "preset_enabled (preset_flags w) cat"
      using refused tree_refused(1) [of w m cat "ev_process_id r"] that by (simp add: write_extracted_event_def Let_def case_prod_unfold)
    have "process_file_io_event p w r m \<in> {skip_event w, skip_event (w\<lparr>file_io_raw_sequence := file_io_raw_sequence w + 1\<rparr>)}"
      if known: "is_known_file_io_event r (Some cat)"
    proof (cases "preset_enabled (preset_flags w) ''file''")
      case True
      have cat: "cat = ''file''" using known by (simp add: is_known_file_io_event_def)
      then have oper: "event_opcode r \<noteq> DA_FILE_IO_OP_END"
        using filter_event_drop_cases(2) [OF assms(2) Some] known True by (simp add: keep_file_completion_for_filter_def)
      have header: "has_root_pid w" "ev_process_id r \<notin> process_tree_pids w"
        using tree_refused(2) [OF refused] True cat by auto
      with oper True known have "file_event_pid r m \<notin> process_tree_pids w"
        using assms(3) None Some by (auto simp: foreign_header_operation_def file_event_pid_cases split: option.splits)
      then show ?thesis using refused_file_event [OF assms(1) header(1) _ True oper] by simp
    qed (simp add: process_file_io_event_def)
    then show ?thesis using None Some learn wr by (auto simp: handle_event_def)
  qed (use None in \<open>simp add: handle_event_def\<close>)
qed

text \<open>Such an operation is lost: the filter drops it although the extraction would accept it.\<close>

lemma foreign_header_operation_lost:
  assumes "same_filter c w" "foreign_header_operation w r m"
  shows "fst (filter_event c r m) = Drop" "file_event_allowed w (fst (decoded_file_event w r m))"
proof -
  have cat: "event_category (md_names m) = Some ''file''"
    using assms(2) by (auto simp: foreign_header_operation_def is_known_file_io_event_def split: option.splits)
  have "fst (filter_event w r m) = Drop"
    using assms(2) cat
    by (auto simp: foreign_header_operation_def filter_event_def Let_def keep_stack_walk_for_filter_def
        keep_file_completion_for_filter_def keep_for_output_def process_tree_allows_event_def)
  then show "fst (filter_event c r m) = Drop" by (simp only: filter_event_same(1) [OF assms(1)])
  have "fe_pid (fst (decoded_file_event w r m)) = file_event_pid r m"
    by (simp add: decoded_file_event_def file_event_pid_def Let_def case_prod_unfold)
  then show "file_event_allowed w (fst (decoded_file_event w r m))"
    using assms(2) by (auto simp: file_event_allowed_def foreign_header_operation_def file_event_pid_cases)
qed

section \<open>Properties\<close>

text \<open>
  C13 What the filter drops. If the filter drops an event, then an extraction whose process tree and presets agree with the
  filter's would not have used it either: handling the event changes nothing but the skipped-events counter, the
  dropped-stack counter or the sequence number of raw file events. The only exception, and it always is one, is a file
  operation whose payload names a process of the tree while its header, which the filter reads, does not: the filter drops
  it and the extraction would have accepted it.
\<close>

theorem dropped_events_only_counted:
  assumes "context_inv w" "same_filter c w"
  shows "(fst (filter_event c r m) = Drop \<longrightarrow>
      handle_event p w r m \<in>
        {skip_event w, drop_stack_walks 1 w, skip_event (w\<lparr>file_io_raw_sequence := file_io_raw_sequence w + 1\<rparr>)}
      \<or> foreign_header_operation w r m)
    \<and> (foreign_header_operation w r m \<longrightarrow>
      fst (filter_event c r m) = Drop \<and> file_event_allowed w (fst (decoded_file_event w r m)))"
  using dropped_event_handled [OF assms(1)] foreign_header_operation_lost [OF assms(2)] filter_event_same(1) [OF assms(2)] by metis

text \<open>A read by process 7, the root of the tree, that process 4 completes in its own context.\<close>

definition example_foreign_read :: event_record where
  "example_foreign_read = (example_file_event 67)\<lparr>ev_process_id := 4\<rparr>"

definition example_foreign_metadata :: event_metadata where
  "example_foreign_metadata = example_irp_metadata
     \<lparr>md_process_pid := Some 7, md_names := \<lparr>names_provider = [], names_task = ''FileIo'', names_opcode = ''Read''\<rparr>\<rparr>"

lemma example_foreign:
  "foreign_header_operation (initialize_process_tree (new_context ''d'' 12 True 7)) example_foreign_read example_foreign_metadata"
proof -
  have "event_category (md_names example_foreign_metadata) = Some ''file''" by code_simp
  moreover have "preset_enabled 12 ''file''" by code_simp
  ultimately show ?thesis
    by (simp add: foreign_header_operation_def example_foreign_read_def example_file_event_def is_known_file_io_event_def
        event_opcode_def known_file_io_event_type_def decode_stack_walk_event_def initialize_process_tree_def new_context_def
        example_foreign_metadata_def DA_ClassicFileIoGuid_def DA_StackWalkGuid_def)
qed

theorem dropped_events_only_counted_witness:
  "fst (filter_event (initialize_process_tree (new_context ''d'' 12 True 7)) example_foreign_read example_foreign_metadata) = Drop
   \<and> handle_event sample_platform (initialize_process_tree (new_context ''d'' 12 True 7)) example_process_event example_image_event
     \<in> {skip_event (initialize_process_tree (new_context ''d'' 12 True 7)),
        drop_stack_walks 1 (initialize_process_tree (new_context ''d'' 12 True 7)),
        skip_event ((initialize_process_tree (new_context ''d'' 12 True 7))\<lparr>file_io_raw_sequence := 1\<rparr>)}"
proof -
  let ?w = "initialize_process_tree (new_context ''d'' 12 True 7)"
  have inv: "context_inv ?w" by (rule initial_context_inv)
  have same: "same_filter ?w ?w" by (simp add: same_filter_def)
  have cat: "event_category (md_names example_image_event) = Some ''image''" by code_simp
  have "fst (filter_event ?w example_process_event example_image_event) = Drop"
    by (simp add: filter_event_def cat keep_stack_walk_for_filter_def decode_stack_walk_event_def example_process_event_def
        DA_ClassicProcessGuid_def DA_StackWalkGuid_def keep_file_completion_for_filter_def is_known_file_io_event_def
        process_tree_allows_event_def initialize_process_tree_def new_context_def)
  moreover have "\<not> foreign_header_operation ?w example_process_event example_image_event"
    by (simp add: foreign_header_operation_def cat is_known_file_io_event_def)
  moreover have "file_io_raw_sequence ?w = 0" by (simp add: initialize_process_tree_def new_context_def)
  ultimately show ?thesis
    using dropped_events_only_counted [OF inv same, of example_process_event example_image_event sample_platform]
      dropped_events_only_counted [OF inv same, of example_foreign_read example_foreign_metadata sample_platform] example_foreign
    by simp
qed

lemma handle_event_flags: "preset_flags (handle_event p w r m) = preset_flags w" "has_root_pid (handle_event p w r m) = has_root_pid w"
proof -
  have "has_root_pid (process_stack_walk_event w s) = has_root_pid w" for s
    by (simp add: process_stack_walk_event_def Let_def case_prod_unfold)
  moreover have "has_root_pid (write_extracted_event p v r m cat) = has_root_pid v" for v cat
    by (simp add: write_extracted_event_def Let_def case_prod_unfold)
  ultimately show "preset_flags (handle_event p w r m) = preset_flags w" "has_root_pid (handle_event p w r m) = has_root_pid w"
    by (simp_all add: handle_event_def write_extracted_event_tree Let_def split: option.split)
qed

lemma filter_event_flags [simp]:
  "preset_flags (snd (filter_event c r m)) = preset_flags c" "has_root_pid (snd (filter_event c r m)) = has_root_pid c"
  by (simp_all add: filter_event_def Let_def case_prod_unfold split: option.split)

text \<open>
  C14 The filter and the extraction stay in step: the filter never compares a null category, and if both started an event with the same
  root, tree and presets, then they agree again after it. So the one-event result above applies to every event of
  a trace. (A stack-walk event must not be named like one of the six categories.)
\<close>

theorem filter_in_step:
  assumes "same_filter c w" "decode_stack_walk_event r m \<noteq> None \<Longrightarrow> event_category (md_names m) = None"
  shows "fst (filter_event c r m) \<noteq> Null_category \<and> same_filter (snd (filter_event c r m)) (handle_event p w r m)"
proof -
  have "process_tree_pids (snd (filter_event w r m)) = process_tree_pids (handle_event p w r m)"
  proof (cases "event_category (md_names m)")
    case None
    then show ?thesis
      by (simp add: filter_event_def handle_event_def Let_def keep_for_output_def split: option.split)
  next
    case (Some cat)
    then have "decode_stack_walk_event r m = None" using assms(2) by (metis option.distinct(1))
    with Some show ?thesis
      by (cases "cat = ''process''")
        (auto simp: filter_event_def handle_event_def Let_def keep_for_output_def keep_stack_walk_for_filter_def
          keep_file_completion_for_filter_def is_known_file_io_event_def case_prod_unfold tree_growth
          write_extracted_event_tree learn_image_def)
  qed
  then show ?thesis
    using assms(1) filter_event_same(2) [OF assms(1), of r m] filter_event_never_null [of c r m] handle_event_flags
    by (simp add: same_filter_def)
qed

theorem filter_in_step_witness:
  "same_filter (snd (filter_event (new_context ''d'' 4 True 7) example_process_event empty_metadata))
     (handle_event sample_platform (new_context ''d'' 4 True 7) example_process_event empty_metadata)"
proof -
  have "event_category (md_names empty_metadata) = None" by code_simp
  then show ?thesis
    using filter_in_step [of "new_context ''d'' 4 True 7" "new_context ''d'' 4 True 7" example_process_event empty_metadata]
    by (simp add: same_filter_def)
qed

end
