(* ===== verification/Adapter_Abi.thy ===== *)
theory Adapter_Abi
  imports Prelude
begin

text \<open>
  The error channel every native adapter exports: status codes, the thread-local last error,
  the exception guard around an exported function, and \<^verbatim>\<open>da_*_last_error\<close>.
  The three adapters implement the same caller protocol with different code; the protocol is
  the locale \<open>last_error_protocol\<close>, interpreted below on each of the three functions.
\<close>

section \<open>Status codes\<close>

datatype da_etw_status =
    DA_ETW_OK | DA_ETW_ERR_INVALID_ARGUMENT | DA_ETW_ERR_NOT_IMPLEMENTED
  | DA_ETW_ERR_BUFFER_TOO_SMALL | DA_ETW_ERR_INTERNAL

fun etw_code :: "da_etw_status \<Rightarrow> int" where
  "etw_code DA_ETW_OK = 0"
| "etw_code DA_ETW_ERR_INVALID_ARGUMENT = 1"
| "etw_code DA_ETW_ERR_NOT_IMPLEMENTED = 2"
| "etw_code DA_ETW_ERR_BUFFER_TOO_SMALL = 3"
| "etw_code DA_ETW_ERR_INTERNAL = 500"

datatype da_dbgeng_status =
    DA_DBGENG_OK | DA_DBGENG_ERR_INVALID_ARGUMENT | DA_DBGENG_ERR_BUFFER_TOO_SMALL | DA_DBGENG_ERR_INTERNAL

fun dbgeng_code :: "da_dbgeng_status \<Rightarrow> int" where
  "dbgeng_code DA_DBGENG_OK = 0"
| "dbgeng_code DA_DBGENG_ERR_INVALID_ARGUMENT = 1"
| "dbgeng_code DA_DBGENG_ERR_BUFFER_TOO_SMALL = 2"
| "dbgeng_code DA_DBGENG_ERR_INTERNAL = 500"

datatype da_ida_status =
    DA_IDA_OK | DA_IDA_ERR_INVALID_ARGUMENT | DA_IDA_ERR_BUFFER_TOO_SMALL | DA_IDA_ERR_NOT_FOUND
  | DA_IDA_ERR_DYNAMIC_LOAD | DA_IDA_ERR_IDA | DA_IDA_ERR_INTERNAL

fun ida_code :: "da_ida_status \<Rightarrow> int" where
  "ida_code DA_IDA_OK = 0"
| "ida_code DA_IDA_ERR_INVALID_ARGUMENT = 1"
| "ida_code DA_IDA_ERR_BUFFER_TOO_SMALL = 2"
| "ida_code DA_IDA_ERR_NOT_FOUND = 3"
| "ida_code DA_IDA_ERR_DYNAMIC_LOAD = 4"
| "ida_code DA_IDA_ERR_IDA = 5"
| "ida_code DA_IDA_ERR_INTERNAL = 500"

section \<open>Arguments\<close>

text \<open>A C string argument is \<open>None\<close> for a null pointer.\<close>

definition missing :: "string option \<Rightarrow> bool" where
  "missing s \<longleftrightarrow> s = None \<or> s = Some []"

definition arg_text :: "string option \<Rightarrow> string" where
  "arg_text s = (case s of None \<Rightarrow> [] | Some t \<Rightarrow> t)"

text \<open>\<^verbatim>\<open>FAILED(hr)\<close>: an \<^verbatim>\<open>HRESULT\<close> is signed.\<close>

definition hr_failed :: "u32 \<Rightarrow> bool" where
  "hr_failed hr \<longleftrightarrow> sint hr < 0"

section \<open>Failing and guarding\<close>

text \<open>
  The last error is the state: an exported function maps it to its status code and the new
  last error. A function body run under the guard may also throw.
\<close>

type_synonym last_error = string
type_synonym call_result = "int \<times> last_error"
type_synonym guarded_result = "int throws \<times> last_error"

definition etw_fail :: "da_etw_status \<Rightarrow> string \<Rightarrow> call_result" where
  "etw_fail status message = (etw_code status, message)"

definition etw_fail_unknown :: call_result where
  "etw_fail_unknown = etw_fail DA_ETW_ERR_INTERNAL ''unknown native exception''"

fun etw_guard :: "guarded_result \<Rightarrow> call_result" where
  "etw_guard (Inr status, e) = (status, e)"
| "etw_guard (Inl Bad_alloc, e) = etw_fail DA_ETW_ERR_INTERNAL ''native allocation failed''"
| "etw_guard (Inl (Runtime_error m), e) = etw_fail DA_ETW_ERR_INTERNAL m"
| "etw_guard (Inl (Invalid_argument m), e) = etw_fail DA_ETW_ERR_INTERNAL m"
| "etw_guard (Inl Unknown_exception, e) = etw_fail_unknown"

definition dbgeng_fail :: "da_dbgeng_status \<Rightarrow> string \<Rightarrow> call_result" where
  "dbgeng_fail status message = (dbgeng_code status, message)"

definition dbgeng_fail_unknown :: call_result where
  "dbgeng_fail_unknown = dbgeng_fail DA_DBGENG_ERR_INTERNAL ''unknown native exception''"

fun dbgeng_guard :: "guarded_result \<Rightarrow> call_result" where
  "dbgeng_guard (Inr status, e) = (status, e)"
| "dbgeng_guard (Inl Bad_alloc, e) = dbgeng_fail DA_DBGENG_ERR_INTERNAL ''native allocation failed''"
| "dbgeng_guard (Inl (Runtime_error m), e) = dbgeng_fail DA_DBGENG_ERR_INTERNAL m"
| "dbgeng_guard (Inl (Invalid_argument m), e) = dbgeng_fail DA_DBGENG_ERR_INTERNAL m"
| "dbgeng_guard (Inl Unknown_exception, e) = dbgeng_fail_unknown"

definition ida_fail :: "da_ida_status \<Rightarrow> string \<Rightarrow> call_result" where
  "ida_fail status message = (ida_code status, message)"

section \<open>Reading the last error\<close>

text \<open>
  \<open>last_error msg buffer buffer_len\<close> returns the status, the value stored through
  \<^verbatim>\<open>required_len\<close> when that pointer is given, and the caller's buffer afterwards.
  \<open>None\<close> is a null buffer; a given buffer has \<open>buffer_len\<close> bytes.
\<close>

abbreviation nul :: char where "nul \<equiv> CHR 0x00"

type_synonym last_error_reply = "int \<times> nat \<times> string option"

text \<open>\<^verbatim>\<open>memcpy(buffer, source, n)\<close> into a caller's buffer.\<close>

definition memcpy_into :: "string \<Rightarrow> string \<Rightarrow> nat \<Rightarrow> string" where
  "memcpy_into buf source n = take n source @ drop n buf"

definition da_etw_last_error :: "last_error \<Rightarrow> string option \<Rightarrow> nat \<Rightarrow> last_error_reply" where
  "da_etw_last_error g_last_error buffer buffer_len =
     (let required = length g_last_error + 1 in
      case buffer of
        None \<Rightarrow> (etw_code (if required \<le> 1 then DA_ETW_OK else DA_ETW_ERR_BUFFER_TOO_SMALL), required, None)
      | Some buf \<Rightarrow>
          if buffer_len = 0
          then (etw_code (if required \<le> 1 then DA_ETW_OK else DA_ETW_ERR_BUFFER_TOO_SMALL), required, Some buf)
          else
            let copy_len = min (buffer_len - 1) (length g_last_error);
                buf1 = (if copy_len > 0 then memcpy_into buf g_last_error copy_len else buf);
                buf2 = buf1[copy_len := nul]
            in (etw_code (if required \<le> buffer_len then DA_ETW_OK else DA_ETW_ERR_BUFFER_TOO_SMALL),
                required, Some buf2))"

definition da_dbgeng_last_error :: "last_error \<Rightarrow> string option \<Rightarrow> nat \<Rightarrow> last_error_reply" where
  "da_dbgeng_last_error g_last_error buffer buffer_len =
     (let required = length g_last_error + 1 in
      case buffer of
        None \<Rightarrow> (dbgeng_code DA_DBGENG_ERR_BUFFER_TOO_SMALL, required, None)
      | Some buf \<Rightarrow>
          if buffer_len < required
          then (dbgeng_code DA_DBGENG_ERR_BUFFER_TOO_SMALL, required, Some buf)
          else (dbgeng_code DA_DBGENG_OK, required, Some (memcpy_into buf (g_last_error @ [nul]) required)))"

definition da_ida_last_error :: "last_error \<Rightarrow> string option \<Rightarrow> nat \<Rightarrow> last_error_reply" where
  "da_ida_last_error g_last_error buffer buffer_len =
     (let required = length g_last_error + 1 in
      case buffer of
        None \<Rightarrow> (ida_code DA_IDA_ERR_BUFFER_TOO_SMALL, required, None)
      | Some buf \<Rightarrow>
          if buffer_len = 0 then (ida_code DA_IDA_ERR_BUFFER_TOO_SMALL, required, Some buf)
          else if buffer_len < required then (ida_code DA_IDA_ERR_BUFFER_TOO_SMALL, required, Some buf)
          else (ida_code DA_IDA_OK, required, Some (memcpy_into buf (g_last_error @ [nul]) required)))"

text \<open>What a C caller reads from a buffer: the bytes before the first NUL.\<close>

definition c_string :: "string \<Rightarrow> string" where
  "c_string buf = takeWhile (\<lambda>c. c \<noteq> nul) buf"

lemma c_string_terminated: "nul \<notin> set msg \<Longrightarrow> c_string (msg @ nul # rest) = msg"
  by (induction msg) (auto simp: c_string_def)

section \<open>The caller protocol\<close>

locale last_error_protocol =
  fixes last_error :: "last_error \<Rightarrow> string option \<Rightarrow> nat \<Rightarrow> last_error_reply"
    and ok :: int
  assumes reports_length: "fst (snd (last_error msg buffer len)) = length msg + 1"
    and fetches: "length buf = len \<Longrightarrow> length msg < len \<Longrightarrow>
          \<exists>rest. last_error msg (Some buf) len = (ok, length msg + 1, Some (msg @ nul # rest))"
    and stays_in_buffer: "length buf = len \<Longrightarrow> last_error msg (Some buf) len = (st, req, Some buf') \<Longrightarrow>
          length buf' = len"
    and refuses_short: "length buf = len \<Longrightarrow> len \<le> length msg \<Longrightarrow> 0 < len \<Longrightarrow>
          fst (last_error msg (Some buf) len) \<noteq> ok"
begin

text \<open>Ask with no buffer, allocate what was reported, ask again: the caller gets the message.\<close>

lemma two_calls:
  assumes "nul \<notin> set msg"
    and "last_error msg None 0 = (st, req, b)" and "length buf = req"
  shows "\<exists>buf'. last_error msg (Some buf) req = (ok, req, Some buf') \<and> c_string buf' = msg \<and> length buf' = req"
proof -
  have req: "req = length msg + 1" using assms(2) reports_length [of msg None 0] by simp
  with assms(3) obtain rest where r: "last_error msg (Some buf) req = (ok, req, Some (msg @ nul # rest))"
    using fetches [of buf req msg] by auto
  moreover have "length (msg @ nul # rest) = req" using stays_in_buffer [OF assms(3) r] .
  ultimately show ?thesis using c_string_terminated [OF assms(1)] by blast
qed

lemma ok_iff_fits:
  assumes "length buf = len" "0 < len"
  shows "fst (last_error msg (Some buf) len) = ok \<longleftrightarrow> length msg < len"
  using assms fetches [of buf len msg] refuses_short [of buf len msg] by (cases "length msg < len") auto

end

lemma memcpy_into_list:
  "n \<le> length buf \<Longrightarrow> length source = n \<Longrightarrow> memcpy_into buf source n = source @ drop n buf"
  by (simp add: memcpy_into_def)

lemma etw_buffer:
  assumes "length buf = len" "0 < len"
  shows "snd (snd (da_etw_last_error msg (Some buf) len)) =
    Some (take (min (len - 1) (length msg)) msg @ nul # drop (Suc (min (len - 1) (length msg))) buf)"
proof -
  let ?k = "min (len - 1) (length msg)"
  have k: "?k < len" using assms by auto
  have copy: "(if k > 0 then memcpy_into buf msg k else buf) = take k msg @ drop k buf" for k
    by (simp add: memcpy_into_def)
  have "(take ?k msg @ drop ?k buf)[?k := nul] = take ?k msg @ nul # drop (Suc ?k) buf"
    using k assms by (simp add: list_update_append Cons_nth_drop_Suc [symmetric])
  moreover have "snd (snd (da_etw_last_error msg (Some buf) len)) =
      Some ((if ?k > 0 then memcpy_into buf msg ?k else buf)[?k := nul])"
    using assms by (simp add: da_etw_last_error_def Let_def)
  ultimately show ?thesis by (simp only: copy)
qed

interpretation etw_error: last_error_protocol da_etw_last_error 0
proof unfold_locales
  fix buf msg len assume b: "length (buf::string) = len" "length (msg::string) < len"
  then have "snd (snd (da_etw_last_error msg (Some buf) len)) = Some (msg @ nul # drop (Suc (length msg)) buf)"
    using etw_buffer [of buf len msg] by (cases len) (auto simp: min_def)
  moreover have "fst (da_etw_last_error msg (Some buf) len) = 0"
      "fst (snd (da_etw_last_error msg (Some buf) len)) = length msg + 1"
    using b by (auto simp: da_etw_last_error_def Let_def)
  ultimately show "\<exists>rest. da_etw_last_error msg (Some buf) len = (0, length msg + 1, Some (msg @ nul # rest))"
    by (metis prod.collapse)
qed (auto simp: da_etw_last_error_def memcpy_into_def Let_def split: option.splits if_splits)

interpretation dbgeng_error: last_error_protocol da_dbgeng_last_error 0
  by unfold_locales
    (auto simp: da_dbgeng_last_error_def memcpy_into_def Let_def split: option.splits if_splits)

interpretation ida_error: last_error_protocol da_ida_last_error 0
  by unfold_locales
    (auto simp: da_ida_last_error_def memcpy_into_def Let_def split: option.splits if_splits)

section \<open>Properties\<close>

text \<open>
  The last-error protocol of the three adapters: a caller that first asks without a buffer, allocates
  the size it is told and asks again gets status 0 and exactly the stored message, NUL-terminated, and
  the call writes nothing past the buffer.
\<close>

theorem last_error_two_calls:
  assumes "nul \<notin> set msg"
    and "f \<in> {da_etw_last_error, da_dbgeng_last_error, da_ida_last_error}"
    and "f msg None 0 = (st, req, b)" and "length buf = req"
  shows "\<exists>buf'. f msg (Some buf) req = (0, req, Some buf') \<and> c_string buf' = msg \<and> length buf' = req"
  using assms etw_error.two_calls dbgeng_error.two_calls ida_error.two_calls by auto

theorem last_error_two_calls_witness:
  "\<exists>buf'. da_etw_last_error ''no'' (Some ''abc'') 3 = (0, 3, Some buf') \<and> c_string buf' = ''no'' \<and> length buf' = 3"
  by (rule last_error_two_calls [of "''no''" da_etw_last_error "etw_code DA_ETW_ERR_BUFFER_TOO_SMALL" 3 None "''abc''"])
    (simp_all add: da_etw_last_error_def)

end
