(* ===== verification/Etw_Session.thy ===== *)
theory Etw_Session
  imports Etw_Result Etw_Filter Adapter_Abi
begin

text \<open>
  Sessions and the exported functions of the ETW adapter (\<^verbatim>\<open>dbgatlas_etw.cpp\<close>, lines 83 to 141, 1525 to 1593 and
  1713 to 2311). The operating system answers each ETW call with a status and a handle; \<open>os_answer\<close> is any
  function of the calls made so far, and the state keeps that history, so that results hold for every
  behaviour of the system. Handles of the adapter are the session records themselves.
\<close>

section \<open>Messages\<close>

text \<open>\<open>format_text error\<close> is the system text of an error in UTF-8, \<open>None\<close> when \<^verbatim>\<open>FormatMessageW\<close> has none.\<close>

definition win32_message :: "(u32 \<Rightarrow> string option) \<Rightarrow> u32 \<Rightarrow> string" where
  "win32_message format_text error =
     (let message = ''Win32 error '' @ dec_text (unat error)
      in case format_text error of
           None \<Rightarrow> message
         | Some message_text \<Rightarrow> strip_newlines (message @ '': '' @ message_text))"

definition fail_win32 :: "(u32 \<Rightarrow> string option) \<Rightarrow> string \<Rightarrow> u32 \<Rightarrow> call_result" where
  "fail_win32 format_text operation error =
     etw_fail DA_ETW_ERR_INTERNAL (operation @ '' failed: '' @ win32_message format_text error)"

definition fail_hresult :: "string \<Rightarrow> u32 \<Rightarrow> call_result" where
  "fail_hresult operation hr =
     etw_fail DA_ETW_ERR_INTERNAL (operation @ '' failed: HRESULT 0x'' @ hex_upper 8 (unat hr))"

section \<open>Calls to the system\<close>

datatype etw_call =
    StartTrace string string
  | StopTrace u64 string
  | EnableProvider u64 guid u64 bool
  | DisableProvider u64 guid
  | SetStackTracing u64 "(guid \<times> u8) list"

type_synonym os_answer = "etw_call list \<Rightarrow> etw_call \<Rightarrow> u32 \<times> u64"

record etw_state =
  st_calls :: "etw_call list"
  st_error :: last_error

definition os_call :: "os_answer \<Rightarrow> etw_call \<Rightarrow> etw_state \<Rightarrow> (u32 \<times> u64) \<times> etw_state" where
  "os_call os c st = (os (st_calls st) c, st\<lparr>st_calls := st_calls st @ [c]\<rparr>)"

section \<open>Providers\<close>

record provider_spec =
  spec_id :: guid
  spec_keyword :: u64

definition collection_flags :: "u32 \<Rightarrow> u32" where
  "collection_flags flags = (if flags = 0 then 0 else flags OR DA_ETW_PRESET_IMAGE)"

definition provider_specs :: "u32 \<Rightarrow> provider_spec list" where
  "provider_specs flags =
     (let collection = collection_flags flags;
          k1 = (if collection AND DA_ETW_PRESET_PROCESS \<noteq> 0 then 0x10 else 0);
          k2 = (if collection AND DA_ETW_PRESET_THREAD \<noteq> 0 then k1 OR 0x20 else k1);
          process_keywords = (if collection AND DA_ETW_PRESET_IMAGE \<noteq> 0 then k2 OR 0x40 else k2)
      in (if process_keywords \<noteq> 0 then [\<lparr>spec_id = DA_KernelProcessProviderGuid, spec_keyword = process_keywords\<rparr>] else [])
         @ (if flags AND DA_ETW_PRESET_FILE \<noteq> 0 then [\<lparr>spec_id = DA_KernelFileProviderGuid, spec_keyword = 0x1ff0\<rparr>] else [])
         @ (if flags AND DA_ETW_PRESET_REGISTRY \<noteq> 0 then [\<lparr>spec_id = DA_KernelRegistryProviderGuid, spec_keyword = 0xffff\<rparr>] else [])
         @ (if flags AND DA_ETW_PRESET_NETWORK \<noteq> 0 then [\<lparr>spec_id = DA_KernelNetworkProviderGuid, spec_keyword = 0x30\<rparr>] else []))"

text \<open>The event types, with the values the Windows SDK documents for them.\<close>

definition EVENT_TRACE_TYPE_START :: u8 where [simp]: "EVENT_TRACE_TYPE_START = 1"
definition EVENT_TRACE_TYPE_END :: u8 where [simp]: "EVENT_TRACE_TYPE_END = 2"
definition EVENT_TRACE_TYPE_LOAD :: u8 where [simp]: "EVENT_TRACE_TYPE_LOAD = 10"
definition EVENT_TRACE_TYPE_IO_READ :: u8 where [simp]: "EVENT_TRACE_TYPE_IO_READ = 10"
definition EVENT_TRACE_TYPE_IO_WRITE :: u8 where [simp]: "EVENT_TRACE_TYPE_IO_WRITE = 11"
definition EVENT_TRACE_TYPE_IO_READ_INIT :: u8 where [simp]: "EVENT_TRACE_TYPE_IO_READ_INIT = 12"
definition EVENT_TRACE_TYPE_IO_WRITE_INIT :: u8 where [simp]: "EVENT_TRACE_TYPE_IO_WRITE_INIT = 13"
definition EVENT_TRACE_TYPE_REGCREATE :: u8 where [simp]: "EVENT_TRACE_TYPE_REGCREATE = 10"
definition EVENT_TRACE_TYPE_REGOPEN :: u8 where [simp]: "EVENT_TRACE_TYPE_REGOPEN = 11"
definition EVENT_TRACE_TYPE_REGDELETE :: u8 where [simp]: "EVENT_TRACE_TYPE_REGDELETE = 12"
definition EVENT_TRACE_TYPE_REGQUERY :: u8 where [simp]: "EVENT_TRACE_TYPE_REGQUERY = 13"
definition EVENT_TRACE_TYPE_REGSETVALUE :: u8 where [simp]: "EVENT_TRACE_TYPE_REGSETVALUE = 14"
definition EVENT_TRACE_TYPE_REGDELETEVALUE :: u8 where [simp]: "EVENT_TRACE_TYPE_REGDELETEVALUE = 15"
definition EVENT_TRACE_TYPE_REGQUERYVALUE :: u8 where [simp]: "EVENT_TRACE_TYPE_REGQUERYVALUE = 16"
definition EVENT_TRACE_TYPE_REGCLOSE :: u8 where [simp]: "EVENT_TRACE_TYPE_REGCLOSE = 27"
definition EVENT_TRACE_TYPE_SEND :: u8 where [simp]: "EVENT_TRACE_TYPE_SEND = 10"
definition EVENT_TRACE_TYPE_RECEIVE :: u8 where [simp]: "EVENT_TRACE_TYPE_RECEIVE = 11"
definition EVENT_TRACE_TYPE_CONNECT :: u8 where [simp]: "EVENT_TRACE_TYPE_CONNECT = 12"
definition EVENT_TRACE_TYPE_DISCONNECT :: u8 where [simp]: "EVENT_TRACE_TYPE_DISCONNECT = 13"
definition EVENT_TRACE_TYPE_ACCEPT :: u8 where [simp]: "EVENT_TRACE_TYPE_ACCEPT = 15"

definition stack_trace_events :: "u32 \<Rightarrow> (guid \<times> u8) list" where
  "stack_trace_events flags =
     (let collection = collection_flags flags
      in (if collection AND DA_ETW_PRESET_PROCESS \<noteq> 0
          then map (Pair DA_ClassicProcessGuid) [EVENT_TRACE_TYPE_START, EVENT_TRACE_TYPE_END] else [])
         @ (if collection AND DA_ETW_PRESET_THREAD \<noteq> 0
            then map (Pair DA_ClassicThreadGuid) [EVENT_TRACE_TYPE_START, EVENT_TRACE_TYPE_END] else [])
         @ (if collection AND DA_ETW_PRESET_IMAGE \<noteq> 0
            then map (Pair DA_ClassicImageLoadGuid) [EVENT_TRACE_TYPE_LOAD] else [])
         @ (if collection AND DA_ETW_PRESET_FILE \<noteq> 0
            then map (Pair DA_ClassicFileIoGuid) [EVENT_TRACE_TYPE_IO_READ, EVENT_TRACE_TYPE_IO_WRITE,
              EVENT_TRACE_TYPE_IO_READ_INIT, EVENT_TRACE_TYPE_IO_WRITE_INIT] else [])
         @ (if collection AND DA_ETW_PRESET_REGISTRY \<noteq> 0
            then map (Pair DA_ClassicRegistryGuid) [EVENT_TRACE_TYPE_REGCREATE, EVENT_TRACE_TYPE_REGOPEN,
              EVENT_TRACE_TYPE_REGDELETE, EVENT_TRACE_TYPE_REGQUERY, EVENT_TRACE_TYPE_REGSETVALUE,
              EVENT_TRACE_TYPE_REGDELETEVALUE, EVENT_TRACE_TYPE_REGQUERYVALUE, EVENT_TRACE_TYPE_REGCLOSE] else [])
         @ (if collection AND DA_ETW_PRESET_NETWORK \<noteq> 0
            then map (Pair DA_ClassicTcpIpGuid) [EVENT_TRACE_TYPE_SEND, EVENT_TRACE_TYPE_RECEIVE,
                EVENT_TRACE_TYPE_CONNECT, EVENT_TRACE_TYPE_DISCONNECT, EVENT_TRACE_TYPE_ACCEPT]
              @ map (Pair DA_ClassicUdpIpGuid) [EVENT_TRACE_TYPE_SEND, EVENT_TRACE_TYPE_RECEIVE] else []))"

record stack_trace_status =
  ss_requested :: bool
  ss_provider_enabled :: bool
  ss_provider_warnings :: u32
  ss_kernel_enabled :: bool
  ss_kernel_warnings :: u32

definition initial_stack_status :: stack_trace_status where
  "initial_stack_status = \<lparr>ss_requested = True, ss_provider_enabled = False, ss_provider_warnings = 0,
     ss_kernel_enabled = False, ss_kernel_warnings = 0\<rparr>"

definition ss_enabled :: "stack_trace_status \<Rightarrow> bool" where
  "ss_enabled s \<longleftrightarrow> ss_provider_enabled s \<or> ss_kernel_enabled s"

definition enable_kernel_stack_tracing ::
  "os_answer \<Rightarrow> u64 \<Rightarrow> u32 \<Rightarrow> stack_trace_status \<Rightarrow> etw_state \<Rightarrow> stack_trace_status \<times> etw_state" where
  "enable_kernel_stack_tracing os handle flags stack_status st =
     (let events = stack_trace_events flags in
      if events = [] then (stack_status, st)
      else
        let ((status, _), st') = os_call os (SetStackTracing handle events) st
        in (if status = ERROR_SUCCESS then stack_status\<lparr>ss_kernel_enabled := True\<rparr>
            else stack_status\<lparr>ss_kernel_warnings := ss_kernel_warnings stack_status + 1\<rparr>, st'))"

fun enable_providers ::
  "os_answer \<Rightarrow> u64 \<Rightarrow> provider_spec list \<Rightarrow> stack_trace_status \<Rightarrow> etw_state \<Rightarrow> u32 \<times> stack_trace_status \<times> etw_state" where
  "enable_providers os handle [] stack_status st = (ERROR_SUCCESS, stack_status, st)"
| "enable_providers os handle (provider # providers) stack_status st =
     (let ((status, _), st1) = os_call os (EnableProvider handle (spec_id provider) (spec_keyword provider) True) st in
      if status = ERROR_SUCCESS
      then enable_providers os handle providers (stack_status\<lparr>ss_provider_enabled := True\<rparr>) st1
      else
        let warned = stack_status\<lparr>ss_provider_warnings := ss_provider_warnings stack_status + 1\<rparr>;
            ((status', _), st2) = os_call os (EnableProvider handle (spec_id provider) (spec_keyword provider) False) st1
        in if status' \<noteq> ERROR_SUCCESS then (status', warned, st2)
           else enable_providers os handle providers warned st2)"

fun disable_providers :: "os_answer \<Rightarrow> u64 \<Rightarrow> provider_spec list \<Rightarrow> etw_state \<Rightarrow> etw_state" where
  "disable_providers os handle [] st = st"
| "disable_providers os handle (provider # providers) st =
     disable_providers os handle providers (snd (os_call os (DisableProvider handle (spec_id provider)) st))"

section \<open>Trace properties\<close>

text \<open>
  The block \<^verbatim>\<open>make_trace_properties\<close> allocates: the fixed part of \<open>fixed_size\<close> bytes (\<^verbatim>\<open>sizeof(EVENT_TRACE_PROPERTIES)\<close>),
  then the two names with their terminators. The fixed part is kept as zeros with its fields beside it.
\<close>

record trace_properties =
  tp_storage :: string
  tp_buffer_size :: u32
  tp_logger_name_offset :: u32
  tp_log_file_name_offset :: u32

definition make_trace_properties :: "nat \<Rightarrow> string \<Rightarrow> string \<Rightarrow> trace_properties" where
  "make_trace_properties fixed_size session_name trace_path =
     (let logger_name_len = length session_name + 1;
          log_file_len = length trace_path + 1;
          properties_size = fixed_size + logger_name_len + log_file_len;
          logger_offset = fixed_size;
          log_file_offset = fixed_size + logger_name_len;
          storage = replicate properties_size nul;
          named = take logger_offset storage @ (session_name @ [nul]) @ drop (logger_offset + logger_name_len) storage
      in \<lparr>tp_storage = take log_file_offset named @ (trace_path @ [nul]) @ drop (log_file_offset + log_file_len) named,
          tp_buffer_size = of_nat properties_size,
          tp_logger_name_offset = of_nat logger_offset,
          tp_log_file_name_offset = of_nat log_file_offset\<rparr>)"

section \<open>Trace sources\<close>

text \<open>
  What the system does with \<^verbatim>\<open>OpenTraceA\<close>, \<^verbatim>\<open>ProcessTrace\<close> and \<^verbatim>\<open>CloseTrace\<close> on one log: the error of a failed
  open, the records delivered to the callback and the two statuses; \<open>ts_mkdir\<close> is what \<^verbatim>\<open>create_directories\<close> throws.
\<close>

record trace_source =
  ts_open_error :: "u32 option"
  ts_records :: "event_record list"
  ts_status :: u32
  ts_close_status :: u32
  ts_mkdir :: "cpp_exception option"

definition process_trace_logfile ::
  "platform \<Rightarrow> trace_source \<Rightarrow> extraction_world \<Rightarrow> (u32 \<times> extraction_world) throws" where
  "process_trace_logfile p source w =
     (case ts_open_error source of
        Some err \<Rightarrow> Inr (err, w)
      | None \<Rightarrow>
          (case deliver p w (ts_records source) of
             Inl e \<Rightarrow> Inl e
           | Inr w' \<Rightarrow> Inr (if ts_status source \<noteq> ERROR_SUCCESS then ts_status source else ts_close_status source, w')))"

record realtime_consumer =
  rc_context :: extraction_world
  rc_session_name :: string
  rc_status :: u32

text \<open>The worker thread; an exception leaves the \<^verbatim>\<open>noexcept\<close> function and terminates the process (\<open>None\<close>).\<close>

definition run_realtime_consumer :: "platform \<Rightarrow> trace_source \<Rightarrow> realtime_consumer \<Rightarrow> realtime_consumer option" where
  "run_realtime_consumer p source consumer =
     (case process_trace_logfile p source (rc_context consumer) of
        Inl _ \<Rightarrow> None
      | Inr (status, w) \<Rightarrow> Some (consumer\<lparr>rc_context := flush_pending_file_events p w, rc_status := status\<rparr>))"

section \<open>Exported functions: sessions\<close>

record etw_session =
  ses_handle :: u64
  ses_name :: string
  ses_trace_path :: string
  ses_providers :: "provider_spec list"
  ses_stack_status :: stack_trace_status
  ses_consumer :: "realtime_consumer option"

text \<open>Start the session, replacing a stale one of the same name.\<close>

definition start_session :: "os_answer \<Rightarrow> string \<Rightarrow> string \<Rightarrow> etw_state \<Rightarrow> (u32 \<times> u64) \<times> etw_state" where
  "start_session os name path st =
     (let ((status, handle), st1) = os_call os (StartTrace name path) st in
      if status = ERROR_ALREADY_EXISTS
      then let (_, st2) = os_call os (StopTrace 0 name) st1 in os_call os (StartTrace name path) st2
      else ((status, handle), st1))"

definition report :: "call_result \<Rightarrow> etw_state \<Rightarrow> int \<times> etw_state" where
  "report r st = (fst r, st\<lparr>st_error := snd r\<rparr>)"

definition da_etw_write_minimal_file_trace ::
  "os_answer \<Rightarrow> (u32 \<Rightarrow> string option) \<Rightarrow> string option \<Rightarrow> string option \<Rightarrow> u32 \<Rightarrow> etw_state \<Rightarrow> int \<times> etw_state" where
  "da_etw_write_minimal_file_trace os fmt session_name trace_path flags st =
     (if missing session_name then report (etw_fail DA_ETW_ERR_INVALID_ARGUMENT ''session name is empty'') st
      else if missing trace_path then report (etw_fail DA_ETW_ERR_INVALID_ARGUMENT ''trace path is empty'') st
      else
        let name = arg_text session_name;
            ((status, handle), st1) = start_session os name (arg_text trace_path) st
        in if status \<noteq> ERROR_SUCCESS then report (fail_win32 fmt ''StartTraceA'' status) st1
           else
             let (status2, stack_status, st2) = enable_providers os handle (provider_specs flags) initial_stack_status st1
             in if status2 \<noteq> ERROR_SUCCESS
                then report (fail_win32 fmt ''EnableTraceEx2'' status2) (snd (os_call os (StopTrace handle name) st2))
                else
                  let (_, st3) = enable_kernel_stack_tracing os handle flags stack_status st2;
                      ((status3, _), st4) = os_call os (StopTrace handle name) st3
                  in if status3 \<noteq> ERROR_SUCCESS then report (fail_win32 fmt ''ControlTraceA(STOP)'' status3) st4
                     else (etw_code DA_ETW_OK, st4))"

text \<open>\<open>out_given\<close> says whether the caller passed a place for the handle; the second component is what it holds.\<close>

definition da_etw_session_start_file_trace ::
  "os_answer \<Rightarrow> (u32 \<Rightarrow> string option) \<Rightarrow> string option \<Rightarrow> string option \<Rightarrow> u32 \<Rightarrow> bool \<Rightarrow> etw_state
     \<Rightarrow> int \<times> etw_session option \<times> etw_state" where
  "da_etw_session_start_file_trace os fmt session_name trace_path flags out_given st =
     (let failed = (\<lambda>r s. (fst (report r s), None, snd (report r s))) in
      if \<not> out_given then failed (etw_fail DA_ETW_ERR_INVALID_ARGUMENT ''out handle pointer is null'') st
      else if missing session_name then failed (etw_fail DA_ETW_ERR_INVALID_ARGUMENT ''session name is empty'') st
      else if missing trace_path then failed (etw_fail DA_ETW_ERR_INVALID_ARGUMENT ''trace path is empty'') st
      else
        let name = arg_text session_name;
            ((status, handle), st1) = start_session os name (arg_text trace_path) st
        in if status \<noteq> ERROR_SUCCESS then failed (fail_win32 fmt ''StartTraceA'' status) st1
           else
             let providers = provider_specs flags;
                 (status2, stack_status, st2) = enable_providers os handle providers initial_stack_status st1
             in if status2 \<noteq> ERROR_SUCCESS
                then failed (fail_win32 fmt ''EnableTraceEx2'' status2) (snd (os_call os (StopTrace handle name) st2))
                else
                  let (stack_status', st3) = enable_kernel_stack_tracing os handle flags stack_status st2
                  in (etw_code DA_ETW_OK,
                      Some \<lparr>ses_handle = handle, ses_name = name, ses_trace_path = arg_text trace_path,
                            ses_providers = providers, ses_stack_status = stack_status', ses_consumer = None\<rparr>, st3))"

definition da_etw_session_start_realtime_consumer ::
  "trace_source \<Rightarrow> etw_session option \<Rightarrow> string option \<Rightarrow> u32 \<Rightarrow> u32 \<Rightarrow> u32 \<Rightarrow> last_error \<Rightarrow> call_result \<times> etw_session option" where
  "da_etw_session_start_realtime_consumer source handle out_dir flags has_root root err =
     (case handle of
        None \<Rightarrow> (etw_fail DA_ETW_ERR_INVALID_ARGUMENT ''session handle is null'', None)
      | Some session \<Rightarrow>
          if missing out_dir then (etw_fail DA_ETW_ERR_INVALID_ARGUMENT ''events dir is empty'', Some session)
          else if ses_consumer session \<noteq> None
          then (etw_fail DA_ETW_ERR_INVALID_ARGUMENT ''realtime consumer is already running'', Some session)
          else
            let context = initialize_process_tree (new_context (arg_text out_dir) flags (has_root \<noteq> 0) root)
            in (case ts_mkdir source of
                  Some e \<Rightarrow> (etw_guard (Inl e, err), Some session)
                | None \<Rightarrow>
                    (etw_guard (Inr (etw_code DA_ETW_OK), err),
                     Some (session\<lparr>ses_consumer :=
                       Some \<lparr>rc_context = context, rc_session_name = ses_name session, rc_status = ERROR_SUCCESS\<rparr>\<rparr>))))"

text \<open>
  Stopping joins the worker, so the consumer's run is complete here; \<open>source\<close> is what it received. The result has the
  consumer's final context; \<open>None\<close> is the termination of the process by an exception in the worker.
\<close>

definition da_etw_session_stop ::
  "platform \<Rightarrow> os_answer \<Rightarrow> (u32 \<Rightarrow> string option) \<Rightarrow> trace_source \<Rightarrow> etw_session option \<Rightarrow> etw_state
     \<Rightarrow> (int \<times> extraction_world option \<times> etw_state) option" where
  "da_etw_session_stop p os fmt source handle st =
     (case handle of
        None \<Rightarrow>
          (let (code, st') = report (etw_fail DA_ETW_ERR_INVALID_ARGUMENT ''session handle is null'') st
           in Some (code, None, st'))
      | Some session \<Rightarrow>
          let st1 = disable_providers os (ses_handle session) (ses_providers session) st;
              ((status, _), st2) = os_call os (StopTrace (ses_handle session) (ses_name session)) st1;
              joined = (case ses_consumer session of
                  None \<Rightarrow> Some None
                | Some consumer \<Rightarrow> map_option Some (run_realtime_consumer p source consumer))
          in (case joined of
                None \<Rightarrow> None
              | Some result \<Rightarrow>
                  let consumer_status = (case result of None \<Rightarrow> ERROR_SUCCESS | Some c \<Rightarrow> rc_status c);
                      (code, st3) =
                        (if status \<noteq> ERROR_SUCCESS then report (fail_win32 fmt ''ControlTraceA(STOP)'' status) st2
                         else if consumer_status \<noteq> ERROR_SUCCESS \<and> consumer_status \<noteq> ERROR_CANCELLED
                         then report (fail_win32 fmt ''ProcessTrace(REALTIME)'' consumer_status) st2
                         else (etw_code DA_ETW_OK, st2))
                  in Some (code, map_option rc_context result, st3)))"

section \<open>Exported functions: structs\<close>

definition store_fields :: "u32 list \<Rightarrow> memory \<Rightarrow> memory" where
  "store_fields vs mem = fold (\<lambda>(i, v). store_u32 (4 * i) v) (enumerate 0 vs) mem"

definition da_etw_abi_version :: "memory option \<Rightarrow> last_error \<Rightarrow> call_result \<times> memory option" where
  "da_etw_abi_version out err =
     (case out of
        None \<Rightarrow> (etw_fail DA_ETW_ERR_INVALID_ARGUMENT ''out version pointer is null'', None)
      | Some mem \<Rightarrow> ((etw_code DA_ETW_OK, err), Some (store_fields [20, 0, 0, 2, 0] mem)))"

definition DA_ETW_CAP_REALTIME_CONSUME :: u32 where [simp]: "DA_ETW_CAP_REALTIME_CONSUME = 1"
definition DA_ETW_CAP_FILE_TRACE :: u32 where [simp]: "DA_ETW_CAP_FILE_TRACE = 2"
definition DA_ETW_CAP_PROCESS_TREE_FILTER :: u32 where [simp]: "DA_ETW_CAP_PROCESS_TREE_FILTER = 4"
definition DA_ETW_CAP_EVENT_STACK_TRACE :: u32 where [simp]: "DA_ETW_CAP_EVENT_STACK_TRACE = 8"

definition da_etw_adapter_info :: "memory option \<Rightarrow> last_error \<Rightarrow> call_result \<times> memory option" where
  "da_etw_adapter_info out err =
     (case out of
        None \<Rightarrow> (etw_fail DA_ETW_ERR_INVALID_ARGUMENT ''out adapter info pointer is null'', None)
      | Some mem \<Rightarrow> ((etw_code DA_ETW_OK, err),
          Some (store_fields [12, 0, DA_ETW_CAP_REALTIME_CONSUME OR DA_ETW_CAP_FILE_TRACE OR
            DA_ETW_CAP_PROCESS_TREE_FILTER OR DA_ETW_CAP_EVENT_STACK_TRACE] mem)))"

definition flag_u32 :: "bool \<Rightarrow> u32" where
  "flag_u32 b = (if b then 1 else 0)"

definition da_etw_session_stack_trace_status ::
  "etw_session option \<Rightarrow> memory option \<Rightarrow> last_error \<Rightarrow> call_result \<times> memory option" where
  "da_etw_session_stack_trace_status handle out err =
     (case handle of
        None \<Rightarrow> (etw_fail DA_ETW_ERR_INVALID_ARGUMENT ''session handle is null'', out)
      | Some session \<Rightarrow>
          (case out of
             None \<Rightarrow> (etw_fail DA_ETW_ERR_INVALID_ARGUMENT ''out stack trace status pointer is null'', None)
           | Some mem \<Rightarrow>
               let status = ses_stack_status session
               in ((etw_code DA_ETW_OK, err), Some (store_fields
                    [32, 0, flag_u32 (ss_requested status), flag_u32 (ss_enabled status),
                     flag_u32 (ss_provider_enabled status), ss_provider_warnings status,
                     flag_u32 (ss_kernel_enabled status), ss_kernel_warnings status] mem))))"

section \<open>Exported functions: traces\<close>

text \<open>The result has the code and last error, the caller's struct, and the context with its output files.\<close>

definition da_etw_extract_file_events ::
  "platform \<Rightarrow> (u32 \<Rightarrow> string option) \<Rightarrow> trace_source \<Rightarrow> string option \<Rightarrow> string option \<Rightarrow> u32 \<Rightarrow> u32 \<Rightarrow> u32
     \<Rightarrow> memory option \<Rightarrow> last_error \<Rightarrow> call_result \<times> memory option \<times> extraction_world option" where
  "da_etw_extract_file_events p fmt source trace_path out_dir flags has_root root out err =
     (case out of
        None \<Rightarrow> (etw_fail DA_ETW_ERR_INVALID_ARGUMENT ''out extraction result pointer is null'', None, None)
      | Some mem \<Rightarrow>
          let (caller_size, mem1) = initialize_extraction_result mem in
          if missing trace_path then (etw_fail DA_ETW_ERR_INVALID_ARGUMENT ''trace path is empty'', Some mem1, None)
          else if missing out_dir then (etw_fail DA_ETW_ERR_INVALID_ARGUMENT ''events dir is empty'', Some mem1, None)
          else
            let context = initialize_process_tree (new_context (arg_text out_dir) flags (has_root \<noteq> 0) root)
            in (case ts_mkdir source of
                  Some e \<Rightarrow> (etw_guard (Inl e, err), Some mem1, None)
                | None \<Rightarrow>
                    (case process_trace_logfile p source context of
                       Inl e \<Rightarrow> (etw_guard (Inl e, err), Some mem1, None)
                     | Inr (status, w) \<Rightarrow>
                         let w' = flush_pending_file_events p w
                         in if status \<noteq> ERROR_SUCCESS then (fail_win32 fmt ''ProcessTrace'' status, Some mem1, Some w')
                            else ((etw_code DA_ETW_OK, err), Some (copy_extraction_result mem1 caller_size w'), Some w'))))"

section \<open>Live sessions\<close>

text \<open>
  Specification: the session handles that a history of calls has started successfully and not stopped successfully since.
  A stop the system refuses leaves its session running; \<open>stop_refused\<close> says that such a stop was issued between two states.
\<close>

definition live_step :: "os_answer \<Rightarrow> etw_call list \<times> u64 set \<Rightarrow> etw_call \<Rightarrow> etw_call list \<times> u64 set" where
  "live_step os s c = (fst s @ [c],
     (case c of
        StartTrace name path \<Rightarrow>
          (if fst (os (fst s) c) = ERROR_SUCCESS then insert (snd (os (fst s) c)) (snd s) else snd s)
      | StopTrace handle name \<Rightarrow> (if fst (os (fst s) c) = ERROR_SUCCESS then snd s - {handle} else snd s)
      | _ \<Rightarrow> snd s))"

definition live_sessions :: "os_answer \<Rightarrow> etw_call list \<Rightarrow> u64 set" where
  "live_sessions os calls = snd (foldl (live_step os) ([], {}) calls)"

lemma live_history: "fst (foldl (live_step os) (pre, S) calls) = pre @ calls"
  by (induction calls arbitrary: pre S) (simp_all add: live_step_def)

lemma live_snoc:
  "live_sessions os (calls @ [StartTrace n q]) =
     (if fst (os calls (StartTrace n q)) = ERROR_SUCCESS
      then insert (snd (os calls (StartTrace n q))) (live_sessions os calls) else live_sessions os calls)"
  "live_sessions os (calls @ [StopTrace h n]) =
     (if fst (os calls (StopTrace h n)) = ERROR_SUCCESS then live_sessions os calls - {h} else live_sessions os calls)"
  "live_sessions os (calls @ [EnableProvider h g k b]) = live_sessions os calls"
  "live_sessions os (calls @ [DisableProvider h g]) = live_sessions os calls"
  "live_sessions os (calls @ [SetStackTracing h es]) = live_sessions os calls"
  using live_history [of os "[]" "{}" calls] by (simp_all add: live_sessions_def live_step_def)

abbreviation live :: "os_answer \<Rightarrow> etw_state \<Rightarrow> u64 set" where
  "live os st \<equiv> live_sessions os (st_calls st)"

definition stop_refused :: "os_answer \<Rightarrow> etw_state \<Rightarrow> etw_state \<Rightarrow> u64 \<Rightarrow> bool" where
  "stop_refused os st st' h \<longleftrightarrow>
     (\<exists>pre n post. st_calls st' = pre @ StopTrace h n # post \<and> length (st_calls st) \<le> length pre
        \<and> fst (os pre (StopTrace h n)) \<noteq> ERROR_SUCCESS)"

lemma fst_report [simp]: "fst (report r st) = fst r"
  by (simp add: report_def)

lemma live_report [simp]: "st_calls (snd (report r st)) = st_calls st"
  by (simp add: report_def)

lemma live_call [simp]:
  "live os (snd (os_call os (StopTrace h n) st)) =
     (if fst (fst (os_call os (StopTrace h n) st)) = ERROR_SUCCESS then live os st - {h} else live os st)"
  "live os (snd (os_call os (EnableProvider h g k b) st)) = live os st"
  "live os (snd (os_call os (DisableProvider h g) st)) = live os st"
  "live os (snd (os_call os (SetStackTracing h es) st)) = live os st"
  by (simp_all add: os_call_def live_snoc)

lemma live_start:
  "live os (snd (os_call os (StartTrace n q) st)) =
     (if fst (fst (os_call os (StartTrace n q) st)) = ERROR_SUCCESS
      then insert (snd (fst (os_call os (StartTrace n q) st))) (live os st) else live os st)"
  by (simp add: os_call_def live_snoc)

lemma live_enable_providers: "live os (snd (snd (enable_providers os h ps ss st))) = live os st"
  by (induction ps arbitrary: ss st) (simp_all add: Let_def case_prod_unfold)

lemma live_disable_providers: "live os (disable_providers os h ps st) = live os st"
  by (induction os h ps st rule: disable_providers.induct) simp_all

lemma live_enable_kernel: "live os (snd (enable_kernel_stack_tracing os h flags ss st)) = live os st"
  by (simp add: enable_kernel_stack_tracing_def Let_def case_prod_unfold)

text \<open>The history of calls only grows.\<close>

lemma calls_grow [simp]: "length (st_calls st) \<le> length (st_calls (snd (os_call os c st)))"
  by (simp add: os_call_def)

lemma calls_grow_start: "start_session os n q st = (r, st1) \<Longrightarrow> length (st_calls st) \<le> length (st_calls st1)"
  by (auto simp: start_session_def os_call_def Let_def case_prod_unfold split: if_splits)

lemma calls_grow_enable: "length (st_calls st) \<le> length (st_calls (snd (snd (enable_providers os h ps ss st))))"
proof (induction ps arbitrary: ss st)
  case (Cons q ps)
  show ?case
    by (auto simp: Let_def case_prod_unfold intro: order_trans [OF calls_grow] order_trans [OF _ Cons.IH])
qed simp

lemma calls_grow_kernel: "length (st_calls st) \<le> length (st_calls (snd (enable_kernel_stack_tracing os h flags ss st)))"
  by (simp add: enable_kernel_stack_tracing_def Let_def case_prod_unfold)

lemma calls_grow_disable: "length (st_calls st) \<le> length (st_calls (disable_providers os h ps st))"
  by (induction os h ps st rule: disable_providers.induct) (auto intro: order_trans [OF calls_grow])

text \<open>A stop either ends its session or is refused.\<close>

lemma stop_ends_or_refused:
  assumes "length (st_calls st) \<le> length (st_calls st2)"
    and "st_calls st' = st_calls (snd (os_call os (StopTrace h n) st2))"
  shows "live os st' = live os st2 - {h} \<and> fst (fst (os_call os (StopTrace h n) st2)) = ERROR_SUCCESS
    \<or> live os st' = live os st2 \<and> fst (fst (os_call os (StopTrace h n) st2)) \<noteq> ERROR_SUCCESS \<and> stop_refused os st st' h"
proof -
  have "st_calls st' = st_calls st2 @ StopTrace h n # []" "fst (os (st_calls st2) (StopTrace h n)) = fst (fst (os_call os (StopTrace h n) st2))"
    using assms(2) by (simp_all add: os_call_def)
  moreover have "live os st' = live os (snd (os_call os (StopTrace h n) st2))" using assms(2) by simp
  ultimately show ?thesis using assms(1) unfolding stop_refused_def by (metis live_call(1))
qed

lemma start_session_live:
  assumes "start_session os n q st = ((status, h), st1)"
  shows "status \<noteq> ERROR_SUCCESS \<Longrightarrow> live os st1 \<subseteq> live os st"
    and "status = ERROR_SUCCESS \<Longrightarrow> h \<in> live os st1 \<and> live os st1 \<subseteq> insert h (live os st)"
proof -
  let ?a = "os_call os (StartTrace n q) st"
  let ?b = "os_call os (StartTrace n q) (snd (os_call os (StopTrace 0 n) (snd ?a)))"
  have r: "((status, h), st1) = (if fst (fst ?a) = ERROR_ALREADY_EXISTS then ?b else ?a)"
    using assms by (simp add: start_session_def Let_def case_prod_unfold split: if_splits)
  have st1: "status = fst (fst ?b) \<and> h = snd (fst ?b) \<and> st1 = snd ?b" if "fst (fst ?a) = ERROR_ALREADY_EXISTS"
    using r that by (metis fst_conv snd_conv)
  have st1': "status = fst (fst ?a) \<and> h = snd (fst ?a) \<and> st1 = snd ?a" if "fst (fst ?a) \<noteq> ERROR_ALREADY_EXISTS"
    using r that by (metis fst_conv snd_conv)
  show "status \<noteq> ERROR_SUCCESS \<Longrightarrow> live os st1 \<subseteq> live os st"
    by (cases "fst (fst ?a) = ERROR_ALREADY_EXISTS") (use st1 st1' in \<open>auto simp: live_start\<close>)
  show "status = ERROR_SUCCESS \<Longrightarrow> h \<in> live os st1 \<and> live os st1 \<subseteq> insert h (live os st)"
    by (cases "fst (fst ?a) = ERROR_ALREADY_EXISTS") (use st1 st1' in \<open>auto simp: live_start\<close>)
qed

section \<open>Lemmas: providers and layout\<close>

text \<open>The history has a successful enabling of the provider.\<close>

definition provider_enabled :: "os_answer \<Rightarrow> etw_call list \<Rightarrow> u64 \<Rightarrow> provider_spec \<Rightarrow> bool" where
  "provider_enabled os calls h q \<longleftrightarrow> (\<exists>before with_stack after.
     calls = before @ EnableProvider h (spec_id q) (spec_keyword q) with_stack # after
     \<and> fst (os before (EnableProvider h (spec_id q) (spec_keyword q) with_stack)) = ERROR_SUCCESS)"

lemma provider_enabled_mono: "provider_enabled os calls h q \<Longrightarrow> provider_enabled os (calls @ more_calls) h q"
  unfolding provider_enabled_def by (metis append.assoc append_Cons)

lemma provider_enabled_call:
  "fst (fst (os_call os (EnableProvider h (spec_id q) (spec_keyword q) b) st)) = ERROR_SUCCESS \<Longrightarrow>
   provider_enabled os (st_calls (snd (os_call os (EnableProvider h (spec_id q) (spec_keyword q) b) st))) h q"
  by (auto simp: provider_enabled_def os_call_def)

lemma enable_providers_history: "\<exists>new. st_calls (snd (snd (enable_providers os h ps ss st))) = st_calls st @ new"
proof (induction ps arbitrary: ss st)
  case (Cons q ps)
  have call: "st_calls (snd (os_call os c v)) = st_calls v @ [c]" for c v by (simp add: os_call_def)
  let ?s1 = "snd (os_call os (EnableProvider h (spec_id q) (spec_keyword q) True) st)"
  let ?s2 = "snd (os_call os (EnableProvider h (spec_id q) (spec_keyword q) False) ?s1)"
  obtain n1 n2 where
    "st_calls (snd (snd (enable_providers os h ps (ss\<lparr>ss_provider_enabled := True\<rparr>) ?s1))) = st_calls ?s1 @ n1"
    "st_calls (snd (snd (enable_providers os h ps
        (ss\<lparr>ss_provider_warnings := ss_provider_warnings ss + 1\<rparr>) ?s2))) = st_calls ?s2 @ n2"
    using Cons.IH by meson
  then show ?case by (simp add: Let_def case_prod_unfold call)
qed simp

lemma enable_providers_all:
  "fst (enable_providers os h ps ss st) = ERROR_SUCCESS \<Longrightarrow> q \<in> set ps \<Longrightarrow>
   provider_enabled os (st_calls (snd (snd (enable_providers os h ps ss st)))) h q"
proof (induction ps arbitrary: ss st)
  case (Cons r ps)
  let ?e = "\<lambda>b v. os_call os (EnableProvider h (spec_id r) (spec_keyword r) b) v"
  have keep: "provider_enabled os (st_calls v) h r \<Longrightarrow>
      provider_enabled os (st_calls (snd (snd (enable_providers os h ps ss' v)))) h r" for v ss'
    using enable_providers_history [of os h ps ss' v] provider_enabled_mono by metis
  show ?case
  proof (cases "fst (fst (?e True st)) = ERROR_SUCCESS")
    case True
    then show ?thesis
      using Cons keep [OF provider_enabled_call [of os h r True st]] by (auto simp: Let_def case_prod_unfold)
  next
    case False
    then have "fst (fst (?e False (snd (?e True st)))) = ERROR_SUCCESS"
      using Cons.prems(1) by (auto simp: Let_def case_prod_unfold split: if_splits)
    with False show ?thesis
      using Cons keep [OF provider_enabled_call [of os h r False "snd (?e True st)"]]
      by (auto simp: Let_def case_prod_unfold)
  qed
qed simp

text \<open>A start that was answered with a session, up to the state after the kernel stack request.\<close>

lemma started_session:
  assumes "start_session os n q st = ((status, h), st1)" and "enable_providers os h ps ss st1 = (status2, ss2, st2)"
    and "enable_kernel_stack_tracing os h flags ss2 st2 = (ss3, st3)"
  shows "live os st2 = live os st1" "live os st3 = live os st1"
    "length (st_calls st) \<le> length (st_calls st2)" "length (st_calls st) \<le> length (st_calls st3)"
  using live_enable_providers [of os h ps ss st1] live_enable_kernel [of os h flags ss2 st2] assms(2,3)
    calls_grow_start [OF assms(1)] calls_grow_enable [of st1 os h ps ss] calls_grow_kernel [of st2 os h flags ss2]
  by simp_all

lemma stop_after_start:
  assumes "start_session os n q st = ((ERROR_SUCCESS, h), st1)" and "live os st2 = live os st1"
    and "length (st_calls st) \<le> length (st_calls st2)" and "st_calls st' = st_calls (snd (os_call os (StopTrace h m) st2))"
  shows "live os st' \<subseteq> live os st \<union> {x. stop_refused os st st' x \<and> fst (fst (os_call os (StopTrace h m) st2)) \<noteq> ERROR_SUCCESS}"
  using stop_ends_or_refused [OF assms(3,4)] start_session_live(2) [OF assms(1) refl] assms(2) by auto

lemma start_not_leaked:
  "case da_etw_session_start_file_trace os fmt name path flags out_given st of
      (code, Some session, st') \<Rightarrow>
        code = etw_code DA_ETW_OK \<and> ses_handle session \<in> live os st' \<and> live os st' \<subseteq> insert (ses_handle session) (live os st)
    | (code, None, st') \<Rightarrow>
        code \<noteq> etw_code DA_ETW_OK \<and> live os st' \<subseteq> live os st \<union> {h. stop_refused os st st' h}"
proof -
  obtain status h st1 where start: "start_session os (arg_text name) (arg_text path) st = ((status, h), st1)"
    by (metis prod.collapse)
  obtain status2 ss2 st2 where en: "enable_providers os h (provider_specs flags) initial_stack_status st1 = (status2, ss2, st2)"
    by (metis prod.collapse)
  obtain ss3 st3 where kernel: "enable_kernel_stack_tracing os h flags ss2 st2 = (ss3, st3)" by fastforce
  note started = started_session [OF start en kernel]
  show ?thesis
  proof (cases "status = ERROR_SUCCESS \<and> status2 \<noteq> ERROR_SUCCESS")
    case True
    then have "start_session os (arg_text name) (arg_text path) st = ((ERROR_SUCCESS, h), st1)" using start by simp
    from stop_after_start [OF this started(1,3) live_report]
    have "live os (snd (report r (snd (os_call os (StopTrace h m) st2)))) \<subseteq>
        live os st \<union> {x. stop_refused os st (snd (report r (snd (os_call os (StopTrace h m) st2)))) x}" for r m by blast
    with True show ?thesis
      by (auto simp: da_etw_session_start_file_trace_def start en fst_report etw_fail_def fail_win32_def Let_def)
  next
    case False
    then show ?thesis
      using start_session_live [OF start] started(2)
      by (auto simp: da_etw_session_start_file_trace_def start en kernel fst_report etw_fail_def fail_win32_def Let_def)
  qed
qed

lemma minimal_not_leaked:
  "case da_etw_write_minimal_file_trace os fmt name path flags st of
     (code, st') \<Rightarrow> live os st' \<subseteq> live os st \<union> {h. stop_refused os st st' h \<and> code \<noteq> etw_code DA_ETW_OK}"
proof -
  obtain status h st1 where start: "start_session os (arg_text name) (arg_text path) st = ((status, h), st1)"
    by (metis prod.collapse)
  obtain status2 ss2 st2 where en: "enable_providers os h (provider_specs flags) initial_stack_status st1 = (status2, ss2, st2)"
    by (metis prod.collapse)
  obtain ss3 st3 where kernel: "enable_kernel_stack_tracing os h flags ss2 st2 = (ss3, st3)" by fastforce
  note started = started_session [OF start en kernel]
  show ?thesis
  proof (cases "status = ERROR_SUCCESS")
    case True
    then have s: "start_session os (arg_text name) (arg_text path) st = ((ERROR_SUCCESS, h), st1)" using start by simp
    note stop2 = stop_after_start [OF s started(1,3) live_report] and stop3 = stop_after_start [OF s started(2,4)]
    show ?thesis
      using True stop2 [of "fail_win32 fmt ''EnableTraceEx2'' status2" "arg_text name"]
        stop3 [OF live_report, of "fail_win32 fmt ''ControlTraceA(STOP)'' (fst (fst (os_call os (StopTrace h (arg_text name)) st3)))" "arg_text name"]
        stop3 [OF refl, of "arg_text name"]
      by (auto simp: da_etw_write_minimal_file_trace_def start en kernel fst_report etw_fail_def fail_win32_def Let_def case_prod_unfold)
  next
    case False
    then show ?thesis
      using start_session_live(1) [OF start]
      by (auto simp: da_etw_write_minimal_file_trace_def start Let_def case_prod_unfold)
  qed
qed

lemma stop_not_leaked:
  "case da_etw_session_stop p os fmt source (Some s) st of
     Some (code, context, st') \<Rightarrow>
       (live os st' = live os st - {ses_handle s}
        \<or> stop_refused os st st' (ses_handle s) \<and> code \<noteq> etw_code DA_ETW_OK \<and> live os st' = live os st)
   | None \<Rightarrow> ses_consumer s \<noteq> None"
proof -
  let ?st1 = "disable_providers os (ses_handle s) (ses_providers s) st" and ?c = "StopTrace (ses_handle s) (ses_name s)"
  obtain status h st2 where c: "os_call os ?c ?st1 = ((status, h), st2)" by (metis prod.collapse)
  have ends: "live os st' = live os st - {ses_handle s} \<and> status = ERROR_SUCCESS
      \<or> live os st' = live os st \<and> status \<noteq> ERROR_SUCCESS \<and> stop_refused os st st' (ses_handle s)"
    if "st_calls st' = st_calls st2" for st'
    using stop_ends_or_refused [of st ?st1 st' os "ses_handle s" "ses_name s"] calls_grow_disable that
    by (simp add: c live_disable_providers)
  show ?thesis
    using ends [OF refl] ends [OF live_report]
    by (auto simp: da_etw_session_stop_def c fst_report etw_fail_def fail_win32_def Let_def case_prod_unfold split: option.splits)
qed

section \<open>Properties\<close>

text \<open>
  C35 No trace session is leaked by the adapter. Whatever the system answers: starting a file trace that fails hands out no
  session, and a session it leaves running is one whose stop it issued and the system refused; when it succeeds, the only
  new running session is the one handed out. The one-shot trace leaves a session running only when its stop was refused,
  and then it reports a failure. Stopping a session ends it, or its stop was refused, the session runs on and the failure
  is reported; \<open>None\<close> is an exception in the consumer's thread.
\<close>

theorem sessions_not_leaked:
  "(case da_etw_session_start_file_trace os fmt name path flags out_given st of
      (code, Some session, st') \<Rightarrow>
        code = etw_code DA_ETW_OK \<and> ses_handle session \<in> live os st' \<and> live os st' \<subseteq> insert (ses_handle session) (live os st)
    | (code, None, st') \<Rightarrow>
        code \<noteq> etw_code DA_ETW_OK \<and> live os st' \<subseteq> live os st \<union> {h. stop_refused os st st' h})
   \<and> (case da_etw_write_minimal_file_trace os fmt name path flags st of
        (code, st') \<Rightarrow> live os st' \<subseteq> live os st \<union> {h. stop_refused os st st' h \<and> code \<noteq> etw_code DA_ETW_OK})
   \<and> (case da_etw_session_stop p os fmt source (Some s) st of
        Some (code, context, st') \<Rightarrow>
          (live os st' = live os st - {ses_handle s}
           \<or> stop_refused os st st' (ses_handle s) \<and> code \<noteq> etw_code DA_ETW_OK \<and> live os st' = live os st)
      | None \<Rightarrow> ses_consumer s \<noteq> None)"
  using start_not_leaked minimal_not_leaked stop_not_leaked by (intro conjI)

text \<open>
  Providers are enabled best-effort. When starting reports success, every requested provider was enabled by a successful call, with or without
  stack capture: a file trace that starts has all providers of its presets enabled on its session.
\<close>

theorem providers_enabled:
  assumes "da_etw_session_start_file_trace os fmt name path flags out_given st = (code, Some session, st')"
  shows "ses_providers session = provider_specs flags
    \<and> (\<forall>q \<in> set (provider_specs flags). provider_enabled os (st_calls st') (ses_handle session) q)"
proof -
  obtain status h st1 where start: "start_session os (arg_text name) (arg_text path) st = ((status, h), st1)"
    by (metis prod.collapse)
  obtain status2 ss st2 where en: "enable_providers os h (provider_specs flags) initial_stack_status st1 = (status2, ss, st2)"
    by (metis prod.collapse)
  have session: "status2 = ERROR_SUCCESS" "ses_handle session = h" "ses_providers session = provider_specs flags"
      "st' = snd (enable_kernel_stack_tracing os h flags ss st2)"
    using assms by (auto simp: da_etw_session_start_file_trace_def start en Let_def case_prod_unfold split: if_splits)
  have "\<exists>new. st_calls st' = st_calls st2 @ new"
    unfolding session(4) by (auto simp: enable_kernel_stack_tracing_def os_call_def Let_def case_prod_unfold)
  then show ?thesis
    using enable_providers_all [of os h "provider_specs flags" initial_stack_status st1] en session provider_enabled_mono
    by fastforce
qed

definition example_os :: os_answer where
  "example_os calls c = (case c of StartTrace name path \<Rightarrow> (0, 42) | _ \<Rightarrow> (0, 0))"

definition example_session :: etw_session where
  "example_session = \<lparr>ses_handle = 42, ses_name = ''s'', ses_trace_path = ''t'', ses_providers = provider_specs 8,
     ses_stack_status = \<lparr>ss_requested = True, ss_provider_enabled = True, ss_provider_warnings = 0,
       ss_kernel_enabled = True, ss_kernel_warnings = 0\<rparr>, ses_consumer = None\<rparr>"

lemma example_specs: "provider_specs 8 = [\<lparr>spec_id = DA_KernelProcessProviderGuid, spec_keyword = 0x40\<rparr>,
    \<lparr>spec_id = DA_KernelFileProviderGuid, spec_keyword = 0x1ff0\<rparr>]"
  by (simp add: provider_specs_def collection_flags_def)

lemma example_start:
  "\<exists>st'. da_etw_session_start_file_trace example_os (\<lambda>_. None) (Some ''s'') (Some ''t'') 8 True \<lparr>st_calls = [], st_error = []\<rparr>
     = (0, Some example_session, st')"
  by (simp add: da_etw_session_start_file_trace_def missing_def arg_text_def start_session_def os_call_def example_os_def
      example_specs initial_stack_status_def enable_kernel_stack_tracing_def stack_trace_events_def collection_flags_def
      example_session_def Let_def)

theorem providers_enabled_witness:
  "\<exists>st' :: etw_state. \<forall>q \<in> set (provider_specs 8). provider_enabled example_os (st_calls st') 42 q"
proof -
  obtain st' where "da_etw_session_start_file_trace example_os (\<lambda>_. None) (Some ''s'') (Some ''t'') 8 True
      \<lparr>st_calls = [], st_error = []\<rparr> = (0, Some example_session, st')"
    using example_start by blast
  from providers_enabled [OF this] show ?thesis by (auto simp: example_session_def)
qed

lemma image_always: "(flags OR DA_ETW_PRESET_IMAGE) AND DA_ETW_PRESET_IMAGE \<noteq> (0 :: u32)"
  by (simp add: bit.conj_disj_distrib2)

lemma process_keywords:
  fixes a b :: bool
  defines "k \<equiv> (if b then (if a then 0x10 else 0) OR 0x20 else (if a then 0x10 else 0)) OR (0x40 :: u64)"
  shows "k \<noteq> 0" "bit k 6"
  unfolding k_def by (cases a; cases b; simp)+

lemma provider_guids: "distinct [DA_KernelProcessProviderGuid, DA_KernelFileProviderGuid, DA_KernelRegistryProviderGuid,
    DA_KernelNetworkProviderGuid]"
  by (simp add: DA_KernelProcessProviderGuid_def DA_KernelFileProviderGuid_def DA_KernelRegistryProviderGuid_def
      DA_KernelNetworkProviderGuid_def)

text \<open>
  What each preset collects: no preset, no provider; any preset turns on image loading; the provider identifiers are
  distinct, every keyword mask is non-empty, and a provider is requested exactly when one of its presets is on.
\<close>

theorem provider_specs_presets:
  "(provider_specs flags = [] \<longleftrightarrow> flags = 0)
   \<and> distinct (map spec_id (provider_specs flags)) \<and> (\<forall>q \<in> set (provider_specs flags). spec_keyword q \<noteq> 0)
   \<and> (flags \<noteq> 0 \<longrightarrow> (\<exists>q \<in> set (provider_specs flags). spec_id q = DA_KernelProcessProviderGuid \<and> bit (spec_keyword q) 6))
   \<and> (DA_KernelFileProviderGuid \<in> spec_id ` set (provider_specs flags) \<longleftrightarrow> preset_enabled flags ''file'')
   \<and> (DA_KernelRegistryProviderGuid \<in> spec_id ` set (provider_specs flags) \<longleftrightarrow> preset_enabled flags ''registry'')
   \<and> (DA_KernelNetworkProviderGuid \<in> spec_id ` set (provider_specs flags) \<longleftrightarrow> preset_enabled flags ''network'')"
proof (cases "flags = 0")
  case True
  then show ?thesis by (simp add: provider_specs_def collection_flags_def preset_enabled_def)
next
  case False
  let ?c = "flags OR DA_ETW_PRESET_IMAGE"
  let ?a = "?c AND DA_ETW_PRESET_PROCESS \<noteq> 0" and ?b = "?c AND DA_ETW_PRESET_THREAD \<noteq> 0"
  let ?k = "(if ?b then (if ?a then 0x10 else 0) OR 0x20 else (if ?a then 0x10 else 0)) OR (0x40 :: u64)"
  have specs: "provider_specs flags = [\<lparr>spec_id = DA_KernelProcessProviderGuid, spec_keyword = ?k\<rparr>]
     @ (if flags AND DA_ETW_PRESET_FILE \<noteq> 0 then [\<lparr>spec_id = DA_KernelFileProviderGuid, spec_keyword = 0x1ff0\<rparr>] else [])
     @ (if flags AND DA_ETW_PRESET_REGISTRY \<noteq> 0 then [\<lparr>spec_id = DA_KernelRegistryProviderGuid, spec_keyword = 0xffff\<rparr>] else [])
     @ (if flags AND DA_ETW_PRESET_NETWORK \<noteq> 0 then [\<lparr>spec_id = DA_KernelNetworkProviderGuid, spec_keyword = 0x30\<rparr>] else [])"
    using False image_always [of flags] process_keywords(1) [of ?b ?a]
    by (simp only: provider_specs_def collection_flags_def Let_def if_False if_True simp_thms)
  show ?thesis
    using False provider_guids process_keywords [of ?b ?a] unfolding specs
    by (auto simp: preset_enabled_def)
qed

theorem provider_specs_presets_witness:
  "\<exists>q \<in> set (provider_specs 8). spec_id q = DA_KernelProcessProviderGuid \<and> bit (spec_keyword q) 6"
  using provider_specs_presets [of 8] by simp

text \<open>
  Kernel stacks for file events are requested for the event types 10 to 13, which are not types of the file I/O events the
  adapter knows: no stack is requested for any event that is extracted as a file event.
\<close>

lemma no_stack_for_known_file_events:
  "(DA_ClassicFileIoGuid, t) \<in> set (stack_trace_events flags) \<Longrightarrow> known_file_io_event_type (ucast t) = None"
proof -
  assume "(DA_ClassicFileIoGuid, t) \<in> set (stack_trace_events flags)"
  then have "t \<in> {10, 11, 12, 13}"
    by (auto simp: stack_trace_events_def Let_def DA_ClassicFileIoGuid_def DA_ClassicProcessGuid_def DA_ClassicThreadGuid_def
        DA_ClassicImageLoadGuid_def DA_ClassicRegistryGuid_def DA_ClassicTcpIpGuid_def DA_ClassicUdpIpGuid_def split: if_splits)
  then show ?thesis by (auto simp: known_file_io_event_type_def)
qed

text \<open>
  The trace properties block: for names without a NUL whose block fits 32 bits, the block has the announced size and the C strings at
  the two announced offsets are the session name and the log file path.
\<close>

theorem trace_properties_layout:
  assumes "nul \<notin> set name" "nul \<notin> set path" "fixed_size + length name + length path + 2 < 2 ^ 32"
  shows "let t = make_trace_properties fixed_size name path in
     length (tp_storage t) = unat (tp_buffer_size t)
     \<and> c_string (drop (unat (tp_logger_name_offset t)) (tp_storage t)) = name
     \<and> c_string (drop (unat (tp_log_file_name_offset t)) (tp_storage t)) = path"
proof -
  let ?t = "make_trace_properties fixed_size name path"
  have st: "tp_storage ?t = replicate fixed_size nul @ (name @ [nul]) @ path @ [nul]"
    by (simp add: make_trace_properties_def Let_def)
  have small: "unat (of_nat n :: u32) = n" if "n < 2 ^ 32" for n
    using that by (simp add: unat_of_nat)
  have offs: "unat (tp_buffer_size ?t) = fixed_size + length name + length path + 2"
    "unat (tp_logger_name_offset ?t) = fixed_size" "unat (tp_log_file_name_offset ?t) = fixed_size + length name + 1"
    using assms(3) by (simp_all add: make_trace_properties_def Let_def small del: of_nat_add of_nat_Suc)
  show ?thesis
    using c_string_terminated [OF assms(1), of "path @ [nul]"] c_string_terminated [OF assms(2), of "[]"]
    by (simp add: Let_def st offs)
qed

theorem trace_properties_layout_witness:
  "c_string (drop (unat (tp_log_file_name_offset (make_trace_properties 120 ''s'' ''t.etl'')))
     (tp_storage (make_trace_properties 120 ''s'' ''t.etl''))) = ''t.etl''"
  using trace_properties_layout [of "''s''" "''t.etl''" 120] by (simp add: Let_def)

text \<open>
  C36 The exported extraction function: it reports success only when the trace was opened, processed and closed without error, and then the output files
  are those of the extraction over the delivered records and the caller's struct holds its counters; on every failure the caller's
  struct holds the size and zeros only, within the caller's size. (A failed open sets a non-zero error.)
\<close>

theorem extract_api_correct:
  assumes "da_etw_extract_file_events p fmt source path dir flags has_root root (Some mem) err = ((code, err'), out, w)"
    and "initialize_extraction_result mem = (caller_size, mem1)"
    and "ts_open_error source \<noteq> Some ERROR_SUCCESS"
  shows "(code = etw_code DA_ETW_OK \<longrightarrow>
       ts_open_error source = None \<and> ts_status source = ERROR_SUCCESS \<and> ts_close_status source = ERROR_SUCCESS \<and> err' = err
       \<and> (\<exists>d w'. dir = Some d \<and> d \<noteq> [] \<and> w = Some w'
            \<and> extract_events p d flags (has_root \<noteq> 0) root (ts_records source) = Inr w'
            \<and> out = Some (copy_extraction_result mem1 caller_size w')))
    \<and> (code \<noteq> etw_code DA_ETW_OK \<longrightarrow> out = Some mem1)"
proof -
  have guarded: "fst (etw_guard (Inl e, x)) = 500" for e x by (cases e) (simp_all add: etw_fail_def etw_fail_unknown_def)
  show ?thesis
  proof (cases "missing path \<or> missing dir \<or> ts_mkdir source \<noteq> None")
    case True
    then show ?thesis
      using assms guarded
      by (auto simp: da_etw_extract_file_events_def etw_fail_def Let_def split: option.splits if_splits dest: arg_cong [of _ _ fst])
  next
    case False
    then obtain d where d: "dir = Some d" "d \<noteq> []" "ts_mkdir source = None" "\<not> missing path"
      by (auto simp: missing_def)
    let ?c = "initialize_process_tree (new_context d flags (has_root \<noteq> 0) root)"
    show ?thesis
      using assms d guarded
      by (cases "process_trace_logfile p source ?c")
        (auto simp: da_etw_extract_file_events_def missing_def arg_text_def etw_fail_def fail_win32_def extract_events_def
          process_trace_logfile_def Let_def split: option.splits if_splits sum.splits dest: arg_cong [of _ _ fst])
  qed
qed

definition example_source :: trace_source where
  "example_source = \<lparr>ts_open_error = None, ts_records = [example_process_event], ts_status = 0, ts_close_status = 0,
     ts_mkdir = None\<rparr>"

lemma example_extraction:
  "extract_events sample_platform ''d'' 8 True 7 [example_process_event]
     = Inr (flush_pending_file_events sample_platform (skip_event (initialize_process_tree (new_context ''d'' 8 True 7))))"
  by (simp only: extract_events_def example_delivery map_sum.simps)

theorem extract_api_correct_witness:
  "\<exists>w'. extract_events sample_platform ''d'' 8 True 7 [example_process_event] = Inr w'
     \<and> da_etw_extract_file_events sample_platform (\<lambda>_. None) example_source (Some ''t'') (Some ''d'') 8 1 7 (Some (\<lambda>_. 0)) []
        = ((0, []), Some (copy_extraction_result (snd (initialize_extraction_result (\<lambda>_. 0)))
             (fst (initialize_extraction_result (\<lambda>_. 0))) w'), Some w')"
proof -
  let ?r = "da_etw_extract_file_events sample_platform (\<lambda>_. None) example_source (Some ''t'') (Some ''d'') 8 1 7 (Some (\<lambda>_. 0)) []"
  have r: "fst (fst ?r) = 0"
    by (simp add: da_etw_extract_file_events_def example_source_def missing_def arg_text_def process_trace_logfile_def
        example_delivery Let_def case_prod_unfold del: deliver.simps)
  have "?r = ((fst (fst ?r), snd (fst ?r)), fst (snd ?r), snd (snd ?r))" by simp
  from extract_api_correct [OF this, of "fst (initialize_extraction_result (\<lambda>_. 0))" "snd (initialize_extraction_result (\<lambda>_. 0))"] r
  show ?thesis by (auto simp: example_source_def prod_eq_iff)
qed

text \<open>
  A real-time session: a consumer is started at most once per session, and stopping returns after its worker has finished, so the output is the
  extraction over the records it received; success is reported exactly when the stop succeeded and the worker ended
  normally or was cancelled by the stop.
\<close>

theorem realtime_session_output:
  assumes "da_etw_session_start_realtime_consumer source (Some session) (Some dir) flags has_root root err = (r, Some session')"
    and "fst r = etw_code DA_ETW_OK"
    and "da_etw_session_stop p os fmt source (Some session') st = Some (code, context, st')"
  shows "ses_consumer session = None
    \<and> fst (fst (da_etw_session_start_realtime_consumer source (Some session') (Some dir) flags has_root root err)) \<noteq> etw_code DA_ETW_OK
    \<and> (ts_open_error source = None \<longrightarrow> (\<exists>w. context = Some w
         \<and> extract_events p dir flags (has_root \<noteq> 0) root (ts_records source) = Inr w))
    \<and> (code = etw_code DA_ETW_OK \<longleftrightarrow>
         fst (os (st_calls (disable_providers os (ses_handle session) (ses_providers session) st))
           (StopTrace (ses_handle session) (ses_name session))) = ERROR_SUCCESS
         \<and> (case ts_open_error source of
              Some e \<Rightarrow> e \<in> {ERROR_SUCCESS, ERROR_CANCELLED}
            | None \<Rightarrow> (if ts_status source \<noteq> ERROR_SUCCESS then ts_status source else ts_close_status source)
                \<in> {ERROR_SUCCESS, ERROR_CANCELLED}))"
proof -
  let ?c = "initialize_process_tree (new_context dir flags (has_root \<noteq> 0) root)"
  have guarded: "fst (etw_guard (Inl e, x)) = 500" for e x by (cases e) (simp_all add: etw_fail_def etw_fail_unknown_def)
  have dir: "dir \<noteq> []" and none: "ses_consumer session = None" and s': "session' = session\<lparr>ses_consumer :=
      Some \<lparr>rc_context = ?c, rc_session_name = ses_name session, rc_status = ERROR_SUCCESS\<rparr>\<rparr>"
    using assms(1,2) guarded
    by (auto simp: da_etw_session_start_realtime_consumer_def missing_def arg_text_def etw_fail_def Let_def
        split: option.splits if_splits)
  have again: "fst (fst (da_etw_session_start_realtime_consumer source (Some session') (Some dir) flags has_root root err)) \<noteq> 0"
    by (simp add: da_etw_session_start_realtime_consumer_def s' missing_def dir etw_fail_def)
  show ?thesis
    using assms(3) none again
    by (auto simp: da_etw_session_stop_def s' run_realtime_consumer_def process_trace_logfile_def os_call_def report_def
        fail_win32_def etw_fail_def extract_events_def Let_def case_prod_unfold split: option.splits sum.splits if_splits)
qed

definition example_consumer :: realtime_consumer where
  "example_consumer = \<lparr>rc_context = initialize_process_tree (new_context ''d'' 8 True 7), rc_session_name = ''s'', rc_status = 0\<rparr>"

theorem realtime_session_output_witness:
  "\<exists>code w st'. da_etw_session_stop sample_platform example_os (\<lambda>_. None) example_source
       (Some (example_session\<lparr>ses_consumer := Some example_consumer\<rparr>)) \<lparr>st_calls = [], st_error = []\<rparr> = Some (code, Some w, st')
     \<and> code = etw_code DA_ETW_OK \<and> extract_events sample_platform ''d'' 8 True 7 [example_process_event] = Inr w"
proof -
  let ?s = "example_session\<lparr>ses_consumer := Some example_consumer\<rparr>"
  let ?st = "\<lparr>st_calls = [], st_error = []\<rparr>"
  have start: "da_etw_session_start_realtime_consumer example_source (Some example_session) (Some ''d'') 8 1 7 [] = ((0, []), Some ?s)"
    by (simp add: da_etw_session_start_realtime_consumer_def missing_def arg_text_def example_source_def example_session_def
        example_consumer_def)
  have "da_etw_session_stop sample_platform example_os (\<lambda>_. None) example_source (Some ?s) ?st \<noteq> None"
    by (simp add: da_etw_session_stop_def run_realtime_consumer_def process_trace_logfile_def example_source_def example_consumer_def
        example_delivery Let_def case_prod_unfold del: deliver.simps)
  then obtain code ctx st' where
    stop: "da_etw_session_stop sample_platform example_os (\<lambda>_. None) example_source (Some ?s) ?st = Some (code, ctx, st')"
    by auto
  have ok: "fst (example_os calls (StopTrace h n)) = 0" for calls h n by (simp add: example_os_def)
  from realtime_session_output [OF start _ stop] obtain w where
    "ctx = Some w" "code = 0" "extract_events sample_platform ''d'' 8 True 7 [example_process_event] = Inr w"
    by (auto simp: example_source_def ok)
  with stop show ?thesis by auto
qed

end
