(* ===== verification/Etw_Relog.thy ===== *)
theory Etw_Relog
  imports Etw_Session
begin

text \<open>
  The exported filter (\<^verbatim>\<open>da_etw_filter_trace_file\<close> with \<^verbatim>\<open>utf8_to_wide\<close> and \<^verbatim>\<open>ScopedBStr\<close>): COM set-up, the relogger object, the
  filtering callback and the release of all of them on every path. What COM answers is the record \<open>relog_env\<close>; the
  acquisitions and releases the function performs are logged.
\<close>

section \<open>Environment\<close>

text \<open>
  \<open>mb_length\<close> and \<open>mb_convert\<close> are \<^verbatim>\<open>MultiByteToWideChar\<close>. The \<open>HRESULT\<close>s are those of the COM calls in
  order; \<open>rl_relogger\<close> says whether \<^verbatim>\<open>CoCreateInstance\<close> stored an object, \<open>rl_bstr\<close> which string allocations succeed;
  \<open>rl_events\<close> are the records delivered with whether their injection succeeds.
\<close>

record relog_env =
  mb_length :: "string \<Rightarrow> int"
  mb_convert :: "string \<Rightarrow> int \<Rightarrow> int \<times> wide"
  rl_co_initialize :: u32
  rl_create :: u32
  rl_relogger :: bool
  rl_bstr :: "bool \<times> bool"
  rl_add_stream :: u32
  rl_set_output :: u32
  rl_register :: u32
  rl_process :: u32
  rl_events :: "(event_record \<times> bool) list"

definition RPC_E_CHANGED_MODE :: u32 where [simp]: "RPC_E_CHANGED_MODE = 0x80010106"

definition utf8_to_wide :: "relog_env \<Rightarrow> string \<Rightarrow> wide throws" where
  "utf8_to_wide env value =
     (if value = [] then Inr []
      else let wide_len = mb_length env value in
        if wide_len \<le> 1 then Inr []
        else let (written, w) = mb_convert env value wide_len in
          if written \<noteq> wide_len then Inl (Runtime_error ''failed to convert UTF-8 text to UTF-16'')
          else Inr (butlast w))"

section \<open>Resources\<close>

datatype com_resource = Com_Apartment | Relogger_Object | Input_Bstr | Output_Bstr | Callback_Object

datatype com_action = Acquire com_resource | Release com_resource

text \<open>The resources a log leaves acquired.\<close>

fun held_after :: "com_action list \<Rightarrow> com_resource set \<Rightarrow> com_resource set" where
  "held_after [] held = held"
| "held_after (Acquire r # log) held = held_after log (insert r held)"
| "held_after (Release r # log) held = held_after log (held - {r})"

section \<open>The exported filter\<close>

text \<open>The destructors of the two strings run in reverse order when the function returns.\<close>

definition free_strings :: "relog_env \<Rightarrow> com_action list" where
  "free_strings env = (if snd (rl_bstr env) then [Release Output_Bstr] else []) @ (if fst (rl_bstr env) then [Release Input_Bstr] else [])"

definition uninitialize :: "relog_env \<Rightarrow> com_action list" where
  "uninitialize env = (if \<not> hr_failed (rl_co_initialize env) then [Release Com_Apartment] else [])"

type_synonym filter_result = "call_result \<times> memory option \<times> event_record list \<times> com_action list"

text \<open>The part of the function after \<^verbatim>\<open>CoCreateInstance\<close> and the strings succeeded; \<open>log\<close> is what was acquired so far.\<close>

definition relog_stream ::
  "platform \<Rightarrow> relog_env \<Rightarrow> u32 \<Rightarrow> bool \<Rightarrow> u32 \<Rightarrow> u32 \<Rightarrow> memory \<Rightarrow> last_error \<Rightarrow> com_action list \<Rightarrow> filter_result" where
  "relog_stream p env flags has_root root caller_size mem err log =
     (let release = [Release Relogger_Object] @ uninitialize env @ free_strings env in
      if hr_failed (rl_add_stream env)
      then (fail_hresult ''ITraceRelogger::AddLogfileTraceStream'' (rl_add_stream env), Some mem, [], log @ release)
      else if hr_failed (rl_set_output env)
      then (fail_hresult ''ITraceRelogger::SetOutputFilename'' (rl_set_output env), Some mem, [], log @ release)
      else
        let callback = filtering_relogger_callback (new_context [] flags has_root root);
            log' = log @ [Acquire Callback_Object]
        in if hr_failed (rl_register env)
           then (fail_hresult ''ITraceRelogger::RegisterCallback'' (rl_register env), Some mem, [],
                 log' @ [Release Callback_Object] @ release)
           else
             (case filter_trace p callback (rl_events env) of
                Inl e \<Rightarrow> (etw_guard (Inl e, err), Some mem, [], log' @ free_strings env)
              | Inr (records, callback') \<Rightarrow>
                  let mem' = copy_extraction_result mem caller_size (cb_context callback');
                      log'' = log' @ [Release Callback_Object] @ release
                  in if hr_failed (rl_process env)
                     then (fail_hresult ''ITraceRelogger::ProcessTrace'' (rl_process env), Some mem', records, log'')
                     else ((etw_code DA_ETW_OK, err), Some mem', records, log'')))"

definition relog_com ::
  "platform \<Rightarrow> relog_env \<Rightarrow> u32 \<Rightarrow> bool \<Rightarrow> u32 \<Rightarrow> u32 \<Rightarrow> memory \<Rightarrow> last_error \<Rightarrow> filter_result" where
  "relog_com p env flags has_root root caller_size mem err =
     (let init_hr = rl_co_initialize env in
      if hr_failed init_hr \<and> init_hr \<noteq> RPC_E_CHANGED_MODE
      then (fail_hresult ''CoInitializeEx'' init_hr, Some mem, [], [])
      else
        let log1 = (if \<not> hr_failed init_hr then [Acquire Com_Apartment] else [])
        in if hr_failed (rl_create env) \<or> \<not> rl_relogger env
           then (fail_hresult ''CoCreateInstance(CLSID_TraceRelogger)'' (rl_create env), Some mem, [], log1 @ uninitialize env)
           else
             let log2 = log1 @ [Acquire Relogger_Object]
                  @ (if fst (rl_bstr env) then [Acquire Input_Bstr] else []) @ (if snd (rl_bstr env) then [Acquire Output_Bstr] else [])
             in if \<not> fst (rl_bstr env) \<or> \<not> snd (rl_bstr env)
                then (etw_fail DA_ETW_ERR_INTERNAL ''BSTR allocation failed'', Some mem, [],
                      log2 @ [Release Relogger_Object] @ uninitialize env @ free_strings env)
                else relog_stream p env flags has_root root caller_size mem err log2)"

definition da_etw_filter_trace_file ::
  "platform \<Rightarrow> relog_env \<Rightarrow> string option \<Rightarrow> string option \<Rightarrow> u32 \<Rightarrow> u32 \<Rightarrow> u32 \<Rightarrow> memory option \<Rightarrow> last_error \<Rightarrow> filter_result" where
  "da_etw_filter_trace_file p env input_path output_path flags has_root root out err =
     (case out of
        None \<Rightarrow> (etw_fail DA_ETW_ERR_INVALID_ARGUMENT ''out filter result pointer is null'', None, [], [])
      | Some mem \<Rightarrow>
          let (caller_size, mem1) = initialize_extraction_result mem in
          if missing input_path then (etw_fail DA_ETW_ERR_INVALID_ARGUMENT ''input trace path is empty'', Some mem1, [], [])
          else if missing output_path then (etw_fail DA_ETW_ERR_INVALID_ARGUMENT ''output trace path is empty'', Some mem1, [], [])
          else
            (case utf8_to_wide env (arg_text input_path) of
               Inl e \<Rightarrow> (etw_guard (Inl e, err), Some mem1, [], [])
             | Inr input \<Rightarrow>
                 (case utf8_to_wide env (arg_text output_path) of
                    Inl e \<Rightarrow> (etw_guard (Inl e, err), Some mem1, [], [])
                  | Inr output \<Rightarrow>
                      if input = [] \<or> output = []
                      then (etw_fail DA_ETW_ERR_INVALID_ARGUMENT ''trace paths must be valid UTF-8'', Some mem1, [], [])
                      else relog_com p env flags (has_root \<noteq> 0) root caller_size mem1 err)))"

section \<open>Lemmas\<close>

lemma held_after_append: "held_after (a @ b) h = held_after b (held_after a h)"
  by (induction a h rule: held_after.induct) auto

lemma relog_stream_balanced:
  assumes "\<And>e. filter_trace p (filtering_relogger_callback (new_context [] flags has_root root)) (rl_events env) \<noteq> Inl e"
    and "held_after log {} \<subseteq> {Relogger_Object} \<union> (if \<not> hr_failed (rl_co_initialize env) then {Com_Apartment} else {})
        \<union> (if fst (rl_bstr env) then {Input_Bstr} else {}) \<union> (if snd (rl_bstr env) then {Output_Bstr} else {})"
  shows "held_after (snd (snd (snd (relog_stream p env flags has_root root n mem err log)))) {} = {}"
proof -
  let ?release = "[Release Relogger_Object] @ uninitialize env @ free_strings env"
  have r: "held_after ?release h \<subseteq> h - ({Relogger_Object} \<union> (if \<not> hr_failed (rl_co_initialize env) then {Com_Apartment} else {})
        \<union> (if fst (rl_bstr env) then {Input_Bstr} else {}) \<union> (if snd (rl_bstr env) then {Output_Bstr} else {}))" for h
    by (auto simp: uninitialize_def free_strings_def held_after_append)
  have base: "held_after (log @ ?release) {} = {}"
    using r [of "held_after log {}"] assms(2) unfolding held_after_append [of log] by blast
  have "held_after ((log @ [Acquire Callback_Object]) @ [Release Callback_Object] @ ?release) {} = {}"
    using r [of "held_after log {} - {Callback_Object}"] assms(2) by (simp add: held_after_append) blast
  with base assms(1) show ?thesis
    by (auto simp: relog_stream_def Let_def split: sum.split prod.split)
qed

section \<open>Properties\<close>

text \<open>
  C38 The filter releases what it acquires. Whatever COM answers, unless the callback throws while the trace is processed, every resource the function
  acquired (the COM apartment when its initialisation succeeded, the relogger, the two strings, the callback) is released when it returns;
  and it reports success only when every step succeeded, with the filtered records being those the callback kept.
\<close>

theorem filter_releases_resources:
  assumes "\<And>e. filter_trace p (filtering_relogger_callback (new_context [] flags (has_root \<noteq> 0) root)) (rl_events env) \<noteq> Inl e"
    and "da_etw_filter_trace_file p env input_path output_path flags has_root root out err = ((code, err'), mem, records, log)"
  shows "held_after log {} = {}
    \<and> (code = etw_code DA_ETW_OK \<longrightarrow>
        \<not> hr_failed (rl_create env) \<and> \<not> hr_failed (rl_add_stream env) \<and> \<not> hr_failed (rl_set_output env)
        \<and> \<not> hr_failed (rl_register env) \<and> \<not> hr_failed (rl_process env)
        \<and> (\<exists>cb. filter_trace p (filtering_relogger_callback (new_context [] flags (has_root \<noteq> 0) root)) (rl_events env)
             = Inr (records, cb)))"
proof -
  have guarded: "fst (etw_guard (Inl e, x)) = 500" for e x by (cases e) (simp_all add: etw_fail_def etw_fail_unknown_def)
  have balanced: "held_after (snd (snd (snd (relog_com p env flags (has_root \<noteq> 0) root n m err)))) {} = {}" for n m
    using relog_stream_balanced [OF assms(1)]
    by (auto simp: relog_com_def Let_def uninitialize_def free_strings_def held_after_append)
  have ok: "\<not> hr_failed (rl_create env) \<and> \<not> hr_failed (rl_add_stream env) \<and> \<not> hr_failed (rl_set_output env)
        \<and> \<not> hr_failed (rl_register env) \<and> \<not> hr_failed (rl_process env)
        \<and> (\<exists>cb. filter_trace p (filtering_relogger_callback (new_context [] flags (has_root \<noteq> 0) root)) (rl_events env)
             = Inr (fst (snd (snd (relog_com p env flags (has_root \<noteq> 0) root n m err))), cb))"
    if "fst (fst (relog_com p env flags (has_root \<noteq> 0) root n m err)) = 0" for n m
    using that guarded by (auto simp: relog_com_def relog_stream_def Let_def fail_hresult_def etw_fail_def
        split: if_splits sum.splits)
  consider (early) "code \<noteq> 0" "log = []"
    | (com) n m where "relog_com p env flags (has_root \<noteq> 0) root n m err = ((code, err'), mem, records, log)"
    using assms(2) guarded
    by (auto simp: da_etw_filter_trace_file_def etw_fail_def Let_def case_prod_unfold
        split: option.splits if_splits sum.splits dest: arg_cong [of _ _ fst])
  then show ?thesis
  proof cases
    case (com n m)
    then show ?thesis using balanced [of n m] ok [of n m]
      by (metis etw_code.simps(1) fst_conv snd_conv)
  qed simp
qed

definition example_relog :: relog_env where
  "example_relog = \<lparr>mb_length = (\<lambda>s. int (length s) + 1),
     mb_convert = (\<lambda>s n. (n, map (\<lambda>c. of_nat (of_char c)) s @ [0])), rl_co_initialize = 0, rl_create = 0, rl_relogger = True,
     rl_bstr = (True, True), rl_add_stream = 0, rl_set_output = 0, rl_register = 0, rl_process = 0, rl_events = []\<rparr>"

theorem filter_releases_resources_witness:
  "\<exists>mem log. da_etw_filter_trace_file sample_platform example_relog (Some ''a'') (Some ''b'') 8 1 7 (Some (\<lambda>_. 0)) []
     = ((0, []), mem, [], log) \<and> held_after log {} = {} \<and> Acquire Callback_Object \<in> set log"
proof -
  have no_throw: "filter_trace sample_platform (filtering_relogger_callback (new_context [] 8 (1 \<noteq> (0::u32)) 7)) (rl_events example_relog)
      \<noteq> Inl e" for e by (simp add: example_relog_def)
  obtain mem log where r: "da_etw_filter_trace_file sample_platform example_relog (Some ''a'') (Some ''b'') 8 1 7 (Some (\<lambda>_. 0)) []
      = ((0, []), mem, [], log)" "Acquire Callback_Object \<in> set log"
    by (simp add: da_etw_filter_trace_file_def example_relog_def missing_def arg_text_def utf8_to_wide_def relog_com_def
        relog_stream_def hr_failed_def Let_def case_prod_unfold)
  from filter_releases_resources [OF no_throw r(1)] r show ?thesis by blast
qed

end
