(* ===== verification/Dbgeng_Engine.thy ===== *)
theory Dbgeng_Engine
  imports Adapter_Abi "HOL-Library.State_Monad"
begin

text \<open>
  The ground of the DbgEng adapter (\<^verbatim>\<open>dbgatlas_dbgeng.cpp\<close>): text conversions and messages, the calls into the
  debugger engine, \<^verbatim>\<open>ComPtr\<close>, the two callback classes and the loading of \<^verbatim>\<open>dbgeng.dll\<close>. The engine and Windows
  are not part of the repository: \<open>dp_engine\<close> answers each call as any function of the calls and answers so far, and
  the state keeps that history, so that results hold for every behaviour of the engine. Functions that call the engine
  are in the state monad.
\<close>

section \<open>Calls and answers\<close>

datatype com_interface = IDebugClient | IDebugControl | IDebugSymbols | IDebugDataSpaces | IDebugClient4

text \<open>Callback objects the engine can hold: the two of the adapter, which live on its stack, and foreign ones.\<close>

datatype callbacks = Capturing_callbacks | Breaking_callbacks | Foreign_callbacks nat

text \<open>Objects are numbered; a call carries the interface pointer it is made on, \<open>None\<close> for a null pointer.\<close>

type_synonym com_ptr = "nat option"

datatype dbg_call =
    LoadLibrary wide bool
  | GetProcAddress com_ptr
  | DebugCreate
  | QueryInterface com_ptr com_interface
  | Release_object nat
  | GetOutputCallbacks com_ptr
  | SetOutputCallbacks com_ptr "callbacks option"
  | GetEventCallbacks com_ptr
  | SetEventCallbacks com_ptr "callbacks option"
  | Release_callbacks callbacks
  | WaitForEvent com_ptr u32
  | GetExecutionStatus com_ptr
  | OpenDumpFileWide com_ptr wide
  | OpenDumpFile com_ptr string
  | CreateProcessWide com_ptr wide
  | CreateProcess com_ptr string
  | AttachProcess com_ptr u32 u32
  | Execute com_ptr string
  | AppendSymbolPath com_ptr string
  | ReadVirtual com_ptr u64 u32
  | DetachProcesses com_ptr
  | EndSession com_ptr

text \<open>What the engine calls on the capturing callbacks while it executes a command.\<close>

datatype callback_call = Add_ref | Release_ref | Query_callbacks bool bool | Output "string option"

text \<open>
  An answer: the \<^verbatim>\<open>HRESULT\<close> (for \<^verbatim>\<open>LoadLibrary\<close> and \<^verbatim>\<open>GetProcAddress\<close> the error code), the object or callbacks
  stored through an out pointer, a number (the execution status, the bytes read), the bytes written to a
  buffer, and the calls on the capturing callbacks made meanwhile.
\<close>

record dbg_answer =
  an_hr :: u32
  an_pointer :: com_ptr
  an_callbacks :: "callbacks option"
  an_value :: u32
  an_bytes :: string
  an_calls :: "callback_call list"

type_synonym history = "(dbg_call \<times> dbg_answer) list"

record dbg_platform =
  dp_engine :: "history \<Rightarrow> dbg_call \<Rightarrow> dbg_answer"
  dp_format :: "u32 \<Rightarrow> string" \<comment> \<open>the text of \<^verbatim>\<open>FormatMessageA\<close>, empty when it has none\<close>
  dp_mb_length :: "string \<Rightarrow> int"
  dp_mb_convert :: "string \<Rightarrow> int \<Rightarrow> int \<times> wide"
  dp_wc_length :: "wide \<Rightarrow> int"
  dp_wc_convert :: "wide \<Rightarrow> string"
  dp_same_path :: "wide \<Rightarrow> wide \<Rightarrow> bool" \<comment> \<open>\<^verbatim>\<open>_wcsicmp\<close> answers 0\<close>

text \<open>
  The process: the engine's history, the last error of the thread, the globals of the loaded runtime, and the
  buffers owned by text views, by address.
\<close>

record dbg_state =
  ds_log :: history
  ds_error :: last_error
  ds_module :: com_ptr
  ds_debug_create :: bool
  ds_loaded_path :: wide
  ds_owners :: "(nat \<times> string) list"
  ds_next_owner :: nat

definition engine_call :: "dbg_platform \<Rightarrow> dbg_call \<Rightarrow> (dbg_state, dbg_answer) state" where
  "engine_call p c = State (\<lambda>s. let a = dp_engine p (ds_log s) c in (a, s\<lparr>ds_log := ds_log s @ [(c, a)]\<rparr>))"

definition dbg_fail :: "da_dbgeng_status \<Rightarrow> string \<Rightarrow> (dbg_state, int) state" where
  "dbg_fail status message =
     State (\<lambda>s. (fst (dbgeng_fail status message), s\<lparr>ds_error := snd (dbgeng_fail status message)\<rparr>))"

definition clear_last_error :: "(dbg_state, unit) state" where
  "clear_last_error = State (\<lambda>s. ((), s\<lparr>ds_error := []\<rparr>))"

lemma run_engine_call [simp]:
  "run_state (engine_call p c) s = (dp_engine p (ds_log s) c, s\<lparr>ds_log := ds_log s @ [(c, dp_engine p (ds_log s) c)]\<rparr>)"
  by (simp add: engine_call_def Let_def)

lemma run_dbg_fail [simp]: "run_state (dbg_fail status m) s = (dbgeng_code status, s\<lparr>ds_error := m\<rparr>)"
  by (simp add: dbg_fail_def dbgeng_fail_def)

lemma run_clear_last_error [simp]: "run_state clear_last_error s = ((), s\<lparr>ds_error := []\<rparr>)"
  by (simp add: clear_last_error_def)

section \<open>Messages and text\<close>

definition hresult_message :: "dbg_platform \<Rightarrow> u32 \<Rightarrow> string" where
  "hresult_message p hr =
     (let message = ''HRESULT 0x'' @ hex_upper 8 (unat hr);
          buffer = dp_format p hr
      in if length buffer > 0 then strip_newlines (message @ '': '' @ c_string buffer) else message)"

definition windows_error_message :: "dbg_platform \<Rightarrow> u32 \<Rightarrow> string" where
  "windows_error_message p err =
     (let buffer = dp_format p err
      in if length buffer = 0 then ''Win32 error '' @ dec_text (unat err) else strip_newlines buffer)"

definition dbgeng_utf8_to_wide :: "dbg_platform \<Rightarrow> string option \<Rightarrow> wide throws" where
  "dbgeng_utf8_to_wide p value =
     (if missing value then Inr []
      else
        let required = dp_mb_length p (arg_text value) in
        if required \<le> 0 then Inl (Runtime_error ''UTF-8 path conversion failed'')
        else
          let (written, w) = dp_mb_convert p (arg_text value) required in
          if written \<le> 0 then Inl (Runtime_error ''UTF-8 path conversion failed'')
          else Inr (if w \<noteq> [] \<and> last w = 0 then butlast w else w))"

definition wide_to_utf8 :: "dbg_platform \<Rightarrow> wide \<Rightarrow> string" where
  "wide_to_utf8 p value =
     (if value = [] then []
      else if dp_wc_length p value \<le> 0 then ''<unprintable path>''
      else dp_wc_convert p value)"

definition wide_text :: "string \<Rightarrow> wide" where
  "wide_text s = map (\<lambda>c. of_nat (of_char c)) s"

definition dbgeng_dll_path_from_dir :: "dbg_platform \<Rightarrow> string option \<Rightarrow> wide throws" where
  "dbgeng_dll_path_from_dir p dbgeng_dir =
     (case dbgeng_utf8_to_wide p dbgeng_dir of
        Inl e \<Rightarrow> Inl e
      | Inr dir \<Rightarrow>
          Inr (if dir = [] then wide_text ''dbgeng.dll''
               else (if last dir \<noteq> 0x5C \<and> last dir \<noteq> 0x2F then dir @ [0x5C] else dir) @ wide_text ''dbgeng.dll''))"

definition fail_hr :: "dbg_platform \<Rightarrow> string \<Rightarrow> u32 \<Rightarrow> (dbg_state, int) state" where
  "fail_hr p operation hr = dbg_fail DA_DBGENG_ERR_INTERNAL (operation @ '' failed: '' @ hresult_message p hr)"

lemma run_fail_hr [simp]:
  "run_state (fail_hr p operation hr) s =
     (dbgeng_code DA_DBGENG_ERR_INTERNAL, s\<lparr>ds_error := operation @ '' failed: '' @ hresult_message p hr\<rparr>)"
  by (simp add: fail_hr_def)

section \<open>ComPtr\<close>

text \<open>\<^verbatim>\<open>ComPtr::reset\<close>, which is also the destructor.\<close>

definition com_reset :: "dbg_platform \<Rightarrow> com_ptr \<Rightarrow> (dbg_state, unit) state" where
  "com_reset p ptr =
     (case ptr of
        None \<Rightarrow> State_Monad.return ()
      | Some obj \<Rightarrow> do { _ \<leftarrow> engine_call p (Release_object obj); State_Monad.return () })"

text \<open>A call that stores an interface through \<^verbatim>\<open>ComPtr::put\<close>, which resets the pointer \<open>old\<close> first.\<close>

definition com_put :: "dbg_platform \<Rightarrow> com_ptr \<Rightarrow> dbg_call \<Rightarrow> (dbg_state, u32 \<times> com_ptr) state" where
  "com_put p old c =
     do { _ \<leftarrow> com_reset p old;
          a \<leftarrow> engine_call p c;
          State_Monad.return (an_hr a, an_pointer a) }"

text \<open>Move construction and assignment: the new value of the target and of the source.\<close>

definition com_move_construct :: "com_ptr \<Rightarrow> com_ptr \<times> com_ptr" where
  "com_move_construct other = (other, None)"

definition com_move_assign :: "dbg_platform \<Rightarrow> bool \<Rightarrow> com_ptr \<Rightarrow> com_ptr \<Rightarrow> (dbg_state, com_ptr \<times> com_ptr) state" where
  "com_move_assign p same this other =
     (if same then State_Monad.return (this, other)
      else do { _ \<leftarrow> com_reset p this; State_Monad.return (other, None) })"

section \<open>Callback objects\<close>

definition E_POINTER :: u32 where "E_POINTER = 0x80004003"
definition E_NOINTERFACE :: u32 where "E_NOINTERFACE = 0x80004002"
definition E_UNEXPECTED :: u32 where "E_UNEXPECTED = 0x8000FFFF"
definition DEBUG_STATUS_BREAK :: u32 where "DEBUG_STATUS_BREAK = 6"
definition DEBUG_STATUS_NO_DEBUGGEE :: u32 where "DEBUG_STATUS_NO_DEBUGGEE = 7"

record capturing_output_callbacks =
  co_refs :: u32
  co_output :: string

definition new_capturing :: capturing_output_callbacks where
  "new_capturing = \<lparr>co_refs = 1, co_output = []\<rparr>"

text \<open>
  One call on the object: its result and the object afterwards. For \<open>Query_callbacks given known\<close>, \<open>given\<close> says
  whether the out pointer is not null and \<open>known\<close> whether the interface is one of the two it has.
\<close>

fun capturing_call :: "callback_call \<Rightarrow> capturing_output_callbacks \<Rightarrow> u32 \<times> capturing_output_callbacks" where
  "capturing_call Add_ref cb = (co_refs cb + 1, cb\<lparr>co_refs := co_refs cb + 1\<rparr>)"
| "capturing_call Release_ref cb = (co_refs cb - 1, cb\<lparr>co_refs := co_refs cb - 1\<rparr>)"
| "capturing_call (Query_callbacks given known) cb =
     (if \<not> given then (E_POINTER, cb)
      else if known then (0, cb\<lparr>co_refs := co_refs cb + 1\<rparr>)
      else (E_NOINTERFACE, cb))"
| "capturing_call (Output message) cb =
     (0, case message of None \<Rightarrow> cb | Some t \<Rightarrow> cb\<lparr>co_output := co_output cb @ t\<rparr>)"

definition capture :: "callback_call list \<Rightarrow> capturing_output_callbacks" where
  "capture calls = fold (\<lambda>c cb. snd (capturing_call c cb)) calls new_capturing"

datatype engine_event = Breakpoint_event | Exception_event | Create_process_event

text \<open>\<^verbatim>\<open>BreakingEventCallbacks\<close>: the mask it asks for, and its reply to an event of the mask.\<close>

definition DEBUG_EVENT_BREAKPOINT :: u32 where [simp]: "DEBUG_EVENT_BREAKPOINT = 1"
definition DEBUG_EVENT_EXCEPTION :: u32 where [simp]: "DEBUG_EVENT_EXCEPTION = 2"
definition DEBUG_EVENT_CREATE_PROCESS :: u32 where [simp]: "DEBUG_EVENT_CREATE_PROCESS = 16"

definition breaking_interest_mask :: "bool \<Rightarrow> u32 \<times> u32 option" where
  "breaking_interest_mask given =
     (if \<not> given then (E_POINTER, None)
      else (0, Some (DEBUG_EVENT_CREATE_PROCESS OR DEBUG_EVENT_EXCEPTION OR DEBUG_EVENT_BREAKPOINT)))"

fun breaking_event :: "engine_event \<Rightarrow> u32" where
  "breaking_event Breakpoint_event = DEBUG_STATUS_BREAK"
| "breaking_event Exception_event = DEBUG_STATUS_BREAK"
| "breaking_event Create_process_event = DEBUG_STATUS_BREAK"

section \<open>Loading the runtime\<close>

text \<open>The globals are written under a mutex, so the function is one step.\<close>

definition ensure_dbgeng_runtime_loaded :: "dbg_platform \<Rightarrow> string option \<Rightarrow> (dbg_state, int throws) state" where
  "ensure_dbgeng_runtime_loaded p dbgeng_dir =
     (case dbgeng_dll_path_from_dir p dbgeng_dir of
        Inl e \<Rightarrow> State_Monad.return (Inl e)
      | Inr dll_path \<Rightarrow> do {
          s \<leftarrow> State_Monad.get;
          if ds_debug_create s then
            if missing dbgeng_dir then State_Monad.return (Inr (dbgeng_code DA_DBGENG_OK))
            else if ds_loaded_path s \<noteq> [] \<and> dll_path \<noteq> [] \<and> \<not> dp_same_path p (ds_loaded_path s) dll_path
            then do {
              code \<leftarrow> dbg_fail DA_DBGENG_ERR_INTERNAL
                (''DbgEng runtime is already loaded from '' @ wide_to_utf8 p (ds_loaded_path s) @ ''; requested '' @ wide_to_utf8 p dll_path);
              State_Monad.return (Inr code) }
            else State_Monad.return (Inr (dbgeng_code DA_DBGENG_OK))
          else do {
            loaded \<leftarrow> engine_call p (LoadLibrary dll_path (dll_path \<noteq> wide_text ''dbgeng.dll''));
            if an_pointer loaded = None then do {
              code \<leftarrow> dbg_fail DA_DBGENG_ERR_INTERNAL
                (''LoadLibrary dbgeng.dll failed at '' @ wide_to_utf8 p dll_path @ '': '' @ windows_error_message p (an_hr loaded));
              State_Monad.return (Inr code) }
            else do {
              found \<leftarrow> engine_call p (GetProcAddress (an_pointer loaded));
              if an_pointer found = None then do {
                code \<leftarrow> dbg_fail DA_DBGENG_ERR_INTERNAL
                  (''GetProcAddress(DebugCreate) failed: '' @ windows_error_message p (an_hr found));
                State_Monad.return (Inr code) }
              else do {
                s' \<leftarrow> State_Monad.get;
                _ \<leftarrow> State_Monad.set (s'\<lparr>ds_module := an_pointer loaded, ds_debug_create := True, ds_loaded_path := dll_path\<rparr>);
                State_Monad.return (Inr (dbgeng_code DA_DBGENG_OK)) } } } })"

section \<open>Facts\<close>

text \<open>The texts the engine printed, in order: what the capturing callbacks hold.\<close>

fun printed_text :: "callback_call \<Rightarrow> string" where
  "printed_text (Output (Some t)) = t"
| "printed_text _ = []"

definition printed :: "callback_call list \<Rightarrow> string" where
  "printed calls = concat (map printed_text calls)"

lemma capturing_call_output: "co_output (snd (capturing_call c cb)) = co_output cb @ printed_text c"
  by (cases c) (auto split: option.splits)

lemma capture_fold:
  "co_output (fold (\<lambda>c cb. snd (capturing_call c cb)) calls cb) = co_output cb @ printed calls"
  by (induction calls arbitrary: cb) (simp_all add: capturing_call_output printed_def)

lemma capture_output: "co_output (capture calls) = printed calls"
  by (simp add: capture_def new_capturing_def capture_fold)

text \<open>Every event the breaking callbacks are interested in breaks into the debugger.\<close>

lemma breaking_event_breaks: "breaking_event e = DEBUG_STATUS_BREAK"
  by (cases e) simp_all

lemma hresult_message_shows_code:
  "prefix (''HRESULT 0x'' @ hex_upper 8 (unat hr)) (hresult_message p hr)"
proof -
  have keep: "prefix m (strip_newlines (m @ CHR '':'' # CHR '' '' # t))" for m t
  proof -
    have "\<exists>u. strip_newlines (m @ CHR '':'' # CHR '' '' # t) = m @ u"
      by (cases "dropWhile (\<lambda>c. c = CHR 0x0D \<or> c = CHR 0x0A) (rev t) = []")
        (auto simp: strip_newlines_def dropWhile_append)
    then show ?thesis by auto
  qed
  show ?thesis
    using keep [of "''HRESULT 0x'' @ hex_upper 8 (unat hr)" "c_string (dp_format p hr)"]
    by (simp add: hresult_message_def Let_def)
qed

section \<open>The loaded runtime\<close>

text \<open>What the process has loaded does not change once \<^verbatim>\<open>DebugCreate\<close> is known.\<close>

definition same_runtime :: "dbg_state \<Rightarrow> dbg_state \<Rightarrow> bool" where
  "same_runtime s s' \<longleftrightarrow> ds_module s' = ds_module s \<and> ds_debug_create s' = ds_debug_create s \<and> ds_loaded_path s' = ds_loaded_path s"

lemma same_runtime_refl [simp]: "same_runtime s s"
  by (simp add: same_runtime_def)

lemma ensure_keeps_owners:
  "run_state (ensure_dbgeng_runtime_loaded p dir) s = (r, s') \<Longrightarrow> ds_owners s' = ds_owners s \<and> ds_next_owner s' = ds_next_owner s"
  by (auto simp: ensure_dbgeng_runtime_loaded_def split: sum.splits if_splits)

lemma ensure_loaded_stays:
  "run_state (ensure_dbgeng_runtime_loaded p dir) s = (r, s') \<Longrightarrow> ds_debug_create s \<Longrightarrow> same_runtime s s' \<and> ds_log s' = ds_log s"
  by (auto simp: ensure_dbgeng_runtime_loaded_def same_runtime_def split: sum.splits if_splits)

lemma ensure_ok:
  "run_state (ensure_dbgeng_runtime_loaded p dir) s = (Inr 0, s') \<Longrightarrow>
   ds_debug_create s' \<and> ds_error s' = ds_error s"
  by (auto simp: ensure_dbgeng_runtime_loaded_def split: sum.splits if_splits)

end
