(* ===== verification/Dbgeng_Session.thy ===== *)
theory Dbgeng_Session
  imports Dbgeng_Engine
begin

text \<open>
  Sessions and the exported functions of the DbgEng adapter (\<^verbatim>\<open>dbgatlas_dbgeng.cpp\<close>, lines 196 to 212 and 397 to 900,
  the branches compiled on Windows). A handle is the session record itself. A session a function does not hand out is
  destroyed when the function returns or throws, which the definitions do explicitly.
\<close>

section \<open>Text views\<close>

text \<open>
  \<open>tv_data\<close> and \<open>tv_owner\<close> are addresses of buffers in \<open>ds_owners\<close>; the buffer of an owner has the owner's address.
\<close>

record text_view =
  tv_struct_size :: u32
  tv_flags :: u32
  tv_data :: com_ptr
  tv_len :: nat
  tv_owner :: com_ptr

definition clear_text_view :: text_view where
  "clear_text_view = \<lparr>tv_struct_size = 32, tv_flags = 0, tv_data = None, tv_len = 0, tv_owner = None\<rparr>"

definition new_owner :: "string \<Rightarrow> (dbg_state, nat) state" where
  "new_owner bytes =
     State (\<lambda>s. (ds_next_owner s, s\<lparr>ds_owners := (ds_next_owner s, bytes) # ds_owners s, ds_next_owner := ds_next_owner s + 1\<rparr>))"

definition set_output :: "text_view \<Rightarrow> string \<Rightarrow> (dbg_state, text_view) state" where
  "set_output out bytes =
     do { owner \<leftarrow> new_owner bytes;
          State_Monad.return (out\<lparr>tv_data := (if bytes = [] then None else Some owner), tv_len := length bytes, tv_owner := Some owner\<rparr>) }"

definition da_dbgeng_release_view :: "com_ptr \<Rightarrow> (dbg_state, unit) state" where
  "da_dbgeng_release_view owner =
     State (\<lambda>s. ((), case owner of None \<Rightarrow> s | Some a \<Rightarrow> s\<lparr>ds_owners := um_erase a (ds_owners s)\<rparr>))"

text \<open>What a caller reads through a view.\<close>

definition view_text :: "dbg_state \<Rightarrow> text_view \<Rightarrow> string option" where
  "view_text s v =
     (case tv_data v of
        None \<Rightarrow> (if tv_len v = 0 then Some [] else None)
      | Some a \<Rightarrow> map_option (take (tv_len v)) (map_of (ds_owners s) a))"

section \<open>Sessions\<close>

record dbg_session =
  se_client :: com_ptr
  se_control :: com_ptr
  se_symbols :: com_ptr
  se_data_spaces :: com_ptr
  se_detach_processes_on_close :: bool

definition new_session :: dbg_session where
  "new_session = \<lparr>se_client = None, se_control = None, se_symbols = None, se_data_spaces = None,
     se_detach_processes_on_close = False\<rparr>"

text \<open>The destructor, then the members in reverse order of declaration.\<close>

definition destroy_session :: "dbg_platform \<Rightarrow> dbg_session \<Rightarrow> (dbg_state, unit) state" where
  "destroy_session p session = do {
     _ \<leftarrow> (if se_client session \<noteq> None then do {
            _ \<leftarrow> (if se_detach_processes_on_close session
                 then do { _ \<leftarrow> engine_call p (DetachProcesses (se_client session)); State_Monad.return () }
                 else State_Monad.return ());
            _ \<leftarrow> engine_call p (EndSession (se_client session));
            State_Monad.return () }
          else State_Monad.return ());
     _ \<leftarrow> com_reset p (se_data_spaces session);
     _ \<leftarrow> com_reset p (se_symbols session);
     _ \<leftarrow> com_reset p (se_control session);
     com_reset p (se_client session) }"

definition query_session_interfaces :: "dbg_platform \<Rightarrow> dbg_session \<Rightarrow> (dbg_state, int \<times> dbg_session) state" where
  "query_session_interfaces p session = do {
     (hr, control) \<leftarrow> com_put p (se_control session) (QueryInterface (se_client session) IDebugControl);
     let session = session\<lparr>se_control := control\<rparr>;
     if hr_failed hr then do {
       code \<leftarrow> fail_hr p ''IDebugClient::QueryInterface(IDebugControl)'' hr; State_Monad.return (code, session) }
     else do {
       (hr, symbols) \<leftarrow> com_put p (se_symbols session) (QueryInterface (se_client session) IDebugSymbols);
       let session = session\<lparr>se_symbols := symbols\<rparr>;
       if hr_failed hr then do {
         code \<leftarrow> fail_hr p ''IDebugClient::QueryInterface(IDebugSymbols)'' hr; State_Monad.return (code, session) }
       else do {
         (hr, data_spaces) \<leftarrow> com_put p (se_data_spaces session) (QueryInterface (se_client session) IDebugDataSpaces);
         let session = session\<lparr>se_data_spaces := data_spaces\<rparr>;
         if hr_failed hr then do {
           code \<leftarrow> fail_hr p ''IDebugClient::QueryInterface(IDebugDataSpaces)'' hr; State_Monad.return (code, session) }
         else State_Monad.return (dbgeng_code DA_DBGENG_OK, session) } } }"

definition create_session :: "dbg_platform \<Rightarrow> (dbg_state, int throws \<times> dbg_session option) state" where
  "create_session p = do {
     status \<leftarrow> ensure_dbgeng_runtime_loaded p None;
     if status \<noteq> Inr (dbgeng_code DA_DBGENG_OK) then State_Monad.return (status, None)
     else do {
       let session = new_session;
       (hr, client) \<leftarrow> com_put p (se_client session) DebugCreate;
       let session = session\<lparr>se_client := client\<rparr>;
       if hr_failed hr then do {
         code \<leftarrow> fail_hr p ''DebugCreate'' hr; State_Monad.return (Inr code, Some session) }
       else do {
         (code, session) \<leftarrow> query_session_interfaces p session;
         State_Monad.return (Inr code, Some session) } } }"

definition wait_for_initial_event :: "dbg_platform \<Rightarrow> dbg_session \<Rightarrow> string \<Rightarrow> (dbg_state, int) state" where
  "wait_for_initial_event p session operation = do {
     a \<leftarrow> engine_call p (WaitForEvent (se_control session) 30000);
     if an_hr a \<noteq> 0 then fail_hr p operation (an_hr a)
     else State_Monad.return (dbgeng_code DA_DBGENG_OK) }"

definition release_previous :: "dbg_platform \<Rightarrow> callbacks option \<Rightarrow> (dbg_state, unit) state" where
  "release_previous p previous =
     (case previous of
        None \<Rightarrow> State_Monad.return ()
      | Some cb \<Rightarrow> do { _ \<leftarrow> engine_call p (Release_callbacks cb); State_Monad.return () })"

definition wait_for_launch_initial_event :: "dbg_platform \<Rightarrow> dbg_session \<Rightarrow> (dbg_state, int) state" where
  "wait_for_launch_initial_event p session = do {
     got \<leftarrow> engine_call p (GetEventCallbacks (se_client session));
     if hr_failed (an_hr got) then fail_hr p ''IDebugClient::GetEventCallbacks(launch process)'' (an_hr got)
     else do {
       let previous = an_callbacks got;
       installed \<leftarrow> engine_call p (SetEventCallbacks (se_client session) (Some Breaking_callbacks));
       if hr_failed (an_hr installed) then do {
         _ \<leftarrow> release_previous p previous;
         fail_hr p ''IDebugClient::SetEventCallbacks(launch process)'' (an_hr installed) }
       else do {
         waited \<leftarrow> engine_call p (WaitForEvent (se_control session) 30000);
         restored \<leftarrow> engine_call p (SetEventCallbacks (se_client session) previous);
         _ \<leftarrow> release_previous p previous;
         if hr_failed (an_hr restored) then fail_hr p ''IDebugClient::SetEventCallbacks(restore)'' (an_hr restored)
         else if an_hr waited = 0 then State_Monad.return (dbgeng_code DA_DBGENG_OK)
         else do {
           status \<leftarrow> engine_call p (GetExecutionStatus (se_control session));
           if an_hr waited = E_UNEXPECTED \<and> \<not> hr_failed (an_hr status) \<and> an_value status = DEBUG_STATUS_NO_DEBUGGEE
           then State_Monad.return (dbgeng_code DA_DBGENG_OK)
           else fail_hr p ''IDebugControl::WaitForEvent(launch process)'' (an_hr waited) } } } }"

definition open_debug_file :: "dbg_platform \<Rightarrow> dbg_session \<Rightarrow> string \<Rightarrow> (dbg_state, int throws) state" where
  "open_debug_file p session path =
     (case dbgeng_utf8_to_wide p (Some path) of
        Inl e \<Rightarrow> State_Monad.return (Inl e)
      | Inr path_wide \<Rightarrow> do {
          (hr, client4) \<leftarrow> com_put p None (QueryInterface (se_client session) IDebugClient4);
          code \<leftarrow> (if \<not> hr_failed hr \<and> client4 \<noteq> None then do {
              a \<leftarrow> engine_call p (OpenDumpFileWide client4 path_wide);
              if hr_failed (an_hr a) then fail_hr p ''IDebugClient4::OpenDumpFileWide(open file)'' (an_hr a)
              else State_Monad.return (dbgeng_code DA_DBGENG_OK) }
            else do {
              a \<leftarrow> engine_call p (OpenDumpFile (se_client session) path);
              if hr_failed (an_hr a) then fail_hr p ''IDebugClient::OpenDumpFile(open file)'' (an_hr a)
              else State_Monad.return (dbgeng_code DA_DBGENG_OK) });
          _ \<leftarrow> com_reset p client4;
          State_Monad.return (Inr code) })"

definition launch_debug_process :: "dbg_platform \<Rightarrow> dbg_session \<Rightarrow> string \<Rightarrow> (dbg_state, int throws) state" where
  "launch_debug_process p session command_line =
     (case dbgeng_utf8_to_wide p (Some command_line) of
        Inl e \<Rightarrow> State_Monad.return (Inl e)
      | Inr command_line_wide \<Rightarrow> do {
          (hr, client4) \<leftarrow> com_put p None (QueryInterface (se_client session) IDebugClient4);
          code \<leftarrow> (if \<not> hr_failed hr \<and> client4 \<noteq> None then do {
              a \<leftarrow> engine_call p (CreateProcessWide client4 command_line_wide);
              if hr_failed (an_hr a) then fail_hr p ''IDebugClient4::CreateProcessWide(launch process)'' (an_hr a)
              else State_Monad.return (dbgeng_code DA_DBGENG_OK) }
            else do {
              a \<leftarrow> engine_call p (CreateProcess (se_client session) command_line);
              if hr_failed (an_hr a) then fail_hr p ''IDebugClient::CreateProcess(launch process)'' (an_hr a)
              else State_Monad.return (dbgeng_code DA_DBGENG_OK) });
          _ \<leftarrow> com_reset p client4;
          State_Monad.return (Inr code) })"

definition execute_command ::
  "dbg_platform \<Rightarrow> dbg_session \<Rightarrow> string \<Rightarrow> text_view \<Rightarrow> (dbg_state, int \<times> text_view) state" where
  "execute_command p session command out = do {
     got \<leftarrow> engine_call p (GetOutputCallbacks (se_client session));
     if hr_failed (an_hr got) then do {
       code \<leftarrow> fail_hr p ''IDebugClient::GetOutputCallbacks'' (an_hr got); State_Monad.return (code, out) }
     else do {
       let previous = an_callbacks got;
       installed \<leftarrow> engine_call p (SetOutputCallbacks (se_client session) (Some Capturing_callbacks));
       if hr_failed (an_hr installed) then do {
         _ \<leftarrow> release_previous p previous;
         code \<leftarrow> fail_hr p ''IDebugClient::SetOutputCallbacks'' (an_hr installed);
         State_Monad.return (code, out) }
       else do {
         executed \<leftarrow> engine_call p (Execute (se_control session) command);
         let output = co_output (capture (an_calls executed));
         restored \<leftarrow> engine_call p (SetOutputCallbacks (se_client session) previous);
         _ \<leftarrow> release_previous p previous;
         if hr_failed (an_hr restored) then do {
           code \<leftarrow> fail_hr p ''IDebugClient::SetOutputCallbacks(restore)'' (an_hr restored);
           State_Monad.return (code, out) }
         else if hr_failed (an_hr executed) then do {
           code \<leftarrow> fail_hr p ''IDebugControl::Execute'' (an_hr executed);
           State_Monad.return (code, out) }
         else do {
           out' \<leftarrow> set_output out output;
           State_Monad.return (dbgeng_code DA_DBGENG_OK, out') } } } }"

section \<open>Exported functions\<close>

text \<open>The exception guard around a function body that also delivers a value.\<close>

definition run_guarded :: "(dbg_state, int throws \<times> 'a) state \<Rightarrow> (dbg_state, int \<times> 'a) state" where
  "run_guarded body = State (\<lambda>s.
     let ((status, x), s') = run_state body s;
         (code, e) = dbgeng_guard (status, ds_error s')
     in ((code, x), s'\<lparr>ds_error := e\<rparr>))"

text \<open>Leaving a function while it owns a session.\<close>

definition drop_session ::
  "dbg_platform \<Rightarrow> dbg_session option \<Rightarrow> int throws \<Rightarrow> (dbg_state, int throws \<times> dbg_session option) state" where
  "drop_session p session status = do {
     _ \<leftarrow> (case session of None \<Rightarrow> State_Monad.return () | Some s \<Rightarrow> destroy_session p s);
     State_Monad.return (status, None) }"

definition refuse :: "string \<Rightarrow> 'a \<Rightarrow> (dbg_state, int throws \<times> 'a) state" where
  "refuse message x = do { code \<leftarrow> dbg_fail DA_DBGENG_ERR_INVALID_ARGUMENT message; State_Monad.return (Inr code, x) }"

definition da_dbgeng_abi_version :: "bool \<Rightarrow> (dbg_state, int \<times> u32 list) state" where
  "da_dbgeng_abi_version out_given = run_guarded
     (if \<not> out_given then refuse ''out version pointer is null'' []
      else do {
        _ \<leftarrow> clear_last_error;
        State_Monad.return (Inr (dbgeng_code DA_DBGENG_OK), [20, 0, 0, 3, 0]) })"

definition da_dbgeng_load_runtime :: "dbg_platform \<Rightarrow> string option \<Rightarrow> (dbg_state, int \<times> unit) state" where
  "da_dbgeng_load_runtime p dbgeng_dir = run_guarded (do {
     status \<leftarrow> ensure_dbgeng_runtime_loaded p dbgeng_dir;
     _ \<leftarrow> (if status = Inr (dbgeng_code DA_DBGENG_OK) then clear_last_error else State_Monad.return ());
     State_Monad.return (status, ()) })"

definition da_dbgeng_session_open_file ::
  "dbg_platform \<Rightarrow> string option \<Rightarrow> bool \<Rightarrow> (dbg_state, int \<times> dbg_session option) state" where
  "da_dbgeng_session_open_file p path out_given = run_guarded
     (if \<not> out_given then refuse ''out session handle pointer is null'' None
      else if missing path then refuse ''debug file path is empty'' None
      else do {
        (status, created) \<leftarrow> create_session p;
        case created of
          None \<Rightarrow> State_Monad.return (status, None)
        | Some session \<Rightarrow>
            if status \<noteq> Inr (dbgeng_code DA_DBGENG_OK) then drop_session p (Some session) status
            else do {
              status \<leftarrow> open_debug_file p session (arg_text path);
              if status \<noteq> Inr (dbgeng_code DA_DBGENG_OK) then drop_session p (Some session) status
              else do {
                code \<leftarrow> wait_for_initial_event p session ''IDebugControl::WaitForEvent(open file)'';
                if code \<noteq> dbgeng_code DA_DBGENG_OK then drop_session p (Some session) (Inr code)
                else do {
                  _ \<leftarrow> clear_last_error;
                  State_Monad.return (Inr (dbgeng_code DA_DBGENG_OK), Some session) } } } })"

definition DEBUG_ATTACH_NONINVASIVE :: u32 where "DEBUG_ATTACH_NONINVASIVE = 1"
definition DEBUG_ATTACH_NONINVASIVE_NO_SUSPEND :: u32 where "DEBUG_ATTACH_NONINVASIVE_NO_SUSPEND = 4"

definition da_dbgeng_session_attach_process ::
  "dbg_platform \<Rightarrow> u32 \<Rightarrow> bool \<Rightarrow> (dbg_state, int \<times> dbg_session option) state" where
  "da_dbgeng_session_attach_process p pid out_given = run_guarded
     (if \<not> out_given then refuse ''out session handle pointer is null'' None
      else if pid = 0 then refuse ''attach pid must be greater than zero'' None
      else do {
        (status, created) \<leftarrow> create_session p;
        case created of
          None \<Rightarrow> State_Monad.return (status, None)
        | Some session \<Rightarrow>
            if status \<noteq> Inr (dbgeng_code DA_DBGENG_OK) then drop_session p (Some session) status
            else do {
              a \<leftarrow> engine_call p (AttachProcess (se_client session) pid
                (DEBUG_ATTACH_NONINVASIVE OR DEBUG_ATTACH_NONINVASIVE_NO_SUSPEND));
              if hr_failed (an_hr a) then do {
                code \<leftarrow> fail_hr p ''IDebugClient::AttachProcess'' (an_hr a);
                drop_session p (Some session) (Inr code) }
              else do {
                let session = session\<lparr>se_detach_processes_on_close := True\<rparr>;
                _ \<leftarrow> engine_call p (WaitForEvent (se_control session) 1000);
                _ \<leftarrow> clear_last_error;
                State_Monad.return (Inr (dbgeng_code DA_DBGENG_OK), Some session) } } })"

definition da_dbgeng_session_launch_process ::
  "dbg_platform \<Rightarrow> string option \<Rightarrow> bool \<Rightarrow> (dbg_state, int \<times> dbg_session option) state" where
  "da_dbgeng_session_launch_process p command_line out_given = run_guarded
     (if \<not> out_given then refuse ''out session handle pointer is null'' None
      else if missing command_line then refuse ''launch command line is empty'' None
      else do {
        (status, created) \<leftarrow> create_session p;
        case created of
          None \<Rightarrow> State_Monad.return (status, None)
        | Some session \<Rightarrow>
            if status \<noteq> Inr (dbgeng_code DA_DBGENG_OK) then drop_session p (Some session) status
            else do {
              status \<leftarrow> launch_debug_process p session (arg_text command_line);
              if status \<noteq> Inr (dbgeng_code DA_DBGENG_OK) then drop_session p (Some session) status
              else do {
                let session = session\<lparr>se_detach_processes_on_close := True\<rparr>;
                code \<leftarrow> wait_for_launch_initial_event p session;
                if code \<noteq> dbgeng_code DA_DBGENG_OK then drop_session p (Some session) (Inr code)
                else do {
                  _ \<leftarrow> clear_last_error;
                  State_Monad.return (Inr (dbgeng_code DA_DBGENG_OK), Some session) } } } })"

text \<open>The functions with a view return it; \<open>out_given\<close> says whether the caller passed one.\<close>

definition da_dbgeng_session_execute ::
  "dbg_platform \<Rightarrow> dbg_session option \<Rightarrow> string option \<Rightarrow> bool \<Rightarrow> (dbg_state, int \<times> text_view option) state" where
  "da_dbgeng_session_execute p handle command out_given = run_guarded
     (if \<not> out_given then refuse ''out text view pointer is null'' None
      else case handle of
        None \<Rightarrow> refuse ''session handle is null'' (Some clear_text_view)
      | Some session \<Rightarrow>
          if missing command then refuse ''debug command is empty'' (Some clear_text_view)
          else do {
            (code, out) \<leftarrow> execute_command p session (arg_text command) clear_text_view;
            _ \<leftarrow> (if code = dbgeng_code DA_DBGENG_OK then clear_last_error else State_Monad.return ());
            State_Monad.return (Inr code, Some out) })"

definition da_dbgeng_session_add_symbols ::
  "dbg_platform \<Rightarrow> dbg_session option \<Rightarrow> string option \<Rightarrow> u32 \<Rightarrow> bool \<Rightarrow> (dbg_state, int \<times> text_view option) state" where
  "da_dbgeng_session_add_symbols p handle symbol_path reload out_given = run_guarded
     (if \<not> out_given then refuse ''out text view pointer is null'' None
      else case handle of
        None \<Rightarrow> refuse ''session handle is null'' (Some clear_text_view)
      | Some session \<Rightarrow>
          if missing symbol_path then refuse ''symbol path is empty'' (Some clear_text_view)
          else do {
            a \<leftarrow> engine_call p (AppendSymbolPath (se_symbols session) (arg_text symbol_path));
            if hr_failed (an_hr a) then do {
              code \<leftarrow> fail_hr p ''IDebugSymbols::AppendSymbolPath'' (an_hr a);
              State_Monad.return (Inr code, Some clear_text_view) }
            else do {
              let output = ''symbol path appended'' @ [CHR 0x0A];
              if reload \<noteq> 0 then do {
                (code, reload_output) \<leftarrow> execute_command p session ''.reload'' clear_text_view;
                if code \<noteq> dbgeng_code DA_DBGENG_OK then do {
                  _ \<leftarrow> da_dbgeng_release_view (tv_owner reload_output);
                  State_Monad.return (Inr code, Some clear_text_view) }
                else do {
                  s \<leftarrow> State_Monad.get;
                  let output = (if tv_data reload_output \<noteq> None \<and> tv_len reload_output > 0
                    then output @ (case view_text s reload_output of None \<Rightarrow> [] | Some t \<Rightarrow> t) else output);
                  _ \<leftarrow> da_dbgeng_release_view (tv_owner reload_output);
                  _ \<leftarrow> clear_last_error;
                  out \<leftarrow> set_output clear_text_view output;
                  State_Monad.return (Inr (dbgeng_code DA_DBGENG_OK), Some out) } }
              else do {
                _ \<leftarrow> clear_last_error;
                out \<leftarrow> set_output clear_text_view output;
                State_Monad.return (Inr (dbgeng_code DA_DBGENG_OK), Some out) } } })"

text \<open>
  The buffer of \<open>length\<close> zero bytes is given to the engine, which writes at most that many, and is then cut to
  the bytes read.
\<close>

definition da_dbgeng_session_read_virtual ::
  "dbg_platform \<Rightarrow> dbg_session option \<Rightarrow> u64 \<Rightarrow> u32 \<Rightarrow> bool \<Rightarrow> (dbg_state, int \<times> text_view option) state" where
  "da_dbgeng_session_read_virtual p handle address len out_given = run_guarded
     (if \<not> out_given then refuse ''out byte view pointer is null'' None
      else case handle of
        None \<Rightarrow> refuse ''session handle is null'' (Some clear_text_view)
      | Some session \<Rightarrow>
          if len = 0 then refuse ''read length must be greater than zero'' (Some clear_text_view)
          else do {
            a \<leftarrow> engine_call p (ReadVirtual (se_data_spaces session) address len);
            let buffer = memcpy_into (replicate (unat len) nul) (an_bytes a) (min (unat len) (length (an_bytes a)));
            if hr_failed (an_hr a) then do {
              let operation = take 127 (''IDebugDataSpaces::ReadVirtual(address=0x'' @ hex_upper 1 (unat address)
                @ '',length='' @ dec_text (unat len) @ '')'');
              code \<leftarrow> fail_hr p operation (an_hr a);
              State_Monad.return (Inr code, Some clear_text_view) }
            else do {
              out \<leftarrow> set_output clear_text_view (take (min (length buffer) (unat (an_value a))) buffer);
              _ \<leftarrow> clear_last_error;
              State_Monad.return (Inr (dbgeng_code DA_DBGENG_OK), Some out) } })"

definition da_dbgeng_session_close :: "dbg_platform \<Rightarrow> dbg_session option \<Rightarrow> (dbg_state, int \<times> unit) state" where
  "da_dbgeng_session_close p handle = run_guarded
     (case handle of
        None \<Rightarrow> refuse ''session handle is null'' ()
      | Some session \<Rightarrow> do {
          _ \<leftarrow> destroy_session p session;
          _ \<leftarrow> clear_last_error;
          State_Monad.return (Inr (dbgeng_code DA_DBGENG_OK), ()) })"

end
