(* ===== verification/Dbgeng_Accounting.thy ===== *)
theory Dbgeng_Accounting
  imports Dbgeng_Session
begin

text \<open>
  What the DbgEng adapter owes the engine, for every behaviour of the engine: COM references and callback objects are
  given back, the captured text reaches the caller, the loaded runtime never changes. The exported functions are the
  steps of a transition system whose state is the process with the sessions it has handed out.
\<close>

section \<open>Accounting for COM references\<close>

text \<open>How a call changes the number of references the adapter holds on an object.\<close>

fun ref_change :: "dbg_call \<times> dbg_answer \<Rightarrow> nat \<Rightarrow> int" where
  "ref_change (DebugCreate, a) obj = (if an_pointer a = Some obj then 1 else 0)"
| "ref_change (QueryInterface _ _, a) obj = (if an_pointer a = Some obj then 1 else 0)"
| "ref_change (Release_object released, a) obj = (if released = obj then - 1 else 0)"
| "ref_change _ obj = 0"

definition refs :: "history \<Rightarrow> nat \<Rightarrow> int" where
  "refs h obj = (\<Sum>e\<leftarrow>h. ref_change e obj)"

definition ptr_ref :: "com_ptr \<Rightarrow> nat \<Rightarrow> int" where
  "ptr_ref ptr obj = (if ptr = Some obj then 1 else 0)"

definition session_refs :: "dbg_session \<Rightarrow> nat \<Rightarrow> int" where
  "session_refs x obj = ptr_ref (se_client x) obj + ptr_ref (se_control x) obj + ptr_ref (se_symbols x) obj
     + ptr_ref (se_data_spaces x) obj"

lemma refs_Nil [simp]: "refs [] obj = 0"
  by (simp add: refs_def)

lemma refs_append [simp]: "refs (h @ h') obj = refs h obj + refs h' obj"
  by (simp add: refs_def)

lemma refs_single [simp]: "refs (e # h) obj = ref_change e obj + refs h obj"
  by (simp add: refs_def)

lemma session_refs_new [simp]: "session_refs new_session obj = 0"
  by (simp add: session_refs_def new_session_def ptr_ref_def)

lemma com_reset_refs [simp]:
  "refs (ds_log (snd (run_state (com_reset p ptr) s))) obj = refs (ds_log s) obj - ptr_ref ptr obj"
  by (auto simp: com_reset_def ptr_ref_def split: option.splits)

lemma com_put_refs [simp]:
  "c = DebugCreate \<or> (\<exists>q i. c = QueryInterface q i) \<Longrightarrow> run_state (com_put p old c) s = ((hr, new), s') \<Longrightarrow>
   refs (ds_log s') obj = refs (ds_log s) obj - ptr_ref old obj + ptr_ref new obj"
  using com_reset_refs [of p old s obj]
  by (auto simp: com_put_def ptr_ref_def case_prod_unfold)

lemma destroy_session_refs:
  "refs (ds_log (snd (run_state (destroy_session p x) s))) obj = refs (ds_log s) obj - session_refs x obj"
  by (auto simp: destroy_session_def session_refs_def case_prod_unfold)

lemma release_previous_refs [simp]:
  "refs (ds_log (snd (run_state (release_previous p cb) s))) obj = refs (ds_log s) obj"
  by (auto simp: release_previous_def split: option.splits)

lemma ensure_refs [simp]:
  "refs (ds_log (snd (run_state (ensure_dbgeng_runtime_loaded p dir) s))) obj = refs (ds_log s) obj"
  by (auto simp: ensure_dbgeng_runtime_loaded_def split: sum.splits)

lemma com_put_refs' [simp]:
  "c = DebugCreate \<or> (\<exists>q i. c = QueryInterface q i) \<Longrightarrow>
   refs (ds_log (snd (run_state (com_put p old c) s))) obj
     = refs (ds_log s) obj - ptr_ref old obj + ptr_ref (snd (fst (run_state (com_put p old c) s))) obj"
  by (rule com_put_refs [of c p old s "fst (fst (run_state (com_put p old c) s))"]) simp_all

lemma query_session_interfaces_refs:
  "run_state (query_session_interfaces p x) s = ((code, x'), s') \<Longrightarrow>
   refs (ds_log s') obj - session_refs x' obj = refs (ds_log s) obj - session_refs x obj"
  by (auto simp: query_session_interfaces_def session_refs_def case_prod_unfold Let_def split: if_splits)

lemma create_session_refs:
  assumes "run_state (create_session p) s = ((status, created), s')"
  shows "refs (ds_log s') obj = refs (ds_log s) obj + (case created of None \<Rightarrow> 0 | Some x \<Rightarrow> session_refs x obj)"
proof -
  let ?s1 = "snd (run_state (ensure_dbgeng_runtime_loaded p None) s)"
  let ?r = "run_state (com_put p None DebugCreate) ?s1"
  let ?x = "new_session\<lparr>se_client := snd (fst ?r)\<rparr>"
  have client: "refs (ds_log (snd ?r)) obj = refs (ds_log s) obj + session_refs ?x obj"
    by (simp add: session_refs_def new_session_def ptr_ref_def)
  have query: "refs (ds_log (snd q)) obj - session_refs (snd (fst q)) obj = refs (ds_log (snd ?r)) obj - session_refs ?x obj"
    if "q = run_state (query_session_interfaces p ?x) (snd ?r)" for q
    using query_session_interfaces_refs [of p ?x "snd ?r" "fst (fst q)" "snd (fst q)" "snd q" obj] that by simp
  have se: "se_client new_session = None" by (simp add: new_session_def)
  show ?thesis
    using assms client query [OF refl]
    by (auto simp: create_session_def case_prod_unfold Let_def se split: if_splits)
qed

lemma wait_for_initial_event_refs [simp]:
  "refs (ds_log (snd (run_state (wait_for_initial_event p x op) s))) obj = refs (ds_log s) obj"
  by (auto simp: wait_for_initial_event_def)

lemma wait_for_launch_initial_event_refs [simp]:
  "refs (ds_log (snd (run_state (wait_for_launch_initial_event p x) s))) obj = refs (ds_log s) obj"
  by (auto simp: wait_for_launch_initial_event_def case_prod_unfold Let_def)

lemma open_debug_file_refs [simp]:
  "refs (ds_log (snd (run_state (open_debug_file p x path) s))) obj = refs (ds_log s) obj"
  by (auto simp: open_debug_file_def ptr_ref_def case_prod_unfold Let_def split: sum.splits)

lemma launch_debug_process_refs [simp]:
  "refs (ds_log (snd (run_state (launch_debug_process p x cmd) s))) obj = refs (ds_log s) obj"
  by (auto simp: launch_debug_process_def ptr_ref_def case_prod_unfold Let_def split: sum.splits)

lemma set_output_log [simp]: "ds_log (snd (run_state (set_output out bytes) s)) = ds_log s"
  by (simp add: set_output_def new_owner_def)

lemma release_view_log [simp]: "ds_log (snd (run_state (da_dbgeng_release_view owner) s)) = ds_log s"
  by (auto simp: da_dbgeng_release_view_def split: option.splits)

lemma execute_command_refs [simp]:
  "refs (ds_log (snd (run_state (execute_command p x cmd out) s))) obj = refs (ds_log s) obj"
  by (auto simp: execute_command_def case_prod_unfold Let_def)

lemma drop_session_refs:
  "refs (ds_log (snd (run_state (drop_session p created status) s))) obj
     = refs (ds_log s) obj - (case created of None \<Rightarrow> 0 | Some x \<Rightarrow> session_refs x obj)"
  by (auto simp: drop_session_def destroy_session_refs case_prod_unfold split: option.splits)

lemma drop_session_result [simp]: "fst (run_state (drop_session p created status) s) = (status, None)"
  by (simp add: drop_session_def case_prod_unfold)

lemma run_guarded_effect [simp]:
  "ds_log (snd (run_state (run_guarded body) s)) = ds_log (snd (run_state body s))"
  "ds_owners (snd (run_state (run_guarded body) s)) = ds_owners (snd (run_state body s))"
  "ds_next_owner (snd (run_state (run_guarded body) s)) = ds_next_owner (snd (run_state body s))"
  "snd (fst (run_state (run_guarded body) s)) = snd (fst (run_state body s))"
  "same_runtime s0 (snd (run_state (run_guarded body) s)) = same_runtime s0 (snd (run_state body s))"
  by (simp_all add: run_guarded_def Let_def case_prod_unfold same_runtime_def)

lemma run_refuse [simp]:
  "run_state (refuse m x) s = ((Inr (dbgeng_code DA_DBGENG_ERR_INVALID_ARGUMENT), x), s\<lparr>ds_error := m\<rparr>)"
  by (simp add: refuse_def)

definition handed_out :: "dbg_session option \<Rightarrow> nat \<Rightarrow> int" where
  "handed_out h obj = (case h of None \<Rightarrow> 0 | Some x \<Rightarrow> session_refs x obj)"

lemma session_refs_detach [simp]: "session_refs (x\<lparr>se_detach_processes_on_close := b\<rparr>) obj = session_refs x obj"
  by (simp add: session_refs_def)

lemma create_session_refs':
  "refs (ds_log (snd (run_state (create_session p) s))) obj
     = refs (ds_log s) obj + handed_out (snd (fst (run_state (create_session p) s))) obj"
  using create_session_refs [of p s "fst (fst (run_state (create_session p) s))"
      "snd (fst (run_state (create_session p) s))" "snd (run_state (create_session p) s)" obj]
  by (simp add: handed_out_def)

lemmas session_ref_facts = create_session_refs' drop_session_refs handed_out_def case_prod_unfold Let_def

lemma open_file_refs:
  assumes "run_state (da_dbgeng_session_open_file p path given) s = ((code, h), s')"
  shows "refs (ds_log s') obj = refs (ds_log s) obj + handed_out h obj"
proof -
  let ?r = "run_state (da_dbgeng_session_open_file p path given) s"
  have "refs (ds_log (snd ?r)) obj = refs (ds_log s) obj + handed_out (snd (fst ?r)) obj"
    by (simp add: da_dbgeng_session_open_file_def session_ref_facts split: option.split)
  then show ?thesis using assms by simp
qed

lemma attach_refs:
  assumes "run_state (da_dbgeng_session_attach_process p pid given) s = ((code, h), s')"
  shows "refs (ds_log s') obj = refs (ds_log s) obj + handed_out h obj"
proof -
  let ?r = "run_state (da_dbgeng_session_attach_process p pid given) s"
  have "refs (ds_log (snd ?r)) obj = refs (ds_log s) obj + handed_out (snd (fst ?r)) obj"
    by (simp add: da_dbgeng_session_attach_process_def session_ref_facts split: option.split)
  then show ?thesis using assms by simp
qed

lemma launch_refs:
  assumes "run_state (da_dbgeng_session_launch_process p cmd given) s = ((code, h), s')"
  shows "refs (ds_log s') obj = refs (ds_log s) obj + handed_out h obj"
proof -
  let ?r = "run_state (da_dbgeng_session_launch_process p cmd given) s"
  have "refs (ds_log (snd ?r)) obj = refs (ds_log s) obj + handed_out (snd (fst ?r)) obj"
    by (simp add: da_dbgeng_session_launch_process_def session_ref_facts split: option.split)
  then show ?thesis using assms by simp
qed

lemma execute_refs [simp]:
  "refs (ds_log (snd (run_state (da_dbgeng_session_execute p h cmd given) s))) obj = refs (ds_log s) obj"
  by (simp add: da_dbgeng_session_execute_def case_prod_unfold split: option.split)

lemma add_symbols_refs [simp]:
  "refs (ds_log (snd (run_state (da_dbgeng_session_add_symbols p h path reload given) s))) obj = refs (ds_log s) obj"
  by (simp add: da_dbgeng_session_add_symbols_def case_prod_unfold Let_def split: option.split)

lemma read_virtual_refs [simp]:
  "refs (ds_log (snd (run_state (da_dbgeng_session_read_virtual p h addr len given) s))) obj = refs (ds_log s) obj"
  by (simp add: da_dbgeng_session_read_virtual_def case_prod_unfold Let_def split: option.split)

lemma abi_version_refs [simp]: "refs (ds_log (snd (run_state (da_dbgeng_abi_version given) s))) obj = refs (ds_log s) obj"
  by (simp add: da_dbgeng_abi_version_def)

lemma load_runtime_refs [simp]:
  "refs (ds_log (snd (run_state (da_dbgeng_load_runtime p dir) s))) obj = refs (ds_log s) obj"
  by (simp add: da_dbgeng_load_runtime_def case_prod_unfold)

lemma close_refs:
  "refs (ds_log (snd (run_state (da_dbgeng_session_close p h) s))) obj = refs (ds_log s) obj - handed_out h obj"
  by (simp add: da_dbgeng_session_close_def handed_out_def destroy_session_refs case_prod_unfold split: option.split)

section \<open>The adapter as a transition system\<close>

text \<open>A state of the process: its data, and the handles it has given out and not yet closed.\<close>

type_synonym adapter_state = "dbg_state \<times> dbg_session list"

definition give :: "dbg_session option \<Rightarrow> dbg_session list \<Rightarrow> dbg_session list" where
  "give h open = (case h of None \<Rightarrow> open | Some x \<Rightarrow> x # open)"

inductive dbgeng_step :: "dbg_platform \<Rightarrow> adapter_state \<Rightarrow> adapter_state \<Rightarrow> bool" for p where
  version: "run_state (da_dbgeng_abi_version given) s = (r, s') \<Longrightarrow> dbgeng_step p (s, open) (s', open)"
| load: "run_state (da_dbgeng_load_runtime p dir) s = (r, s') \<Longrightarrow> dbgeng_step p (s, open) (s', open)"
| open_file: "run_state (da_dbgeng_session_open_file p path given) s = ((code, h), s') \<Longrightarrow>
    dbgeng_step p (s, open) (s', give h open)"
| attach: "run_state (da_dbgeng_session_attach_process p pid given) s = ((code, h), s') \<Longrightarrow>
    dbgeng_step p (s, open) (s', give h open)"
| launch: "run_state (da_dbgeng_session_launch_process p cmd given) s = ((code, h), s') \<Longrightarrow>
    dbgeng_step p (s, open) (s', give h open)"
| execute: "h = None \<or> (\<exists>x \<in> set open. h = Some x) \<Longrightarrow> run_state (da_dbgeng_session_execute p h cmd given) s = (r, s') \<Longrightarrow>
    dbgeng_step p (s, open) (s', open)"
| add_symbols: "h = None \<or> (\<exists>x \<in> set open. h = Some x) \<Longrightarrow>
    run_state (da_dbgeng_session_add_symbols p h path reload given) s = (r, s') \<Longrightarrow> dbgeng_step p (s, open) (s', open)"
| read_virtual: "h = None \<or> (\<exists>x \<in> set open. h = Some x) \<Longrightarrow>
    run_state (da_dbgeng_session_read_virtual p h addr len given) s = (r, s') \<Longrightarrow> dbgeng_step p (s, open) (s', open)"
| release_view: "run_state (da_dbgeng_release_view owner) s = (r, s') \<Longrightarrow> dbgeng_step p (s, open) (s', open)"
| close_null: "run_state (da_dbgeng_session_close p None) s = (r, s') \<Longrightarrow> dbgeng_step p (s, open) (s', open)"
| close: "x \<in> set open \<Longrightarrow> run_state (da_dbgeng_session_close p (Some x)) s = (r, s') \<Longrightarrow>
    dbgeng_step p (s, open) (s', remove1 x open)"

inductive_cases dbgeng_stepE: "dbgeng_step p c c'"

definition initial_state :: dbg_state where
  "initial_state = \<lparr>ds_log = [], ds_error = [], ds_module = None, ds_debug_create = False, ds_loaded_path = [],
     ds_owners = [], ds_next_owner = 0\<rparr>"

abbreviation dbgeng_runs :: "dbg_platform \<Rightarrow> adapter_state \<Rightarrow> adapter_state \<Rightarrow> bool" where
  "dbgeng_runs p \<equiv> (dbgeng_step p)\<^sup>*\<^sup>*"

definition open_refs :: "dbg_session list \<Rightarrow> nat \<Rightarrow> int" where
  "open_refs open obj = (\<Sum>x\<leftarrow>open. session_refs x obj)"

lemma open_refs_give: "open_refs (give h open) obj = open_refs open obj + handed_out h obj"
  by (simp add: open_refs_def give_def handed_out_def split: option.split)

lemma open_refs_remove1: "x \<in> set open \<Longrightarrow> open_refs (remove1 x open) obj = open_refs open obj - session_refs x obj"
  by (induction "open") (auto simp: open_refs_def)

definition balanced :: "adapter_state \<Rightarrow> nat \<Rightarrow> int" where
  "balanced c obj = refs (ds_log (fst c)) obj - open_refs (snd c) obj"

lemma dbgeng_step_balanced:
  assumes "dbgeng_step p c c'"
  shows "balanced c' obj = balanced c obj"
  using assms
proof (cases rule: dbgeng_step.cases)
  case (version given s r s' "open")
  then show ?thesis using abi_version_refs [of given s obj] by (simp add: balanced_def)
next
  case (load dir s r s' "open")
  then show ?thesis using load_runtime_refs [of p dir s obj] by (simp add: balanced_def)
next
  case (open_file path given s code h s' "open")
  then show ?thesis by (simp add: balanced_def open_refs_give open_file_refs)
next
  case (attach pid given s code h s' "open")
  then show ?thesis by (simp add: balanced_def open_refs_give attach_refs)
next
  case (launch cmd given s code h s' "open")
  then show ?thesis by (simp add: balanced_def open_refs_give launch_refs)
next
  case (execute h "open" cmd given s r s')
  then show ?thesis using execute_refs [of p h cmd given s obj] by (simp add: balanced_def)
next
  case (add_symbols h "open" path reload given s r s')
  then show ?thesis using add_symbols_refs [of p h path reload given s obj] by (simp add: balanced_def)
next
  case (read_virtual h "open" addr len given s r s')
  then show ?thesis using read_virtual_refs [of p h addr len given s obj] by (simp add: balanced_def)
next
  case (release_view owner s r s' "open")
  then show ?thesis using release_view_log [of owner s] by (simp add: balanced_def)
next
  case (close_null s r s' "open")
  then show ?thesis using close_refs [of p None s obj] by (simp add: balanced_def handed_out_def)
next
  case (close x "open" s r s')
  then show ?thesis using close_refs [of p "Some x" s obj] by (simp add: balanced_def handed_out_def open_refs_remove1)
qed

section \<open>The runtime stays\<close>

lemma com_reset_runtime [simp]: "same_runtime s0 (snd (run_state (com_reset p ptr) s)) = same_runtime s0 s"
  by (auto simp: com_reset_def same_runtime_def split: option.splits)

lemma engine_call_runtime [simp]: "same_runtime s0 (s\<lparr>ds_log := l\<rparr>) = same_runtime s0 s"
  by (simp add: same_runtime_def)

lemma error_runtime [simp]: "same_runtime s0 (s\<lparr>ds_error := e\<rparr>) = same_runtime s0 s"
  by (simp add: same_runtime_def)

lemma com_put_runtime [simp]: "same_runtime s0 (snd (run_state (com_put p old c) s)) = same_runtime s0 s"
  by (simp add: com_put_def case_prod_unfold)

lemma release_previous_runtime [simp]:
  "same_runtime s0 (snd (run_state (release_previous p cb) s)) = same_runtime s0 s"
  by (auto simp: release_previous_def split: option.splits)

lemma destroy_session_runtime [simp]:
  "same_runtime s0 (snd (run_state (destroy_session p x) s)) = same_runtime s0 s"
  by (simp add: destroy_session_def case_prod_unfold)

lemma query_session_interfaces_runtime [simp]:
  "same_runtime s0 (snd (run_state (query_session_interfaces p x) s)) = same_runtime s0 s"
  by (simp add: query_session_interfaces_def case_prod_unfold Let_def)

lemma waits_runtime [simp]:
  "same_runtime s0 (snd (run_state (wait_for_initial_event p x op) s)) = same_runtime s0 s"
  "same_runtime s0 (snd (run_state (wait_for_launch_initial_event p x) s)) = same_runtime s0 s"
  by (simp_all add: wait_for_initial_event_def wait_for_launch_initial_event_def case_prod_unfold Let_def)

lemma open_debug_file_runtime [simp]:
  "same_runtime s0 (snd (run_state (open_debug_file p x path) s)) = same_runtime s0 s"
  "same_runtime s0 (snd (run_state (launch_debug_process p x path) s)) = same_runtime s0 s"
  by (simp_all add: open_debug_file_def launch_debug_process_def case_prod_unfold Let_def split: sum.split)

lemma set_output_runtime [simp]:
  "same_runtime s0 (snd (run_state (set_output out bytes) s)) = same_runtime s0 s"
  "same_runtime s0 (snd (run_state (da_dbgeng_release_view owner) s)) = same_runtime s0 s"
  by (auto simp: set_output_def new_owner_def da_dbgeng_release_view_def same_runtime_def split: option.splits)

lemma execute_command_runtime [simp]:
  "same_runtime s0 (snd (run_state (execute_command p x cmd out) s)) = same_runtime s0 s"
  by (simp add: execute_command_def case_prod_unfold Let_def)

lemma drop_session_runtime [simp]:
  "same_runtime s0 (snd (run_state (drop_session p h status) s)) = same_runtime s0 s"
  by (simp add: drop_session_def case_prod_unfold split: option.split)

lemma ensure_runtime:
  "ds_debug_create s \<Longrightarrow> same_runtime s (snd (run_state (ensure_dbgeng_runtime_loaded p dir) s))"
  using ensure_loaded_stays [of p dir s "fst (run_state (ensure_dbgeng_runtime_loaded p dir) s)"
      "snd (run_state (ensure_dbgeng_runtime_loaded p dir) s)"] by simp

lemma create_session_runtime: "ds_debug_create s \<Longrightarrow> same_runtime s (snd (run_state (create_session p) s))"
  using ensure_runtime [of s p None] by (simp add: create_session_def case_prod_unfold Let_def)

lemma dbgeng_step_runtime:
  assumes "dbgeng_step p (s, open) (s', open')" and "ds_debug_create s"
  shows "same_runtime s s'"
proof -
  note [simp] = case_prod_unfold Let_def create_session_runtime [OF assms(2)] ensure_runtime [OF assms(2)]
  note [split] = option.split
  have exported: "same_runtime s (snd (run_state (da_dbgeng_abi_version given) s))"
      "same_runtime s (snd (run_state (da_dbgeng_load_runtime p dir) s))"
      "same_runtime s (snd (run_state (da_dbgeng_session_open_file p path given) s))"
      "same_runtime s (snd (run_state (da_dbgeng_session_attach_process p pid given) s))"
      "same_runtime s (snd (run_state (da_dbgeng_session_launch_process p path given) s))"
      "same_runtime s (snd (run_state (da_dbgeng_session_execute p h path given) s))"
      "same_runtime s (snd (run_state (da_dbgeng_session_add_symbols p h path reload given) s))"
      "same_runtime s (snd (run_state (da_dbgeng_session_read_virtual p h addr len given) s))"
      "same_runtime s (snd (run_state (da_dbgeng_session_close p h) s))"
    for given dir path pid h reload addr len
    by (simp_all add: da_dbgeng_abi_version_def da_dbgeng_load_runtime_def da_dbgeng_session_open_file_def
        da_dbgeng_session_attach_process_def da_dbgeng_session_launch_process_def da_dbgeng_session_execute_def
        da_dbgeng_session_add_symbols_def da_dbgeng_session_read_virtual_def da_dbgeng_session_close_def)
  have release: "same_runtime s (snd (run_state (da_dbgeng_release_view owner) s))" for owner
    by simp
  show ?thesis
    using assms(1) by (cases rule: dbgeng_step.cases) (use exported release in \<open>metis snd_conv\<close>)+
qed

lemma dbgeng_runs_runtime:
  assumes "dbgeng_runs p (s, open) (s', open')" and "ds_debug_create s"
  shows "same_runtime s s'"
proof -
  have "same_runtime s (fst c)" if "dbgeng_runs p (s, open) c" for c
    using that
  proof (induction rule: rtranclp_induct)
    case (step c c')
    have "ds_debug_create (fst c)" using step.IH assms(2) by (simp add: same_runtime_def)
    then have "same_runtime (fst c) (fst c')"
      using dbgeng_step_runtime step.hyps(2) by (metis prod.collapse)
    then show ?case using step.IH by (simp add: same_runtime_def)
  qed simp
  then show ?thesis using assms(1) by force
qed

section \<open>Views of the history\<close>

text \<open>
  A quantity computed from the history that only the callback calls change. Everything outside the two functions that
  exchange callbacks leaves it alone; the slots and the references on callback objects below are such quantities.
\<close>

fun touches_callbacks :: "dbg_call \<Rightarrow> bool" where
  "touches_callbacks (GetOutputCallbacks _) = True"
| "touches_callbacks (SetOutputCallbacks _ _) = True"
| "touches_callbacks (GetEventCallbacks _) = True"
| "touches_callbacks (SetEventCallbacks _ _) = True"
| "touches_callbacks (Release_callbacks _) = True"
| "touches_callbacks _ = False"

locale log_view =
  fixes view :: "history \<Rightarrow> 'a"
  assumes quiet [simp]: "\<not> touches_callbacks c \<Longrightarrow> view (h @ [(c, a)]) = view h"
begin

lemma quiet_two [simp]:
  "\<not> touches_callbacks c \<Longrightarrow> \<not> touches_callbacks c' \<Longrightarrow> view (h @ [(c, a), (c', a')]) = view h"
  using quiet [of c' "h @ [(c, a)]" a'] by simp

lemma com_reset_view [simp]:
  "view (ds_log (snd (run_state (com_reset p ptr) s))) = view (ds_log s)"
  by (auto simp: com_reset_def split: option.splits)

lemma com_put_view [simp]:
  "\<not> touches_callbacks c \<Longrightarrow>
   view (ds_log (snd (run_state (com_put p old c) s))) = view (ds_log s)"
  by (simp add: com_put_def case_prod_unfold)

lemma ensure_view [simp]:
  "view (ds_log (snd (run_state (ensure_dbgeng_runtime_loaded p dir) s))) = view (ds_log s)"
  by (auto simp: ensure_dbgeng_runtime_loaded_def split: sum.splits)

lemma query_session_interfaces_view [simp]:
  "view (ds_log (snd (run_state (query_session_interfaces p x) s))) = view (ds_log s)"
  by (simp add: query_session_interfaces_def case_prod_unfold Let_def)

lemma create_session_view [simp]:
  "view (ds_log (snd (run_state (create_session p) s))) = view (ds_log s)"
  by (simp add: create_session_def case_prod_unfold Let_def)

lemma open_or_launch_view [simp]:
  "view (ds_log (snd (run_state (open_debug_file p x path) s))) = view (ds_log s)"
  "view (ds_log (snd (run_state (launch_debug_process p x path) s))) = view (ds_log s)"
  by (simp_all add: open_debug_file_def launch_debug_process_def case_prod_unfold Let_def split: sum.split)

lemma destroy_session_view [simp]:
  "view (ds_log (snd (run_state (destroy_session p x) s))) = view (ds_log s)"
  by (simp add: destroy_session_def case_prod_unfold)

lemma drop_session_view [simp]:
  "view (ds_log (snd (run_state (drop_session p h status) s))) = view (ds_log s)"
  by (simp add: drop_session_def case_prod_unfold split: option.split)

lemma set_output_view [simp]:
  "view (ds_log (snd (run_state (set_output out bytes) s))) = view (ds_log s)"
  "view (ds_log (snd (run_state (da_dbgeng_release_view owner) s))) = view (ds_log s)"
  by simp_all

lemma wait_for_initial_event_view [simp]:
  "view (ds_log (snd (run_state (wait_for_initial_event p x op) s))) = view (ds_log s)"
  by (simp add: wait_for_initial_event_def)

text \<open>Only executing a command (also to reload symbols) and launching a process exchange callbacks.\<close>

lemma quiet_functions:
  "view (ds_log (snd (run_state (da_dbgeng_abi_version given) s))) = view (ds_log s)"
  "view (ds_log (snd (run_state (da_dbgeng_load_runtime p dir) s))) = view (ds_log s)"
  "view (ds_log (snd (run_state (da_dbgeng_session_open_file p path given) s))) = view (ds_log s)"
  "view (ds_log (snd (run_state (da_dbgeng_session_attach_process p pid given) s))) = view (ds_log s)"
  "view (ds_log (snd (run_state (da_dbgeng_session_read_virtual p h addr len given) s))) = view (ds_log s)"
  "view (ds_log (snd (run_state (da_dbgeng_session_close p h) s))) = view (ds_log s)"
  by (simp_all add: da_dbgeng_abi_version_def da_dbgeng_load_runtime_def da_dbgeng_session_open_file_def
      da_dbgeng_session_attach_process_def da_dbgeng_session_read_virtual_def da_dbgeng_session_close_def
      case_prod_unfold Let_def split: option.split)

end

section \<open>Callback slots\<close>

text \<open>
  A client has one slot for output callbacks and one for event callbacks. \<open>installed read client h\<close> is what a slot
  holds after a history: the callbacks of the last successful call that sets it, \<open>read\<close> telling what a call sets.
\<close>

fun sets_output :: "dbg_call \<Rightarrow> (com_ptr \<times> callbacks option) option" where
  "sets_output (SetOutputCallbacks client cb) = Some (client, cb)"
| "sets_output _ = None"

fun sets_event :: "dbg_call \<Rightarrow> (com_ptr \<times> callbacks option) option" where
  "sets_event (SetEventCallbacks client cb) = Some (client, cb)"
| "sets_event _ = None"

type_synonym slot_reader = "dbg_call \<Rightarrow> (com_ptr \<times> callbacks option) option"

definition slot_after :: "slot_reader \<Rightarrow> com_ptr \<Rightarrow> dbg_call \<times> dbg_answer \<Rightarrow> callbacks option \<Rightarrow> callbacks option" where
  "slot_after reads client e current =
     (case reads (fst e) of
        Some (c, cb) \<Rightarrow> if c = client \<and> \<not> hr_failed (an_hr (snd e)) then cb else current
      | None \<Rightarrow> current)"

definition installed :: "slot_reader \<Rightarrow> com_ptr \<Rightarrow> history \<Rightarrow> callbacks option" where
  "installed reads client h = fold (slot_after reads client) h None"

text \<open>The documented behaviour of the engine the adapter relies on: a successful query answers what is installed.\<close>

definition answers_installed :: "dbg_platform \<Rightarrow> slot_reader \<Rightarrow> (com_ptr \<Rightarrow> dbg_call) \<Rightarrow> bool" where
  "answers_installed p reads query \<longleftrightarrow>
     (\<forall>h client. \<not> hr_failed (an_hr (dp_engine p h (query client))) \<longrightarrow>
        an_callbacks (dp_engine p h (query client)) = installed reads client h)"

text \<open>The calls that can occur between a query and the restoring call.\<close>

fun sets_callbacks :: "dbg_call \<Rightarrow> bool" where
  "sets_callbacks (SetOutputCallbacks _ _) = True"
| "sets_callbacks (SetEventCallbacks _ _) = True"
| "sets_callbacks _ = False"

text \<open>The release of the saved callbacks.\<close>

definition release_log :: "dbg_platform \<Rightarrow> callbacks option \<Rightarrow> history \<Rightarrow> history" where
  "release_log p previous h = (case previous of None \<Rightarrow> [] | Some cb \<Rightarrow>
     [(Release_callbacks cb, dp_engine p h (Release_callbacks cb))])"

locale callback_slot =
  fixes reads :: slot_reader
    and query :: "com_ptr \<Rightarrow> dbg_call"
    and setter :: "com_ptr \<Rightarrow> callbacks option \<Rightarrow> dbg_call"
    and client :: com_ptr
  assumes reads_setter: "reads (setter c cb) = Some (c, cb)"
    and reads_quiet: "\<not> sets_callbacks call \<Longrightarrow> reads call = None"
    and query_quiet: "\<not> sets_callbacks (query c)"
begin

lemma installed_quiet [simp]: "\<not> sets_callbacks c \<Longrightarrow> installed reads client (h @ [(c, a)]) = installed reads client h"
  by (simp add: installed_def slot_after_def reads_quiet)

lemma installed_setter [simp]:
  "installed reads client (h @ [(setter c cb, a)])
     = (if c = client \<and> \<not> hr_failed (an_hr a) then cb else installed reads client h)"
  by (simp add: installed_def slot_after_def reads_setter)

lemma release_log_installed [simp]:
  "installed reads client (h @ release_log p cb h') = installed reads client h"
  by (simp add: release_log_def split: option.split)

text \<open>Save, replace, run, restore: the slot of every client holds what it held before unless the restoring call fails.\<close>

lemma bracket_restores:
  assumes "answers_installed p reads query" and "\<not> hr_failed (an_hr a)" and "a = dp_engine p h (query c)"
    and "\<not> sets_callbacks run" and "\<not> hr_failed (an_hr restored)"
  shows "installed reads client (h @ [(query c, a), (setter c mine, b), (run, r), (setter c (an_callbacks a), restored)])
     = installed reads client h"
proof -
  have prev: "an_callbacks a = installed reads c h"
    using assms(1-3) by (simp add: answers_installed_def)
  have "installed reads client ((((h @ [(query c, a)]) @ [(setter c mine, b)]) @ [(run, r)]) @ [(setter c (an_callbacks a), restored)])
     = installed reads client h"
    using assms(4,5) query_quiet prev by (cases "c = client") (simp_all del: append_assoc)
  then show ?thesis by simp
qed

lemma bracket_not_installed:
  assumes "hr_failed (an_hr b)"
  shows "installed reads client (h @ [(query c, a), (setter c mine, b)]) = installed reads client h"
proof -
  have "installed reads client ((h @ [(query c, a)]) @ [(setter c mine, b)]) = installed reads client h"
    using assms query_quiet by (simp del: append_assoc)
  then show ?thesis by simp
qed

end

lemma sets_callbacks_touches: "sets_callbacks c \<Longrightarrow> touches_callbacks c"
  by (cases c) simp_all

sublocale callback_slot \<subseteq> slot: log_view "installed reads client"
  by unfold_locales (use sets_callbacks_touches installed_quiet in blast)

interpretation output_slot: callback_slot sets_output GetOutputCallbacks SetOutputCallbacks client for client
proof unfold_locales
  fix c show "\<not> sets_callbacks c \<Longrightarrow> sets_output c = None" by (cases c) simp_all
qed simp_all

interpretation event_slot: callback_slot sets_event GetEventCallbacks SetEventCallbacks client for client
proof unfold_locales
  fix c show "\<not> sets_callbacks c \<Longrightarrow> sets_event c = None" by (cases c) simp_all
qed simp_all

section \<open>Executing a command\<close>

lemma run_release_previous [simp]:
  "run_state (release_previous p previous) s = ((), s\<lparr>ds_log := ds_log s @ release_log p previous (ds_log s)\<rparr>)"
  by (auto simp: release_previous_def release_log_def split: option.splits)

definition ask :: "dbg_platform \<Rightarrow> history \<Rightarrow> dbg_call \<Rightarrow> history" where
  "ask p h c = h @ [(c, dp_engine p h c)]"

abbreviation answer :: "dbg_platform \<Rightarrow> history \<Rightarrow> dbg_call \<Rightarrow> dbg_answer" where
  "answer p h c \<equiv> dp_engine p h c"

text \<open>The outcome of a command as a function of the engine's answers.\<close>

definition command_outcome ::
  "dbg_platform \<Rightarrow> dbg_session \<Rightarrow> string \<Rightarrow> history \<Rightarrow> history \<times> (string + string)" where
  "command_outcome p x command h =
     (let get_call = GetOutputCallbacks (se_client x);
          got = answer p h get_call; h1 = ask p h get_call;
          set_call = SetOutputCallbacks (se_client x) (Some Capturing_callbacks);
          installed_a = answer p h1 set_call; h2 = ask p h1 set_call;
          run_call = Execute (se_control x) command;
          executed = answer p h2 run_call; h3 = ask p h2 run_call;
          back_call = SetOutputCallbacks (se_client x) (an_callbacks got);
          restored = answer p h3 back_call; h4 = ask p h3 back_call;
          failed = (\<lambda>operation a. Inl (operation @ '' failed: '' @ hresult_message p (an_hr a)))
      in if hr_failed (an_hr got) then (h1, failed ''IDebugClient::GetOutputCallbacks'' got)
         else if hr_failed (an_hr installed_a)
         then (h2 @ release_log p (an_callbacks got) h2, failed ''IDebugClient::SetOutputCallbacks'' installed_a)
         else (h4 @ release_log p (an_callbacks got) h4,
           if hr_failed (an_hr restored) then failed ''IDebugClient::SetOutputCallbacks(restore)'' restored
           else if hr_failed (an_hr executed) then failed ''IDebugControl::Execute'' executed
           else Inr (printed (an_calls executed))))"

lemma execute_command_outcome:
  "run_state (execute_command p x command out) s =
     (case command_outcome p x command (ds_log s) of
        (h, Inl e) \<Rightarrow> ((dbgeng_code DA_DBGENG_ERR_INTERNAL, out), s\<lparr>ds_log := h, ds_error := e\<rparr>)
      | (h, Inr t) \<Rightarrow>
          let (out', s') = run_state (set_output out t) (s\<lparr>ds_log := h\<rparr>)
          in ((dbgeng_code DA_DBGENG_OK, out'), s'))"
  by (simp add: execute_command_def command_outcome_def ask_def capture_output case_prod_unfold Let_def)

text \<open>The restoring call of a command or a launch failed: its last callback-setting call answered a failure.\<close>

definition restore_failed :: "dbg_platform \<Rightarrow> string \<Rightarrow> last_error \<Rightarrow> bool" where
  "restore_failed p operation message \<longleftrightarrow>
     (\<exists>hr. hr_failed hr \<and> message = operation @ '' failed: '' @ hresult_message p hr)"

lemma command_outcome_restores:
  assumes "answers_installed p sets_output GetOutputCallbacks"
    and "command_outcome p x command h = (h', r)"
  shows "installed sets_output client h' = installed sets_output client h
    \<or> (\<exists>m. r = Inl m \<and> restore_failed p ''IDebugClient::SetOutputCallbacks(restore)'' m)"
proof -
  let ?get = "GetOutputCallbacks (se_client x)"
  let ?got = "answer p h ?get"
  let ?h1 = "ask p h ?get"
  let ?set = "SetOutputCallbacks (se_client x) (Some Capturing_callbacks)"
  let ?h2 = "ask p ?h1 ?set"
  let ?h3 = "ask p ?h2 (Execute (se_control x) command)"
  let ?give_back = "SetOutputCallbacks (se_client x) (an_callbacks ?got)"
  let ?h4 = "ask p ?h3 ?give_back"
  have one: "installed sets_output client ?h1 = installed sets_output client h"
    by (simp add: ask_def)
  have two: "installed sets_output client ?h2 = installed sets_output client h" if "hr_failed (an_hr (answer p ?h1 ?set))"
    using that output_slot.bracket_not_installed [of "answer p ?h1 ?set" client h "se_client x" ?got] by (simp add: ask_def)
  have four: "installed sets_output client ?h4 = installed sets_output client h"
    if "\<not> hr_failed (an_hr ?got)" "\<not> hr_failed (an_hr (answer p ?h3 ?give_back))"
    using that output_slot.bracket_restores [OF assms(1), of ?got h "se_client x" "Execute (se_control x) command"]
    by (simp add: ask_def)
  show ?thesis
    using assms(2) one two four
    by (auto simp: command_outcome_def Let_def restore_failed_def split: if_splits)
qed

lemma execute_command_restores:
  assumes "answers_installed p sets_output GetOutputCallbacks"
    and "run_state (execute_command p x command out) s = ((code, out'), s')"
  shows "installed sets_output client (ds_log s') = installed sets_output client (ds_log s)
    \<or> code = dbgeng_code DA_DBGENG_ERR_INTERNAL \<and> restore_failed p ''IDebugClient::SetOutputCallbacks(restore)'' (ds_error s')"
proof (cases "command_outcome p x command (ds_log s)")
  case (Pair h r)
  have log: "ds_log s' = h" "r = Inl m \<Longrightarrow> ds_error s' = m \<and> code = dbgeng_code DA_DBGENG_ERR_INTERNAL" for m
    using assms(2) Pair set_output_log [of out _ "s\<lparr>ds_log := h\<rparr>"]
    by (auto simp: execute_command_outcome case_prod_unfold Let_def split: sum.splits)
  then show ?thesis
    using command_outcome_restores [OF assms(1) Pair, of client] by blast
qed

lemma wait_for_launch_restores:
  assumes "answers_installed p sets_event GetEventCallbacks"
    and "run_state (wait_for_launch_initial_event p x) s = (code, s')"
  shows "installed sets_event client (ds_log s') = installed sets_event client (ds_log s)
    \<or> code = dbgeng_code DA_DBGENG_ERR_INTERNAL \<and> restore_failed p ''IDebugClient::SetEventCallbacks(restore)'' (ds_error s')"
proof -
  let ?h = "ds_log s"
  let ?get = "GetEventCallbacks (se_client x)"
  let ?got = "answer p ?h ?get"
  let ?h1 = "ask p ?h ?get"
  let ?set = "SetEventCallbacks (se_client x) (Some Breaking_callbacks)"
  let ?h2 = "ask p ?h1 ?set"
  let ?wait = "WaitForEvent (se_control x) 30000"
  let ?h3 = "ask p ?h2 ?wait"
  let ?give_back = "SetEventCallbacks (se_client x) (an_callbacks ?got)"
  let ?h4 = "ask p ?h3 ?give_back"
  let ?h5 = "?h4 @ release_log p (an_callbacks ?got) ?h4"
  have one: "installed sets_event client ?h1 = installed sets_event client ?h"
    by (simp add: ask_def)
  have two: "installed sets_event client ?h2 = installed sets_event client ?h" if "hr_failed (an_hr (answer p ?h1 ?set))"
    using that event_slot.bracket_not_installed [of "answer p ?h1 ?set" client ?h "se_client x" ?got] by (simp add: ask_def)
  have four: "installed sets_event client ?h4 = installed sets_event client ?h"
    if "\<not> hr_failed (an_hr ?got)" "\<not> hr_failed (an_hr (answer p ?h3 ?give_back))"
    using that event_slot.bracket_restores [OF assms(1), of ?got ?h "se_client x" ?wait] by (simp add: ask_def)
  have log: "ds_log s' = (if hr_failed (an_hr ?got) then ?h1
      else if hr_failed (an_hr (answer p ?h1 ?set)) then ?h2 @ release_log p (an_callbacks ?got) ?h2
      else if hr_failed (an_hr (answer p ?h3 ?give_back)) \<or> an_hr (answer p ?h2 ?wait) = 0 then ?h5
      else ask p ?h5 (GetExecutionStatus (se_control x)))"
    using assms(2) by (auto simp: wait_for_launch_initial_event_def ask_def Let_def split: if_splits)
  have err: "code = dbgeng_code DA_DBGENG_ERR_INTERNAL \<and> restore_failed p ''IDebugClient::SetEventCallbacks(restore)'' (ds_error s')"
    if "\<not> hr_failed (an_hr ?got)" "\<not> hr_failed (an_hr (answer p ?h1 ?set))" "hr_failed (an_hr (answer p ?h3 ?give_back))"
    using assms(2) that by (auto simp: wait_for_launch_initial_event_def ask_def Let_def restore_failed_def)
  have last: "installed sets_event client (ask p h (GetExecutionStatus c)) = installed sets_event client h" for h c
    by (simp add: ask_def)
  have five: "installed sets_event client ?h5 = installed sets_event client ?h4"
    by simp
  show ?thesis
  proof (cases "\<not> hr_failed (an_hr ?got) \<and> \<not> hr_failed (an_hr (answer p ?h1 ?set)) \<and> hr_failed (an_hr (answer p ?h3 ?give_back))")
    case True
    then show ?thesis using err by blast
  next
    case False
    then show ?thesis
      unfolding log using one two four five last [of ?h5 "se_control x"] by (auto simp only: event_slot.release_log_installed split: if_splits)
  qed
qed

section \<open>References on callback objects\<close>

text \<open>A successful query adds a reference to the callbacks it answers; the adapter has to release it.\<close>

fun callback_change :: "dbg_call \<times> dbg_answer \<Rightarrow> callbacks \<Rightarrow> int" where
  "callback_change (GetOutputCallbacks _, a) cb = (if \<not> hr_failed (an_hr a) \<and> an_callbacks a = Some cb then 1 else 0)"
| "callback_change (GetEventCallbacks _, a) cb = (if \<not> hr_failed (an_hr a) \<and> an_callbacks a = Some cb then 1 else 0)"
| "callback_change (Release_callbacks released, _) cb = (if released = cb then - 1 else 0)"
| "callback_change _ cb = 0"

definition callback_refs :: "callbacks \<Rightarrow> history \<Rightarrow> int" where
  "callback_refs cb h = (\<Sum>e\<leftarrow>h. callback_change e cb)"

lemma callback_refs_append [simp]: "callback_refs cb (h @ h') = callback_refs cb h + callback_refs cb h'"
  by (simp add: callback_refs_def)

lemma callback_refs_simps [simp]:
  "callback_refs cb [] = 0" "callback_refs cb (e # h) = callback_change e cb + callback_refs cb h"
  by (simp_all add: callback_refs_def)

interpretation callback_account: log_view "callback_refs cb" for cb
proof unfold_locales
  fix c h a assume "\<not> touches_callbacks c"
  then show "callback_refs cb (h @ [(c, a)]) = callback_refs cb h" by (cases c) simp_all
qed

lemma release_log_refs: "callback_refs cb (release_log p previous h) = (if previous = Some cb then - 1 else 0)"
  by (simp add: release_log_def split: option.split)

lemma execute_command_callback_refs:
  "callback_refs cb (ds_log (snd (run_state (execute_command p x command out) s))) = callback_refs cb (ds_log s)"
  by (simp add: execute_command_def release_log_refs case_prod_unfold Let_def)

lemma wait_for_launch_callback_refs:
  "callback_refs cb (ds_log (snd (run_state (wait_for_launch_initial_event p x) s))) = callback_refs cb (ds_log s)"
  by (simp add: wait_for_launch_initial_event_def release_log_refs Let_def)

section \<open>Steps restore the slots\<close>

lemma execute_command_event_slot:
  "installed sets_event client (ds_log (snd (run_state (execute_command p x command out) s)))
     = installed sets_event client (ds_log s)"
  by (simp add: execute_command_def case_prod_unfold Let_def release_log_def installed_def slot_after_def split: option.split)

lemma wait_for_launch_output_slot:
  "installed sets_output client (ds_log (snd (run_state (wait_for_launch_initial_event p x) s)))
     = installed sets_output client (ds_log s)"
  by (simp add: wait_for_launch_initial_event_def Let_def release_log_def installed_def slot_after_def split: option.split)

definition slots_kept :: "history \<Rightarrow> history \<Rightarrow> bool" where
  "slots_kept h h' \<longleftrightarrow> (\<forall>client. installed sets_output client h' = installed sets_output client h
     \<and> installed sets_event client h' = installed sets_event client h)"

definition slots_ok :: "dbg_platform \<Rightarrow> dbg_state \<Rightarrow> dbg_state \<Rightarrow> bool" where
  "slots_ok p s s' \<longleftrightarrow> slots_kept (ds_log s) (ds_log s')
     \<or> restore_failed p ''IDebugClient::SetOutputCallbacks(restore)'' (ds_error s')
     \<or> restore_failed p ''IDebugClient::SetEventCallbacks(restore)'' (ds_error s')"

lemma keeps_error [simp]:
  "ds_error (snd (run_state (com_reset p ptr) s)) = ds_error s"
  "ds_error (snd (run_state (destroy_session p x) s)) = ds_error s"
  "ds_error (snd (run_state (drop_session p h status) s)) = ds_error s"
  "ds_error (snd (run_state (da_dbgeng_release_view owner) s)) = ds_error s"
proof -
  show "ds_error (snd (run_state (com_reset p ptr) s)) = ds_error s" for ptr s
    by (simp add: com_reset_def split: option.split)
  then show "ds_error (snd (run_state (destroy_session p x) s)) = ds_error s" for x s
    by (simp add: destroy_session_def case_prod_unfold)
  then show "ds_error (snd (run_state (drop_session p h status) s)) = ds_error s"
    by (simp add: drop_session_def case_prod_unfold split: option.split)
qed (simp add: da_dbgeng_release_view_def split: option.split)

lemma run_guarded_error [simp]:
  "fst (fst (run_state body s)) = Inr code \<Longrightarrow> ds_error (snd (run_state (run_guarded body) s)) = ds_error (snd (run_state body s))"
  by (simp add: run_guarded_def Let_def case_prod_unfold)

lemma execute_command_slots:
  assumes "answers_installed p sets_output GetOutputCallbacks"
  shows "let r = run_state (execute_command p x command out) s in
    slots_kept (ds_log s) (ds_log (snd r))
    \<or> fst (fst r) = dbgeng_code DA_DBGENG_ERR_INTERNAL
       \<and> restore_failed p ''IDebugClient::SetOutputCallbacks(restore)'' (ds_error (snd r))"
  using execute_command_restores [OF assms, of x command out s "fst (fst (run_state (execute_command p x command out) s))"
      "snd (fst (run_state (execute_command p x command out) s))" "snd (run_state (execute_command p x command out) s)"]
  by (auto simp: slots_kept_def Let_def execute_command_event_slot)

lemma wait_for_launch_slots:
  assumes "answers_installed p sets_event GetEventCallbacks"
  shows "let r = run_state (wait_for_launch_initial_event p x) s in
    slots_kept (ds_log s) (ds_log (snd r))
    \<or> fst r = dbgeng_code DA_DBGENG_ERR_INTERNAL
       \<and> restore_failed p ''IDebugClient::SetEventCallbacks(restore)'' (ds_error (snd r))"
  using wait_for_launch_restores [OF assms, of x s "fst (run_state (wait_for_launch_initial_event p x) s)"
      "snd (run_state (wait_for_launch_initial_event p x) s)"]
  by (auto simp: slots_kept_def Let_def wait_for_launch_output_slot)

lemma slots_kept_refl [simp]: "slots_kept h h"
  by (simp add: slots_kept_def)

lemma slots_kept_quiet [simp]: "\<not> touches_callbacks c \<Longrightarrow> slots_kept (h @ [(c, a)]) h' = slots_kept h h'"
  by (simp add: slots_kept_def)

lemma execute_slots:
  assumes "answers_installed p sets_output GetOutputCallbacks"
  shows "slots_ok p s (snd (run_state (da_dbgeng_session_execute p h command given) s))"
  using execute_command_slots [OF assms, of "the h" "arg_text command" clear_text_view s]
  by (auto simp: slots_ok_def da_dbgeng_session_execute_def case_prod_unfold Let_def split: option.split)

lemma add_symbols_slots:
  assumes "answers_installed p sets_output GetOutputCallbacks"
  shows "slots_ok p s (snd (run_state (da_dbgeng_session_add_symbols p h path reload given) s))"
proof -
  let ?append = "AppendSymbolPath (se_symbols (the h)) (arg_text path)"
  let ?s = "s\<lparr>ds_log := ds_log s @ [(?append, dp_engine p (ds_log s) ?append)]\<rparr>"
  have "slots_kept (ds_log s) (ds_log s @ [(?append, dp_engine p (ds_log s) ?append)])"
    by (simp add: slots_kept_def)
  then show ?thesis
    using execute_command_slots [OF assms, of "the h" "''.reload''" clear_text_view ?s]
    by (auto simp: slots_ok_def da_dbgeng_session_add_symbols_def case_prod_unfold Let_def split: option.split)
qed

lemma launch_slots:
  assumes "answers_installed p sets_event GetEventCallbacks"
  shows "slots_ok p s (snd (run_state (da_dbgeng_session_launch_process p command given) s))"
proof -
  let ?c = "run_state (create_session p) s"
  let ?x = "the (snd (fst ?c))"
  let ?l = "run_state (launch_debug_process p ?x (arg_text command)) (snd ?c)"
  let ?x' = "?x\<lparr>se_detach_processes_on_close := True\<rparr>"
  let ?w = "run_state (wait_for_launch_initial_event p ?x') (snd ?l)"
  have quiet: "slots_kept (ds_log s) (ds_log (snd ?c))" "slots_kept (ds_log s) (ds_log (snd ?l))"
    by (simp_all add: slots_kept_def)
  have drop: "slots_kept h (ds_log (snd (run_state (drop_session p y st) s1))) = slots_kept h (ds_log s1)" for h y st s1
    by (simp add: slots_kept_def)
  have keep: "slots_kept (ds_log (snd ?l)) h = slots_kept (ds_log s) h" for h
    by (simp add: slots_kept_def)
  show ?thesis
    using wait_for_launch_slots [OF assms, of ?x' "snd ?l"] quiet
    by (auto simp: slots_ok_def da_dbgeng_session_launch_process_def case_prod_unfold Let_def drop keep split: option.split)
qed

lemma callback_refs_functions:
  "callback_refs cb (ds_log (snd (run_state (da_dbgeng_session_execute p h command given) s))) = callback_refs cb (ds_log s)"
  "callback_refs cb (ds_log (snd (run_state (da_dbgeng_session_add_symbols p h path reload given) s))) = callback_refs cb (ds_log s)"
  "callback_refs cb (ds_log (snd (run_state (da_dbgeng_session_launch_process p command given) s))) = callback_refs cb (ds_log s)"
  by (simp_all add: da_dbgeng_session_execute_def da_dbgeng_session_add_symbols_def da_dbgeng_session_launch_process_def
      execute_command_callback_refs wait_for_launch_callback_refs case_prod_unfold Let_def split: option.split)

lemma step_callback_refs:
  assumes "dbgeng_step p (s, open) (s', open')"
  shows "callback_refs cb (ds_log s') = callback_refs cb (ds_log s)"
  using assms
  by (cases rule: dbgeng_step.cases)
    (use callback_account.quiet_functions callback_refs_functions callback_account.set_output_view in \<open>metis snd_conv\<close>)+

lemma quiet_slots:
  assumes "\<And>client. installed sets_output client (ds_log s') = installed sets_output client (ds_log s)"
    and "\<And>client. installed sets_event client (ds_log s') = installed sets_event client (ds_log s)"
  shows "slots_ok p s s'"
  using assms by (simp add: slots_ok_def slots_kept_def)

lemma quiet_functions_slots:
  "slots_ok p s (snd (run_state (da_dbgeng_abi_version given) s))"
  "slots_ok p s (snd (run_state (da_dbgeng_load_runtime p dir) s))"
  "slots_ok p s (snd (run_state (da_dbgeng_session_open_file p path given) s))"
  "slots_ok p s (snd (run_state (da_dbgeng_session_attach_process p pid given) s))"
  "slots_ok p s (snd (run_state (da_dbgeng_session_read_virtual p h addr len given) s))"
  "slots_ok p s (snd (run_state (da_dbgeng_session_close p h) s))"
  "slots_ok p s (snd (run_state (da_dbgeng_release_view owner) s))"
  by (rule quiet_slots; simp add: output_slot.slot.quiet_functions event_slot.slot.quiet_functions)+

lemma step_slots:
  assumes "answers_installed p sets_output GetOutputCallbacks" "answers_installed p sets_event GetEventCallbacks"
    and "dbgeng_step p (s, open) (s', open')"
  shows "slots_ok p s s'"
  using assms(3)
  by (cases rule: dbgeng_step.cases)
    (use quiet_functions_slots execute_slots [OF assms(1)] add_symbols_slots [OF assms(1)] launch_slots [OF assms(2)]
      in \<open>metis snd_conv\<close>)+

end
