(* ===== verification/Dbgeng_Properties.thy ===== *)
theory Dbgeng_Properties
  imports Dbgeng_Accounting
begin

text \<open>
  The properties of the DbgEng adapter: the views it returns, and the claims over any sequence of calls of its
  exported functions and any behaviour of the engine.
\<close>

section \<open>Views\<close>

text \<open>Addresses of buffers are handed out once.\<close>

definition owners_wf :: "dbg_state \<Rightarrow> bool" where
  "owners_wf s \<longleftrightarrow> um_wf (ds_owners s) \<and> (\<forall>a \<in> fst ` set (ds_owners s). a < ds_next_owner s)"

lemma run_set_output:
  "run_state (set_output out bytes) s =
     (out\<lparr>tv_data := (if bytes = [] then None else Some (ds_next_owner s)), tv_len := length bytes, tv_owner := Some (ds_next_owner s)\<rparr>,
      s\<lparr>ds_owners := (ds_next_owner s, bytes) # ds_owners s, ds_next_owner := ds_next_owner s + 1\<rparr>)"
  by (simp add: set_output_def new_owner_def)

lemma um_erase_fresh: "owners_wf s \<Longrightarrow> um_erase (ds_next_owner s) (ds_owners s) = ds_owners s"
  by (rule um_erase_absent) (auto simp: owners_wf_def map_of_eq_None_iff)

lemma um_erase_Cons [simp]: "um_erase a ((a, t) # m) = um_erase a m"
  by (simp add: um_erase_def)

text \<open>What a view shows, and that giving up its owner leaves the buffers as they were.\<close>

definition owns :: "dbg_state \<Rightarrow> dbg_state \<Rightarrow> text_view \<Rightarrow> string \<Rightarrow> bool" where
  "owns s s' v t \<longleftrightarrow> view_text s' v = Some t \<and> tv_len v = length t
     \<and> ds_owners (snd (run_state (da_dbgeng_release_view (tv_owner v)) s')) = ds_owners s"

lemma set_output_owns:
  assumes "owners_wf s0" and "ds_owners s = ds_owners s0" and "ds_next_owner s = ds_next_owner s0 \<or> owners_wf s"
  shows "owns s0 (snd (run_state (set_output clear_text_view t) s)) (fst (run_state (set_output clear_text_view t) s)) t"
proof -
  have "um_erase (ds_next_owner s) (ds_owners s) = ds_owners s"
    using assms um_erase_fresh [of s0] um_erase_fresh [of s] by auto
  then show ?thesis
    using assms(2)
    by (simp add: owns_def view_text_def run_set_output da_dbgeng_release_view_def clear_text_view_def)
qed

lemma owns_error [simp]: "owns s0 (s\<lparr>ds_error := e\<rparr>) v t = owns s0 s v t"
  by (simp add: owns_def view_text_def da_dbgeng_release_view_def split: option.split)

lemma ownersI: "owners_wf s \<Longrightarrow> ds_owners s' = ds_owners s \<Longrightarrow> ds_next_owner s \<le> ds_next_owner s' \<Longrightarrow> owners_wf s'"
  by (auto simp: owners_wf_def)

lemma command_outcome_ran:
  assumes "command_outcome p x command h = (h', Inr t)"
  defines "h2 \<equiv> ask p (ask p h (GetOutputCallbacks (se_client x))) (SetOutputCallbacks (se_client x) (Some Capturing_callbacks))"
  defines "a \<equiv> answer p h2 (Execute (se_control x) command)"
  shows "\<exists>rest. h' = h2 @ (Execute (se_control x) command, a) # rest"
    and "prefix h h2" and "\<not> hr_failed (an_hr a)" and "t = printed (an_calls a)"
  using assms by (auto simp: command_outcome_def Let_def ask_def split: if_splits)

lemma execute_command_view:
  assumes "owners_wf s" and "run_state (execute_command p x command clear_text_view) s = ((code, v), s')"
  shows "code = 0 \<and> (\<exists>h r rest. ds_log s' = h @ (Execute (se_control x) command, r) # rest
             \<and> prefix (ds_log s) h \<and> \<not> hr_failed (an_hr r) \<and> owns s s' v (printed (an_calls r))
             \<and> ds_next_owner s' = ds_next_owner s + 1 \<and> ds_error s' = ds_error s)
    \<or> code = 500 \<and> v = clear_text_view \<and> ds_owners s' = ds_owners s \<and> ds_next_owner s' = ds_next_owner s
      \<and> (\<exists>operation \<in> {''IDebugClient::GetOutputCallbacks'', ''IDebugClient::SetOutputCallbacks'',
              ''IDebugClient::SetOutputCallbacks(restore)'', ''IDebugControl::Execute''}.
            \<exists>hr. hr_failed hr \<and> ds_error s' = operation @ '' failed: '' @ hresult_message p hr)"
proof (cases "command_outcome p x command (ds_log s)")
  case (Pair h r)
  show ?thesis
  proof (cases r)
    case (Inl m)
    then show ?thesis
      using assms(2) Pair by (auto simp: execute_command_outcome command_outcome_def Let_def split: if_splits)
  next
    case (Inr t)
    let ?s = "s\<lparr>ds_log := h\<rparr>"
    have ran: "(v, s') = run_state (set_output clear_text_view t) ?s" "code = 0"
      using assms(2) Pair Inr by (auto simp: execute_command_outcome case_prod_unfold Let_def)
    obtain a h' rest where "h = h' @ (Execute (se_control x) command, a) # rest" "prefix (ds_log s) h'"
        "\<not> hr_failed (an_hr a)" "t = printed (an_calls a)"
      using command_outcome_ran [OF Pair [unfolded Inr]] by blast
    moreover have "owns s s' v t"
      using set_output_owns [OF assms(1), of ?s t] ran(1) [symmetric] by simp
    moreover have "ds_log s' = h" "ds_next_owner s' = ds_next_owner s + 1" "ds_error s' = ds_error s"
      using ran(1) by (simp_all add: run_set_output)
    ultimately show ?thesis using ran(2) by blast
  qed
qed

lemma execute_view:
  assumes "owners_wf s" and "run_state (da_dbgeng_session_execute p (Some x) (Some command) True) s = ((code, v), s')"
    and "command \<noteq> []"
  shows "code = 0 \<and> ds_error s' = [] \<and> (\<exists>view h r rest. v = Some view
             \<and> ds_log s' = h @ (Execute (se_control x) command, r) # rest
             \<and> prefix (ds_log s) h \<and> \<not> hr_failed (an_hr r) \<and> owns s s' view (printed (an_calls r)))
    \<or> code = 500 \<and> v = Some clear_text_view \<and> ds_owners s' = ds_owners s
      \<and> (\<exists>operation \<in> {''IDebugClient::GetOutputCallbacks'', ''IDebugClient::SetOutputCallbacks'',
              ''IDebugClient::SetOutputCallbacks(restore)'', ''IDebugControl::Execute''}.
            \<exists>hr. hr_failed hr \<and> ds_error s' = operation @ '' failed: '' @ hresult_message p hr)"
proof -
  obtain c w s1 where r: "run_state (execute_command p x command clear_text_view) s = ((c, w), s1)"
    by (metis prod.collapse)
  have run: "code = c" "v = Some w" "s' = (if c = 0 then s1\<lparr>ds_error := []\<rparr> else s1)"
    using assms(2,3) r
    by (auto simp: da_dbgeng_session_execute_def missing_def arg_text_def run_guarded_def Let_def split: if_splits)
  show ?thesis
    using execute_command_view [OF assms(1) r] unfolding run by (elim disjE) auto
qed

text \<open>What the three functions with a view leave behind.\<close>

definition view_contract :: "dbg_state \<Rightarrow> (int \<times> text_view option) \<times> dbg_state \<Rightarrow> bool" where
  "view_contract s r \<longleftrightarrow>
     (if fst (fst r) = 0 then (\<exists>view t. snd (fst r) = Some view \<and> owns s (snd r) view t)
      else ds_owners (snd r) = ds_owners s \<and> snd (fst r) \<in> {None, Some clear_text_view})"

lemma execute_contract:
  assumes "owners_wf s"
  shows "view_contract s (run_state (da_dbgeng_session_execute p h command given) s)"
proof (cases "given \<and> h \<noteq> None \<and> \<not> missing command")
  case True
  then obtain x c where hx: "h = Some x" "command = Some c" "c \<noteq> []" by (cases command) (auto simp: missing_def)
  obtain code v s' where r: "run_state (da_dbgeng_session_execute p (Some x) (Some c) True) s = ((code, v), s')"
    by (metis prod.collapse)
  show ?thesis
    using execute_view [OF assms r hx(3)] r True hx by (auto simp: view_contract_def)
next
  case False
  then show ?thesis
    by (auto simp: view_contract_def da_dbgeng_session_execute_def run_guarded_def split: option.split)
qed

text \<open>Reading a view whose owner was just made.\<close>

lemma owns_view_text: "owns s s' v t \<Longrightarrow> view_text s' v = Some t"
  by (simp add: owns_def)

lemma owns_release: "owns s s' v t \<Longrightarrow> ds_owners (snd (run_state (da_dbgeng_release_view (tv_owner v)) s')) = ds_owners s"
  by (simp add: owns_def)

lemma release_view_next [simp]: "ds_next_owner (snd (run_state (da_dbgeng_release_view owner) s)) = ds_next_owner s"
  by (simp add: da_dbgeng_release_view_def split: option.split)

lemma release_view_none [simp]: "run_state (da_dbgeng_release_view None) s = ((), s)"
  by (simp add: da_dbgeng_release_view_def)

lemma owns_text: "owns s s' v t \<Longrightarrow> tv_data v \<noteq> None \<or> t = []"
  by (auto simp: owns_def view_text_def split: option.splits if_splits)

definition appended_text :: string where
  "appended_text = ''symbol path appended'' @ [CHR 0x0A]"

lemma set_output_made:
  assumes "owners_wf s" and "ds_owners s2 = ds_owners s" and "ds_next_owner s \<le> ds_next_owner s2"
  shows "owns s (snd (run_state (set_output clear_text_view t) s2)) (fst (run_state (set_output clear_text_view t) s2)) t"
  using set_output_owns [OF assms(1,2)] ownersI [OF assms] by blast

definition symbols_appended :: "dbg_platform \<Rightarrow> dbg_session \<Rightarrow> string \<Rightarrow> dbg_state \<Rightarrow> dbg_state" where
  "symbols_appended p x path s =
     (let call = AppendSymbolPath (se_symbols x) path in s\<lparr>ds_log := ds_log s @ [(call, dp_engine p (ds_log s) call)]\<rparr>)"

text \<open>The branch that reloads: the command's view is read, released, and its text appended.\<close>

lemma add_symbols_reload:
  assumes "owners_wf s" and "path \<noteq> []" and "reload \<noteq> 0"
    and "\<not> hr_failed (an_hr (dp_engine p (ds_log s) (AppendSymbolPath (se_symbols x) path)))"
    and "run_state (da_dbgeng_session_add_symbols p (Some x) (Some path) reload True) s = ((code, v), s')"
  shows "code = 0 \<and> (\<exists>view t. v = Some view \<and> owns s s' view (appended_text @ t)
           \<and> (\<exists>h r rest. ds_log s' = h @ (Execute (se_control x) ''.reload'', r) # rest
                \<and> prefix (ds_log s) h \<and> \<not> hr_failed (an_hr r) \<and> t = printed (an_calls r)))
    \<or> code = 500 \<and> v = Some clear_text_view \<and> ds_owners s' = ds_owners s"
proof -
  let ?s = "symbols_appended p x path s"
  note run = assms(5) [unfolded da_dbgeng_session_add_symbols_def, simplified missing_def arg_text_def, simplified]
  have wf: "owners_wf ?s" using assms(1) by (simp add: owners_wf_def symbols_appended_def Let_def)
  obtain c w s1 where r: "run_state (execute_command p x ''.reload'' clear_text_view) ?s = ((c, w), s1)"
    by (metis prod.collapse)
  note r' = r [unfolded symbols_appended_def Let_def]
  from execute_command_view [OF wf r] show ?thesis
  proof (elim disjE conjE exE)
    fix h a rest
    assume a: "c = 0" "ds_log s1 = h @ (Execute (se_control x) ''.reload'', a) # rest" "prefix (ds_log ?s) h"
      "\<not> hr_failed (an_hr a)" "owns ?s s1 w (printed (an_calls a))" "ds_next_owner s1 = ds_next_owner ?s + 1"
    let ?t = "printed (an_calls a)" and ?s2 = "(snd (run_state (da_dbgeng_release_view (tv_owner w)) s1))\<lparr>ds_error := []\<rparr>"
    have wt: "(if tv_data w \<noteq> None \<and> 0 < tv_len w then appended_text @ (case view_text s1 w of None \<Rightarrow> [] | Some t \<Rightarrow> t)
        else appended_text) = appended_text @ ?t"
      using a(5) owns_text [OF a(5)] by (auto simp: owns_def)
    have "code = 0" "v = Some (fst (run_state (set_output clear_text_view (appended_text @ ?t)) ?s2))"
        "s' = snd (run_state (set_output clear_text_view (appended_text @ ?t)) ?s2)"
      using run assms(2-4) r' a(1) wt by (auto simp: run_guarded_def Let_def case_prod_unfold appended_text_def)
    moreover have "ds_owners ?s2 = ds_owners s" using owns_release [OF a(5)] by (simp add: symbols_appended_def Let_def)
    moreover have "ds_next_owner s \<le> ds_next_owner ?s2" using a(6) by (simp add: symbols_appended_def Let_def)
    moreover have "ds_log (snd (run_state (set_output clear_text_view (appended_text @ ?t)) ?s2)) = ds_log s1"
      by (simp add: run_set_output)
    moreover have "prefix (ds_log s) h" using a(3) by (auto simp: prefix_def symbols_appended_def Let_def)
    ultimately show ?thesis using set_output_made [OF assms(1), of ?s2 "appended_text @ ?t"] a(2,4) by auto
  next
    assume "c = 500" "w = clear_text_view" "ds_owners s1 = ds_owners ?s"
    then show ?thesis using run assms(2-4) r' by (auto simp: run_guarded_def Let_def clear_text_view_def symbols_appended_def)
  qed
qed

lemma add_symbols_view:
  assumes "owners_wf s" and "path \<noteq> []"
    and "run_state (da_dbgeng_session_add_symbols p (Some x) (Some path) reload True) s = ((code, v), s')"
  shows "code = 0 \<and> (\<exists>view t. v = Some view \<and> owns s s' view (appended_text @ t)
           \<and> (reload = 0 \<longrightarrow> t = [])
           \<and> (reload \<noteq> 0 \<longrightarrow> (\<exists>h r rest. ds_log s' = h @ (Execute (se_control x) ''.reload'', r) # rest
                \<and> prefix (ds_log s) h \<and> \<not> hr_failed (an_hr r) \<and> t = printed (an_calls r))))
    \<or> code = 500 \<and> v = Some clear_text_view \<and> ds_owners s' = ds_owners s"
proof -
  let ?failed = "hr_failed (an_hr (dp_engine p (ds_log s) (AppendSymbolPath (se_symbols x) path)))"
  note run = assms(3) [unfolded da_dbgeng_session_add_symbols_def, simplified missing_def arg_text_def, simplified]
  consider "?failed" | "\<not> ?failed" "reload = 0" | "\<not> ?failed" "reload \<noteq> 0" by blast
  then show ?thesis
  proof cases
    case 1
    then show ?thesis using run assms(2) by (auto simp: run_guarded_def)
  next
    case 2
    let ?s2 = "(symbols_appended p x path s)\<lparr>ds_error := []\<rparr>"
    have "code = 0" "v = Some (fst (run_state (set_output clear_text_view appended_text) ?s2))"
        "s' = snd (run_state (set_output clear_text_view appended_text) ?s2)"
      using run assms(2) 2 by (auto simp: run_guarded_def Let_def case_prod_unfold appended_text_def symbols_appended_def)
    then show ?thesis
      using set_output_made [OF assms(1), of ?s2 appended_text] 2 by (auto simp: symbols_appended_def Let_def)
  next
    case 3
    then show ?thesis using add_symbols_reload [OF assms(1,2) 3(2,1) assms(3)] by blast
  qed
qed

lemma add_symbols_contract:
  assumes "owners_wf s"
  shows "view_contract s (run_state (da_dbgeng_session_add_symbols p h path reload given) s)"
proof (cases "given \<and> h \<noteq> None \<and> \<not> missing path")
  case True
  then obtain x c where hx: "h = Some x" "path = Some c" "c \<noteq> []" by (cases path) (auto simp: missing_def)
  obtain code v s' where r: "run_state (da_dbgeng_session_add_symbols p (Some x) (Some c) reload True) s = ((code, v), s')"
    by (metis prod.collapse)
  show ?thesis
    using add_symbols_view [OF assms hx(3) r] r True hx by (auto simp: view_contract_def)
next
  case False
  then show ?thesis
    by (auto simp: view_contract_def da_dbgeng_session_add_symbols_def run_guarded_def split: option.split)
qed

lemma read_virtual_view:
  assumes "owners_wf s" and "len \<noteq> 0"
    and "run_state (da_dbgeng_session_read_virtual p (Some x) addr len True) s = ((code, v), s')"
    and "a = dp_engine p (ds_log s) (ReadVirtual (se_data_spaces x) addr len)"
  shows "code = (if hr_failed (an_hr a) then 500 else 0)"
    and "hr_failed (an_hr a) \<Longrightarrow> v = Some clear_text_view \<and> ds_owners s' = ds_owners s"
    and "\<not> hr_failed (an_hr a) \<Longrightarrow> \<exists>view. v = Some view \<and> ds_error s' = [] \<and> owns s s' view
       (take (min (unat len) (unat (an_value a))) (take (unat len) (an_bytes a) @ replicate (unat len - length (an_bytes a)) nul))"
proof -
  let ?buffer = "memcpy_into (replicate (unat len) nul) (an_bytes a) (min (unat len) (length (an_bytes a)))"
  have buffer: "?buffer = take (unat len) (an_bytes a) @ replicate (unat len - length (an_bytes a)) nul"
    by (auto simp: memcpy_into_def min_def)
  have size: "length ?buffer = unat len" by (simp add: buffer)
  let ?s = "s\<lparr>ds_log := ds_log s @ [(ReadVirtual (se_data_spaces x) addr len, a)]\<rparr>"
  let ?t = "take (min (length ?buffer) (unat (an_value a))) ?buffer"
  note run = assms(3) [unfolded da_dbgeng_session_read_virtual_def, simplified]
  show "code = (if hr_failed (an_hr a) then 500 else 0)"
    and "hr_failed (an_hr a) \<Longrightarrow> v = Some clear_text_view \<and> ds_owners s' = ds_owners s"
    using run assms(2,4) by (auto simp: run_guarded_def Let_def case_prod_unfold run_set_output split: if_splits)
  assume ok: "\<not> hr_failed (an_hr a)"
  then have r: "v = Some (fst (run_state (set_output clear_text_view ?t) ?s))"
      "s' = (snd (run_state (set_output clear_text_view ?t) ?s))\<lparr>ds_error := []\<rparr>"
    using run assms(2,4) by (auto simp: run_guarded_def Let_def case_prod_unfold)
  have "owns s (snd (run_state (set_output clear_text_view ?t) ?s)) (fst (run_state (set_output clear_text_view ?t) ?s)) ?t"
    by (rule set_output_owns [OF assms(1)]) simp_all
  then show "\<exists>view. v = Some view \<and> ds_error s' = [] \<and> owns s s' view
       (take (min (unat len) (unat (an_value a))) (take (unat len) (an_bytes a) @ replicate (unat len - length (an_bytes a)) nul))"
    unfolding r size [unfolded buffer] buffer by simp
qed

lemma read_virtual_contract:
  assumes "owners_wf s"
  shows "view_contract s (run_state (da_dbgeng_session_read_virtual p h addr len given) s)"
proof (cases "given \<and> h \<noteq> None \<and> len \<noteq> 0")
  case True
  then obtain x where hx: "h = Some x" by auto
  obtain code v s' where r: "run_state (da_dbgeng_session_read_virtual p (Some x) addr len True) s = ((code, v), s')"
    by (metis prod.collapse)
  show ?thesis
    using read_virtual_view [OF assms _ r refl] r True hx by (auto simp: view_contract_def split: if_splits)
next
  case False
  then show ?thesis
    by (auto simp: view_contract_def da_dbgeng_session_read_virtual_def run_guarded_def split: option.split)
qed

section \<open>Reachable states\<close>

definition same_views :: "dbg_state \<Rightarrow> dbg_state \<Rightarrow> bool" where
  "same_views s s' \<longleftrightarrow> ds_owners s' = ds_owners s \<and> ds_next_owner s' = ds_next_owner s"

lemma same_views_simps [simp]:
  "same_views s s"
  "same_views s0 (s\<lparr>ds_log := l\<rparr>) = same_views s0 s"
  "same_views s0 (s\<lparr>ds_error := e\<rparr>) = same_views s0 s"
  "same_views s0 (s\<lparr>ds_module := m, ds_debug_create := b, ds_loaded_path := w\<rparr>) = same_views s0 s"
  "same_views s0 (snd (run_state (run_guarded body) s)) = same_views s0 (snd (run_state body s))"
  by (simp_all add: same_views_def)

lemma same_views_pointers [simp]:
  "same_views s0 (snd (run_state (com_reset p ptr) s)) = same_views s0 s"
  "same_views s0 (snd (run_state (com_put p old c) s)) = same_views s0 s"
  "same_views s0 (snd (run_state (ensure_dbgeng_runtime_loaded p dir) s)) = same_views s0 s"
proof -
  show reset: "same_views s0 (snd (run_state (com_reset p ptr) s)) = same_views s0 s" for ptr s
    by (simp add: com_reset_def split: option.split)
  show "same_views s0 (snd (run_state (com_put p old c) s)) = same_views s0 s"
    by (simp add: com_put_def case_prod_unfold reset)
  show "same_views s0 (snd (run_state (ensure_dbgeng_runtime_loaded p dir) s)) = same_views s0 s"
    by (simp add: ensure_dbgeng_runtime_loaded_def case_prod_unfold split: sum.split)
qed

lemma same_views_session [simp]:
  "same_views s0 (snd (run_state (destroy_session p x) s)) = same_views s0 s"
  "same_views s0 (snd (run_state (query_session_interfaces p x) s)) = same_views s0 s"
  "same_views s0 (snd (run_state (wait_for_initial_event p x op) s)) = same_views s0 s"
  "same_views s0 (snd (run_state (wait_for_launch_initial_event p x) s)) = same_views s0 s"
  "same_views s0 (snd (run_state (open_debug_file p x path) s)) = same_views s0 s"
  "same_views s0 (snd (run_state (launch_debug_process p x path) s)) = same_views s0 s"
  by (simp_all add: destroy_session_def query_session_interfaces_def wait_for_initial_event_def
      wait_for_launch_initial_event_def open_debug_file_def launch_debug_process_def case_prod_unfold Let_def split: sum.split)

lemma same_views_create [simp]:
  "same_views s0 (snd (run_state (create_session p) s)) = same_views s0 s"
  "same_views s0 (snd (run_state (drop_session p h status) s)) = same_views s0 s"
  by (simp_all add: create_session_def drop_session_def case_prod_unfold Let_def split: option.split)

lemma same_views_functions:
  "same_views s (snd (run_state (da_dbgeng_abi_version given) s))"
  "same_views s (snd (run_state (da_dbgeng_load_runtime p dir) s))"
  "same_views s (snd (run_state (da_dbgeng_session_open_file p path given) s))"
  "same_views s (snd (run_state (da_dbgeng_session_attach_process p pid given) s))"
  "same_views s (snd (run_state (da_dbgeng_session_launch_process p path given) s))"
  "same_views s (snd (run_state (da_dbgeng_session_close p h) s))"
  by (simp_all add: da_dbgeng_abi_version_def da_dbgeng_load_runtime_def da_dbgeng_session_open_file_def
      da_dbgeng_session_attach_process_def da_dbgeng_session_launch_process_def da_dbgeng_session_close_def
      case_prod_unfold Let_def split: option.split)

lemma owners_wf_simps [simp]:
  "owners_wf (s\<lparr>ds_log := l\<rparr>) = owners_wf s" "owners_wf (s\<lparr>ds_error := e\<rparr>) = owners_wf s"
  by (simp_all add: owners_wf_def)

lemma owners_wf_same: "same_views s s' \<Longrightarrow> owners_wf s \<Longrightarrow> owners_wf s'"
  by (simp add: same_views_def owners_wf_def)

lemma owners_wf_set_output: "owners_wf s \<Longrightarrow> owners_wf (snd (run_state (set_output out t) s))"
  by (auto simp: run_set_output owners_wf_def um_wf_def)

lemma owners_wf_release: "owners_wf s \<Longrightarrow> owners_wf (snd (run_state (da_dbgeng_release_view owner) s))"
  by (auto simp: da_dbgeng_release_view_def owners_wf_def um_erase_def um_wf_def distinct_map_filter split: option.splits)

lemma owners_wf_execute_command:
  "owners_wf s \<Longrightarrow> owners_wf (snd (run_state (execute_command p x command out) s))"
  by (simp add: execute_command_outcome case_prod_unfold Let_def owners_wf_set_output split: sum.split)

lemma owners_wf_views:
  "owners_wf s \<Longrightarrow> owners_wf (snd (run_state (da_dbgeng_session_execute p h command given) s))"
  "owners_wf s \<Longrightarrow> owners_wf (snd (run_state (da_dbgeng_session_add_symbols p h path reload given) s))"
  "owners_wf s \<Longrightarrow> owners_wf (snd (run_state (da_dbgeng_session_read_virtual p h addr len given) s))"
proof -
  have guard: "owners_wf (snd (run_state (run_guarded body) s)) = owners_wf (snd (run_state body s))" for body s
    by (simp add: owners_wf_def)
  show "owners_wf s \<Longrightarrow> owners_wf (snd (run_state (da_dbgeng_session_execute p h command given) s))"
    "owners_wf s \<Longrightarrow> owners_wf (snd (run_state (da_dbgeng_session_add_symbols p h path reload given) s))"
    "owners_wf s \<Longrightarrow> owners_wf (snd (run_state (da_dbgeng_session_read_virtual p h addr len given) s))"
    by (auto simp: da_dbgeng_session_execute_def da_dbgeng_session_add_symbols_def da_dbgeng_session_read_virtual_def
        guard owners_wf_execute_command owners_wf_set_output owners_wf_release case_prod_unfold Let_def split: option.split)
qed

lemma dbgeng_step_owners:
  assumes "dbgeng_step p (s, open) (s', open')" and "owners_wf s"
  shows "owners_wf s'"
  using assms(1)
  by (cases rule: dbgeng_step.cases)
    (use assms(2) owners_wf_same [OF _ assms(2)] same_views_functions owners_wf_views owners_wf_release in \<open>metis snd_conv\<close>)+

lemma dbgeng_reachable:
  assumes "dbgeng_runs p (initial_state, []) c"
  shows "owners_wf (fst c)" and "balanced c obj = 0"
  using assms
proof (induction rule: rtranclp_induct)
  case base
  show "owners_wf (fst (initial_state, []))" "balanced (initial_state, []) obj = 0"
    by (simp_all add: owners_wf_def initial_state_def balanced_def open_refs_def)
next
  case (step c c')
  show "owners_wf (fst c')" using step dbgeng_step_owners by (metis prod.collapse)
  show "balanced c' obj = 0" using step dbgeng_step_balanced by metis
qed

section \<open>Closing attached sessions\<close>

text \<open>The documented behaviour of \<^verbatim>\<open>DebugCreate\<close>: when it succeeds it stores a client.\<close>

definition creates_client :: "dbg_platform \<Rightarrow> bool" where
  "creates_client p \<longleftrightarrow>
     (\<forall>h. \<not> hr_failed (an_hr (dp_engine p h DebugCreate)) \<longrightarrow> an_pointer (dp_engine p h DebugCreate) \<noteq> None)"

lemma query_session_interfaces_client:
  "se_client (snd (fst (run_state (query_session_interfaces p x) s))) = se_client x"
  by (simp add: query_session_interfaces_def case_prod_unfold Let_def)

lemma com_put_new:
  "run_state (com_put p None c) s =
     ((an_hr (dp_engine p (ds_log s) c), an_pointer (dp_engine p (ds_log s) c)), s\<lparr>ds_log := ds_log s @ [(c, dp_engine p (ds_log s) c)]\<rparr>)"
  by (simp add: com_put_def com_reset_def)

lemma create_session_client:
  assumes "creates_client p" and "fst (run_state (create_session p) s) = (Inr 0, Some x)"
  shows "se_client x \<noteq> None"
proof -
  let ?s = "snd (run_state (ensure_dbgeng_runtime_loaded p None) s)"
  let ?a = "dp_engine p (ds_log ?s) DebugCreate"
  let ?s' = "?s\<lparr>ds_log := ds_log ?s @ [(DebugCreate, ?a)]\<rparr>"
  have "\<not> hr_failed (an_hr ?a)"
    and "x = snd (fst (run_state (query_session_interfaces p (new_session\<lparr>se_client := an_pointer ?a\<rparr>)) ?s'))"
    using assms(2)
    by (auto simp: create_session_def case_prod_unfold Let_def new_session_def com_put_new split: if_splits)
  then show ?thesis
    using assms(1) by (simp add: query_session_interfaces_client creates_client_def)
qed

lemma attach_session:
  assumes "creates_client p" and "run_state (da_dbgeng_session_attach_process p pid given) s = ((code, Some x), s')"
  shows "code = 0 \<and> se_client x \<noteq> None \<and> se_detach_processes_on_close x"
proof -
  let ?c = "run_state (create_session p) s"
  have "fst ?c = (Inr 0, Some y) \<Longrightarrow> se_client y \<noteq> None" for y
    by (rule create_session_client [OF assms(1)])
  then have "case snd (fst (run_state (da_dbgeng_session_attach_process p pid given) s)) of None \<Rightarrow> True
      | Some y \<Rightarrow> fst (fst (run_state (da_dbgeng_session_attach_process p pid given) s)) = 0
          \<and> se_client y \<noteq> None \<and> se_detach_processes_on_close y"
    by (auto simp: da_dbgeng_session_attach_process_def run_guarded_def case_prod_unfold Let_def prod_eq_iff split: option.split)
  then show ?thesis using assms(2) by simp
qed

lemma launch_session:
  assumes "creates_client p" and "run_state (da_dbgeng_session_launch_process p command given) s = ((code, Some x), s')"
  shows "code = 0 \<and> se_client x \<noteq> None \<and> se_detach_processes_on_close x"
proof -
  let ?c = "run_state (create_session p) s"
  have "fst ?c = (Inr 0, Some y) \<Longrightarrow> se_client y \<noteq> None" for y
    by (rule create_session_client [OF assms(1)])
  then have "case snd (fst (run_state (da_dbgeng_session_launch_process p command given) s)) of None \<Rightarrow> True
      | Some y \<Rightarrow> fst (fst (run_state (da_dbgeng_session_launch_process p command given) s)) = 0
          \<and> se_client y \<noteq> None \<and> se_detach_processes_on_close y"
    by (auto simp: da_dbgeng_session_launch_process_def run_guarded_def case_prod_unfold Let_def prod_eq_iff split: option.split)
  then show ?thesis using assms(2) by simp
qed

text \<open>A close that detaches: what it adds to the history is the detach, the end of the session and releases.\<close>

fun releases :: "dbg_call \<times> dbg_answer \<Rightarrow> bool" where
  "releases (Release_object _, _) = True"
| "releases _ = False"

lemma com_reset_log: "\<exists>rest. ds_log (snd (run_state (com_reset p ptr) s)) = ds_log s @ rest \<and> list_all releases rest"
  by (auto simp: com_reset_def split: option.split)

lemma close_detaches:
  assumes "se_client x \<noteq> None" and "se_detach_processes_on_close x"
  shows "\<exists>a b rest. ds_log (snd (run_state (da_dbgeng_session_close p (Some x)) s)) =
      ds_log s @ (DetachProcesses (se_client x), a) # (EndSession (se_client x), b) # rest \<and> list_all releases rest"
proof -
  let ?detach = "DetachProcesses (se_client x)"
  let ?finish = "EndSession (se_client x)"
  let ?a = "dp_engine p (ds_log s) ?detach"
  let ?h1 = "ds_log s @ [(?detach, ?a)]"
  let ?s2 = "s\<lparr>ds_log := ?h1 @ [(?finish, dp_engine p ?h1 ?finish)]\<rparr>"
  let ?s3 = "snd (run_state (com_reset p (se_data_spaces x)) ?s2)"
  let ?s4 = "snd (run_state (com_reset p (se_symbols x)) ?s3)"
  let ?s5 = "snd (run_state (com_reset p (se_control x)) ?s4)"
  let ?s6 = "snd (run_state (com_reset p (se_client x)) ?s5)"
  have "ds_log (snd (run_state (da_dbgeng_session_close p (Some x)) s)) = ds_log ?s6"
    using assms by (simp add: da_dbgeng_session_close_def destroy_session_def case_prod_unfold)
  moreover obtain r1 r2 r3 r4 where "ds_log ?s3 = ds_log ?s2 @ r1" "ds_log ?s4 = ds_log ?s3 @ r2" "ds_log ?s5 = ds_log ?s4 @ r3"
      "ds_log ?s6 = ds_log ?s5 @ r4" "list_all releases (r1 @ r2 @ r3 @ r4)"
    using com_reset_log [of p "se_data_spaces x" ?s2] com_reset_log [of p "se_symbols x" ?s3]
      com_reset_log [of p "se_control x" ?s4] com_reset_log [of p "se_client x" ?s5] by (metis list_all_append)
  ultimately show ?thesis by auto
qed

section \<open>A concrete engine\<close>

text \<open>An engine in which every call succeeds, that keeps its callback slots and prints one line per command.\<close>

definition plain_answer :: dbg_answer where
  "plain_answer = \<lparr>an_hr = 0, an_pointer = None, an_callbacks = None, an_value = 0, an_bytes = [], an_calls = []\<rparr>"

fun example_answer :: "history \<Rightarrow> dbg_call \<Rightarrow> dbg_answer" where
  "example_answer h (LoadLibrary _ _) = plain_answer\<lparr>an_pointer := Some 1\<rparr>"
| "example_answer h (GetProcAddress _) = plain_answer\<lparr>an_pointer := Some 2\<rparr>"
| "example_answer h DebugCreate = plain_answer\<lparr>an_pointer := Some 3\<rparr>"
| "example_answer h (QueryInterface _ IDebugControl) = plain_answer\<lparr>an_pointer := Some 4\<rparr>"
| "example_answer h (QueryInterface _ _) = plain_answer\<lparr>an_pointer := Some 5\<rparr>"
| "example_answer h (GetOutputCallbacks c) = plain_answer\<lparr>an_callbacks := installed sets_output c h\<rparr>"
| "example_answer h (GetEventCallbacks c) = plain_answer\<lparr>an_callbacks := installed sets_event c h\<rparr>"
| "example_answer h (Execute _ _) = plain_answer\<lparr>an_calls := [Output (Some ''o''), Output None, Output (Some ''k'')]\<rparr>"
| "example_answer h (ReadVirtual _ _ _) = plain_answer\<lparr>an_value := 2, an_bytes := ''xyz''\<rparr>"
| "example_answer h _ = plain_answer"

definition example_engine :: dbg_platform where
  "example_engine = \<lparr>dp_engine = example_answer, dp_format = (\<lambda>_. []), dp_mb_length = (\<lambda>t. int (length t) + 1),
     dp_mb_convert = (\<lambda>t n. (n, wide_text t @ [0])), dp_wc_length = (\<lambda>w. int (length w)), dp_wc_convert = (\<lambda>w. ''path''),
     dp_same_path = (=)\<rparr>"

definition example_session :: dbg_session where
  "example_session = \<lparr>se_client = Some 3, se_control = Some 4, se_symbols = Some 5, se_data_spaces = Some 5,
     se_detach_processes_on_close = False\<rparr>"

lemma example_hr [simp]: "an_hr (example_answer h c) = 0"
  by (cases "(h, c)" rule: example_answer.cases) (simp_all add: plain_answer_def)

lemma not_failed_zero [simp]: "\<not> hr_failed 0"
  by (simp add: hr_failed_def)

lemma example_engine_answers:
  "answers_installed example_engine sets_output GetOutputCallbacks"
  "answers_installed example_engine sets_event GetEventCallbacks"
  "creates_client example_engine"
  by (simp_all add: answers_installed_def creates_client_def example_engine_def plain_answer_def)

lemma example_open:
  "fst (run_state (da_dbgeng_session_open_file example_engine (Some ''d'') True) initial_state) = (0, Some example_session)"
  by (simp add: da_dbgeng_session_open_file_def run_guarded_def missing_def arg_text_def create_session_def new_session_def
      ensure_dbgeng_runtime_loaded_def dbgeng_dll_path_from_dir_def dbgeng_utf8_to_wide_def initial_state_def
      com_put_new query_session_interfaces_def open_debug_file_def wait_for_initial_event_def com_reset_def
      example_session_def example_engine_def plain_answer_def wide_text_def Let_def)

lemma example_run:
  "dbgeng_runs example_engine (initial_state, [])
     (snd (run_state (da_dbgeng_session_open_file example_engine (Some ''d'') True) initial_state), [example_session])"
proof -
  have "dbgeng_step example_engine (initial_state, [])
     (snd (run_state (da_dbgeng_session_open_file example_engine (Some ''d'') True) initial_state), give (Some example_session) [])"
    by (rule dbgeng_step.open_file [of _ "Some ''d''" True _ 0]) (simp add: prod_eq_iff example_open)
  then show ?thesis by (simp add: give_def)
qed

section \<open>Properties\<close>

text \<open>
  C2 Whatever the engine answers and in whatever order the exported functions are called, the references the adapter
  holds on each COM object are exactly the interface pointers of the sessions it has handed out and not yet closed:
  failed opens, attaches and launches, exceptions included, release everything they acquired, and a close releases the
  rest.
\<close>

theorem dbgeng_references_balanced:
  assumes "dbgeng_runs p (initial_state, []) (s, open)"
  shows "refs (ds_log s) obj = (\<Sum>x\<leftarrow>open. session_refs x obj)"
  using dbgeng_reachable(2) [OF assms, of obj] by (simp add: balanced_def open_refs_def)

theorem dbgeng_references_balanced_witness:
  "refs (ds_log (snd (run_state (da_dbgeng_session_open_file example_engine (Some ''d'') True) initial_state))) 5 = 2"
  using dbgeng_references_balanced [OF example_run, of 5]
  by (simp add: session_refs_def ptr_ref_def example_session_def)

text \<open>
  C15 With an engine that answers the installed callbacks when asked for them, no exported function leaves a callback
  object of the adapter behind: after each call the output and event slots of every client hold what they held before,
  unless the restoring call itself failed, which is then the reported error. Every reference on callbacks obtained from
  the engine is released, on every path.
\<close>

theorem dbgeng_callbacks_restored:
  assumes "answers_installed p sets_output GetOutputCallbacks" and "answers_installed p sets_event GetEventCallbacks"
    and "dbgeng_step p (s, open) (s', open')"
  shows "callback_refs cb (ds_log s') = callback_refs cb (ds_log s)
    \<and> (installed sets_output client (ds_log s') = installed sets_output client (ds_log s)
         \<and> installed sets_event client (ds_log s') = installed sets_event client (ds_log s)
       \<or> restore_failed p ''IDebugClient::SetOutputCallbacks(restore)'' (ds_error s')
       \<or> restore_failed p ''IDebugClient::SetEventCallbacks(restore)'' (ds_error s'))"
  using step_callback_refs [OF assms(3)] step_slots [OF assms] by (auto simp: slots_ok_def slots_kept_def)

lemma example_execute_step:
  "dbgeng_step example_engine (initial_state, [example_session])
     (snd (run_state (da_dbgeng_session_execute example_engine (Some example_session) (Some ''k'') True) initial_state),
      [example_session])"
  by (rule dbgeng_step.execute [of "Some example_session" _ _ "Some ''k''" True _
        "fst (run_state (da_dbgeng_session_execute example_engine (Some example_session) (Some ''k'') True) initial_state)"])
    (simp_all add: prod_eq_iff)

theorem dbgeng_callbacks_restored_witness:
  "callback_refs (Foreign_callbacks 7) (ds_log (snd (run_state
     (da_dbgeng_session_execute example_engine (Some example_session) (Some ''k'') True) initial_state))) = 0"
  using dbgeng_callbacks_restored [OF example_engine_answers(1,2) example_execute_step, of "Foreign_callbacks 7"]
  by (simp add: initial_state_def)

text \<open>
  C16 Executing a command delivers exactly what the engine printed while it executed that command: on success the last
  error is cleared and the view shows the concatenated output of the one \<^verbatim>\<open>Execute\<close> call; on failure the view is
  empty and the last error is made of the name of the failing engine call and its result code only, so no part of the
  command text enters the diagnostics.
\<close>

theorem command_output_reaches_caller:
  assumes "dbgeng_runs p (initial_state, []) (s, open)" and "command \<noteq> []"
    and "run_state (da_dbgeng_session_execute p (Some x) (Some command) True) s = ((code, v), s')"
  shows "code = 0 \<and> ds_error s' = [] \<and> (\<exists>view h r rest. v = Some view
             \<and> ds_log s' = h @ (Execute (se_control x) command, r) # rest \<and> prefix (ds_log s) h
             \<and> \<not> hr_failed (an_hr r) \<and> view_text s' view = Some (printed (an_calls r)))
    \<or> code = 500 \<and> v = Some clear_text_view
      \<and> (\<exists>operation \<in> {''IDebugClient::GetOutputCallbacks'', ''IDebugClient::SetOutputCallbacks'',
              ''IDebugClient::SetOutputCallbacks(restore)'', ''IDebugControl::Execute''}.
            \<exists>hr. hr_failed hr \<and> ds_error s' = operation @ '' failed: '' @ hresult_message p hr)"
proof -
  have "owners_wf s" using dbgeng_reachable(1) [OF assms(1)] by simp
  from execute_view [OF this assms(3,2)] show ?thesis
    by (elim disjE conjE exE) (blast dest: owns_view_text)+
qed

theorem command_output_reaches_caller_witness:
  "\<exists>v s'. run_state (da_dbgeng_session_execute example_engine (Some example_session) (Some ''k'') True) initial_state
       = ((0, Some v), s') \<and> view_text s' v = Some ''ok''"
proof -
  let ?r = "run_state (da_dbgeng_session_execute example_engine (Some example_session) (Some ''k'') True) initial_state"
  have code: "fst (fst ?r) = 0"
    by (simp add: da_dbgeng_session_execute_def run_guarded_def missing_def arg_text_def execute_command_outcome
        command_outcome_def run_set_output example_engine_def plain_answer_def Let_def)
  have r: "?r = ((fst (fst ?r), snd (fst ?r)), snd ?r)" by simp
  from command_output_reaches_caller [OF rtranclp.rtrancl_refl _ r] code
  obtain view h a rest where v: "snd (fst ?r) = Some view" and log: "ds_log (snd ?r) = h @ (Execute (Some 4) ''k'', a) # rest"
      and t: "view_text (snd ?r) view = Some (printed (an_calls a))"
    by (auto simp: example_session_def)
  have "(Execute (Some 4) ''k'', a) \<in> set (ds_log (snd ?r))" using log by simp
  then have "an_calls a = [Output (Some ''o''), Output None, Output (Some ''k'')]"
    by (simp add: da_dbgeng_session_execute_def run_guarded_def missing_def arg_text_def execute_command_outcome
        command_outcome_def run_set_output example_engine_def example_session_def initial_state_def ask_def release_log_def
        plain_answer_def installed_def Let_def)
  then show ?thesis using code v t by (auto simp: printed_def prod_eq_iff)
qed

text \<open>
  C17 Views own their text: in every reachable state, a function that returns a view leaves on success exactly one new
  buffer, of the announced length, which the caller reads through the view and which disappears when the caller
  releases the view's owner; on failure it leaves no buffer and an empty view. The intermediate buffer of a symbol
  reload is released.
\<close>

theorem dbgeng_views_owned:
  assumes "dbgeng_runs p (initial_state, []) (s, open)"
    and "r \<in> {run_state (da_dbgeng_session_execute p h command given) s,
              run_state (da_dbgeng_session_add_symbols p h path reload given) s,
              run_state (da_dbgeng_session_read_virtual p h addr len given) s}"
    and "r = ((code, v), s')"
  shows "if code = 0
    then \<exists>view t. v = Some view \<and> view_text s' view = Some t \<and> tv_len view = length t
           \<and> ds_owners (snd (run_state (da_dbgeng_release_view (tv_owner view)) s')) = ds_owners s
    else ds_owners s' = ds_owners s \<and> v \<in> {None, Some clear_text_view}"
proof -
  have "owners_wf s" using dbgeng_reachable(1) [OF assms(1)] by simp
  then have "view_contract s r"
    using assms(2) execute_contract add_symbols_contract read_virtual_contract by blast
  then show ?thesis using assms(3) by (auto simp: view_contract_def owns_def split: if_splits)
qed

theorem dbgeng_views_owned_witness:
  "\<exists>v s'. run_state (da_dbgeng_session_add_symbols example_engine (Some example_session) (Some ''c'') 1 True) initial_state
       = ((0, Some v), s') \<and> ds_owners (snd (run_state (da_dbgeng_release_view (tv_owner v)) s')) = []"
proof -
  let ?r = "run_state (da_dbgeng_session_add_symbols example_engine (Some example_session) (Some ''c'') 1 True) initial_state"
  have code: "fst (fst ?r) = 0"
    by (simp add: da_dbgeng_session_add_symbols_def run_guarded_def missing_def arg_text_def execute_command_outcome
        command_outcome_def run_set_output example_engine_def plain_answer_def Let_def case_prod_unfold)
  have r: "?r = ((fst (fst ?r), snd (fst ?r)), snd ?r)" by simp
  show ?thesis
    using dbgeng_views_owned [OF rtranclp.rtrancl_refl _ r, where h = "Some example_session" and command = None and given = True
          and path = "Some ''c''" and reload = 1 and addr = 0 and len = 0 and p = example_engine]
      code by (auto simp: prod_eq_iff initial_state_def)
qed

text \<open>
  The debugger runtime is process-global: once \<^verbatim>\<open>DebugCreate\<close> was obtained from one \<^verbatim>\<open>dbgeng.dll\<close>, no sequence of
  calls replaces it, and loading again succeeds exactly when the requested directory leads to the same path (ignoring
  case) or no directory is given.
\<close>

theorem dbgeng_runtime_fixed:
  assumes "dbgeng_runs p (s, open) (s', open')" and "ds_debug_create s" and "ds_loaded_path s \<noteq> []"
    and "dbgeng_dll_path_from_dir p dir = Inr path"
    and "run_state (da_dbgeng_load_runtime p dir) s' = ((code, u), s'')"
  shows "ds_module s'' = ds_module s \<and> ds_loaded_path s'' = ds_loaded_path s \<and> ds_debug_create s''
    \<and> (code = 0 \<longleftrightarrow> missing dir \<or> dp_same_path p (ds_loaded_path s) path)"
proof -
  have same: "ds_module s' = ds_module s" "ds_loaded_path s' = ds_loaded_path s" "ds_debug_create s'"
    using dbgeng_runs_runtime [OF assms(1,2)] assms(2) by (simp_all add: same_runtime_def)
  have "path \<noteq> []"
    using assms(4) by (auto simp: dbgeng_dll_path_from_dir_def wide_text_def split: sum.splits if_splits)
  then show ?thesis
    using assms(3-5) same
    by (auto simp: da_dbgeng_load_runtime_def ensure_dbgeng_runtime_loaded_def run_guarded_def split: if_splits)
qed

definition loaded_state :: dbg_state where
  "loaded_state = initial_state\<lparr>ds_module := Some 1, ds_debug_create := True, ds_loaded_path := wide_text ''dbgeng.dll''\<rparr>"

theorem dbgeng_runtime_fixed_witness:
  "fst (fst (run_state (da_dbgeng_load_runtime example_engine (Some ''d'')) loaded_state)) \<noteq> 0"
proof -
  let ?r = "run_state (da_dbgeng_load_runtime example_engine (Some ''d'')) loaded_state"
  have r: "?r = ((fst (fst ?r), snd (fst ?r)), snd ?r)" by (auto simp: prod_eq_iff)
  have dir: "dbgeng_dll_path_from_dir example_engine (Some ''d'') = Inr (wide_text ([CHR ''d'', CHR 0x5C] @ ''dbgeng.dll''))"
    by (simp add: dbgeng_dll_path_from_dir_def dbgeng_utf8_to_wide_def missing_def arg_text_def example_engine_def wide_text_def)
  show ?thesis
    using dbgeng_runtime_fixed [OF rtranclp.rtrancl_refl _ _ dir r]
    by (simp add: loaded_state_def missing_def example_engine_def wide_text_def)
qed

text \<open>
  Reading memory returns a prefix of the bytes the engine wrote: at most the requested length and at most the number
  of bytes the engine says it read, never bytes from beyond the buffer.
\<close>

theorem read_virtual_bytes:
  assumes "dbgeng_runs p (initial_state, []) (s, open)" and "len \<noteq> 0"
    and "run_state (da_dbgeng_session_read_virtual p (Some x) addr len True) s = ((code, v), s')"
    and "a = dp_engine p (ds_log s) (ReadVirtual (se_data_spaces x) addr len)"
    and "length (an_bytes a) \<le> unat len" and "unat (an_value a) \<le> length (an_bytes a)"
  shows "if hr_failed (an_hr a) then code = 500 \<and> v = Some clear_text_view
    else code = 0 \<and> (\<exists>view. v = Some view \<and> view_text s' view = Some (take (unat (an_value a)) (an_bytes a))
      \<and> tv_len view = unat (an_value a) \<and> tv_len view \<le> unat len)"
proof -
  have wf: "owners_wf s" using dbgeng_reachable(1) [OF assms(1)] by simp
  note view = read_virtual_view [OF wf assms(2-4)]
  have "min (unat len) (unat (an_value a)) = unat (an_value a)" using assms(5,6) by simp
  then have "take (min (unat len) (unat (an_value a))) (take (unat len) (an_bytes a) @ replicate (unat len - length (an_bytes a)) nul)
      = take (unat (an_value a)) (an_bytes a)"
    using assms(5,6) by simp
  then show ?thesis
    using view assms(5,6) by (auto simp: owns_def)
qed

theorem read_virtual_bytes_witness:
  "\<exists>v s'. run_state (da_dbgeng_session_read_virtual example_engine (Some example_session) 16 8 True) initial_state
       = ((0, Some v), s') \<and> view_text s' v = Some ''xy''"
proof -
  let ?r = "run_state (da_dbgeng_session_read_virtual example_engine (Some example_session) 16 8 True) initial_state"
  have r: "?r = ((fst (fst ?r), snd (fst ?r)), snd ?r)" by simp
  show ?thesis
    using read_virtual_bytes [OF rtranclp.rtrancl_refl _ r refl]
    by (auto simp: example_engine_def example_session_def plain_answer_def prod_eq_iff)
qed

text \<open>
  Sessions on live processes are given up without harm: with an engine whose \<^verbatim>\<open>DebugCreate\<close> stores a client when it
  succeeds, closing a session made by attaching or launching first detaches from the processes, then ends the session,
  and after that only releases interfaces.
\<close>

theorem live_sessions_detach:
  assumes "creates_client p"
    and "run_state (da_dbgeng_session_attach_process p pid given) s = ((code, Some x), s')
      \<or> run_state (da_dbgeng_session_launch_process p command given) s = ((code, Some x), s')"
  shows "code = 0 \<and> (\<exists>a b rest. ds_log (snd (run_state (da_dbgeng_session_close p (Some x)) t)) =
      ds_log t @ (DetachProcesses (se_client x), a) # (EndSession (se_client x), b) # rest \<and> list_all releases rest)"
  using attach_session [OF assms(1)] launch_session [OF assms(1)] close_detaches assms(2) by blast

lemma example_attach:
  "fst (run_state (da_dbgeng_session_attach_process example_engine 7 True) initial_state)
     = (0, Some (example_session\<lparr>se_detach_processes_on_close := True\<rparr>))"
  by (simp add: da_dbgeng_session_attach_process_def run_guarded_def create_session_def new_session_def
      ensure_dbgeng_runtime_loaded_def dbgeng_dll_path_from_dir_def dbgeng_utf8_to_wide_def initial_state_def missing_def
      com_put_new query_session_interfaces_def example_session_def example_engine_def plain_answer_def Let_def)

theorem live_sessions_detach_witness:
  "\<exists>a b rest. ds_log (snd (run_state (da_dbgeng_session_close example_engine
        (Some (example_session\<lparr>se_detach_processes_on_close := True\<rparr>))) initial_state)) =
      (DetachProcesses (Some 3), a) # (EndSession (Some 3), b) # rest"
proof -
  let ?r = "run_state (da_dbgeng_session_attach_process example_engine 7 True) initial_state"
  have r: "?r = ((0, Some (example_session\<lparr>se_detach_processes_on_close := True\<rparr>)), snd ?r)"
    by (simp add: prod_eq_iff example_attach)
  show ?thesis
    using live_sessions_detach [OF example_engine_answers(3) disjI1 [OF r], of initial_state]
    by (auto simp: initial_state_def example_session_def)
qed

end
