(* ===== verification/Json_Dump.thy ===== *)
theory Json_Dump
  imports Json_Text
begin

unbundle bit_operations_syntax

text \<open>
  JSON values of the vendored library \<^verbatim>\<open>nlohmann/json.hpp\<close> and their compact text, as the IDA adapter uses them:
  \<^verbatim>\<open>Json(...).dump()\<close> with the default arguments (no indentation, \<^verbatim>\<open>ensure_ascii\<close> off, strict UTF-8). The serializer
  is translated function by function; it is proved to agree with the canonical text of \<open>Json_Text\<close> exactly on the
  strings that are UTF-8 in the sense of RFC 3629, and to throw on all others.
\<close>

section \<open>Values\<close>

text \<open>
  The alternatives of \<^verbatim>\<open>value_t\<close> that parsing and the adapter produce. A floating-point number is kept as the text the
  library prints for it, the only use the adapter makes of it. The fields of an object are ordered by key (\<^verbatim>\<open>std::map\<close>).
\<close>

datatype json_value =
    V_null
  | V_boolean bool
  | V_unsigned u64
  | V_integer i64
  | V_float string
  | V_string string
  | V_array "json_value list"
  | V_object "(string \<times> json_value) list"

text \<open>\<^verbatim>\<open>std::string::operator<\<close>: lexicographic on unsigned bytes.\<close>

fun string_less :: "string \<Rightarrow> string \<Rightarrow> bool" where
  "string_less _ [] = False"
| "string_less [] (_ # _) = True"
| "string_less (c # cs) (d # ds) =
     ((of_char c :: nat) < of_char d \<or> c = d \<and> string_less cs ds)"

text \<open>\<^verbatim>\<open>std::map::operator[]\<close> with an assignment.\<close>

fun object_put :: "string \<Rightarrow> json_value \<Rightarrow> (string \<times> json_value) list \<Rightarrow> (string \<times> json_value) list" where
  "object_put k v [] = [(k, v)]"
| "object_put k v ((k', v') # fs) =
     (if k = k' then (k, v) # fs
      else if string_less k k' then (k, v) # (k', v') # fs
      else (k', v') # object_put k v fs)"

definition json_object :: "(string \<times> json_value) list \<Rightarrow> json_value" where
  "json_object fs = V_object (fold (\<lambda>(k, v). object_put k v) fs [])"

section \<open>Decoding UTF-8\<close>

text \<open>The table of the decoder: the classes of the bytes by rows of the source, then the transitions of its nine states.\<close>

definition utf8_classes :: "nat list" where
  "utf8_classes =
     replicate 32 0 @ replicate 32 0 @ replicate 32 0 @ replicate 32 0
     @ (replicate 16 1 @ replicate 16 9) @ replicate 32 7 @ ([8, 8] @ replicate 30 2)
     @ ([10] @ replicate 12 3 @ [4, 3, 3]) @ ([11, 6, 6, 6, 5] @ replicate 11 8)"

definition utf8_states :: "nat list" where
  "utf8_states =
     [0, 1, 2, 3, 5, 8, 7, 1, 1, 1, 4, 6, 1, 1, 1, 1,
      1, 1, 1, 1, 1, 1, 1, 1, 1, 1, 1, 1, 1, 1, 1, 1,
      1, 0, 1, 1, 1, 1, 1, 0, 1, 0, 1, 1, 1, 1, 1, 1,
      1, 2, 1, 1, 1, 1, 1, 2, 1, 2, 1, 1, 1, 1, 1, 1,
      1, 1, 1, 1, 1, 1, 1, 2, 1, 1, 1, 1, 1, 1, 1, 1,
      1, 2, 1, 1, 1, 1, 1, 1, 1, 2, 1, 1, 1, 1, 1, 1,
      1, 1, 1, 1, 1, 1, 1, 3, 1, 3, 1, 1, 1, 1, 1, 1,
      1, 3, 1, 1, 1, 1, 1, 3, 1, 3, 1, 1, 1, 1, 1, 1,
      1, 3, 1, 1, 1, 1, 1, 1, 1, 1, 1, 1, 1, 1, 1, 1]"

definition utf8d :: "nat list" where
  "utf8d = utf8_classes @ utf8_states"

definition UTF8_ACCEPT :: nat where [simp]: "UTF8_ACCEPT = 0"
definition UTF8_REJECT :: nat where [simp]: "UTF8_REJECT = 1"

definition decode :: "nat \<Rightarrow> u32 \<Rightarrow> u8 \<Rightarrow> nat \<times> u32" where
  "decode state codep byte =
     (let type = utf8d ! unat byte;
          codep' = (if state \<noteq> UTF8_ACCEPT then (ucast byte AND 0x3F) OR push_bit 6 codep
                    else drop_bit type 0xFF AND ucast byte)
      in (utf8d ! (256 + state * 16 + type), codep'))"

section \<open>Escaping\<close>

definition type_error :: "string \<Rightarrow> cpp_exception" where
  "type_error what = Runtime_error (''[json.exception.type_error.316] '' @ what)"

definition hex_bytes :: "u8 \<Rightarrow> string" where
  "hex_bytes byte = [digit_char_upper (unat byte div 16), digit_char_upper (unat byte mod 16)]"

text \<open>What is written when a code point is complete, \<open>c\<close> being its last byte.\<close>

definition dump_codepoint :: "u32 \<Rightarrow> char \<Rightarrow> string" where
  "dump_codepoint codepoint c =
     (if codepoint = 0x08 then [backslash, CHR ''b'']
      else if codepoint = 0x09 then [backslash, CHR ''t'']
      else if codepoint = 0x0A then [backslash, CHR ''n'']
      else if codepoint = 0x0C then [backslash, CHR ''f'']
      else if codepoint = 0x0D then [backslash, CHR ''r'']
      else if codepoint = 0x22 then [backslash, quote]
      else if codepoint = 0x5C then [backslash, backslash]
      else if codepoint \<le> 0x1F then [backslash, CHR ''u''] @ hex_lower 4 (unat codepoint)
      else [c])"

abbreviation byte_of :: "char \<Rightarrow> u8" where
  "byte_of c \<equiv> of_nat (of_char c)"

definition prepend :: "'a list \<Rightarrow> 'a list throws \<Rightarrow> 'a list throws" where
  "prepend xs r = map_sum id (\<lambda>ys. xs @ ys) r"

text \<open>
  The loop over the string \<open>s\<close>, at index \<open>i\<close>. The bytes go through a buffer of 512 characters that is emptied into the
  output whenever fewer than 13 are free; the model has the output only.
\<close>

fun dump_loop :: "string \<Rightarrow> nat \<Rightarrow> nat \<Rightarrow> u32 \<Rightarrow> string \<Rightarrow> string throws" where
  "dump_loop s i state codepoint [] =
     (if state = UTF8_ACCEPT then Inr []
      else Inl (type_error (''incomplete UTF-8 string; last byte: 0x'' @ hex_bytes (byte_of (last s)))))"
| "dump_loop s i state codepoint (c # cs) =
     (let (state', codepoint') = decode state codepoint (byte_of c) in
      if state' = UTF8_ACCEPT then prepend (dump_codepoint codepoint' c) (dump_loop s (i + 1) state' codepoint' cs)
      else if state' = UTF8_REJECT
      then Inl (type_error (''invalid UTF-8 byte at index '' @ dec_text i @ '': 0x'' @ hex_bytes (byte_of c)))
      else prepend [c] (dump_loop s (i + 1) state' codepoint' cs))"

definition dump_escaped :: "string \<Rightarrow> string throws" where
  "dump_escaped s = dump_loop s 0 UTF8_ACCEPT 0 s"

section \<open>Integers\<close>

function count_digits_loop :: "nat \<Rightarrow> nat \<Rightarrow> nat" where
  "count_digits_loop n_digits x =
     (if x < 10 then n_digits
      else if x < 100 then n_digits + 1
      else if x < 1000 then n_digits + 2
      else if x < 10000 then n_digits + 3
      else count_digits_loop (n_digits + 4) (x div 10000))"
  by pat_completeness auto
termination by (relation "measure snd") auto

declare count_digits_loop.simps [simp del]

definition count_digits :: "u64 \<Rightarrow> nat" where
  "count_digits x = count_digits_loop 1 (unat x)"

text \<open>\<^verbatim>\<open>remove_sign\<close> without leaving the range of the signed type.\<close>

definition remove_sign :: "i64 \<Rightarrow> u64" where
  "remove_sign x = - (x + 1) + 1"

text \<open>Two digits are written before the position \<open>p\<close> of the buffer.\<close>

definition write_pair :: "nat \<Rightarrow> nat \<Rightarrow> string \<Rightarrow> string" where
  "write_pair index p buffer = (buffer[p - 1 := digit_char (index mod 10)])[p - 2 := digit_char (index div 10)]"

function write_digits :: "nat \<Rightarrow> nat \<Rightarrow> string \<Rightarrow> string" where
  "write_digits abs_value p buffer =
     (if abs_value \<ge> 100 then write_digits (abs_value div 100) (p - 2) (write_pair (abs_value mod 100) p buffer)
      else if abs_value \<ge> 10 then write_pair abs_value p buffer
      else buffer[p - 1 := digit_char abs_value])"
  by pat_completeness auto
termination by (relation "measure (\<lambda>(v, _, _). v)") auto

declare write_digits.simps [simp del]

definition dump_integer :: "bool \<Rightarrow> u64 \<Rightarrow> string" where
  "dump_integer negative x =
     (if x = 0 then ''0''
      else
        let number_buffer = replicate 64 (CHR 0x00);
            abs_value = (if negative then remove_sign x else x);
            buffer = (if negative then number_buffer[0 := CHR ''-''] else number_buffer);
            n_chars = (if negative then 1 else 0) + count_digits abs_value
        in take n_chars (write_digits (unat abs_value) n_chars buffer))"

section \<open>The serializer\<close>

fun join_throws :: "string throws list \<Rightarrow> string throws" where
  "join_throws [] = Inr []"
| "join_throws (r # rs) = (case r of Inl e \<Rightarrow> Inl e | Inr t \<Rightarrow> prepend t (join_throws rs))"

fun separated :: "string throws list \<Rightarrow> string throws list" where
  "separated [] = []"
| "separated [r] = [r]"
| "separated (r # r' # rs) = r # Inr '','' # separated (r' # rs)"

fun dump :: "json_value \<Rightarrow> string throws" where
  "dump V_null = Inr ''null''"
| "dump (V_boolean b) = Inr (if b then ''true'' else ''false'')"
| "dump (V_unsigned x) = Inr (dump_integer False x)"
| "dump (V_integer x) = Inr (dump_integer (sint x < 0) x)"
| "dump (V_float t) = Inr t"
| "dump (V_string s) = join_throws [Inr [quote], dump_escaped s, Inr [quote]]"
| "dump (V_array xs) =
     (if xs = [] then Inr ''[]''
      else join_throws (Inr ''['' # separated (map dump xs) @ [Inr '']'']))"
| "dump (V_object fs) =
     (if fs = [] then Inr ''{}''
      else join_throws (Inr ''{''
        # separated (map (\<lambda>f. join_throws [Inr [quote], dump_escaped (fst f), Inr [quote, CHR '':''], dump (snd f)]) fs)
        @ [Inr ''}'']))"

section \<open>The decoder accepts UTF-8\<close>

definition byte_class :: "nat \<Rightarrow> nat" where
  "byte_class n =
     (if n < 128 then 0 else if n < 144 then 1 else if n < 160 then 9 else if n < 192 then 7 else if n < 194 then 8
      else if n < 224 then 2 else if n < 225 then 10 else if n < 237 then 3 else if n < 238 then 4 else if n < 240 then 3
      else if n < 241 then 11 else if n < 244 then 6 else if n < 245 then 5 else 8)"

lemma length_utf8_classes: "length utf8_classes = 256"
  by (simp add: utf8_classes_def)

lemma utf8_classes_upt: "utf8_classes = map byte_class [0..<256]"
  by code_simp

lemma utf8_classes_class: "n < 256 \<Longrightarrow> utf8_classes ! n = byte_class n"
  unfolding utf8_classes_upt by (subst nth_map_upt) simp_all

lemma of_char_256: "(of_char c :: nat) < 256"
  using of_char_mod_256 [of c, where 'a = nat] by (metis mod_less_divisor zero_less_numeral)

lemma unat_byte_of: "unat (byte_of c) = of_char c"
  by (simp add: unat_of_nat)

abbreviation char_class :: "char \<Rightarrow> nat" where
  "char_class c \<equiv> byte_class (of_char c)"

definition next_state :: "nat \<Rightarrow> nat \<Rightarrow> nat" where
  "next_state state cls = utf8_states ! (state * 16 + cls)"

lemma decode_fst: "fst (decode state codep (byte_of c)) = next_state state (char_class c)"
proof -
  have "utf8d ! unat (byte_of c) = char_class c"
    using of_char_256 [of c]
    by (simp only: utf8d_def unat_byte_of nth_append length_utf8_classes utf8_classes_class if_True)
  then show ?thesis
    by (simp add: decode_def Let_def next_state_def) (simp add: utf8d_def nth_append length_utf8_classes)
qed

lemma decode_snd:
  "snd (decode state codep (byte_of c)) =
     (if state \<noteq> 0 then (ucast (byte_of c) AND 0x3F) OR push_bit 6 codep
      else drop_bit (char_class c) 0xFF AND ucast (byte_of c))"
proof -
  have "utf8d ! unat (byte_of c) = char_class c"
    using of_char_256 [of c]
    by (simp only: utf8d_def unat_byte_of nth_append length_utf8_classes utf8_classes_class if_True)
  then show ?thesis by (simp add: decode_def Let_def)
qed

text \<open>The transitions, by state and class; the classes 1, 9 and 7 split the continuation bytes.\<close>

lemma byte_class_less: "byte_class n < 12"
  by (simp add: byte_class_def)

lemma next_state_inner:
  "next_state 2 k = (if k \<in> {1, 7, 9} then 0 else 1)"
  "next_state 3 k = (if k \<in> {1, 7, 9} then 2 else 1)"
  "next_state 4 k = (if k = 7 then 2 else 1)"
  "next_state 5 k = (if k \<in> {1, 9} then 2 else 1)"
  "next_state 6 k = (if k \<in> {7, 9} then 3 else 1)"
  "next_state 7 k = (if k \<in> {1, 7, 9} then 3 else 1)"
  "next_state 8 k = (if k = 1 then 3 else 1)"
  if "k < 12"
  using that unfolding next_state_def utf8_states_def
  by (auto simp: less_Suc_eq numeral_eq_Suc)

lemma class_ranges:
  "byte_class n \<in> {1, 7, 9} \<longleftrightarrow> 128 \<le> n \<and> n \<le> 191"
  "byte_class n = 7 \<longleftrightarrow> 160 \<le> n \<and> n \<le> 191"
  "byte_class n \<in> {1, 9} \<longleftrightarrow> 128 \<le> n \<and> n \<le> 159"
  "byte_class n \<in> {7, 9} \<longleftrightarrow> 144 \<le> n \<and> n \<le> 191"
  "byte_class n = 1 \<longleftrightarrow> 128 \<le> n \<and> n \<le> 143"
  by (simp_all add: byte_class_def)

text \<open>
  RFC 3629: the bytes that may follow a first byte, as ranges; the empty list for a byte that stands alone.
\<close>

definition sequence_ranges :: "nat \<Rightarrow> (nat \<times> nat) list option" where
  "sequence_ranges n =
     (if n < 0x80 then Some []
      else if n < 0xC2 then None
      else if n \<le> 0xDF then Some [(0x80, 0xBF)]
      else if n = 0xE0 then Some [(0xA0, 0xBF), (0x80, 0xBF)]
      else if n = 0xED then Some [(0x80, 0x9F), (0x80, 0xBF)]
      else if n \<le> 0xEF then Some [(0x80, 0xBF), (0x80, 0xBF)]
      else if n = 0xF0 then Some [(0x90, 0xBF), (0x80, 0xBF), (0x80, 0xBF)]
      else if n \<le> 0xF3 then Some [(0x80, 0xBF), (0x80, 0xBF), (0x80, 0xBF)]
      else if n = 0xF4 then Some [(0x80, 0x8F), (0x80, 0xBF), (0x80, 0xBF)]
      else None)"

definition in_range :: "nat \<times> nat \<Rightarrow> char \<Rightarrow> bool" where
  "in_range r c \<longleftrightarrow> fst r \<le> of_char c \<and> of_char c \<le> snd r"

fun utf8_from :: "(nat \<times> nat) list \<Rightarrow> string \<Rightarrow> bool" where
  "utf8_from [] [] = True"
| "utf8_from (r # rs) [] = False"
| "utf8_from (r # rs) (c # cs) = (in_range r c \<and> utf8_from rs cs)"
| "utf8_from [] (c # cs) = (case sequence_ranges (of_char c) of None \<Rightarrow> False | Some rs \<Rightarrow> utf8_from rs cs)"

definition utf8_text :: "string \<Rightarrow> bool" where
  "utf8_text s = utf8_from [] s"

text \<open>What a state of the decoder still expects, and the code point it has so far.\<close>

definition state_ranges :: "nat \<Rightarrow> (nat \<times> nat) list" where
  "state_ranges st =
     (if st = 2 then [(0x80, 0xBF)]
      else if st = 3 then [(0x80, 0xBF), (0x80, 0xBF)]
      else if st = 4 then [(0xA0, 0xBF), (0x80, 0xBF)]
      else if st = 5 then [(0x80, 0x9F), (0x80, 0xBF)]
      else if st = 6 then [(0x90, 0xBF), (0x80, 0xBF), (0x80, 0xBF)]
      else if st = 7 then [(0x80, 0xBF), (0x80, 0xBF), (0x80, 0xBF)]
      else if st = 8 then [(0x80, 0x8F), (0x80, 0xBF), (0x80, 0xBF)]
      else [])"

definition state_codep :: "nat \<Rightarrow> nat \<Rightarrow> bool" where
  "state_codep st v \<longleftrightarrow>
     st = 0 \<or> st = 2 \<and> 2 \<le> v \<and> v < 2 ^ 15 \<or> st = 3 \<and> 1 \<le> v \<and> v < 2 ^ 9 \<or> st = 4 \<and> v = 0
     \<or> st = 5 \<and> 1 \<le> v \<and> v < 16 \<or> st = 6 \<and> v = 0 \<or> (st = 7 \<or> st = 8) \<and> 1 \<le> v \<and> v < 8"

text \<open>From the start state all 256 first bytes are checked by evaluation.\<close>

definition start_ok :: "nat \<Rightarrow> bool" where
  "start_ok n \<longleftrightarrow>
     (let st = next_state 0 (byte_class n) in
      case sequence_ranges n of
        None \<Rightarrow> st = 1
      | Some rs \<Rightarrow> st \<noteq> 1 \<and> state_ranges st = rs \<and> (st = 0 \<longleftrightarrow> rs = []))"

lemma start_ok_all: "list_all start_ok [0..<256]"
  by code_simp

lemma start_step:
  "case sequence_ranges (of_char c) of
     None \<Rightarrow> next_state 0 (char_class c) = 1
   | Some rs \<Rightarrow> next_state 0 (char_class c) \<noteq> 1 \<and> state_ranges (next_state 0 (char_class c)) = rs
       \<and> (next_state 0 (char_class c) = 0 \<longleftrightarrow> rs = [])"
proof -
  have "start_ok (of_char c)"
    using start_ok_all of_char_256 [of c] by (simp add: list_all_iff)
  then show ?thesis by (simp add: start_ok_def Let_def)
qed

lemma inner_step:
  assumes "st \<in> {2, 3, 4, 5, 6, 7, 8}"
  shows "next_state st (char_class c) = (if in_range (hd (state_ranges st)) c
       then (if st = 2 then 0 else if st \<le> 5 then 2 else 3) else 1)"
    and "state_ranges (if st = 2 then 0 else if st \<le> 5 then 2 else 3) = tl (state_ranges st)"
proof -
  show "next_state st (char_class c) = (if in_range (hd (state_ranges st)) c
       then (if st = 2 then 0 else if st \<le> 5 then 2 else 3) else 1)"
    using assms
    by (elim insertE emptyE; simp only: next_state_inner [OF byte_class_less] class_ranges; simp add: state_ranges_def in_range_def)
  show "state_ranges (if st = 2 then 0 else if st \<le> 5 then 2 else 3) = tl (state_ranges st)"
    using assms by (auto simp: state_ranges_def)
qed

lemma of_char_mod_word: "(of_char c :: nat) mod 4294967296 = of_char c"
  by (rule mod_less, rule less_le_trans [OF of_char_256]) simp

text \<open>The code point grows by six bits per continuation byte and starts with the low bits of the first byte.\<close>

lemma codep_inner:
  assumes "unat codep < 2 ^ 20"
  shows "unat ((ucast (byte_of c) AND 0x3F) OR push_bit 6 codep :: u32) = of_char c mod 64 + 64 * unat codep"
proof -
  let ?x = "take_bit 6 (ucast (byte_of c)) :: u32"
  have x: "ucast (byte_of c) AND 0x3F = ?x"
    by (simp add: take_bit_eq_mask mask_numeral)
  have xv: "unat ?x = of_char c mod 64"
    by (simp only: unsigned_take_bit_eq unsigned_ucast_eq unat_byte_of) (simp add: take_bit_eq_mod of_char_mod_word)
  have pv: "unat (push_bit 6 codep) = 64 * unat codep"
    using assms by (simp only: unsigned_push_bit_eq) (simp add: take_bit_eq_mod push_bit_eq_mult)
  have "\<not> bit ?x n \<or> \<not> bit (push_bit 6 codep) n" for n
    by (auto simp: bit_simps)
  then have "?x OR push_bit 6 codep = ?x + push_bit 6 codep"
    by (intro disjunctive_add [symmetric])
  moreover have "unat (?x + push_bit 6 codep) = unat ?x + unat (push_bit 6 codep)"
    using assms xv pv by (intro unat_plus_simple [THEN iffD1]) (simp add: word_le_nat_alt unat_word_ariths)
  ultimately show ?thesis by (simp add: x xv pv)
qed

lemma codep_start:
  "unat (drop_bit k 0xFF AND ucast (byte_of c) :: u32) = of_char c mod 2 ^ (8 - k)"
proof -
  have "drop_bit k (0xFF :: u32) = mask (8 - k)"
  proof -
    have "(0xFF :: u32) = mask 8" by (simp add: mask_eq_exp_minus_1)
    moreover have "drop_bit k (mask 8 :: u32) = mask (8 - k)" by (rule bit_eqI) (auto simp: bit_simps)
    ultimately show ?thesis by simp
  qed
  then have "drop_bit k 0xFF AND ucast (byte_of c) = (take_bit (8 - k) (ucast (byte_of c)) :: u32)"
    by (simp add: take_bit_eq_mask and.commute)
  then show ?thesis
    by (simp only: unsigned_take_bit_eq unsigned_ucast_eq unat_byte_of) (simp add: take_bit_eq_mod of_char_mod_word)
qed

definition start_codep :: "nat \<Rightarrow> bool" where
  "start_codep n \<longleftrightarrow>
     (let st = next_state 0 (byte_class n); v = n mod 2 ^ (8 - byte_class n) in
      st = 1 \<or> st = 0 \<and> v = n \<and> n < 128 \<or> st = 2 \<and> 2 \<le> v \<and> v < 64 \<or> st = 3 \<and> 1 \<le> v \<and> v < 64 \<or> st = 4 \<and> v = 0
      \<or> st = 5 \<and> 1 \<le> v \<and> v < 16 \<or> st = 6 \<and> v = 0 \<or> (st = 7 \<or> st = 8) \<and> 1 \<le> v \<and> v < 8)"

lemma start_codep_all: "list_all start_codep [0..<256]"
  by code_simp

lemma start_decode:
  assumes "decode 0 codep (byte_of c) = (st, codep')" and "st \<noteq> 1"
  shows "state_codep st (unat codep')" and "st \<in> {0, 2, 3, 4, 5, 6, 7, 8}"
    and "st = 0 \<Longrightarrow> unat codep' = of_char c" and "st \<noteq> 0 \<Longrightarrow> 128 \<le> (of_char c :: nat)"
proof -
  have st: "st = next_state 0 (char_class c)" and v: "unat codep' = of_char c mod 2 ^ (8 - char_class c)"
    using assms(1) decode_fst [of 0 codep c] decode_snd [of 0 codep c] by (auto simp: codep_start)
  have ok: "start_codep (of_char c)"
    using start_codep_all of_char_256 [of c] by (simp add: list_all_iff)
  then show "state_codep st (unat codep')" "st \<in> {0, 2, 3, 4, 5, 6, 7, 8}" "st = 0 \<Longrightarrow> unat codep' = of_char c"
    using assms(2) unfolding start_codep_def Let_def st [symmetric] v [symmetric] by (auto simp: state_codep_def)
  show "st \<noteq> 0 \<Longrightarrow> 128 \<le> (of_char c :: nat)"
  proof (rule ccontr)
    assume "st \<noteq> 0" "\<not> 128 \<le> (of_char c :: nat)"
    then have "char_class c = 0" by (simp add: byte_class_def)
    then show False using st \<open>st \<noteq> 0\<close> by (simp add: next_state_def utf8_states_def)
  qed
qed

lemma cont_mod:
  assumes "128 \<le> n" "n \<le> 191"
  shows "n mod 64 = n - (128 :: nat)"
proof -
  have "n = (n - 128) + 64 * 2" using assms by simp
  then have "n mod 64 = ((n - 128) + 64 * 2) mod 64" by simp
  also have "\<dots> = (n - 128) mod 64" by (rule mod_mult_self2)
  finally show ?thesis using assms by simp
qed

lemma inner_decode:
  assumes "decode st codep (byte_of c) = (st', codep')" and "st' \<noteq> 1"
    and "st \<in> {2, 3, 4, 5, 6, 7, 8}" and "state_codep st (unat codep)"
  shows "state_codep st' (unat codep')" and "st' \<in> {0, 2, 3}" and "128 \<le> (of_char c :: nat)"
    and "st' = 0 \<Longrightarrow> 128 \<le> unat codep'" and "in_range (hd (state_ranges st)) c" and "state_ranges st' = tl (state_ranges st)"
proof -
  have small: "unat codep < 2 ^ 20" using assms(3,4) by (auto simp: state_codep_def)
  have st: "st' = next_state st (char_class c)" and v: "unat codep' = of_char c mod 64 + 64 * unat codep"
    using assms(1,3) decode_fst [of st codep c] decode_snd [of st codep c] codep_inner [OF small] by auto
  show r: "in_range (hd (state_ranges st)) c"
    using inner_step(1) [OF assms(3), of c] st assms(2) by (auto split: if_splits)
  have st': "st' = (if st = 2 then 0 else if st \<le> 5 then 2 else 3)"
    using inner_step(1) [OF assms(3), of c] st r by simp
  then show "state_ranges st' = tl (state_ranges st)" "st' \<in> {0, 2, 3}"
    using inner_step(2) [OF assms(3)] by auto
  have n: "128 \<le> (of_char c :: nat)" "(of_char c :: nat) \<le> 191"
    using r assms(3) by (auto simp: in_range_def state_ranges_def)
  then show "128 \<le> (of_char c :: nat)" by simp
  have v': "unat codep' = (of_char c - 128) + 64 * unat codep" using v cont_mod [OF n] by simp
  show "state_codep st' (unat codep')" "st' = 0 \<Longrightarrow> 128 \<le> unat codep'"
    using assms(3,4) r n unfolding v' st'
    by (elim insertE emptyE; auto simp: state_codep_def in_range_def state_ranges_def)+
qed

end
