(* ===== verification/Json_Dump_Text.thy ===== *)
theory Json_Dump_Text
  imports Json_Dump
begin

text \<open>
  The serializer of \<open>Json_Dump\<close> computes the canonical text: of strings exactly when they are UTF-8, of integers always,
  and of whole values.
\<close>

section \<open>The order of keys\<close>

lemma string_less_irrefl: "\<not> string_less a a"
  by (induction a) auto

lemma string_less_trans: "string_less a b \<Longrightarrow> string_less b c \<Longrightarrow> string_less a c"
proof (induction a b arbitrary: c rule: string_less.induct)
  case (2 d ds)
  then show ?case by (cases c) auto
next
  case (3 x xs y ys)
  then show ?case by (cases c) auto
qed simp

lemma string_less_total: "string_less a b \<or> a = b \<or> string_less b a"
proof (induction a b rule: string_less.induct)
  case (1 a)
  then show ?case by (cases a) auto
next
  case (3 x xs y ys)
  then show ?case by (metis linorder_cases of_char_eq_iff string_less.simps(3))
qed auto

section \<open>Escaping agrees with the canonical text\<close>

lemma codepoint_plain:
  assumes "128 \<le> unat codep"
  shows "dump_codepoint codep c = [c]"
proof -
  have "codep \<noteq> k" if "unat k < 128" for k using assms that by auto
  moreover have "\<not> codep \<le> 0x1F" using assms by (simp add: word_le_nat_alt)
  ultimately show ?thesis by (simp add: dump_codepoint_def)
qed

lemma codepoint_ascii:
  assumes "unat codep = of_char c"
  shows "dump_codepoint codep c = json_escape_char c"
proof -
  have eq: "codep = k \<longleftrightarrow> c = d" if "unat k = of_char d" for k d
  proof -
    have "codep = k \<longleftrightarrow> (of_char c :: nat) = of_char d" by (simp add: word_unat_eq_iff assms that)
    then show ?thesis by (metis char_of_char)
  qed
  have special: "codep = 0x08 \<longleftrightarrow> c = CHR 0x08" "codep = 0x09 \<longleftrightarrow> c = CHR 0x09" "codep = 0x0A \<longleftrightarrow> c = CHR 0x0A"
      "codep = 0x0C \<longleftrightarrow> c = CHR 0x0C" "codep = 0x0D \<longleftrightarrow> c = CHR 0x0D" "codep = 0x22 \<longleftrightarrow> c = CHR 0x22"
      "codep = 0x5C \<longleftrightarrow> c = CHR 0x5C"
    by (rule eq, simp)+
  have le: "codep \<le> 0x1F \<longleftrightarrow> (of_char c :: nat) < 0x20"
    using assms by (auto simp: word_le_nat_alt)
  show ?thesis
  proof (cases "c \<in> {backslash, quote, CHR 0x08, CHR 0x0C, CHR 0x0A, CHR 0x0D, CHR 0x09}")
    case True
    then show ?thesis unfolding dump_codepoint_def json_escape_char_def special by auto
  next
    case False
    then show ?thesis unfolding dump_codepoint_def json_escape_char_def special le assms by simp
  qed
qed

lemma escape_plain: "128 \<le> (of_char c :: nat) \<Longrightarrow> json_escape_char c = [c]"
proof -
  assume high: "128 \<le> (of_char c :: nat)"
  then have "c \<noteq> d" if "(of_char d :: nat) < 128" for d using that by auto
  then have "c \<noteq> backslash" "c \<noteq> quote" "c \<noteq> CHR 0x08" "c \<noteq> CHR 0x0C" "c \<noteq> CHR 0x0A" "c \<noteq> CHR 0x0D" "c \<noteq> CHR 0x09"
    by simp_all
  with high show "json_escape_char c = [c]" by (simp add: json_escape_char_def)
qed

lemma prepend_Inr [simp]: "prepend xs r = Inr t \<longleftrightarrow> (\<exists>ys. r = Inr ys \<and> t = xs @ ys)"
  by (cases r) (auto simp: prepend_def)

lemma inner_reject:
  assumes "st \<in> {2, 3, 4, 5, 6, 7, 8}"
  shows "next_state st (char_class c) = 1 \<longleftrightarrow> \<not> in_range (hd (state_ranges st)) c"
  by (subst inner_step(1) [OF assms]) simp

text \<open>The loop from any state that is not the rejecting one, and its first step at the start and inside a sequence.\<close>

definition loop_escapes :: "string \<Rightarrow> string \<Rightarrow> bool" where
  "loop_escapes s cs \<longleftrightarrow>
     (\<forall>st \<in> {0, 2, 3, 4, 5, 6, 7, 8}. \<forall>codep i t. state_codep st (unat codep) \<longrightarrow>
        (dump_loop s i st codep cs = Inr t \<longleftrightarrow> utf8_from (state_ranges st) cs \<and> t = json_escape cs))"

lemma dump_loop_start:
  assumes "loop_escapes s cs"
  shows "dump_loop s i 0 codep (c # cs) = Inr t \<longleftrightarrow> utf8_from (state_ranges 0) (c # cs) \<and> t = json_escape (c # cs)"
proof -
  obtain st' codep' where d: "decode 0 codep (byte_of c) = (st', codep')" by (metis prod.collapse)
  then have next0: "st' = next_state 0 (char_class c)" using decode_fst [of 0 codep c] by simp
  show ?thesis
  proof (cases "st' = 1")
    case True
    then show ?thesis using d start_step [of c] next0 by (auto simp: state_ranges_def split: option.splits)
  next
    case False
    note s = start_decode [OF d False]
    obtain rs where rs: "sequence_ranges (of_char c) = Some rs" "state_ranges st' = rs"
      using start_step [of c] next0 False by (auto split: option.splits)
    have "dump_loop s (i + 1) st' codep' cs = Inr u \<longleftrightarrow> utf8_from rs cs \<and> u = json_escape cs" for u
      using assms s(2,1) rs(2) unfolding loop_escapes_def by blast
    then show ?thesis
      using d False rs s(3,4) codepoint_ascii [of codep' c] escape_plain [of c] by (cases "st' = 0") (auto simp: state_ranges_def)
  qed
qed

lemma dump_loop_inner:
  assumes "loop_escapes s cs" and st: "st \<in> {2, 3, 4, 5, 6, 7, 8}" and "state_codep st (unat codep)"
  shows "dump_loop s i st codep (c # cs) = Inr t \<longleftrightarrow> utf8_from (state_ranges st) (c # cs) \<and> t = json_escape (c # cs)"
proof -
  obtain st' codep' where d: "decode st codep (byte_of c) = (st', codep')" by (metis prod.collapse)
  obtain r rs where r: "state_ranges st = r # rs" using st by (auto simp: state_ranges_def)
  show ?thesis
  proof (cases "st' = 1")
    case True
    then have "next_state st (char_class c) = 1" using d decode_fst [of st codep c] by simp
    then have "\<not> in_range r c" using inner_reject [OF st, of c] r by (metis list.sel(1))
    then show ?thesis using True d r by simp
  next
    case False
    note s = inner_decode [OF d False st assms(3)]
    have "st' \<in> {0, 2, 3, 4, 5, 6, 7, 8}" using s(2) by auto
    then have "dump_loop s (i + 1) st' codep' cs = Inr u \<longleftrightarrow> utf8_from rs cs \<and> u = json_escape cs" for u
      using assms(1) s(1,6) r unfolding loop_escapes_def by (metis list.sel(3))
    then show ?thesis
      using d False s(3,4,5) r codepoint_plain [of codep' c] escape_plain [of c] by (cases "st' = 0") auto
  qed
qed

lemma dump_loop_escapes: "loop_escapes s cs"
proof (induction cs)
  case Nil
  then show ?case by (auto simp: loop_escapes_def state_ranges_def)
next
  case (Cons c cs)
  then show ?case
    using dump_loop_start [OF Cons] dump_loop_inner [OF Cons] unfolding loop_escapes_def by blast
qed

lemma dump_escaped_iff: "dump_escaped s = Inr t \<longleftrightarrow> utf8_text s \<and> t = json_escape s"
proof -
  have "state_ranges 0 = []" and "state_codep 0 (unat (0 :: u32))"
    by (simp_all add: state_ranges_def state_codep_def)
  then show ?thesis
    unfolding dump_escaped_def utf8_text_def UTF8_ACCEPT_def using dump_loop_escapes [of s s] by (auto simp: loop_escapes_def)
qed

section \<open>Integers agree with decimal text\<close>

lemma length_digits_10:
  "length (digits 10 x) = (if x < 10 then 1 else if x < 100 then 2 else if x < 1000 then 3 else if x < 10000 then 4
     else 4 + length (digits 10 (x div 10000)))"
proof -
  have step: "length (digits 10 y) = (if y < 10 then 1 else Suc (length (digits 10 (y div 10))))" for y
    by (subst digits.simps) simp
  have d: "x div 10 div 10 = x div 100" "x div 100 div 10 = x div 1000" "x div 1000 div 10 = x div 10000"
    by (simp_all add: div_mult2_eq [symmetric])
  show ?thesis
    using step [of x] step [of "x div 10"] step [of "x div 100"] step [of "x div 1000"] by (auto simp: d)
qed

lemma count_digits_loop_digits: "count_digits_loop n x = n - 1 + length (digits 10 x)" if "1 \<le> n"
  using that
proof (induction n x rule: count_digits_loop.induct)
  case (1 n x)
  then show ?case
    by (subst count_digits_loop.simps, subst length_digits_10) auto
qed

lemma count_digits_length: "count_digits x = length (digits 10 (unat x))"
  by (simp add: count_digits_def count_digits_loop_digits)

lemma count_digits_le: "count_digits x \<le> 20"
proof -
  have "unat x < 10 ^ 20" using unat_bound [of x] by simp
  then show ?thesis unfolding count_digits_length by (intro length_digits_le) simp_all
qed

lemma digits_pair:
  assumes "100 \<le> v"
  shows "digits 10 v = digits 10 (v div 100) @ [v mod 100 div 10, v mod 100 mod 10]"
proof -
  have "digits 10 v = digits 10 (v div 10) @ [v mod 10]" using assms by (subst digits.simps) simp
  also have "digits 10 (v div 10) = digits 10 (v div 10 div 10) @ [v div 10 mod 10]"
    using assms by (subst digits.simps) simp
  also have "v div 10 mod 10 = v mod 100 div 10" using mod_mult2_eq [of v 10 10] by simp
  also have "v mod 10 = v mod 100 mod 10" by (simp add: mod_mod_cancel)
  finally show ?thesis by (simp add: div_mult2_eq [symmetric])
qed

lemma write_pair_append:
  "write_pair k (Suc (Suc (length xs))) (xs @ a # b # ys) = xs @ digit_char (k div 10) # digit_char (k mod 10) # ys"
  by (simp add: write_pair_def list_update_append)

text \<open>The digits are written from the right over exactly the positions counted for them.\<close>

lemma write_digits_append:
  assumes "length ds = length (digits 10 v)"
  shows "write_digits v (length xs + length ds) (xs @ ds @ ys) = xs @ dec_text v @ ys"
  using assms
proof (induction v arbitrary: ds ys rule: less_induct)
  case (less v)
  consider "v < 10" | "10 \<le> v" "v < 100" | "100 \<le> v" by linarith
  then show ?case
  proof cases
    case 1
    then obtain a where "ds = [a]" using less.prems by (auto simp: digits.simps [of 10 v] length_Suc_conv)
    with 1 show ?thesis by (subst write_digits.simps) (simp add: radix_text_def digits.simps [of 10 v] list_update_append)
  next
    case 2
    then have dg: "digits 10 v = [v div 10, v mod 10]" by (simp add: digits.simps [of 10 v] digits.simps [of 10 "v div 10"])
    then obtain a b where "ds = [a, b]" using less.prems by (auto simp: length_Suc_conv)
    with 2 dg show ?thesis by (subst write_digits.simps) (simp add: radix_text_def write_pair_append)
  next
    case 3
    then have "length ds = length (digits 10 (v div 100)) + 2" using less.prems by (simp add: digits_pair)
    then have "length (drop (length (digits 10 (v div 100))) ds) = 2" by simp
    then obtain a b where "drop (length (digits 10 (v div 100))) ds = [a, b]"
      by (auto simp: length_Suc_conv numeral_2_eq_2 simp del: length_drop)
    moreover define ds' where "ds' = take (length (digits 10 (v div 100))) ds"
    ultimately have ds: "ds = ds' @ [a, b]" and len: "length ds' = length (digits 10 (v div 100))"
      using \<open>length ds = length (digits 10 (v div 100)) + 2\<close> by (metis append_take_drop_id, simp)
    have "write_digits v (length xs + length ds) (xs @ ds @ ys)
        = write_digits (v div 100) (length xs + length ds')
            (write_pair (v mod 100) (Suc (Suc (length (xs @ ds')))) ((xs @ ds') @ a # b # ys))"
      using 3 ds by (subst write_digits.simps) simp
    also have "\<dots> = xs @ dec_text (v div 100) @ digit_char (v mod 100 div 10) # digit_char (v mod 100 mod 10) # ys"
      unfolding write_pair_append using less.IH [OF _ len] 3 by simp
    finally show ?thesis using 3 by (simp add: radix_text_def digits_pair)
  qed
qed

lemma digit_char_zero: "digit_char 0 = CHR ''0''"
  by code_simp

lemma dump_integer_text:
  "dump_integer negative x =
     (if negative \<and> x \<noteq> 0 then CHR ''-'' # dec_text (unat (- x)) else dec_text (unat x))"
proof (cases "x = 0")
  case True
  then show ?thesis by (simp add: dump_integer_def radix_text_def digits.simps [of 10 0] digit_char_zero)
next
  case False
  have neg: "remove_sign x = - x" by (simp add: remove_sign_def)
  have split: "replicate 63 (CHR 0x00) = replicate (count_digits y) (CHR 0x00) @ replicate (63 - count_digits y) (CHR 0x00)"
      "replicate 64 (CHR 0x00) = replicate (count_digits y) (CHR 0x00) @ replicate (64 - count_digits y) (CHR 0x00)" for y
    using count_digits_le [of y] by (simp_all flip: replicate_add)
  have len: "length (dec_text (unat y)) = count_digits y" for y :: u64
    by (simp add: count_digits_length radix_text_def)
  show ?thesis
  proof (cases negative)
    case True
    have "(replicate 64 (CHR 0x00))[0 := CHR ''-''] = [CHR ''-''] @ replicate 63 (CHR 0x00)"
      by (simp add: numeral_eq_Suc)
    with True False show ?thesis
      using write_digits_append [of "replicate (count_digits (- x)) (CHR 0x00)" "unat (- x)" "[CHR ''-'']"] len [of "- x"]
      by (simp add: dump_integer_def Let_def neg split(1) [of "- x"] count_digits_length)
  next
    case nonneg: False
    with False show ?thesis
      using write_digits_append [of "replicate (count_digits x) (CHR 0x00)" "unat x" "[]"] len [of x]
      by (simp add: dump_integer_def Let_def split(2) [of x] count_digits_length)
  qed
qed

section \<open>Values agree with their canonical text\<close>

text \<open>The document a value without floating-point numbers stands for, and whether all its strings are UTF-8.\<close>

fun value_json :: "json_value \<Rightarrow> json" where
  "value_json V_null = JNull"
| "value_json (V_boolean b) = JBool b"
| "value_json (V_unsigned x) = JNat (unat x)"
| "value_json (V_integer x) = (if sint x < 0 then JNeg (unat (- x)) else JNat (unat x))"
| "value_json (V_float t) = JNull"
| "value_json (V_string s) = JString s"
| "value_json (V_array xs) = JArray (map value_json xs)"
| "value_json (V_object fs) = JObject (map (\<lambda>f. (fst f, value_json (snd f))) fs)"

fun no_float :: "json_value \<Rightarrow> bool" where
  "no_float (V_float t) = False"
| "no_float (V_array xs) = list_all no_float xs"
| "no_float (V_object fs) = list_all (\<lambda>f. no_float (snd f)) fs"
| "no_float v = True"

fun utf8_value :: "json_value \<Rightarrow> bool" where
  "utf8_value (V_string s) = utf8_text s"
| "utf8_value (V_array xs) = list_all utf8_value xs"
| "utf8_value (V_object fs) = list_all (\<lambda>f. utf8_text (fst f) \<and> utf8_value (snd f)) fs"
| "utf8_value v = True"

lemma join_throws_Inr [simp]: "join_throws (Inr t # rs) = prepend t (join_throws rs)"
  by simp

lemma join_throws_Cons_iff:
  "join_throws (r # rs) = Inr t \<longleftrightarrow> (\<exists>a b. r = Inr a \<and> join_throws rs = Inr b \<and> t = a @ b)"
  by (cases r) auto

lemma join_separated:
  assumes "\<And>x t. x \<in> set xs \<Longrightarrow> f x = Inr t \<longleftrightarrow> P x \<and> t = g x"
  shows "join_throws (separated (map f xs) @ [Inr z]) = Inr t \<longleftrightarrow> list_all P xs \<and> t = commas (map g xs) @ z"
  using assms
proof (induction xs arbitrary: t rule: induct_list012)
  case (3 x y zs)
  then have "join_throws (separated (map f (y # zs)) @ [Inr z]) = Inr u
      \<longleftrightarrow> list_all P (y # zs) \<and> u = commas (map g (y # zs)) @ z" for u
    by (intro "3.IH") simp
  then show ?case using "3.prems" [of x] by (auto simp: join_throws_Cons_iff simp del: join_throws.simps(2))
qed (auto simp: join_throws_Cons_iff simp del: join_throws.simps(2))

lemma dump_value_iff: "no_float v \<Longrightarrow> dump v = Inr t \<longleftrightarrow> utf8_value v \<and> t = render (value_json v)"
proof (induction v arbitrary: t)
  case (V_integer x)
  then show ?case by (auto simp: dump_integer_text)
next
  case (V_unsigned x)
  then show ?case by (auto simp: dump_integer_text)
next
  case (V_string s)
  then show ?case by (auto simp: join_throws_Cons_iff dump_escaped_iff quoted_def simp del: join_throws.simps(2))
next
  case (V_array xs)
  then have "join_throws (separated (map dump xs) @ [Inr '']'']) = Inr u
      \<longleftrightarrow> list_all utf8_value xs \<and> u = commas (map (\<lambda>v. render (value_json v)) xs) @ '']''" for u
    by (intro join_separated) (auto simp: list_all_iff)
  then show ?case by (auto simp: o_def)
next
  case (V_object fs)
  let ?field = "\<lambda>f. join_throws [Inr [quote], dump_escaped (fst f), Inr [quote, CHR '':''], dump (snd f)]"
  have "?field f = Inr u \<longleftrightarrow> (utf8_text (fst f) \<and> utf8_value (snd f))
      \<and> u = quoted (fst f) @ CHR '':'' # render (value_json (snd f))" if "f \<in> set fs" for f u
  proof -
    have "dump (snd f) = Inr w \<longleftrightarrow> utf8_value (snd f) \<and> w = render (value_json (snd f))" for w
      using V_object.IH [of f "snd f"] V_object.prems that by (auto simp: list_all_iff snds.simps)
    then show ?thesis
      by (auto simp: join_throws_Cons_iff dump_escaped_iff quoted_def simp del: join_throws.simps(2))
  qed
  then have "join_throws (separated (map ?field fs) @ [Inr ''}'']) = Inr u
      \<longleftrightarrow> list_all (\<lambda>f. utf8_text (fst f) \<and> utf8_value (snd f)) fs
        \<and> u = commas (map (\<lambda>f. quoted (fst f) @ CHR '':'' # render (value_json (snd f))) fs) @ ''}''" for u
    by (intro join_separated)
  then show ?case by (auto simp: o_def simp del: join_throws.simps(2) simp add: join_throws_Inr)
qed auto

text \<open>What \<open>dump\<close> throws is always the library's type error, which is a \<^verbatim>\<open>std::exception\<close>.\<close>

definition is_type_error :: "cpp_exception \<Rightarrow> bool" where
  "is_type_error e \<longleftrightarrow> (\<exists>what. e = type_error what)"

lemma prepend_Inl [simp]: "prepend xs r = Inl e \<longleftrightarrow> r = Inl e"
  by (cases r) (auto simp: prepend_def)

lemma dump_loop_error: "dump_loop s i st codep cs = Inl e \<Longrightarrow> is_type_error e"
  by (induction s i st codep cs rule: dump_loop.induct)
    (auto simp: is_type_error_def split: if_splits prod.splits)

lemma join_throws_error: "join_throws rs = Inl e \<Longrightarrow> Inl e \<in> set rs"
  by (induction rs) (auto split: sum.splits)

lemma separated_error: "Inl e \<in> set (separated rs) \<Longrightarrow> Inl e \<in> set rs"
  by (induction rs rule: separated.induct) auto

lemma dump_error: "dump v = Inl e \<Longrightarrow> is_type_error e"
proof (induction v)
  case (V_array xs)
  then show ?case by (auto split: if_splits dest!: join_throws_error separated_error)
next
  case (V_object fs)
  let ?field = "\<lambda>f. join_throws [Inr [quote], dump_escaped (fst f), Inr [quote, CHR '':''], dump (snd f)]"
  have "Inl e \<in> set (map ?field fs)"
    using V_object.prems separated_error [of e "map ?field fs"]
    by (auto split: if_splits simp del: join_throws.simps(2) dest!: join_throws_error)
  then obtain f where f: "Inl e = ?field f" "f \<in> set fs" unfolding set_map by (rule imageE)
  from join_throws_error [OF f(1) [symmetric]] have "dump_escaped (fst f) = Inl e \<or> dump (snd f) = Inl e" by auto
  then show ?case
    using V_object.IH [of f "snd f"] f(2) by (auto simp: dump_escaped_def snds.simps intro: dump_loop_error)
qed (auto simp: dump_escaped_def simp del: join_throws.simps(2) intro: dump_loop_error dest!: join_throws_error)

section \<open>Properties\<close>

text \<open>
  C12 The serializer is exact: on a value without floating-point numbers it returns the canonical compact text if and only
  if every string and key in the value is UTF-8 in the sense of RFC 3629, the reader gets the value's document back from
  that text, and otherwise it throws the library's type error and returns nothing. Integers, escapes and nesting agree
  with the reference at every value, including the least negative integer.
\<close>

theorem dump_exact:
  assumes "no_float v"
  shows "case dump v of
      Inr t \<Rightarrow> utf8_value v \<and> t = render (value_json v) \<and> read_json t = Some (value_json v)
    | Inl e \<Rightarrow> \<not> utf8_value v \<and> is_type_error e"
proof (cases "dump v")
  case (Inl e)
  then show ?thesis using dump_error [OF Inl] dump_value_iff [OF assms, of "render (value_json v)"] by auto
next
  case (Inr t)
  then show ?thesis using dump_value_iff [OF assms, of t] by (simp add: read_json_render)
qed

theorem dump_exact_witness:
  "dump (V_array [V_integer (- 5), V_string [CHR 0xC3, CHR 0xA9]]) = Inr (render (JArray [JNeg 5, JString [CHR 0xC3, CHR 0xA9]]))
   \<and> (\<exists>e. dump (V_string [CHR 0xC3]) = Inl e \<and> is_type_error e)"
proof -
  have "utf8_value (V_array [V_integer (- 5), V_string [CHR 0xC3, CHR 0xA9]])" and "\<not> utf8_value (V_string [CHR 0xC3])"
    by (simp_all add: utf8_text_def sequence_ranges_def in_range_def)
  then show ?thesis
    using dump_exact [of "V_array [V_integer (- 5), V_string [CHR 0xC3, CHR 0xA9]]"] dump_exact [of "V_string [CHR 0xC3]"]
    by (auto split: sum.splits)
qed

end
