(* ===== verification/Json_Lexer.thy ===== *)
theory Json_Lexer
  imports Json_Dump_Text
begin

text \<open>
  The lexer of the vendored JSON library: \<^verbatim>\<open>detail::lexer\<close> of \<^verbatim>\<open>nlohmann/json.hpp\<close> over the bytes of a
  \<^verbatim>\<open>std::string\<close>, as \<^verbatim>\<open>Json::parse(text)\<close> instantiates it (comments are not ignored). Every scan function is
  translated with its error messages and the position it reports. \<^verbatim>\<open>std::strtod\<close> is the parameter \<open>strtod\<close>: the text the
  library prints for the number read, or \<open>None\<close> when the result is not finite. The decimal point is that of the C locale.
\<close>

section \<open>State\<close>

record position_t =
  chars_read_total :: nat
  chars_read_current_line :: nat
  lines_read :: nat

datatype token_type =
    Uninitialized
  | Literal_true
  | Literal_false
  | Literal_null
  | Value_string
  | Value_unsigned
  | Value_integer
  | Value_float
  | Begin_array
  | Begin_object
  | End_array
  | End_object
  | Name_separator
  | Value_separator
  | Parse_error
  | End_of_input
  | Literal_or_value

fun token_type_name :: "token_type \<Rightarrow> string" where
  "token_type_name Uninitialized = ''<uninitialized>''"
| "token_type_name Literal_true = ''true literal''"
| "token_type_name Literal_false = ''false literal''"
| "token_type_name Literal_null = ''null literal''"
| "token_type_name Value_string = ''string literal''"
| "token_type_name Value_unsigned = ''number literal''"
| "token_type_name Value_integer = ''number literal''"
| "token_type_name Value_float = ''number literal''"
| "token_type_name Begin_array = [CHR 0x27, CHR ''['', CHR 0x27]"
| "token_type_name Begin_object = [CHR 0x27, CHR ''{'', CHR 0x27]"
| "token_type_name End_array = [CHR 0x27, CHR '']'', CHR 0x27]"
| "token_type_name End_object = [CHR 0x27, CHR ''}'', CHR 0x27]"
| "token_type_name Name_separator = [CHR 0x27, CHR '':'', CHR 0x27]"
| "token_type_name Value_separator = [CHR 0x27, CHR '','', CHR 0x27]"
| "token_type_name Parse_error = ''<parse error>''"
| "token_type_name End_of_input = ''end of input''"
| "token_type_name Literal_or_value =
     [CHR 0x27, CHR ''['', CHR 0x27] @ '', '' @ [CHR 0x27, CHR ''{'', CHR 0x27] @ '', or a literal''"

text \<open>The current character is \<open>None\<close> for \<^verbatim>\<open>eof()\<close>; the input is what the adapter has not delivered yet.\<close>

record lexer =
  lx_input :: string
  lx_current :: "char option"
  lx_next_unget :: bool
  lx_position :: position_t
  lx_token_string :: string
  lx_token_buffer :: string
  lx_error_message :: string
  lx_value_integer :: i64
  lx_value_unsigned :: u64
  lx_value_float :: "string option"

definition new_lexer :: "string \<Rightarrow> lexer" where
  "new_lexer text =
     \<lparr>lx_input = text, lx_current = None, lx_next_unget = False,
      lx_position = \<lparr>chars_read_total = 0, chars_read_current_line = 0, lines_read = 0\<rparr>,
      lx_token_string = [], lx_token_buffer = [], lx_error_message = [],
      lx_value_integer = 0, lx_value_unsigned = 0, lx_value_float = Some ''0.0''\<rparr>"

section \<open>Input\<close>

fun get_character :: "string \<Rightarrow> char option \<times> string" where
  "get_character [] = (None, [])"
| "get_character (c # cs) = (Some c, cs)"

definition lex_reset :: "lexer \<Rightarrow> lexer" where
  "lex_reset l = l\<lparr>lx_token_buffer := [],
     lx_token_string := [case lx_current l of Some c \<Rightarrow> c | None \<Rightarrow> CHR 0xFF]\<rparr>"

definition count_char :: "lexer \<Rightarrow> lexer" where
  "count_char l = l\<lparr>lx_position := (lx_position l)\<lparr>
     chars_read_total := chars_read_total (lx_position l) + 1,
     chars_read_current_line := chars_read_current_line (lx_position l) + 1\<rparr>\<rparr>"

definition next_current :: "lexer \<Rightarrow> lexer" where
  "next_current l =
     (if lx_next_unget l then l\<lparr>lx_next_unget := False\<rparr>
      else let (c, cs) = get_character (lx_input l) in l\<lparr>lx_current := c, lx_input := cs\<rparr>)"

definition lex_get :: "lexer \<Rightarrow> lexer" where
  "lex_get l =
     (let l1 = next_current (count_char l);
          l2 = (case lx_current l1 of
                  None \<Rightarrow> l1
                | Some c \<Rightarrow> l1\<lparr>lx_token_string := lx_token_string l1 @ [c]\<rparr>)
      in if lx_current l2 = Some newline
         then l2\<lparr>lx_position := (lx_position l2)\<lparr>
                  chars_read_current_line := 0, lines_read := lines_read (lx_position l2) + 1\<rparr>\<rparr>
         else l2)"

definition lex_unget :: "lexer \<Rightarrow> lexer" where
  "lex_unget l =
     (let p = (lx_position l)\<lparr>chars_read_total := chars_read_total (lx_position l) - 1\<rparr>;
          p' = (if chars_read_current_line p = 0
                then (if lines_read p > 0 then p\<lparr>lines_read := lines_read p - 1\<rparr> else p)
                else p\<lparr>chars_read_current_line := chars_read_current_line p - 1\<rparr>)
      in l\<lparr>lx_next_unget := True, lx_position := p',
           lx_token_string := (if lx_current l = None then lx_token_string l else butlast (lx_token_string l))\<rparr>)"

definition lex_add :: "char \<Rightarrow> lexer \<Rightarrow> lexer" where
  "lex_add c l = l\<lparr>lx_token_buffer := lx_token_buffer l @ [c]\<rparr>"

definition lex_error :: "string \<Rightarrow> lexer \<Rightarrow> lexer" where
  "lex_error message l = l\<lparr>lx_error_message := message\<rparr>"

definition get_token_string :: "lexer \<Rightarrow> string" where
  "get_token_string l =
     concat (map (\<lambda>c. if (of_char c :: nat) \<le> 0x1F then ''<U+'' @ hex_upper 4 (of_char c) @ ''>'' else [c])
       (lx_token_string l))"

text \<open>What the lexer has still to read; a character that was put back comes first.\<close>

definition remaining :: "lexer \<Rightarrow> string" where
  "remaining l = (if lx_next_unget l then (case lx_current l of Some c \<Rightarrow> [c] | None \<Rightarrow> []) else []) @ lx_input l"

lemma lex_get_next_unget [simp]: "\<not> lx_next_unget (lex_get l)"
  by (simp add: lex_get_def Let_def next_current_def count_char_def split: option.splits prod.splits)

lemma remaining_simps [simp]:
  "remaining (lex_add c l) = remaining l"
  "remaining (lex_error m l) = remaining l"
  "remaining (lex_reset l) = remaining l"
  "remaining (l\<lparr>lx_value_integer := i\<rparr>) = remaining l"
  "remaining (l\<lparr>lx_value_unsigned := u\<rparr>) = remaining l"
  "remaining (l\<lparr>lx_value_float := f\<rparr>) = remaining l"
  by (simp_all add: remaining_def lex_add_def lex_error_def lex_reset_def)

lemma remaining_unget_get [simp]: "remaining (lex_unget (lex_get l)) = remaining l"
  by (cases "lx_input l")
    (simp_all add: remaining_def lex_unget_def lex_get_def Let_def next_current_def count_char_def split: option.splits)

lemma length_remaining_get: "length (remaining (lex_get l)) \<le> length (remaining l)"
  by (cases "lx_input l")
    (simp_all add: remaining_def lex_get_def Let_def next_current_def count_char_def split: option.splits)

lemma length_remaining_get_less: "lx_current (lex_get l) \<noteq> None \<Longrightarrow> length (remaining (lex_get l)) < length (remaining l)"
  by (cases "lx_input l")
    (auto simp: remaining_def lex_get_def Let_def next_current_def count_char_def split: option.splits if_splits)

section \<open>Strings\<close>

text \<open>The value of four hexadecimal digits, or -1.\<close>

fun get_codepoint_loop :: "nat list \<Rightarrow> int \<Rightarrow> lexer \<Rightarrow> int \<times> lexer" where
  "get_codepoint_loop [] codepoint l = (codepoint, l)"
| "get_codepoint_loop (factor # factors) codepoint l =
     (let l = lex_get l in
      case lx_current l of
        None \<Rightarrow> (- 1, l)
      | Some c \<Rightarrow>
          let n = of_char c :: int in
          if 0x30 \<le> n \<and> n \<le> 0x39 then get_codepoint_loop factors (codepoint + push_bit factor (n - 0x30)) l
          else if 0x41 \<le> n \<and> n \<le> 0x46 then get_codepoint_loop factors (codepoint + push_bit factor (n - 0x37)) l
          else if 0x61 \<le> n \<and> n \<le> 0x66 then get_codepoint_loop factors (codepoint + push_bit factor (n - 0x57)) l
          else (- 1, l))"

definition get_codepoint :: "lexer \<Rightarrow> int \<times> lexer" where
  "get_codepoint l = get_codepoint_loop [12, 8, 4, 0] 0 l"

fun byte_ranges_loop :: "(nat \<times> nat) list \<Rightarrow> lexer \<Rightarrow> bool \<times> lexer" where
  "byte_ranges_loop [] l = (True, l)"
| "byte_ranges_loop ((lo, hi) # ranges) l =
     (let l = lex_get l in
      case lx_current l of
        Some c \<Rightarrow>
          if lo \<le> of_char c \<and> of_char c \<le> hi then byte_ranges_loop ranges (lex_add c l)
          else (False, lex_error ''invalid string: ill-formed UTF-8 byte'' l)
      | None \<Rightarrow> (False, lex_error ''invalid string: ill-formed UTF-8 byte'' l))"

definition next_byte_in_range :: "char \<Rightarrow> (nat \<times> nat) list \<Rightarrow> lexer \<Rightarrow> bool \<times> lexer" where
  "next_byte_in_range c ranges l = byte_ranges_loop ranges (lex_add c l)"

text \<open>The bytes of a code point, as the four cases of the source write them.\<close>

definition codepoint_bytes :: "int \<Rightarrow> string" where
  "codepoint_bytes codepoint =
     map char_of
       (if codepoint < 0x80 then [codepoint]
        else if codepoint \<le> 0x7FF then [0xC0 OR drop_bit 6 codepoint, 0x80 OR (codepoint AND 0x3F)]
        else if codepoint \<le> 0xFFFF
        then [0xE0 OR drop_bit 12 codepoint, 0x80 OR (drop_bit 6 codepoint AND 0x3F), 0x80 OR (codepoint AND 0x3F)]
        else [0xF0 OR drop_bit 18 codepoint, 0x80 OR (drop_bit 12 codepoint AND 0x3F),
              0x80 OR (drop_bit 6 codepoint AND 0x3F), 0x80 OR (codepoint AND 0x3F)])"

definition hex_digits_message :: string where
  "hex_digits_message = ''invalid string: '' @ [CHR 0x27, backslash, CHR ''u'', CHR 0x27] @ '' must be followed by 4 hex digits''"

definition high_surrogate_message :: string where
  "high_surrogate_message = ''invalid string: surrogate U+D800..U+DBFF must be followed by U+DC00..U+DFFF''"

text \<open>The code point after \<open>\u\<close>, a surrogate pair read as one; \<open>None\<close> after an error.\<close>

definition read_codepoint :: "lexer \<Rightarrow> int option \<times> lexer" where
  "read_codepoint l =
     (case get_codepoint l of
        (codepoint1, l) \<Rightarrow>
          if codepoint1 = - 1 then (None, lex_error hex_digits_message l)
          else if 0xD800 \<le> codepoint1 \<and> codepoint1 \<le> 0xDBFF then
            let l = lex_get l in
            if lx_current l = Some backslash then
              let l = lex_get l in
              if lx_current l = Some (CHR ''u'') then
                (case get_codepoint l of
                   (codepoint2, l) \<Rightarrow>
                     if codepoint2 = - 1 then (None, lex_error hex_digits_message l)
                     else if 0xDC00 \<le> codepoint2 \<and> codepoint2 \<le> 0xDFFF
                     then (Some (push_bit 10 codepoint1 + codepoint2 - 0x35FDC00), l)
                     else (None, lex_error high_surrogate_message l))
              else (None, lex_error high_surrogate_message l)
            else (None, lex_error high_surrogate_message l)
          else if 0xDC00 \<le> codepoint1 \<and> codepoint1 \<le> 0xDFFF
          then (None, lex_error ''invalid string: surrogate U+DC00..U+DFFF must follow U+D800..U+DBFF'' l)
          else (Some codepoint1, l))"

definition scan_escape :: "lexer \<Rightarrow> bool \<times> lexer" where
  "scan_escape l =
     (let l = lex_get l in
      if lx_current l = Some quote then (True, lex_add quote l)
      else if lx_current l = Some backslash then (True, lex_add backslash l)
      else if lx_current l = Some (CHR ''/'') then (True, lex_add (CHR ''/'') l)
      else if lx_current l = Some (CHR ''b'') then (True, lex_add (CHR 0x08) l)
      else if lx_current l = Some (CHR ''f'') then (True, lex_add (CHR 0x0C) l)
      else if lx_current l = Some (CHR ''n'') then (True, lex_add (CHR 0x0A) l)
      else if lx_current l = Some (CHR ''r'') then (True, lex_add (CHR 0x0D) l)
      else if lx_current l = Some (CHR ''t'') then (True, lex_add (CHR 0x09) l)
      else if lx_current l = Some (CHR ''u'') then
        (case read_codepoint l of
           (Some codepoint, l) \<Rightarrow> (True, fold lex_add (codepoint_bytes codepoint) l)
         | (None, l) \<Rightarrow> (False, l))
      else (False, lex_error ''invalid string: forbidden character after backslash'' l))"

definition control_names :: "string list" where
  "control_names =
     [''NUL'', ''SOH'', ''STX'', ''ETX'', ''EOT'', ''ENQ'', ''ACK'', ''BEL'',
      ''BS'', ''HT'', ''LF'', ''VT'', ''FF'', ''CR'', ''SO'', ''SI'',
      ''DLE'', ''DC1'', ''DC2'', ''DC3'', ''DC4'', ''NAK'', ''SYN'', ''ETB'',
      ''CAN'', ''EM'', ''SUB'', ''ESC'', ''FS'', ''GS'', ''RS'', ''US'']"

definition control_message :: "nat \<Rightarrow> string" where
  "control_message n =
     ''invalid string: control character U+'' @ hex_upper 4 n @ '' ('' @ control_names ! n @ '') must be escaped to ''
     @ [backslash, CHR ''u''] @ hex_upper 4 n
     @ (if n = 0x08 then '' or '' @ [backslash, CHR ''b'']
        else if n = 0x09 then '' or '' @ [backslash, CHR ''t'']
        else if n = 0x0A then '' or '' @ [backslash, CHR ''n'']
        else if n = 0x0C then '' or '' @ [backslash, CHR ''f'']
        else if n = 0x0D then '' or '' @ [backslash, CHR ''r'']
        else [])"

text \<open>The cases for the bytes from 0x80: the ranges of the bytes that must follow, none for an ill-formed byte.\<close>

definition lead_ranges :: "nat \<Rightarrow> (nat \<times> nat) list option" where
  "lead_ranges n =
     (if 0xC2 \<le> n \<and> n \<le> 0xDF then Some [(0x80, 0xBF)]
      else if n = 0xE0 then Some [(0xA0, 0xBF), (0x80, 0xBF)]
      else if 0xE1 \<le> n \<and> n \<le> 0xEC \<or> n = 0xEE \<or> n = 0xEF then Some [(0x80, 0xBF), (0x80, 0xBF)]
      else if n = 0xED then Some [(0x80, 0x9F), (0x80, 0xBF)]
      else if n = 0xF0 then Some [(0x90, 0xBF), (0x80, 0xBF), (0x80, 0xBF)]
      else if 0xF1 \<le> n \<and> n \<le> 0xF3 then Some [(0x80, 0xBF), (0x80, 0xBF), (0x80, 0xBF)]
      else if n = 0xF4 then Some [(0x80, 0x8F), (0x80, 0xBF), (0x80, 0xBF)]
      else None)"

text \<open>The other characters of a string, after the current one.\<close>

definition scan_plain :: "char \<Rightarrow> lexer \<Rightarrow> bool \<times> lexer" where
  "scan_plain c l =
     (let n = of_char c in
      if n \<le> 0x1F then (False, lex_error (control_message n) l)
      else if n \<le> 0x7F then (True, lex_add c l)
      else
        case lead_ranges n of
          Some ranges \<Rightarrow> next_byte_in_range c ranges l
        | None \<Rightarrow> (False, lex_error ''invalid string: ill-formed UTF-8 byte'' l))"

lemma length_get_codepoint_loop:
  "length (remaining (snd (get_codepoint_loop factors cp l))) \<le> length (remaining l)"
  by (induction factors cp l rule: get_codepoint_loop.induct)
    (auto simp: Let_def length_remaining_get split: option.splits intro: order_trans [OF _ length_remaining_get])

lemma length_byte_ranges_loop:
  "length (remaining (snd (byte_ranges_loop ranges l))) \<le> length (remaining l)"
  by (induction ranges l rule: byte_ranges_loop.induct)
    (auto simp: Let_def length_remaining_get split: option.splits intro: order_trans [OF _ length_remaining_get])

lemma remaining_fold_add [simp]: "remaining (fold lex_add cs l) = remaining l"
  by (induction cs arbitrary: l) auto

lemma length_read_codepoint: "length (remaining (snd (read_codepoint l))) \<le> length (remaining l)"
proof -
  have 1: "length (remaining l') \<le> length (remaining l)" if "get_codepoint l = (cp, l')" for l l' cp
    using length_get_codepoint_loop [of "[12, 8, 4, 0]" 0 l] that by (simp add: get_codepoint_def)
  have 2: "length (remaining (lex_get (lex_get l'))) \<le> length (remaining l')" for l'
    using length_remaining_get order_trans by blast
  show ?thesis
    unfolding read_codepoint_def
    by (auto simp: Let_def split: prod.splits dest!: 1 intro: length_remaining_get order_trans [OF length_remaining_get] order_trans [OF 2] order_trans [OF _ order_trans [OF 2]])
qed

lemma length_scan_escape: "length (remaining (snd (scan_escape l))) \<le> length (remaining l)"
proof -
  have "length (remaining (snd (read_codepoint (lex_get l)))) \<le> length (remaining l)"
    using length_read_codepoint length_remaining_get order_trans by blast
  then show ?thesis
    by (auto simp: scan_escape_def Let_def length_remaining_get split: prod.splits option.splits)
qed

lemma length_scan_plain: "length (remaining (snd (scan_plain c l))) \<le> length (remaining l)"
  using length_byte_ranges_loop [of _ "lex_add c l"]
  by (auto simp: scan_plain_def Let_def next_byte_in_range_def split: option.splits)

lemma length_string_step:
  assumes "(if c = backslash then scan_escape l else scan_plain c l) = (ok, l')"
  shows "length (remaining l') \<le> length (remaining l)"
  using assms length_scan_escape [of l] length_scan_plain [of c l] by (auto split: if_splits)

function scan_string_loop :: "lexer \<Rightarrow> token_type \<times> lexer" where
  "scan_string_loop l =
     (let l = lex_get l in
      case lx_current l of
        None \<Rightarrow> (Parse_error, lex_error ''invalid string: missing closing quote'' l)
      | Some c \<Rightarrow>
          if c = quote then (Value_string, l)
          else
            case (if c = backslash then scan_escape l else scan_plain c l) of
              (True, l) \<Rightarrow> scan_string_loop l
            | (False, l) \<Rightarrow> (Parse_error, l))"
  by pat_completeness auto
termination
proof (relation "measure (\<lambda>l. length (remaining l))", goal_cases)
  case (2 l l1 c ok l2)
  then have "(if c = backslash then scan_escape (lex_get l) else scan_plain c (lex_get l)) = (True, l2)" by simp
  from length_string_step [OF this] have "length (remaining l2) \<le> length (remaining (lex_get l))" .
  moreover have "length (remaining (lex_get l)) < length (remaining l)"
    using 2 by (intro length_remaining_get_less) simp
  ultimately show ?case by simp
qed simp

declare scan_string_loop.simps [simp del]

definition scan_string :: "lexer \<Rightarrow> token_type \<times> lexer" where
  "scan_string l = scan_string_loop (lex_reset l)"

section \<open>Numbers\<close>

text \<open>The labels of \<^verbatim>\<open>scan_number\<close>; the token type carried along is its variable \<^verbatim>\<open>number_type\<close>.\<close>

datatype number_state = N_minus | N_zero | N_any1 | N_decimal1 | N_decimal2 | N_exponent | N_sign | N_any2

text \<open>Where a character leads: another state, the end of the number, or an error.\<close>

datatype number_step = Goto number_state | Number_done | Number_error string

definition decimal_digit :: "char option \<Rightarrow> bool" where
  "decimal_digit c \<longleftrightarrow> c \<in> Some ` set ''0123456789''"

fun number_next :: "number_state \<Rightarrow> char option \<Rightarrow> number_step" where
  "number_next N_minus c =
     (if c = Some (CHR ''0'') then Goto N_zero
      else if decimal_digit c then Goto N_any1
      else Number_error (''invalid number; expected digit after '' @ [CHR 0x27, CHR ''-'', CHR 0x27]))"
| "number_next N_zero c =
     (if c = Some (CHR ''.'') then Goto N_decimal1
      else if c = Some (CHR ''e'') \<or> c = Some (CHR ''E'') then Goto N_exponent
      else Number_done)"
| "number_next N_any1 c =
     (if decimal_digit c then Goto N_any1
      else if c = Some (CHR ''.'') then Goto N_decimal1
      else if c = Some (CHR ''e'') \<or> c = Some (CHR ''E'') then Goto N_exponent
      else Number_done)"
| "number_next N_decimal1 c =
     (if decimal_digit c then Goto N_decimal2
      else Number_error (''invalid number; expected digit after '' @ [CHR 0x27, CHR ''.'', CHR 0x27]))"
| "number_next N_decimal2 c =
     (if decimal_digit c then Goto N_decimal2
      else if c = Some (CHR ''e'') \<or> c = Some (CHR ''E'') then Goto N_exponent
      else Number_done)"
| "number_next N_exponent c =
     (if c = Some (CHR ''+'') \<or> c = Some (CHR ''-'') then Goto N_sign
      else if decimal_digit c then Goto N_any2
      else Number_error (''invalid number; expected '' @ [CHR 0x27, CHR ''+'', CHR 0x27] @ '', ''
        @ [CHR 0x27, CHR ''-'', CHR 0x27] @ '', or digit after exponent''))"
| "number_next N_sign c =
     (if decimal_digit c then Goto N_any2
      else Number_error ''invalid number; expected digit after exponent sign'')"
| "number_next N_any2 c = (if decimal_digit c then Goto N_any2 else Number_done)"

text \<open>What a label assigns to \<^verbatim>\<open>number_type\<close> when it is reached.\<close>

fun number_type_at :: "number_state \<Rightarrow> token_type \<Rightarrow> token_type" where
  "number_type_at N_minus number_type = Value_integer"
| "number_type_at N_decimal1 number_type = Value_float"
| "number_type_at N_exponent number_type = Value_float"
| "number_type_at _ number_type = number_type"

lemma number_next_eof: "number_next st None = Goto st' \<Longrightarrow> False"
  by (cases st) (auto simp: decimal_digit_def split: if_splits)

function scan_number_loop :: "number_state \<Rightarrow> token_type \<Rightarrow> lexer \<Rightarrow> token_type \<times> lexer" where
  "scan_number_loop st number_type l =
     (let number_type = number_type_at st number_type;
          l = lex_get l
      in case number_next st (lx_current l) of
           Goto st' \<Rightarrow> scan_number_loop st' number_type (lex_add (the (lx_current l)) l)
         | Number_done \<Rightarrow> (number_type, l)
         | Number_error message \<Rightarrow> (Parse_error, lex_error message l))"
  by pat_completeness auto
termination
proof (relation "measure (\<lambda>(_, _, l). length (remaining l))", goal_cases)
  case (2 st number_type l nt l1 st')
  then have "number_next st (lx_current (lex_get l)) = Goto st'" by simp
  then have "lx_current (lex_get l) \<noteq> None" by (cases "lx_current (lex_get l)") (auto dest: number_next_eof)
  from length_remaining_get_less [OF this] 2 show ?case by simp
qed simp

declare scan_number_loop.simps [simp del]

text \<open>\<^verbatim>\<open>std::strtoull\<close> and \<^verbatim>\<open>std::strtoll\<close> on the digits scanned, \<open>None\<close> for \<^verbatim>\<open>ERANGE\<close>.\<close>

definition strtoull :: "string \<Rightarrow> u64 option" where
  "strtoull s =
     (case text_value 10 s of
        Some n \<Rightarrow> if n < 2 ^ 64 then Some (of_nat n) else None
      | None \<Rightarrow> None)"

definition strtoll :: "string \<Rightarrow> i64 option" where
  "strtoll s =
     (case s of
        [] \<Rightarrow> None
      | c # cs \<Rightarrow>
          (case text_value 10 (if c = CHR ''-'' then cs else s) of
             Some n \<Rightarrow>
               if c = CHR ''-'' then (if n \<le> 2 ^ 63 then Some (- of_nat n) else None)
               else (if n < 2 ^ 63 then Some (of_nat n) else None)
           | None \<Rightarrow> None))"

definition scan_number_done :: "(string \<Rightarrow> string option) \<Rightarrow> token_type \<Rightarrow> lexer \<Rightarrow> token_type \<times> lexer" where
  "scan_number_done strtod number_type l0 =
     (let l = lex_unget l0;
          float = (Value_float, l\<lparr>lx_value_float := strtod (lx_token_buffer l)\<rparr>)
      in if number_type = Value_unsigned then
           (case strtoull (lx_token_buffer l) of
              Some x \<Rightarrow> (Value_unsigned, l\<lparr>lx_value_unsigned := x\<rparr>)
            | None \<Rightarrow> float)
         else if number_type = Value_integer then
           (case strtoll (lx_token_buffer l) of
              Some x \<Rightarrow> (Value_integer, l\<lparr>lx_value_integer := x\<rparr>)
            | None \<Rightarrow> float)
         else float)"

definition number_start :: "char \<Rightarrow> number_state" where
  "number_start c = (if c = CHR ''-'' then N_minus else if c = CHR ''0'' then N_zero else N_any1)"

definition scan_number :: "(string \<Rightarrow> string option) \<Rightarrow> char \<Rightarrow> lexer \<Rightarrow> token_type \<times> lexer" where
  "scan_number strtod c l =
     (case scan_number_loop (number_start c) Value_unsigned (lex_add c (lex_reset l)) of
        (number_type, l) \<Rightarrow>
          if number_type = Parse_error then (Parse_error, l) else scan_number_done strtod number_type l)"

section \<open>Literals, white space and tokens\<close>

fun scan_literal_loop :: "string \<Rightarrow> token_type \<Rightarrow> lexer \<Rightarrow> token_type \<times> lexer" where
  "scan_literal_loop [] return_type l = (return_type, l)"
| "scan_literal_loop (c # cs) return_type l =
     (let l = lex_get l in
      if lx_current l \<noteq> Some c then (Parse_error, lex_error ''invalid literal'' l)
      else scan_literal_loop cs return_type l)"

text \<open>The first character of the literal is the current one.\<close>

definition scan_literal :: "string \<Rightarrow> token_type \<Rightarrow> lexer \<Rightarrow> token_type \<times> lexer" where
  "scan_literal literal_text return_type l = scan_literal_loop (tl literal_text) return_type l"

definition skip_bom :: "lexer \<Rightarrow> bool \<times> lexer" where
  "skip_bom l =
     (let l = lex_get l in
      if lx_current l = Some (CHR 0xEF) then
        let l = lex_get l in
        if lx_current l = Some (CHR 0xBB) then let l = lex_get l in (lx_current l = Some (CHR 0xBF), l)
        else (False, l)
      else (True, lex_unget l))"

definition is_ws :: "char \<Rightarrow> bool" where
  "is_ws c \<longleftrightarrow> c = CHR '' '' \<or> c = CHR 0x09 \<or> c = CHR 0x0A \<or> c = CHR 0x0D"

function skip_whitespace :: "lexer \<Rightarrow> lexer" where
  "skip_whitespace l =
     (let l = lex_get l in
      case lx_current l of
        Some c \<Rightarrow> if is_ws c then skip_whitespace l else l
      | None \<Rightarrow> l)"
  by pat_completeness auto
termination
  by (relation "measure (\<lambda>l. length (remaining l))") (auto intro: length_remaining_get_less)

declare skip_whitespace.simps [simp del]

text \<open>The switch of \<^verbatim>\<open>scan\<close> on the first character of the token.\<close>

definition scan_token :: "(string \<Rightarrow> string option) \<Rightarrow> lexer \<Rightarrow> token_type \<times> lexer" where
  "scan_token strtod l =
     (case lx_current l of
        None \<Rightarrow> (End_of_input, l)
      | Some c \<Rightarrow>
          if c = CHR ''['' then (Begin_array, l)
          else if c = CHR '']'' then (End_array, l)
          else if c = CHR ''{'' then (Begin_object, l)
          else if c = CHR ''}'' then (End_object, l)
          else if c = CHR '':'' then (Name_separator, l)
          else if c = CHR '','' then (Value_separator, l)
          else if c = CHR ''t'' then scan_literal ''true'' Literal_true l
          else if c = CHR ''f'' then scan_literal ''false'' Literal_false l
          else if c = CHR ''n'' then scan_literal ''null'' Literal_null l
          else if c = quote then scan_string l
          else if c = CHR ''-'' \<or> decimal_digit (Some c) then scan_number strtod c l
          else if c = CHR 0x00 then (End_of_input, l)
          else (Parse_error, lex_error ''invalid literal'' l))"

definition lex_scan :: "(string \<Rightarrow> string option) \<Rightarrow> lexer \<Rightarrow> token_type \<times> lexer" where
  "lex_scan strtod l =
     (case (if chars_read_total (lx_position l) = 0 then skip_bom l else (True, l)) of
        (False, l) \<Rightarrow> (Parse_error, lex_error ''invalid BOM; must be 0xEF 0xBB 0xBF if given'' l)
      | (True, l) \<Rightarrow> scan_token strtod (skip_whitespace l))"

end
