(* ===== verification/Json_Grammar.thy ===== *)
theory Json_Grammar
  imports Json_Lexer
begin

text \<open>
  The JSON grammar of RFC 8259 as a relation between values and texts, independent of the lexer and the parser that are
  measured against it: white space, numbers, strings with their escapes and UTF-8 sequences, and the nesting of arrays
  and objects. The value of a number is the integer when it fits 64 bits and has neither fraction nor exponent, and
  what \<open>strtod\<close> gives otherwise.
\<close>

section \<open>Numbers\<close>

abbreviation all_dec :: "string \<Rightarrow> bool" where
  "all_dec \<equiv> list_all is_dec"

definition int_text :: "string \<Rightarrow> bool" where
  "int_text s \<longleftrightarrow> s = ''0'' \<or> s \<noteq> [] \<and> hd s \<noteq> CHR ''0'' \<and> all_dec s"

definition frac_text :: "string \<Rightarrow> bool" where
  "frac_text s \<longleftrightarrow> s = [] \<or> hd s = CHR ''.'' \<and> tl s \<noteq> [] \<and> all_dec (tl s)"

definition sign_text :: "string \<Rightarrow> bool" where
  "sign_text s \<longleftrightarrow> s = [] \<or> s = ''+'' \<or> s = ''-''"

definition exp_text :: "string \<Rightarrow> bool" where
  "exp_text s \<longleftrightarrow> s = [] \<or>
     (\<exists>e sg ds. s = e # sg @ ds \<and> (e = CHR ''e'' \<or> e = CHR ''E'') \<and> sign_text sg \<and> ds \<noteq> [] \<and> all_dec ds)"

definition number_text :: "string \<Rightarrow> bool" where
  "number_text s \<longleftrightarrow>
     (\<exists>m i f e. s = m @ i @ f @ e \<and> (m = [] \<or> m = ''-'') \<and> int_text i \<and> frac_text f \<and> exp_text e)"

definition float_mark :: "char \<Rightarrow> bool" where
  "float_mark c \<longleftrightarrow> c = CHR ''.'' \<or> c = CHR ''e'' \<or> c = CHR ''E''"

text \<open>The value of a number; \<open>None\<close> when it is beyond the range of the floating-point type.\<close>

definition number_value :: "(string \<Rightarrow> string option) \<Rightarrow> string \<Rightarrow> json_value option" where
  "number_value strtod s =
     (if list_ex float_mark s then map_option V_float (strtod s)
      else if prefix ''-'' s then
        (let n = the (text_value 10 (tl s)) in
         if n \<le> 2 ^ 63 then Some (V_integer (- of_nat n)) else map_option V_float (strtod s))
      else
        (let n = the (text_value 10 s) in
         if n < 2 ^ 64 then Some (V_unsigned (of_nat n)) else map_option V_float (strtod s)))"

section \<open>Strings\<close>

text \<open>RFC 3629: the bytes of a code point.\<close>

definition utf8_encode :: "nat \<Rightarrow> string" where
  "utf8_encode cp =
     map char_of
       (if cp < 0x80 then [cp]
        else if cp < 0x800 then [0xC0 + cp div 64, 0x80 + cp mod 64]
        else if cp < 0x10000 then [0xE0 + cp div 4096, 0x80 + cp div 64 mod 64, 0x80 + cp mod 64]
        else [0xF0 + cp div 262144, 0x80 + cp div 4096 mod 64, 0x80 + cp div 64 mod 64, 0x80 + cp mod 64])"

definition high_surrogate :: "nat \<Rightarrow> bool" where
  "high_surrogate cp \<longleftrightarrow> 0xD800 \<le> cp \<and> cp \<le> 0xDBFF"

definition low_surrogate :: "nat \<Rightarrow> bool" where
  "low_surrogate cp \<longleftrightarrow> 0xDC00 \<le> cp \<and> cp \<le> 0xDFFF"

definition hex4 :: "string \<Rightarrow> nat \<Rightarrow> bool" where
  "hex4 hs cp \<longleftrightarrow> length hs = 4 \<and> text_value 16 hs = Some cp"

text \<open>The text between the quotes and the bytes it stands for.\<close>

inductive string_text :: "string \<Rightarrow> string \<Rightarrow> bool" where
  string_end: "string_text [] []"
| string_short: "short_escape e = Some d \<Longrightarrow> string_text t s \<Longrightarrow> string_text (backslash # e # t) (d # s)"
| string_unicode:
    "hex4 hs cp \<Longrightarrow> \<not> high_surrogate cp \<Longrightarrow> \<not> low_surrogate cp \<Longrightarrow> string_text t s \<Longrightarrow>
     string_text (backslash # CHR ''u'' # hs @ t) (utf8_encode cp @ s)"
| string_pair:
    "hex4 hs hi \<Longrightarrow> high_surrogate hi \<Longrightarrow> hex4 hs' lo \<Longrightarrow> low_surrogate lo \<Longrightarrow> string_text t s \<Longrightarrow>
     string_text (backslash # CHR ''u'' # hs @ backslash # CHR ''u'' # hs' @ t)
       (utf8_encode (0x10000 + (hi - 0xD800) * 0x400 + (lo - 0xDC00)) @ s)"
| string_plain:
    "0x20 \<le> (of_char c :: nat) \<Longrightarrow> c \<noteq> quote \<Longrightarrow> c \<noteq> backslash \<Longrightarrow> sequence_ranges (of_char c) = Some rs \<Longrightarrow>
     list_all2 in_range rs cs \<Longrightarrow> string_text t s \<Longrightarrow> string_text (c # cs @ t) (c # cs @ s)"

section \<open>Values\<close>

abbreviation ws_text :: "string \<Rightarrow> bool" where
  "ws_text \<equiv> list_all is_ws"

inductive scalar_text :: "(string \<Rightarrow> string option) \<Rightarrow> json_value \<Rightarrow> string \<Rightarrow> bool"
  for strtod :: "string \<Rightarrow> string option" where
  scalar_null: "scalar_text strtod V_null ''null''"
| scalar_true: "scalar_text strtod (V_boolean True) ''true''"
| scalar_false: "scalar_text strtod (V_boolean False) ''false''"
| scalar_number: "number_text s \<Longrightarrow> number_value strtod s = Some v \<Longrightarrow> scalar_text strtod v s"
| scalar_string: "string_text t s \<Longrightarrow> scalar_text strtod (V_string s) (quote # t @ [quote])"

text \<open>An object keeps the last of several members with the same name, and is ordered by name.\<close>

inductive value_text :: "(string \<Rightarrow> string option) \<Rightarrow> json_value \<Rightarrow> string \<Rightarrow> bool"
  and elements_text :: "(string \<Rightarrow> string option) \<Rightarrow> json_value list \<Rightarrow> string \<Rightarrow> bool"
  and members_text :: "(string \<Rightarrow> string option) \<Rightarrow> (string \<times> json_value) list \<Rightarrow> string \<Rightarrow> bool"
  for strtod :: "string \<Rightarrow> string option" where
  value_scalar: "scalar_text strtod v s \<Longrightarrow> value_text strtod v s"
| value_array_empty: "ws_text w \<Longrightarrow> value_text strtod (V_array []) (CHR ''['' # w @ '']'')"
| value_array: "elements_text strtod vs b \<Longrightarrow> value_text strtod (V_array vs) (CHR ''['' # b @ '']'')"
| value_object_empty: "ws_text w \<Longrightarrow> value_text strtod (V_object []) (CHR ''{'' # w @ ''}'')"
| value_object: "members_text strtod fs b \<Longrightarrow> value_text strtod (json_object fs) (CHR ''{'' # b @ ''}'')"
| elements_one: "ws_text w \<Longrightarrow> value_text strtod v s \<Longrightarrow> ws_text w' \<Longrightarrow> elements_text strtod [v] (w @ s @ w')"
| elements_more:
    "ws_text w \<Longrightarrow> value_text strtod v s \<Longrightarrow> ws_text w' \<Longrightarrow> elements_text strtod vs b \<Longrightarrow>
     elements_text strtod (v # vs) (w @ s @ w' @ CHR '','' # b)"
| members_one:
    "ws_text w0 \<Longrightarrow> string_text t k \<Longrightarrow> ws_text w1 \<Longrightarrow> ws_text w \<Longrightarrow> value_text strtod v s \<Longrightarrow> ws_text w' \<Longrightarrow>
     members_text strtod [(k, v)] (w0 @ quote # t @ quote # w1 @ CHR '':'' # w @ s @ w')"
| members_more:
    "ws_text w0 \<Longrightarrow> string_text t k \<Longrightarrow> ws_text w1 \<Longrightarrow> ws_text w \<Longrightarrow> value_text strtod v s \<Longrightarrow> ws_text w' \<Longrightarrow>
     members_text strtod fs b \<Longrightarrow>
     members_text strtod ((k, v) # fs) (w0 @ quote # t @ quote # w1 @ CHR '':'' # w @ s @ w' @ CHR '','' # b)"

text \<open>
  A document: a byte order mark may come first, and the text ends at the end of the input or at the first null byte
  after the value.
\<close>

definition bom :: string where
  "bom = [CHR 0xEF, CHR 0xBB, CHR 0xBF]"

definition document_text :: "(string \<Rightarrow> string option) \<Rightarrow> json_value \<Rightarrow> string \<Rightarrow> bool" where
  "document_text strtod v text \<longleftrightarrow>
     (\<exists>m w s w' r. text = m @ w @ s @ w' @ r \<and> (m = [] \<or> m = bom) \<and> ws_text w \<and> value_text strtod v s \<and> ws_text w'
        \<and> (r = [] \<or> hd r = CHR 0x00))"

section \<open>Reading input\<close>

text \<open>\<open>cs\<close> is what the lexer delivers next; with \<open>reads\<close> it has delivered something before.\<close>

definition begins :: "lexer \<Rightarrow> string \<Rightarrow> bool" where
  "begins l cs \<longleftrightarrow> remaining l = cs \<and> (lx_next_unget l \<and> lx_current l = None \<longrightarrow> lx_input l = [])"

definition reads :: "lexer \<Rightarrow> string \<Rightarrow> bool" where
  "reads l cs \<longleftrightarrow> begins l cs \<and> 0 < chars_read_total (lx_position l)"

lemma reads_begins: "reads l cs \<Longrightarrow> begins l cs"
  by (simp add: reads_def)

lemma reads_simps [simp]:
  "reads (lex_add c l) cs = reads l cs"
  "reads (lex_error m l) cs = reads l cs"
  "reads (lex_reset l) cs = reads l cs"
  "reads (l\<lparr>lx_value_integer := i\<rparr>) cs = reads l cs"
  "reads (l\<lparr>lx_value_unsigned := u\<rparr>) cs = reads l cs"
  "reads (l\<lparr>lx_value_float := f\<rparr>) cs = reads l cs"
  by (simp_all add: reads_def begins_def remaining_def lex_add_def lex_error_def lex_reset_def)

lemma buffer_simps [simp]:
  "lx_token_buffer (lex_get l) = lx_token_buffer l"
  "lx_token_buffer (lex_unget l) = lx_token_buffer l"
  "lx_token_buffer (lex_add c l) = lx_token_buffer l @ [c]"
  "lx_token_buffer (lex_error m l) = lx_token_buffer l"
  "lx_token_buffer (lex_reset l) = []"
  by (simp_all add: lex_get_def lex_unget_def lex_add_def lex_error_def lex_reset_def Let_def next_current_def count_char_def
      split: option.splits prod.splits)

lemma current_simps [simp]:
  "lx_current (lex_add c l) = lx_current l"
  "lx_current (lex_reset l) = lx_current l"
  by (simp_all add: lex_add_def lex_reset_def)

lemma get_effect:
  "(\<exists>c cs. remaining l = c # cs \<and> lx_current (lex_get l) = Some c \<and> remaining (lex_get l) = cs)
   \<or> remaining l = [] \<and> lx_current (lex_get l) = None \<and> remaining (lex_get l) = []"
  if "lx_next_unget l \<and> lx_current l = None \<longrightarrow> lx_input l = []"
  using that by (cases "lx_input l")
    (auto simp: remaining_def lex_get_def Let_def next_current_def count_char_def split: option.splits)

lemma total_get: "chars_read_total (lx_position (lex_get l)) = Suc (chars_read_total (lx_position l))"
  by (simp add: lex_get_def Let_def next_current_def count_char_def split: option.splits prod.splits)

lemma begins_get_Cons:
  assumes "begins l (c # cs)"
  shows "reads (lex_get l) cs" "lx_current (lex_get l) = Some c"
  using assms get_effect [of l] by (auto simp: reads_def begins_def total_get)

lemma begins_get_Nil:
  assumes "begins l []"
  shows "reads (lex_get l) []" "lx_current (lex_get l) = None"
  using assms get_effect [of l] by (auto simp: reads_def begins_def total_get)

lemmas reads_get_Cons = begins_get_Cons [OF reads_begins]
lemmas reads_get_Nil = begins_get_Nil [OF reads_begins]

lemma reads_get_cases:
  assumes "reads l cs"
  obtains (eof) "cs = []" "reads (lex_get l) []" "lx_current (lex_get l) = None"
    | (char) c r where "cs = c # r" "reads (lex_get l) r" "lx_current (lex_get l) = Some c"
  using assms reads_get_Nil reads_get_Cons by (cases cs) auto

lemma begins_unget_get: "begins l cs \<Longrightarrow> begins (lex_unget (lex_get l)) cs"
  by (cases "lx_input l")
    (auto simp: begins_def lex_unget_def lex_get_def Let_def next_current_def count_char_def remaining_def split: option.splits)

lemma reads_unget_get: "reads l cs \<Longrightarrow> reads (lex_unget (lex_get l)) cs"
  using begins_unget_get [of l cs] total_get [of l] by (auto simp: reads_def lex_unget_def Let_def)

lemma reads_fold_add [simp]: "reads (fold lex_add s l) cs = reads l cs"
  by (induction s arbitrary: l) auto

lemma buffer_fold_add [simp]: "lx_token_buffer (fold lex_add s l) = lx_token_buffer l @ s"
  by (induction s arbitrary: l) auto

end
