(* ===== verification/Json_Tokens.thy ===== *)
theory Json_Tokens
  imports Json_Grammar
begin

text \<open>
  The lexer reads exactly the tokens of the grammar: the state machine of \<^verbatim>\<open>scan_number\<close> accepts the numbers of
  RFC 8259, \<^verbatim>\<open>scan_string\<close> the strings with valid escapes and UTF-8, and \<^verbatim>\<open>scan\<close> the next token with its value.
\<close>

section \<open>Numbers\<close>

text \<open>The state machine on texts: the state it is in accepts what it may still read.\<close>

fun accepts :: "number_state \<Rightarrow> string \<Rightarrow> bool" where
  "accepts st [] = (number_next st None = Number_done)"
| "accepts st (c # cs) = (case number_next st (Some c) of Goto st' \<Rightarrow> accepts st' cs | _ \<Rightarrow> False)"

lemma decimal_digit_Some: "decimal_digit (Some c) \<longleftrightarrow> is_dec c"
proof -
  have "{48..57::nat} = set [48..<58]" unfolding set_upt by auto
  also have "\<dots> = of_char ` set ''0123456789''" by simp
  finally have "(of_char c :: nat) \<in> {48..57} \<longleftrightarrow> (of_char c :: nat) \<in> of_char ` set ''0123456789''" by (rule arg_cong)
  then have "is_dec c \<longleftrightarrow> (of_char c :: nat) \<in> of_char ` set ''0123456789''" unfolding is_dec_def atLeastAtMost_iff .
  also have "\<dots> \<longleftrightarrow> c \<in> set ''0123456789''" by (rule inj_image_mem_iff) (auto intro: injI)
  finally show ?thesis unfolding decimal_digit_def by (simp only: inj_image_mem_iff [OF inj_Some])
qed

lemma decimal_digit_None [simp]: "\<not> decimal_digit None"
  by (auto simp: decimal_digit_def)

lemma is_dec_chars [simp]:
  "is_dec (CHR ''0'')" "\<not> is_dec (CHR ''.'')" "\<not> is_dec (CHR ''e'')" "\<not> is_dec (CHR ''E'')" "\<not> is_dec (CHR ''+'')"
  "\<not> is_dec (CHR ''-'')"
  by (simp_all add: is_dec_def)

text \<open>A text in two parts.\<close>

definition splits :: "(string \<Rightarrow> bool) \<Rightarrow> (string \<Rightarrow> bool) \<Rightarrow> string \<Rightarrow> bool" where
  "splits P Q s \<longleftrightarrow> (\<exists>a b. s = a @ b \<and> P a \<and> Q b)"

lemma splits_Nil [simp]: "splits P Q [] \<longleftrightarrow> P [] \<and> Q []"
  by (auto simp: splits_def)

lemma splits_Cons: "splits P Q (c # cs) \<longleftrightarrow> P [] \<and> Q (c # cs) \<or> splits (\<lambda>a. P (c # a)) Q cs"
  by (auto simp: splits_def Cons_eq_append_conv)

lemma splits_conj [simp]: "splits (\<lambda>a. b \<and> P a) Q s \<longleftrightarrow> b \<and> splits P Q s"
  by (auto simp: splits_def)

lemma splits_empty: "splits (\<lambda>a. a = []) Q s \<longleftrightarrow> Q s" "splits (\<lambda>a. False) Q s \<longleftrightarrow> False"
  by (auto simp: splits_def)

lemma accepts_any2: "accepts N_any2 s \<longleftrightarrow> all_dec s"
  by (induction s) (auto simp: decimal_digit_Some)

lemma accepts_sign: "accepts N_sign s \<longleftrightarrow> s \<noteq> [] \<and> all_dec s"
  by (cases s) (auto simp: decimal_digit_Some accepts_any2)

lemma accepts_exponent: "accepts N_exponent s \<longleftrightarrow> splits sign_text (\<lambda>ds. ds \<noteq> [] \<and> all_dec ds) s"
  by (cases s) (auto simp: decimal_digit_Some accepts_sign accepts_any2 sign_text_def splits_Cons splits_empty)

lemma exp_text_Cons: "exp_text (c # cs) \<longleftrightarrow> (c = CHR ''e'' \<or> c = CHR ''E'') \<and> accepts N_exponent cs"
  by (auto simp: exp_text_def accepts_exponent splits_def)

lemma exp_text_Nil [simp]: "exp_text []"
  by (simp add: exp_text_def)

lemma accepts_decimal2: "accepts N_decimal2 s \<longleftrightarrow> splits all_dec exp_text s"
  by (induction s) (auto simp: decimal_digit_Some splits_Cons exp_text_Cons)

lemma accepts_decimal1: "accepts N_decimal1 s \<longleftrightarrow> splits (\<lambda>f. f \<noteq> [] \<and> all_dec f) exp_text s"
  by (cases s) (auto simp: decimal_digit_Some splits_Cons accepts_decimal2)

lemma frac_text_Cons [simp]: "frac_text (c # cs) \<longleftrightarrow> c = CHR ''.'' \<and> cs \<noteq> [] \<and> all_dec cs"
  by (simp add: frac_text_def)

lemma frac_text_Nil [simp]: "frac_text []"
  by (simp add: frac_text_def)

lemma accepts_zero: "accepts N_zero s \<longleftrightarrow> splits frac_text exp_text s"
  by (cases s) (auto simp: splits_Cons accepts_decimal1 exp_text_Cons)

lemma accepts_any1: "accepts N_any1 s \<longleftrightarrow> splits all_dec (splits frac_text exp_text) s"
  by (induction s) (auto simp: decimal_digit_Some splits_Cons accepts_decimal1 exp_text_Cons)

lemma int_text_Cons: "int_text (c # cs) \<longleftrightarrow> (if c = CHR ''0'' then cs = [] else is_dec c \<and> all_dec cs)"
  by (auto simp: int_text_def)

lemma accepts_start:
  assumes "is_dec c"
  shows "accepts (number_start c) s \<longleftrightarrow> splits int_text (splits frac_text exp_text) (c # s)"
proof -
  have "c \<noteq> CHR ''-''" and "\<not> int_text []" using assms by (auto simp: int_text_def)
  with assms show ?thesis
    by (simp add: number_start_def splits_Cons int_text_Cons accepts_zero accepts_any1 splits_empty)
qed

lemma accepts_minus: "accepts N_minus s \<longleftrightarrow> splits int_text (splits frac_text exp_text) s"
proof (cases s)
  case (Cons c cs)
  show ?thesis
  proof (cases "is_dec c")
    case True
    then have "c \<noteq> CHR ''-''" by auto
    with True Cons accepts_start [of c cs] show ?thesis by (cases "c = CHR ''0''") (simp_all add: decimal_digit_Some number_start_def)
  next
    case False
    then have "c \<noteq> CHR ''0''" by auto
    with False Cons show ?thesis
      by (simp add: decimal_digit_Some splits_Cons int_text_Cons splits_empty int_text_def [of "[]"])
  qed
qed (simp add: int_text_def)

text \<open>The machine started by the first character of a number accepts the rest exactly if the whole is a number.\<close>

lemma number_text_iff:
  "number_text s \<longleftrightarrow> (\<exists>c cs. s = c # cs \<and> (c = CHR ''-'' \<or> is_dec c) \<and> accepts (number_start c) cs)"
proof -
  have "number_text s \<longleftrightarrow> splits (\<lambda>m. m = [] \<or> m = ''-'') (splits int_text (splits frac_text exp_text)) s"
    unfolding number_text_def splits_def by metis
  also have "\<dots> \<longleftrightarrow> (\<exists>c cs. s = c # cs \<and> (c = CHR ''-'' \<or> is_dec c) \<and> accepts (number_start c) cs)"
  proof (cases s)
    case (Cons c cs)
    have minus: "number_start (CHR ''-'') = N_minus" by (simp add: number_start_def)
    show ?thesis
    proof (cases "is_dec c")
      case True
      then have "c \<noteq> CHR ''-''" by auto
      with True Cons show ?thesis by (simp add: splits_Cons [of "\<lambda>m. m = [] \<or> m = ''-''"] splits_empty accepts_start)
    next
      case False
      then have "c \<noteq> CHR ''0''" by auto
      with False have "\<not> splits int_text (splits frac_text exp_text) (c # cs)"
        by (simp add: splits_Cons int_text_Cons splits_empty int_text_def [of "[]"])
      with False Cons show ?thesis
        by (auto simp: splits_Cons [of "\<lambda>m. m = [] \<or> m = ''-''"] splits_empty minus accepts_minus)
    qed
  qed (auto simp: int_text_def)
  finally show ?thesis .
qed

text \<open>The loop on a text: the type, the characters of the number and what follows them.\<close>

fun number_scan :: "number_state \<Rightarrow> token_type \<Rightarrow> string \<Rightarrow> (token_type \<times> string \<times> string) option" where
  "number_scan st number_type [] =
     (if number_next st None = Number_done then Some (number_type_at st number_type, [], []) else None)"
| "number_scan st number_type (c # cs) =
     (case number_next st (Some c) of
        Goto st' \<Rightarrow> map_option (\<lambda>(t, ds, r). (t, c # ds, r)) (number_scan st' (number_type_at st number_type) cs)
      | Number_done \<Rightarrow> Some (number_type_at st number_type, [], c # cs)
      | Number_error _ \<Rightarrow> None)"

lemma scan_number_loop_reads:
  assumes "reads l cs"
  shows "case number_scan st number_type cs of
      None \<Rightarrow> fst (scan_number_loop st number_type l) = Parse_error
    | Some (t, ds, r) \<Rightarrow> \<exists>l'. scan_number_loop st number_type l = (t, l') \<and> reads (lex_unget l') r
        \<and> lx_token_buffer l' = lx_token_buffer l @ ds"
  using assms
proof (induction cs arbitrary: st number_type l)
  case Nil
  then show ?case
    using number_next_eof [of st] reads_unget_get [OF Nil]
    by (subst (1 2) scan_number_loop.simps) (auto simp: Let_def reads_get_Nil split: number_step.splits)
next
  case (Cons c cs)
  note g = reads_get_Cons [OF Cons.prems]
  show ?case
  proof (cases "number_next st (Some c)")
    case (Goto st')
    have "scan_number_loop st number_type l
        = scan_number_loop st' (number_type_at st number_type) (lex_add c (lex_get l))"
      by (subst scan_number_loop.simps) (simp add: Let_def g Goto)
    then show ?thesis
      using Cons.IH [of "lex_add c (lex_get l)" st' "number_type_at st number_type"] g Goto by (auto split: option.splits)
  next
    case Number_done
    then show ?thesis
      using reads_unget_get [OF Cons.prems] g by (subst scan_number_loop.simps) (simp add: Let_def)
  next
    case (Number_error m)
    then show ?thesis using g by (subst scan_number_loop.simps) (simp add: Let_def)
  qed
qed

definition continues_number :: "char \<Rightarrow> bool" where
  "continues_number c \<longleftrightarrow> is_dec c \<or> float_mark c"

lemma number_next_done:
  "number_next st (Some c) = Number_done \<Longrightarrow> number_next st None = Number_done"
  "number_next st None = Number_done \<Longrightarrow> \<not> continues_number c \<Longrightarrow> number_next st (Some c) = Number_done"
  by (cases st; auto simp: continues_number_def float_mark_def decimal_digit_Some split: if_splits)+

lemma number_scan_sound:
  "number_scan st number_type cs = Some (t, ds, r) \<Longrightarrow> cs = ds @ r \<and> accepts st ds"
  by (induction cs arbitrary: st number_type t ds r)
    (auto simp: number_next_done(1) split: number_step.splits if_splits)

lemma number_scan_complete:
  assumes "accepts st ds" and "r = [] \<or> \<not> continues_number (hd r)"
  shows "\<exists>t. number_scan st number_type (ds @ r) = Some (t, ds, r)"
  using assms
proof (induction ds arbitrary: st number_type)
  case Nil
  then show ?case by (cases r) (simp_all add: number_next_done(2))
next
  case (Cons d ds)
  then show ?case by (auto split: number_step.splits)
qed

lemma number_scan_type:
  assumes "number_scan st number_type cs = Some (t, ds, r)"
  shows "t = (if st = N_decimal1 \<or> st = N_exponent \<or> list_ex float_mark ds then Value_float
              else if st = N_minus then Value_integer else number_type)"
  using assms
proof (induction cs arbitrary: st number_type ds)
  case Nil
  then show ?case by (cases st) (auto split: if_splits)
next
  case (Cons c cs)
  have digit: "\<not> float_mark c" if "is_dec c" using that by (auto simp: float_mark_def)
  show ?case
  proof (cases "number_next st (Some c)")
    case (Goto st')
    then obtain ds' where "number_scan st' (number_type_at st number_type) cs = Some (t, ds', r)" "ds = c # ds'"
      using Cons.prems by (auto split: option.splits)
    from Cons.IH [OF this(1)] this(2) Goto show ?thesis
      by (cases st) (auto simp: decimal_digit_Some float_mark_def dest: digit split: if_splits)
  next
    case Number_done
    then show ?thesis using Cons.prems by (cases st) (auto split: if_splits)
  next
    case (Number_error m)
    then show ?thesis using Cons.prems by simp
  qed
qed

text \<open>The value a token carries.\<close>

fun token_scalar :: "token_type \<Rightarrow> lexer \<Rightarrow> json_value option" where
  "token_scalar Literal_true l = Some (V_boolean True)"
| "token_scalar Literal_false l = Some (V_boolean False)"
| "token_scalar Literal_null l = Some V_null"
| "token_scalar Value_string l = Some (V_string (lx_token_buffer l))"
| "token_scalar Value_unsigned l = Some (V_unsigned (lx_value_unsigned l))"
| "token_scalar Value_integer l = Some (V_integer (lx_value_integer l))"
| "token_scalar Value_float l = map_option V_float (lx_value_float l)"
| "token_scalar _ l = None"

lemma all_dec_value: "all_dec s \<Longrightarrow> \<exists>n. text_value 10 s = Some n"
  by (auto simp: text_value_def text_digits_def list_all_iff digit_val_def is_dec_def Let_def)

lemma accepts_integer:
  "accepts st ds \<Longrightarrow> st \<in> {N_zero, N_any1, N_minus} \<Longrightarrow> \<not> list_ex float_mark ds \<Longrightarrow> all_dec ds"
proof (induction ds arbitrary: st)
  case (Cons c cs)
  then show ?case
    by (auto simp: float_mark_def decimal_digit_Some split: number_step.splits if_splits)
qed simp

lemma number_start_cases: "number_start c \<in> {N_zero, N_any1, N_minus}" "number_start c = N_minus \<longleftrightarrow> c = CHR ''-''"
  by (simp_all add: number_start_def)

lemma scan_number_reads:
  assumes "reads l cs" and c: "c = CHR ''-'' \<or> is_dec c"
  shows "case number_scan (number_start c) Value_unsigned cs of
      None \<Rightarrow> fst (scan_number strtod c l) = Parse_error
    | Some (t, ds, r) \<Rightarrow> \<exists>t' l'. scan_number strtod c l = (t', l') \<and> reads l' r \<and> t' \<in> {Value_unsigned, Value_integer, Value_float}
        \<and> token_scalar t' l' = number_value strtod (c # ds)"
proof (cases "number_scan (number_start c) Value_unsigned cs")
  case None
  then have "fst (scan_number_loop (number_start c) Value_unsigned (lex_add c (lex_reset l))) = Parse_error"
    using scan_number_loop_reads [of "lex_add c (lex_reset l)" cs "number_start c" Value_unsigned] assms(1) by simp
  with None show ?thesis by (auto simp: scan_number_def split: prod.splits)
next
  case (Some res)
  then obtain t ds r where res: "number_scan (number_start c) Value_unsigned cs = Some (t, ds, r)" by (cases res) auto
  obtain l1 where loop: "scan_number_loop (number_start c) Value_unsigned (lex_add c (lex_reset l)) = (t, l1)"
      and r: "reads (lex_unget l1) r" and buf: "lx_token_buffer l1 = c # ds"
    using scan_number_loop_reads [of "lex_add c (lex_reset l)" cs "number_start c" Value_unsigned] assms(1) res by auto
  have t: "t = (if list_ex float_mark ds then Value_float else if c = CHR ''-'' then Value_integer else Value_unsigned)"
    using number_scan_type [OF res] number_start_cases [of c] by auto
  have "\<not> float_mark c" using c by (auto simp: float_mark_def)
  have ints: "all_dec ds" if "\<not> list_ex float_mark ds"
    using number_scan_sound [OF res] accepts_integer [OF _ number_start_cases(1) that] by blast
  have "\<exists>t' l'. scan_number_done strtod t l1 = (t', l') \<and> reads l' r \<and> t' \<in> {Value_unsigned, Value_integer, Value_float}
      \<and> token_scalar t' l' = number_value strtod (c # ds)"
  proof (cases "list_ex float_mark ds")
    case True
    then show ?thesis using r by (simp add: t scan_number_done_def Let_def buf number_value_def)
  next
    case False
    note dec = ints [OF False]
    show ?thesis
    proof (cases "c = CHR ''-''")
      case True
      obtain n where "text_value 10 ds = Some n" using all_dec_value [OF dec] by blast
      with False True r \<open>\<not> float_mark c\<close> show ?thesis
        by (simp add: t scan_number_done_def Let_def buf number_value_def strtoll_def)
    next
      case nonneg: False
      then have "all_dec (c # ds)" using c dec by simp
      then obtain n where "text_value 10 (c # ds) = Some n" using all_dec_value by blast
      with False nonneg r \<open>\<not> float_mark c\<close> show ?thesis
        by (simp add: t scan_number_done_def Let_def buf number_value_def strtoull_def)
    qed
  qed
  moreover have "t \<noteq> Parse_error" by (simp add: t)
  ultimately show ?thesis by (simp add: res scan_number_def loop)
qed

section \<open>Strings\<close>

lemma byte_ranges_sound:
  assumes "byte_ranges_loop rs l = (True, l')" and "reads l cs"
  shows "\<exists>bs r. cs = bs @ r \<and> list_all2 in_range rs bs \<and> reads l' r \<and> lx_token_buffer l' = lx_token_buffer l @ bs"
  using assms
proof (induction rs l arbitrary: cs rule: byte_ranges_loop.induct)
  case (2 lo hi rs l)
  from "2.prems"(2) show ?case
  proof (cases rule: reads_get_cases)
    case (char c r)
    then have c: "lo \<le> of_char c \<and> of_char c \<le> hi" and rest: "byte_ranges_loop rs (lex_add c (lex_get l)) = (True, l')"
      using "2.prems"(1) by (auto simp: Let_def split: if_splits)
    then obtain bs r' where "r = bs @ r'" "list_all2 in_range rs bs" "reads l' r'"
        "lx_token_buffer l' = lx_token_buffer l @ c # bs"
      using "2.IH" [OF refl char(3) c rest, of r] char(2) by auto
    with char c have "cs = (c # bs) @ r'" "list_all2 in_range ((lo, hi) # rs) (c # bs)" by (simp_all add: in_range_def)
    with \<open>reads l' r'\<close> \<open>lx_token_buffer l' = lx_token_buffer l @ c # bs\<close> show ?thesis by blast
  qed (use "2.prems"(1) in \<open>simp add: Let_def\<close>)
qed auto

lemma byte_ranges_complete:
  assumes "list_all2 in_range rs bs" and "reads l (bs @ r)"
  shows "\<exists>l'. byte_ranges_loop rs l = (True, l') \<and> reads l' r \<and> lx_token_buffer l' = lx_token_buffer l @ bs"
  using assms
proof (induction rs bs arbitrary: l rule: list_all2_induct)
  case (Cons range rs b bs)
  obtain lo hi where "range = (lo, hi)" by (cases range)
  moreover have "reads (lex_add b (lex_get l)) (bs @ r)" "lx_current (lex_get l) = Some b"
    using reads_get_Cons [of l b "bs @ r"] Cons.prems by simp_all
  ultimately show ?case using Cons.IH [of "lex_add b (lex_get l)"] Cons.hyps(1) by (auto simp: in_range_def)
qed simp

lemma lead_ranges_sequence: "0x80 \<le> n \<Longrightarrow> lead_ranges n = sequence_ranges n"
  by (auto simp: lead_ranges_def sequence_ranges_def)

lemma scan_plain_sound:
  assumes "scan_plain c l = (True, l')" and "reads l cs"
  shows "\<exists>rs bs r. 0x20 \<le> (of_char c :: nat) \<and> sequence_ranges (of_char c) = Some rs \<and> list_all2 in_range rs bs
     \<and> cs = bs @ r \<and> reads l' r \<and> lx_token_buffer l' = lx_token_buffer l @ c # bs"
proof (cases "(of_char c :: nat) < 0x80")
  case True
  then have "0x20 \<le> (of_char c :: nat) \<and> l' = lex_add c l" using assms(1) by (simp add: scan_plain_def Let_def split: if_splits)
  with True assms(2) show ?thesis by (auto simp: sequence_ranges_def)
next
  case False
  then obtain rs where rs: "sequence_ranges (of_char c) = Some rs" "byte_ranges_loop rs (lex_add c l) = (True, l')"
    using assms(1) by (auto simp: scan_plain_def Let_def lead_ranges_sequence next_byte_in_range_def split: option.splits)
  have "reads (lex_add c l) cs" using assms(2) by simp
  from byte_ranges_sound [OF rs(2) this] rs(1) False show ?thesis by auto
qed

lemma scan_plain_complete:
  assumes "0x20 \<le> (of_char c :: nat)" "sequence_ranges (of_char c) = Some rs" "list_all2 in_range rs bs" "reads l (bs @ r)"
  shows "\<exists>l'. scan_plain c l = (True, l') \<and> reads l' r \<and> lx_token_buffer l' = lx_token_buffer l @ c # bs"
proof (cases "(of_char c :: nat) < 0x80")
  case True
  then have "rs = []" using assms(2) by (simp add: sequence_ranges_def)
  with True assms show ?thesis by (simp add: scan_plain_def Let_def)
next
  case False
  then show ?thesis
    using byte_ranges_complete [OF assms(3), of "lex_add c l" r] assms
    by (auto simp: scan_plain_def Let_def lead_ranges_sequence next_byte_in_range_def)
qed

text \<open>The four hexadecimal digits.\<close>

lemma get_codepoint_step:
  assumes "lx_current (lex_get l) = Some c"
  shows "get_codepoint_loop (f # fs) cp l =
     (case digit_val c of
        Some d \<Rightarrow> get_codepoint_loop fs (cp + push_bit f (int d)) (lex_get l)
      | None \<Rightarrow> (- 1, lex_get l))"
proof -
  have "(of_char c :: int) = int (of_char c)" by (simp add: of_nat_of_char)
  then show ?thesis using assms by (auto simp: digit_val_def Let_def of_nat_diff)
qed

lemma get_codepoint_complete:
  assumes "hex4 hs cp" and "reads l (hs @ r)"
  shows "\<exists>l'. get_codepoint l = (int cp, l') \<and> reads l' r \<and> lx_token_buffer l' = lx_token_buffer l"
proof -
  obtain a b c d where hs: "hs = [a, b, c, d]"
    using assms(1) by (auto simp: hex4_def numeral_eq_Suc length_Suc_conv)
  then obtain va vb vc vd where v: "digit_val a = Some va" "digit_val b = Some vb" "digit_val c = Some vc" "digit_val d = Some vd"
    using assms(1) by (auto simp: hex4_def text_value_def text_digits_def split: if_splits)
  then have cp: "cp = ((va * 16 + vb) * 16 + vc) * 16 + vd"
    using assms(1) hs by (simp add: hex4_def text_value_def text_digits_def digits_value_def)
  have 1: "reads (lex_get l) (b # c # d # r)" "lx_current (lex_get l) = Some a"
    using reads_get_Cons [of l a "b # c # d # r"] assms(2) hs by simp_all
  note 2 = reads_get_Cons [OF 1(1)]
  note 3 = reads_get_Cons [OF 2(1)]
  note 4 = reads_get_Cons [OF 3(1)]
  show ?thesis
    unfolding get_codepoint_def
    by (simp add: get_codepoint_step 1 2 3 4 v cp push_bit_eq_mult del: get_codepoint_loop.simps(2))
qed

lemma get_codepoint_digits:
  assumes "get_codepoint_loop fs cp l = (x, l')" and "x \<noteq> - 1" and "reads l cs"
  shows "\<exists>hs r. cs = hs @ r \<and> length hs = length fs \<and> list_all (\<lambda>c. digit_val c \<noteq> None) hs"
  using assms
proof (induction fs arbitrary: cp l cs)
  case (Cons f fs)
  from Cons.prems(3) show ?case
  proof (cases rule: reads_get_cases)
    case (char c r)
    then obtain d where d: "digit_val c = Some d" "get_codepoint_loop fs (cp + push_bit f (int d)) (lex_get l) = (x, l')"
      using Cons.prems(1,2) by (auto simp: get_codepoint_step simp del: get_codepoint_loop.simps(2) split: option.splits)
    from Cons.IH [OF d(2) Cons.prems(2) char(2)] obtain hs r'
      where "r = hs @ r'" "length hs = length fs" "list_all (\<lambda>c. digit_val c \<noteq> None) hs" by blast
    with d(1) char(1) have "cs = (c # hs) @ r'" "length (c # hs) = length (f # fs)" "list_all (\<lambda>c. digit_val c \<noteq> None) (c # hs)"
      by simp_all
    then show ?thesis by blast
  qed (use Cons.prems in \<open>simp add: Let_def\<close>)
qed simp

lemma get_codepoint_sound:
  assumes "get_codepoint l = (x, l')" and "x \<noteq> - 1" and "reads l cs"
  shows "\<exists>hs cp r. hex4 hs cp \<and> x = int cp \<and> cs = hs @ r \<and> reads l' r \<and> lx_token_buffer l' = lx_token_buffer l"
proof -
  obtain hs r where hs: "cs = hs @ r" "length hs = 4" "list_all (\<lambda>c. digit_val c \<noteq> None) hs"
    using get_codepoint_digits [OF assms(1) [unfolded get_codepoint_def] assms(2,3)] by auto
  then obtain cp where "hex4 hs cp" by (auto simp: hex4_def text_value_def text_digits_def)
  with get_codepoint_complete [of hs cp l r] assms hs(1) show ?thesis by auto
qed

lemma hex4_less: "hex4 hs cp \<Longrightarrow> cp < 0x10000"
proof -
  assume h: "hex4 hs cp"
  then obtain a b c d where hs: "hs = [a, b, c, d]" by (auto simp: hex4_def numeral_eq_Suc length_Suc_conv)
  with h obtain va vb vc vd where "digit_val a = Some va" "digit_val b = Some vb" "digit_val c = Some vc" "digit_val d = Some vd"
    by (auto simp: hex4_def text_value_def text_digits_def split: if_splits)
  with h hs have "cp = ((va * 16 + vb) * 16 + vc) * 16 + vd" and "va < 16" "vb < 16" "vc < 16" "vd < 16"
    by (auto simp: hex4_def text_value_def text_digits_def digits_value_def dest: digit_val_less)
  then show ?thesis by simp
qed

text \<open>The bytes that are written are the UTF-8 encoding.\<close>

lemma or_low:
  assumes "0 \<le> x" "x < 2 ^ k"
  shows "push_bit k h OR x = push_bit k h + (x :: int)"
proof -
  have "x = take_bit k x" using assms by (simp add: take_bit_int_eq_self)
  then have "\<not> bit x n" if "k \<le> n" for n using that by (metis bit_take_bit_iff leD)
  then have "\<not> bit (push_bit k h) n \<or> \<not> bit x n" for n
    by (cases "k \<le> n") (auto simp: bit_simps)
  then show ?thesis by (intro disjunctive_add [symmetric])
qed

lemma or_marks:
  "0 \<le> x \<Longrightarrow> x < 64 \<Longrightarrow> 0x80 OR x = 0x80 + (x :: int)"
  "0 \<le> x \<Longrightarrow> x < 32 \<Longrightarrow> 0xC0 OR x = 0xC0 + (x :: int)"
  "0 \<le> x \<Longrightarrow> x < 16 \<Longrightarrow> 0xE0 OR x = 0xE0 + (x :: int)"
  "0 \<le> x \<Longrightarrow> x < 8 \<Longrightarrow> 0xF0 OR x = 0xF0 + (x :: int)"
  using or_low [of x 6 2] or_low [of x 5 6] or_low [of x 4 14] or_low [of x 3 30] by (simp_all add: push_bit_eq_mult)

lemma and_low6: "x AND 0x3F = x mod (64 :: int)"
  using take_bit_eq_mask [of 6 x] by (simp add: take_bit_eq_mod mask_eq_exp_minus_1)

lemma char_of_int: "char_of (int n) = char_of n"
  by (simp add: char_of_def bit_iff_odd_drop_bit drop_bit_of_nat)

lemma codepoint_bytes_encode: "cp \<le> 0x10FFFF \<Longrightarrow> codepoint_bytes (int cp) = utf8_encode cp"
proof -
  assume cp: "cp \<le> 0x10FFFF"
  have low: "0x80 OR (x AND 0x3F) = 0x80 + x mod (64 :: int)" for x
    unfolding and_low6 by (rule or_marks) simp_all
  have div: "drop_bit k (int cp) = int (cp div 2 ^ k)" for k
    by (simp add: drop_bit_eq_div zdiv_int)
  have "map char_of (map int ns) = (map char_of ns :: string)" for ns by (simp add: char_of_int)
  consider "cp < 0x80" | "0x80 \<le> cp" "cp < 0x800" | "0x800 \<le> cp" "cp < 0x10000" | "0x10000 \<le> cp" by linarith
  then show ?thesis
  proof cases
    case 1
    then show ?thesis by (simp add: codepoint_bytes_def utf8_encode_def char_of_int)
  next
    case 2
    then have "0xC0 OR drop_bit 6 (int cp) = 0xC0 + drop_bit 6 (int cp)" by (intro or_marks) (simp_all add: drop_bit_eq_div)
    with 2 have "codepoint_bytes (int cp) = map char_of (map int [0xC0 + cp div 64, 0x80 + cp mod 64])"
      unfolding codepoint_bytes_def low by (simp add: div zmod_int)
    with 2 show ?thesis by (simp add: utf8_encode_def char_of_int del: of_nat_add)
  next
    case 3
    then have "0xE0 OR drop_bit 12 (int cp) = 0xE0 + drop_bit 12 (int cp)" by (intro or_marks) (simp_all add: drop_bit_eq_div)
    with 3 have "codepoint_bytes (int cp) = map char_of (map int [0xE0 + cp div 4096, 0x80 + cp div 64 mod 64, 0x80 + cp mod 64])"
      unfolding codepoint_bytes_def low by (simp add: div zmod_int)
    with 3 show ?thesis by (simp add: utf8_encode_def char_of_int del: of_nat_add)
  next
    case 4
    then have "0xF0 OR drop_bit 18 (int cp) = 0xF0 + drop_bit 18 (int cp)"
      using cp by (intro or_marks) (simp_all add: drop_bit_eq_div)
    with 4 have "codepoint_bytes (int cp)
        = map char_of (map int [0xF0 + cp div 262144, 0x80 + cp div 4096 mod 64, 0x80 + cp div 64 mod 64, 0x80 + cp mod 64])"
      unfolding codepoint_bytes_def low by (simp add: div zmod_int)
    with 4 show ?thesis by (simp add: utf8_encode_def char_of_int del: of_nat_add)
  qed
qed

lemma surrogate_pair:
  assumes "high_surrogate hi" "low_surrogate lo"
  shows "push_bit 10 (int hi) + int lo - 0x35FDC00 = int (0x10000 + (hi - 0xD800) * 0x400 + (lo - 0xDC00))"
  using assms by (simp add: push_bit_eq_mult high_surrogate_def low_surrogate_def of_nat_diff)

text \<open>The escape after \<open>\u\<close>, as the grammar has it.\<close>

definition unicode_escape :: "string \<Rightarrow> nat \<Rightarrow> bool" where
  "unicode_escape t cp \<longleftrightarrow>
     hex4 t cp \<and> \<not> high_surrogate cp \<and> \<not> low_surrogate cp
     \<or> (\<exists>hs hi hs' lo. t = hs @ backslash # CHR ''u'' # hs' \<and> hex4 hs hi \<and> high_surrogate hi \<and> hex4 hs' lo
          \<and> low_surrogate lo \<and> cp = 0x10000 + (hi - 0xD800) * 0x400 + (lo - 0xDC00))"

lemma string_unicode_escape:
  "unicode_escape u cp \<Longrightarrow> string_text t s \<Longrightarrow> string_text (backslash # CHR ''u'' # u @ t) (utf8_encode cp @ s)"
  unfolding unicode_escape_def using string_unicode string_pair by auto

lemma unicode_escape_le: "unicode_escape u cp \<Longrightarrow> cp \<le> 0x10FFFF"
  by (auto simp: unicode_escape_def high_surrogate_def low_surrogate_def dest: hex4_less)

lemma read_codepoint_complete:
  assumes "unicode_escape u cp" and "reads l (u @ r)"
  shows "\<exists>l'. read_codepoint l = (Some (int cp), l') \<and> reads l' r \<and> lx_token_buffer l' = lx_token_buffer l"
  using assms(1) unfolding unicode_escape_def
proof (elim disjE exE conjE)
  assume "hex4 u cp" "\<not> high_surrogate cp" "\<not> low_surrogate cp"
  then show ?thesis
    using get_codepoint_complete [OF \<open>hex4 u cp\<close> assms(2)]
    by (auto simp: read_codepoint_def high_surrogate_def low_surrogate_def)
next
  fix hs hi hs' lo
  assume u: "u = hs @ backslash # CHR ''u'' # hs'" and hi: "hex4 hs hi" "high_surrogate hi" and lo: "hex4 hs' lo" "low_surrogate lo"
    and cp: "cp = 0x10000 + (hi - 0xD800) * 0x400 + (lo - 0xDC00)"
  obtain l1 where 1: "get_codepoint l = (int hi, l1)" "reads l1 (backslash # CHR ''u'' # hs' @ r)" "lx_token_buffer l1 = lx_token_buffer l"
    using get_codepoint_complete [OF hi(1), of l "backslash # CHR ''u'' # hs' @ r"] assms(2) u by auto
  note 2 = reads_get_Cons [OF 1(2)]
  note 3 = reads_get_Cons [OF 2(1)]
  obtain l2 where 4: "get_codepoint (lex_get (lex_get l1)) = (int lo, l2)" "reads l2 r" "lx_token_buffer l2 = lx_token_buffer l"
    using get_codepoint_complete [OF lo(1) 3(1)] 1(3) by auto
  show ?thesis
    using hi(2) lo(2) 4 unfolding cp surrogate_pair [OF hi(2) lo(2), symmetric]
    by (auto simp: read_codepoint_def 1 2 3 Let_def high_surrogate_def low_surrogate_def)
qed

lemma read_codepoint_sound:
  assumes "read_codepoint l = (Some x, l')" and "reads l cs"
  shows "\<exists>u cp r. unicode_escape u cp \<and> x = int cp \<and> cs = u @ r \<and> reads l' r \<and> lx_token_buffer l' = lx_token_buffer l"
proof -
  obtain x1 l1 where 1: "get_codepoint l = (x1, l1)" by fastforce
  with assms(1) have "x1 \<noteq> - 1" by (auto simp: read_codepoint_def)
  from get_codepoint_sound [OF 1 this assms(2)] obtain hs cp r
    where cp: "hex4 hs cp" "x1 = int cp" "cs = hs @ r" "reads l1 r" "lx_token_buffer l1 = lx_token_buffer l" by blast
  show ?thesis
  proof (cases "high_surrogate cp")
    case False
    then have "\<not> low_surrogate cp" "x = int cp" "l' = l1"
      using assms(1) 1 cp(2) \<open>x1 \<noteq> - 1\<close> by (auto simp: read_codepoint_def high_surrogate_def low_surrogate_def Let_def split: if_splits)
    with False cp show ?thesis unfolding unicode_escape_def by blast
  next
    case True
    have step: "read_codepoint l = (let l2 = lex_get l1 in
        if lx_current l2 = Some backslash then
          let l3 = lex_get l2 in
          if lx_current l3 = Some (CHR ''u'') then
            (case get_codepoint l3 of (y, l4) \<Rightarrow>
               if y = - 1 then (None, lex_error hex_digits_message l4)
               else if 0xDC00 \<le> y \<and> y \<le> 0xDFFF then (Some (push_bit 10 x1 + y - 0x35FDC00), l4)
               else (None, lex_error high_surrogate_message l4))
          else (None, lex_error high_surrogate_message l3)
        else (None, lex_error high_surrogate_message l2))"
      using True 1 unfolding cp(2) by (simp add: read_codepoint_def high_surrogate_def low_surrogate_def Let_def)
    then have b: "lx_current (lex_get l1) = Some backslash" and u: "lx_current (lex_get (lex_get l1)) = Some (CHR ''u'')"
      using assms(1) by (auto simp: Let_def split: if_splits)
    obtain y l4 where y: "get_codepoint (lex_get (lex_get l1)) = (y, l4)" by fastforce
    then have "y \<noteq> - 1" "0xDC00 \<le> y \<and> y \<le> 0xDFFF" "x = push_bit 10 x1 + y - 0x35FDC00" "l' = l4"
      using assms(1) step b u by (auto simp: Let_def split: if_splits)
    obtain r1 where r1: "r = backslash # r1" "reads (lex_get l1) r1"
      using cp(4) b by (cases rule: reads_get_cases) auto
    obtain r2 where r2: "r1 = CHR ''u'' # r2" "reads (lex_get (lex_get l1)) r2"
      using r1(2) u by (cases rule: reads_get_cases) auto
    from get_codepoint_sound [OF y \<open>y \<noteq> - 1\<close> r2(2)] obtain hs' lo r'
      where lo: "hex4 hs' lo" "y = int lo" "r2 = hs' @ r'" "reads l4 r'" "lx_token_buffer l4 = lx_token_buffer l1" by auto
    then have "low_surrogate lo" using \<open>0xDC00 \<le> y \<and> y \<le> 0xDFFF\<close> by (simp add: low_surrogate_def)
    then have "unicode_escape (hs @ backslash # CHR ''u'' # hs') (0x10000 + (cp - 0xD800) * 0x400 + (lo - 0xDC00))"
      unfolding unicode_escape_def using True cp(1) lo(1) by blast
    moreover have "x = int (0x10000 + (cp - 0xD800) * 0x400 + (lo - 0xDC00))"
      using surrogate_pair [OF True \<open>low_surrogate lo\<close>] \<open>x = _\<close> cp(2) lo(2) by simp
    moreover have "cs = (hs @ backslash # CHR ''u'' # hs') @ r'" using cp(3) r1(1) r2(1) lo(3) by simp
    ultimately show ?thesis using lo(4,5) cp(5) \<open>l' = l4\<close> by metis
  qed
qed

lemma scan_escape_short:
  assumes "reads l (e # cs)" "short_escape e = Some d"
  shows "\<exists>l'. scan_escape l = (True, l') \<and> reads l' cs \<and> lx_token_buffer l' = lx_token_buffer l @ [d]"
  using assms(2) reads_get_Cons [OF assms(1)]
  by (auto simp: scan_escape_def Let_def short_escape_def split: if_splits)

lemma scan_escape_unicode:
  assumes "reads l (CHR ''u'' # u @ r)" "unicode_escape u cp"
  shows "\<exists>l'. scan_escape l = (True, l') \<and> reads l' r \<and> lx_token_buffer l' = lx_token_buffer l @ utf8_encode cp"
proof -
  note g = reads_get_Cons [OF assms(1)]
  obtain l' where "read_codepoint (lex_get l) = (Some (int cp), l')" "reads l' r" "lx_token_buffer l' = lx_token_buffer l"
    using read_codepoint_complete [OF assms(2) g(1)] by auto
  then show ?thesis
    using g unicode_escape_le [OF assms(2)] by (simp add: scan_escape_def Let_def codepoint_bytes_encode)
qed

lemma scan_escape_sound:
  assumes "scan_escape l = (True, l')" and "reads l cs"
  shows "\<exists>t s r. cs = t @ r \<and> reads l' r \<and> lx_token_buffer l' = lx_token_buffer l @ s
     \<and> (\<forall>t' s'. string_text t' s' \<longrightarrow> string_text (backslash # t @ t') (s @ s'))"
  using assms(2)
proof (cases rule: reads_get_cases)
  case eof
  then show ?thesis using assms(1) by (simp add: scan_escape_def Let_def)
next
  case (char c r)
  show ?thesis
  proof (cases "c = CHR ''u''")
    case False
    then obtain d where d: "short_escape c = Some d"
      using assms(1) char by (auto simp: scan_escape_def Let_def short_escape_def split: if_splits)
    have "cs = [c] @ r" "\<forall>t' s'. string_text t' s' \<longrightarrow> string_text (backslash # [c] @ t') ([d] @ s')"
      using char(1) string_short [OF d] by auto
    moreover have "reads l' r" "lx_token_buffer l' = lx_token_buffer l @ [d]"
      using scan_escape_short [OF _ d, of l r] assms char(1) by auto
    ultimately show ?thesis by blast
  next
    case True
    then obtain x l1 where "read_codepoint (lex_get l) = (Some x, l1)" "l' = fold lex_add (codepoint_bytes x) l1"
      using assms(1) char by (auto simp: scan_escape_def Let_def split: prod.splits option.splits)
    moreover from read_codepoint_sound [OF this(1) char(2)] obtain u cp r'
      where u: "unicode_escape u cp" "x = int cp" "r = u @ r'" "reads l1 r'" "lx_token_buffer l1 = lx_token_buffer l" by auto
    ultimately have "reads l' r'" "lx_token_buffer l' = lx_token_buffer l @ utf8_encode cp"
      using unicode_escape_le [OF u(1)] by (simp_all add: codepoint_bytes_encode)
    moreover have "cs = (CHR ''u'' # u) @ r'"
        "\<forall>t' s'. string_text t' s' \<longrightarrow> string_text (backslash # (CHR ''u'' # u) @ t') (utf8_encode cp @ s')"
      using char(1) True u(3) string_unicode_escape [OF u(1)] by auto
    ultimately show ?thesis by blast
  qed
qed

lemma scan_string_loop_step:
  assumes "lx_current (lex_get l) = Some c" "c \<noteq> quote"
    and "(if c = backslash then scan_escape (lex_get l) else scan_plain c (lex_get l)) = (True, l')"
  shows "scan_string_loop l = scan_string_loop l'"
  using assms by (subst scan_string_loop.simps) (simp add: Let_def split: if_splits)

lemma scan_string_result: "fst (scan_string_loop l) \<in> {Value_string, Parse_error}"
  by (induction l rule: scan_string_loop.induct) (subst scan_string_loop.simps, auto simp: Let_def split: option.splits prod.splits bool.splits)

lemma scan_string_complete:
  assumes "string_text t s" and "reads l (t @ quote # r)"
  shows "\<exists>l'. scan_string_loop l = (Value_string, l') \<and> reads l' r \<and> lx_token_buffer l' = lx_token_buffer l @ s"
  using assms
proof (induction arbitrary: l rule: string_text.induct)
  case string_end
  then show ?case using reads_get_Cons [of l quote r] by (subst scan_string_loop.simps) (simp add: Let_def)
next
  case (string_short e d t s)
  note g = reads_get_Cons [of l backslash "e # t @ quote # r"]
  obtain l1 where l1: "scan_escape (lex_get l) = (True, l1)" "reads l1 (t @ quote # r)" "lx_token_buffer l1 = lx_token_buffer l @ [d]"
    using scan_escape_short [OF _ string_short.hyps(1), of "lex_get l" "t @ quote # r"] g string_short.prems by auto
  with string_short.IH [OF l1(2)] show ?case using scan_string_loop_step [of l backslash l1] g string_short.prems by auto
next
  case (string_unicode hs cp t s)
  then have "unicode_escape hs cp" by (simp add: unicode_escape_def)
  note g = reads_get_Cons [of l backslash "CHR ''u'' # hs @ t @ quote # r"]
  obtain l1 where l1: "scan_escape (lex_get l) = (True, l1)" "reads l1 (t @ quote # r)" "lx_token_buffer l1 = lx_token_buffer l @ utf8_encode cp"
    using scan_escape_unicode [OF _ \<open>unicode_escape hs cp\<close>, of "lex_get l" "t @ quote # r"] g string_unicode.prems by auto
  with string_unicode.IH [OF l1(2)] show ?case using scan_string_loop_step [of l backslash l1] g string_unicode.prems by auto
next
  case (string_pair hs hi hs' lo t s)
  let ?cp = "0x10000 + (hi - 0xD800) * 0x400 + (lo - 0xDC00)" and ?u = "hs @ backslash # CHR ''u'' # hs'"
  have "unicode_escape ?u ?cp" unfolding unicode_escape_def using string_pair.hyps(1-4) by blast
  note g = reads_get_Cons [of l backslash "CHR ''u'' # ?u @ t @ quote # r"]
  obtain l1 where l1: "scan_escape (lex_get l) = (True, l1)" "reads l1 (t @ quote # r)" "lx_token_buffer l1 = lx_token_buffer l @ utf8_encode ?cp"
    using scan_escape_unicode [OF _ \<open>unicode_escape ?u ?cp\<close>, of "lex_get l" "t @ quote # r"] g string_pair.prems by auto
  with string_pair.IH [OF l1(2)] show ?case using scan_string_loop_step [of l backslash l1] g string_pair.prems by auto
next
  case (string_plain c rs cs t s)
  note g = reads_get_Cons [of l c "cs @ t @ quote # r"]
  obtain l1 where l1: "scan_plain c (lex_get l) = (True, l1)" "reads l1 (t @ quote # r)" "lx_token_buffer l1 = lx_token_buffer l @ c # cs"
    using scan_plain_complete [OF string_plain.hyps(1,4,5), of "lex_get l" "t @ quote # r"] g string_plain.prems by auto
  with string_plain.IH [OF l1(2)] show ?case
    using scan_string_loop_step [of l c l1] g string_plain.prems string_plain.hyps(2,3) by auto
qed

lemma scan_string_sound:
  assumes "scan_string_loop l = (Value_string, l')" and "reads l cs"
  shows "\<exists>t s r. cs = t @ quote # r \<and> string_text t s \<and> reads l' r \<and> lx_token_buffer l' = lx_token_buffer l @ s"
  using assms
proof (induction l arbitrary: cs rule: scan_string_loop.induct)
  case (1 l)
  from "1.prems"(2) show ?case
  proof (cases rule: reads_get_cases)
    case eof
    then show ?thesis using "1.prems"(1) by (simp add: scan_string_loop.simps [of l] Let_def)
  next
    case (char c r)
    show ?thesis
    proof (cases "c = quote")
      case True
      then have "l' = lex_get l" using "1.prems"(1) char by (simp add: scan_string_loop.simps [of l] Let_def)
      then have "cs = [] @ quote # r" "string_text [] []" "reads l' r" "lx_token_buffer l' = lx_token_buffer l @ []"
        using char True string_end by simp_all
      then show ?thesis by blast
    next
      case False
      let ?step = "if c = backslash then scan_escape (lex_get l) else scan_plain c (lex_get l)"
      obtain ok l1 where l1: "?step = (ok, l1)" by fastforce
      have ok using "1.prems"(1) char False l1 by (cases ok) (auto simp: scan_string_loop.simps [of l] Let_def split: if_splits)
      with l1 have step: "?step = (True, l1)" by simp
      have loop: "scan_string_loop l1 = (Value_string, l')"
        using scan_string_loop_step [OF char(3) False step] "1.prems"(1) by simp
      have "\<exists>t s r'. r = t @ r' \<and> reads l1 r' \<and> lx_token_buffer l1 = lx_token_buffer l @ s
          \<and> (\<forall>t' s'. string_text t' s' \<longrightarrow> string_text (c # t @ t') (s @ s'))"
      proof (cases "c = backslash")
        case True
        then show ?thesis using scan_escape_sound [OF _ char(2), of l1] step by auto
      next
        case plain: False
        then obtain rs bs r' where "0x20 \<le> (of_char c :: nat)" "sequence_ranges (of_char c) = Some rs" "list_all2 in_range rs bs"
            "r = bs @ r'" "reads l1 r'" "lx_token_buffer l1 = lx_token_buffer l @ c # bs"
          using scan_plain_sound [OF _ char(2), of c l1] step by auto
        moreover from this(1-3) have "\<forall>t' s'. string_text t' s' \<longrightarrow> string_text (c # bs @ t') ((c # bs) @ s')"
          using string_plain [OF _ False plain] by auto
        ultimately show ?thesis by blast
      qed
      then obtain t s r' where t: "r = t @ r'" "reads l1 r'" "lx_token_buffer l1 = lx_token_buffer l @ s"
          "\<And>t' s'. string_text t' s' \<Longrightarrow> string_text (c # t @ t') (s @ s')" by blast
      from "1.IH" [OF refl char(3) False step [symmetric] _ loop t(2)] obtain t' s' r''
        where "r' = t' @ quote # r''" "string_text t' s'" "reads l' r''" "lx_token_buffer l' = lx_token_buffer l1 @ s'" by auto
      then have "cs = (c # t @ t') @ quote # r''" "string_text (c # t @ t') (s @ s')" "reads l' r''"
          "lx_token_buffer l' = lx_token_buffer l @ s @ s'"
        using t char(1) by simp_all
      then show ?thesis by blast
    qed
  qed
qed

section \<open>Tokens\<close>

lemma skip_whitespace_char:
  assumes "begins l (w @ c # r)" "ws_text w" "\<not> is_ws c"
  shows "reads (skip_whitespace l) r \<and> lx_current (skip_whitespace l) = Some c"
  using assms
proof (induction w arbitrary: l)
  case Nil
  then show ?case using begins_get_Cons [of l c r] by (simp add: skip_whitespace.simps [of l] Let_def)
next
  case (Cons d w)
  then show ?case using begins_get_Cons [of l d "w @ c # r"] reads_begins by (simp add: skip_whitespace.simps [of l] Let_def)
qed

lemma skip_whitespace_end:
  assumes "begins l w" "ws_text w"
  shows "reads (skip_whitespace l) [] \<and> lx_current (skip_whitespace l) = None"
  using assms
proof (induction w arbitrary: l)
  case Nil
  then show ?case using begins_get_Nil [of l] by (simp add: skip_whitespace.simps [of l] Let_def)
next
  case (Cons d w)
  then show ?case using begins_get_Cons [of l d w] reads_begins by (simp add: skip_whitespace.simps [of l] Let_def)
qed

lemma ws_split:
  obtains "ws_text cs" | w c r where "cs = w @ c # r" "ws_text w" "\<not> is_ws c"
proof (cases "dropWhile is_ws cs")
  case Nil
  then show ?thesis using that(1) by (simp add: dropWhile_eq_Nil_conv list_all_iff)
next
  case (Cons c r)
  moreover have "cs = takeWhile is_ws cs @ dropWhile is_ws cs" by simp
  moreover have "ws_text (takeWhile is_ws cs)" by (auto simp: list_all_iff dest: set_takeWhileD)
  moreover have "\<not> is_ws c" using Cons by (metis hd_dropWhile list.distinct(1) list.sel(1))
  ultimately show ?thesis using that(2) by metis
qed

text \<open>\<^verbatim>\<open>scan\<close> after the byte order mark.\<close>

definition fetch :: "(string \<Rightarrow> string option) \<Rightarrow> lexer \<Rightarrow> token_type \<times> lexer" where
  "fetch strtod l = scan_token strtod (skip_whitespace l)"

lemma lex_scan_fetch: "reads l cs \<Longrightarrow> lex_scan strtod l = fetch strtod l"
  by (simp add: lex_scan_def fetch_def reads_def)

definition punctuation :: "char \<Rightarrow> token_type option" where
  "punctuation c =
     (if c = CHR ''['' then Some Begin_array
      else if c = CHR '']'' then Some End_array
      else if c = CHR ''{'' then Some Begin_object
      else if c = CHR ''}'' then Some End_object
      else if c = CHR '':'' then Some Name_separator
      else if c = CHR '','' then Some Value_separator
      else None)"

lemma scan_token_punctuation:
  "lx_current l = Some c \<Longrightarrow> punctuation c = Some t \<Longrightarrow> scan_token strtod l = (t, l)"
  by (auto simp: scan_token_def punctuation_def split: if_splits)

lemma scan_punctuation:
  assumes "begins l (w @ c # r)" "ws_text w" "punctuation c = Some t"
  shows "\<exists>l'. fetch strtod l = (t, l') \<and> reads l' r"
proof -
  have "\<not> is_ws c" using assms(3) by (auto simp: punctuation_def is_ws_def split: if_splits)
  from skip_whitespace_char [OF assms(1,2) this] show ?thesis
    using scan_token_punctuation [OF _ assms(3)] by (auto simp: fetch_def)
qed

lemma scan_end:
  assumes "begins l (w @ r)" "ws_text w" "r = [] \<or> hd r = CHR 0x00"
  shows "\<exists>l'. fetch strtod l = (End_of_input, l')"
proof (cases r)
  case Nil
  then have "lx_current (skip_whitespace l) = None" using skip_whitespace_end [of l w] assms by simp
  then show ?thesis by (simp add: fetch_def scan_token_def)
next
  case (Cons c r')
  then have "lx_current (skip_whitespace l) = Some (CHR 0x00)"
    using skip_whitespace_char [of l w "CHR 0x00" r'] assms by (simp add: is_ws_def)
  then show ?thesis by (simp add: fetch_def scan_token_def decimal_digit_Some is_dec_def)
qed

lemma scan_literal_complete:
  assumes "reads l (cs @ r)"
  shows "\<exists>l'. scan_literal_loop cs t l = (t, l') \<and> reads l' r"
  using assms
proof (induction cs arbitrary: l)
  case (Cons c cs)
  then show ?case using reads_get_Cons [of l c "cs @ r"] by simp
qed simp

lemma scan_literal_sound:
  assumes "scan_literal_loop cs t l = (t', l')" "reads l xs"
  shows "t' = t \<and> (\<exists>r. xs = cs @ r \<and> reads l' r) \<or> t' = Parse_error"
  using assms
proof (induction cs arbitrary: l xs)
  case (Cons c cs)
  from Cons.prems(2) show ?case
  proof (cases rule: reads_get_cases)
    case (char d r)
    then show ?thesis using Cons.IH [OF _ char(2)] Cons.prems(1) by (auto simp: Let_def split: if_splits)
  qed (use Cons.prems in \<open>simp add: Let_def\<close>)
qed auto

lemma is_ws_number: "c = CHR ''-'' \<or> is_dec c \<Longrightarrow> \<not> is_ws c"
  by (auto simp: is_ws_def is_dec_def)

lemma scan_token_number:
  assumes "lx_current l = Some c" "c = CHR ''-'' \<or> is_dec c"
  shows "scan_token strtod l = scan_number strtod c l"
proof -
  have "c \<noteq> d" if "\<not> is_dec d" "d \<noteq> CHR ''-''" for d using assms(2) that by auto
  then have "c \<noteq> CHR ''[''" "c \<noteq> CHR '']''" "c \<noteq> CHR ''{''" "c \<noteq> CHR ''}''" "c \<noteq> CHR '':''" "c \<noteq> CHR '',''"
      "c \<noteq> CHR ''t''" "c \<noteq> CHR ''f''" "c \<noteq> CHR ''n''" "c \<noteq> quote"
    by (simp_all add: is_dec_def)
  then show ?thesis using assms by (simp add: scan_token_def decimal_digit_Some)
qed

lemma scan_key:
  assumes "begins l (w @ quote # t @ quote # r)" "ws_text w" "string_text t k"
  shows "\<exists>l'. fetch strtod l = (Value_string, l') \<and> reads l' r \<and> lx_token_buffer l' = k"
proof -
  have s: "reads (lex_reset (skip_whitespace l)) (t @ quote # r)" "lx_current (skip_whitespace l) = Some quote"
    using skip_whitespace_char [OF assms(1,2)] by (simp_all add: is_ws_def)
  from scan_string_complete [OF assms(3) s(1)] s(2) show ?thesis
    by (simp add: fetch_def scan_token_def scan_string_def)
qed

lemma scan_literal_text:
  assumes "(c, cs, t) \<in> {(CHR ''n'', ''ull'', Literal_null), (CHR ''t'', ''rue'', Literal_true), (CHR ''f'', ''alse'', Literal_false)}"
    and "begins l (w @ c # cs @ r)" "ws_text w"
  shows "\<exists>l'. fetch strtod l = (t, l') \<and> reads l' r"
proof -
  have "\<not> is_ws c" using assms(1) by (auto simp: is_ws_def)
  note s = skip_whitespace_char [OF assms(2,3) this]
  then have "scan_token strtod (skip_whitespace l) = scan_literal_loop cs t (skip_whitespace l)"
    using assms(1) by (auto simp: scan_token_def scan_literal_def simp del: scan_literal_loop.simps)
  with s show ?thesis using scan_literal_complete [of "skip_whitespace l" cs r t] by (simp add: fetch_def)
qed

lemma scan_scalar:
  assumes "scalar_text strtod v s" "begins l (w @ s @ r)" "ws_text w" "r = [] \<or> \<not> continues_number (hd r)"
  shows "\<exists>t l'. fetch strtod l = (t, l') \<and> reads l' r \<and> token_scalar t l' = Some v"
  using assms(1)
proof cases
  case scalar_null
  then have "begins l (w @ CHR ''n'' # ''ull'' @ r)" using assms(2) by simp
  from scan_literal_text [OF _ this assms(3), of Literal_null strtod] scalar_null show ?thesis by auto
next
  case scalar_true
  then have "begins l (w @ CHR ''t'' # ''rue'' @ r)" using assms(2) by simp
  from scan_literal_text [OF _ this assms(3), of Literal_true strtod] scalar_true show ?thesis by auto
next
  case scalar_false
  then have "begins l (w @ CHR ''f'' # ''alse'' @ r)" using assms(2) by simp
  from scan_literal_text [OF _ this assms(3), of Literal_false strtod] scalar_false show ?thesis by auto
next
  case scalar_number
  then obtain c cs where c: "s = c # cs" "c = CHR ''-'' \<or> is_dec c" "accepts (number_start c) cs" by (auto simp: number_text_iff)
  then have s: "reads (skip_whitespace l) (cs @ r)" "lx_current (skip_whitespace l) = Some c"
    using skip_whitespace_char [of l w c "cs @ r"] assms is_ws_number [OF c(2)] by simp_all
  obtain t where "number_scan (number_start c) Value_unsigned (cs @ r) = Some (t, cs, r)"
    using number_scan_complete [OF c(3) assms(4)] by blast
  then show ?thesis
    using scan_number_reads [OF s(1) c(2), of strtod] scan_token_number [OF s(2) c(2)] scalar_number(2) c(1)
    by (auto simp: fetch_def)
next
  case (scalar_string t k)
  then show ?thesis using scan_key [of l w t r k strtod] assms by auto
qed

text \<open>What a call of \<^verbatim>\<open>scan\<close> can find.\<close>

inductive scanned :: "(string \<Rightarrow> string option) \<Rightarrow> string \<Rightarrow> token_type \<Rightarrow> lexer \<Rightarrow> bool" for strtod :: "string \<Rightarrow> string option" where
  scanned_punctuation:
    "cs = w @ c # r \<Longrightarrow> ws_text w \<Longrightarrow> punctuation c = Some t \<Longrightarrow> reads l' r \<Longrightarrow> scanned strtod cs t l'"
| scanned_string:
    "cs = w @ quote # b @ quote # r \<Longrightarrow> ws_text w \<Longrightarrow> string_text b (lx_token_buffer l') \<Longrightarrow> reads l' r \<Longrightarrow>
     scanned strtod cs Value_string l'"
| scanned_scalar:
    "cs = w @ s @ r \<Longrightarrow> ws_text w \<Longrightarrow> scalar_text strtod v s \<Longrightarrow> token_scalar t l' = Some v \<Longrightarrow> t \<noteq> Value_string \<Longrightarrow> reads l' r \<Longrightarrow>
     scanned strtod cs t l'"
| scanned_overflow: "lx_value_float l' = None \<Longrightarrow> scanned strtod cs Value_float l'"
| scanned_end: "cs = w @ r \<Longrightarrow> ws_text w \<Longrightarrow> r = [] \<or> hd r = CHR 0x00 \<Longrightarrow> scanned strtod cs End_of_input l'"
| scanned_error: "scanned strtod cs Parse_error l'"

lemma scanned_literal:
  assumes "(c, xs, t, v) \<in> {(CHR ''n'', ''ull'', Literal_null, V_null), (CHR ''t'', ''rue'', Literal_true, V_boolean True),
      (CHR ''f'', ''alse'', Literal_false, V_boolean False)}"
    and "reads l r" "ws_text w" "scan_literal_loop xs t l = (t', l')"
  shows "scanned strtod (w @ c # r) t' l'"
  using scan_literal_sound [OF assms(4,2)]
proof (elim disjE conjE exE)
  fix r'
  assume "t' = t" "r = xs @ r'" "reads l' r'"
  moreover have "scalar_text strtod v (c # xs)" "token_scalar t l' = Some v" "t \<noteq> Value_string"
    using assms(1) scalar_null scalar_true scalar_false by auto
  ultimately show ?thesis using assms(3) scanned_scalar [of _ w "c # xs" r' strtod v t l'] by auto
qed (auto intro: scanned_error)

lemma scanned_number:
  assumes "reads l r" "ws_text w" "c = CHR ''-'' \<or> is_dec c" "scan_number strtod c l = (t', l')"
  shows "scanned strtod (w @ c # r) t' l'"
proof (cases "number_scan (number_start c) Value_unsigned r")
  case None
  then have "t' = Parse_error" using scan_number_reads [OF assms(1,3), of strtod] assms(4) by simp
  then show ?thesis by (simp add: scanned_error)
next
  case (Some res)
  then obtain t ds r' where res: "number_scan (number_start c) Value_unsigned r = Some (t, ds, r')" by (cases res) auto
  then have n: "reads l' r'" "t' \<in> {Value_unsigned, Value_integer, Value_float}" "token_scalar t' l' = number_value strtod (c # ds)"
    using scan_number_reads [OF assms(1,3), of strtod] assms(4) by auto
  have "r = ds @ r'" "number_text (c # ds)"
    using number_scan_sound [OF res] assms(3) number_text_iff by blast+
  show ?thesis
  proof (cases "number_value strtod (c # ds)")
    case None
    then show ?thesis using n scanned_overflow by auto
  next
    case (Some v)
    then have "scalar_text strtod v (c # ds)" using \<open>number_text (c # ds)\<close> scalar_number by blast
    with n Some \<open>r = ds @ r'\<close> assms(2) show ?thesis using scanned_scalar [of _ w "c # ds" r' strtod v t' l'] by auto
  qed
qed

lemma scan_token_scanned:
  assumes "reads l r" "lx_current l = Some c" "ws_text w" "scan_token strtod l = (t, l')"
  shows "scanned strtod (w @ c # r) t l'"
proof -
  consider (punct) t' where "punctuation c = Some t'" | (n) "c = CHR ''n''" | (t) "c = CHR ''t''" | (f) "c = CHR ''f''"
    | (string) "c = quote" | (number) "c = CHR ''-'' \<or> is_dec c" | (nul) "c = CHR 0x00"
    | (other) "punctuation c = None" "c \<noteq> CHR ''n''" "c \<noteq> CHR ''t''" "c \<noteq> CHR ''f''" "c \<noteq> quote" "c \<noteq> CHR ''-''" "\<not> is_dec c" "c \<noteq> CHR 0x00"
    by blast
  then show ?thesis
  proof cases
    case punct
    then have "t = t'" "l' = l" using scan_token_punctuation [OF assms(2) punct, of strtod] assms(4) by simp_all
    with punct assms show ?thesis by (auto intro: scanned_punctuation)
  next
    case n
    then have "scan_literal_loop ''ull'' Literal_null l = (t, l')" using assms(2,4) by (simp add: scan_token_def scan_literal_def)
    with scanned_literal [of c "''ull''" Literal_null V_null] n assms(1,3) show ?thesis by blast
  next
    case t
    then have "scan_literal_loop ''rue'' Literal_true l = (t, l')" using assms(2,4) by (simp add: scan_token_def scan_literal_def)
    with scanned_literal [of c "''rue''" Literal_true "V_boolean True"] t assms(1,3) show ?thesis by blast
  next
    case f
    then have "scan_literal_loop ''alse'' Literal_false l = (t, l')" using assms(2,4) by (simp add: scan_token_def scan_literal_def)
    with scanned_literal [of c "''alse''" Literal_false "V_boolean False"] f assms(1,3) show ?thesis by blast
  next
    case string
    then have loop: "scan_string_loop (lex_reset l) = (t, l')" using assms(2,4) by (simp add: scan_token_def scan_string_def)
    have "t = Value_string \<or> t = Parse_error" using scan_string_result [of "lex_reset l"] loop by simp
    then show ?thesis
    proof
      assume "t = Value_string"
      moreover from scan_string_sound [OF loop [unfolded this], of r] assms(1) obtain b s r'
        where "r = b @ quote # r'" "string_text b s" "reads l' r'" "lx_token_buffer l' = s" by auto
      ultimately show ?thesis using scanned_string [of _ w b r'] assms(3) string by auto
    qed (simp add: scanned_error)
  next
    case number
    then show ?thesis using scanned_number assms scan_token_number [OF assms(2) number, of strtod] by auto
  next
    case nul
    then have "t = End_of_input" using assms(2,4) by (simp add: scan_token_def decimal_digit_Some is_dec_def)
    with nul assms(3) show ?thesis by (auto intro: scanned_end)
  next
    case other
    then have "t = Parse_error" using assms(2,4) by (auto simp: scan_token_def punctuation_def decimal_digit_Some split: if_splits)
    then show ?thesis by (simp add: scanned_error)
  qed
qed

lemma scan_scanned:
  assumes "begins l cs" "fetch strtod l = (t, l')"
  shows "scanned strtod cs t l'"
proof -
  have scan: "scan_token strtod (skip_whitespace l) = (t, l')" using assms by (simp add: fetch_def)
  show ?thesis
  proof (cases cs rule: ws_split)
    case 1
    then have "lx_current (skip_whitespace l) = None" using skip_whitespace_end [OF assms(1)] by simp
    then have "t = End_of_input" using scan by (simp add: scan_token_def)
    with 1 show ?thesis by (auto intro: scanned_end [of _ cs "[]"])
  next
    case (2 w c r)
    with skip_whitespace_char [of l w c r] assms(1) scan_token_scanned [OF _ _ 2(2) scan] show ?thesis by simp
  qed
qed

end
