(* ===== verification/Json_Parser.thy ===== *)
theory Json_Parser
  imports Json_Tokens
begin

text \<open>
  The parser of the vendored JSON library: \<^verbatim>\<open>detail::parser\<close> with \<^verbatim>\<open>json_sax_dom_parser\<close>, as
  \<^verbatim>\<open>Json::parse(text)\<close> runs them (no callback, exceptions allowed, strict). The loop with its stack of open arrays and
  objects is translated step by step; every message it throws is there. \<open>ref_stack\<close> holds the containers
  under construction themselves instead of pointers to them: a container reaches its place in the tree when it is
  closed, and nobody sees the tree before that.
\<close>

section \<open>Exceptions\<close>

datatype json_exception =
    Json_parse_error string
  | Json_out_of_range string

definition exception_name :: "string \<Rightarrow> nat \<Rightarrow> string" where
  "exception_name ename i = ''[json.exception.'' @ ename @ ''.'' @ dec_text i @ ''] ''"

definition position_string :: "position_t \<Rightarrow> string" where
  "position_string pos =
     '' at line '' @ dec_text (lines_read pos + 1) @ '', column '' @ dec_text (chars_read_current_line pos)"

definition parse_error_create :: "nat \<Rightarrow> position_t \<Rightarrow> string \<Rightarrow> json_exception" where
  "parse_error_create i pos what_arg =
     Json_parse_error (exception_name ''parse_error'' i @ ''parse error'' @ position_string pos @ '': '' @ what_arg)"

definition out_of_range_create :: "nat \<Rightarrow> string \<Rightarrow> json_exception" where
  "out_of_range_create i what_arg = Json_out_of_range (exception_name ''out_of_range'' i @ what_arg)"

section \<open>Building the value\<close>

datatype open_container =
    Open_array "json_value list"
  | Open_object "(string \<times> json_value) list" string

record sax_dom =
  dom_root :: json_value
  ref_stack :: "open_container list"

definition handle_value :: "json_value \<Rightarrow> sax_dom \<Rightarrow> sax_dom" where
  "handle_value v d =
     (case ref_stack d of
        [] \<Rightarrow> d\<lparr>dom_root := v\<rparr>
      | Open_array vs # cs \<Rightarrow> d\<lparr>ref_stack := Open_array (vs @ [v]) # cs\<rparr>
      | Open_object fs k # cs \<Rightarrow> d\<lparr>ref_stack := Open_object (object_put k v fs) k # cs\<rparr>)"

definition start_object :: "sax_dom \<Rightarrow> sax_dom" where
  "start_object d = d\<lparr>ref_stack := Open_object [] [] # ref_stack d\<rparr>"

definition sax_key :: "string \<Rightarrow> sax_dom \<Rightarrow> sax_dom" where
  "sax_key k d =
     (case ref_stack d of
        Open_object fs _ # cs \<Rightarrow>
          d\<lparr>ref_stack := Open_object (if k \<in> fst ` set fs then fs else object_put k V_null fs) k # cs\<rparr>
      | _ \<Rightarrow> d)"

definition end_object :: "sax_dom \<Rightarrow> sax_dom" where
  "end_object d =
     (case ref_stack d of
        Open_object fs _ # cs \<Rightarrow> handle_value (V_object fs) (d\<lparr>ref_stack := cs\<rparr>)
      | _ \<Rightarrow> d)"

definition start_array :: "sax_dom \<Rightarrow> sax_dom" where
  "start_array d = d\<lparr>ref_stack := Open_array [] # ref_stack d\<rparr>"

definition end_array :: "sax_dom \<Rightarrow> sax_dom" where
  "end_array d =
     (case ref_stack d of
        Open_array vs # cs \<Rightarrow> handle_value (V_array vs) (d\<lparr>ref_stack := cs\<rparr>)
      | _ \<Rightarrow> d)"

section \<open>The loop\<close>

text \<open>\<open>ps_states\<close> has its back first; true stands for an array.\<close>

record parser =
  ps_lexer :: lexer
  ps_last_token :: token_type
  ps_states :: "bool list"
  ps_skip :: bool
  ps_sax :: sax_dom

definition get_token :: "(string \<Rightarrow> string option) \<Rightarrow> parser \<Rightarrow> parser" where
  "get_token strtod p = (case lex_scan strtod (ps_lexer p) of (t, l) \<Rightarrow> p\<lparr>ps_last_token := t, ps_lexer := l\<rparr>)"

definition on_sax :: "(sax_dom \<Rightarrow> sax_dom) \<Rightarrow> parser \<Rightarrow> parser" where
  "on_sax f p = p\<lparr>ps_sax := f (ps_sax p)\<rparr>"

definition exception_message :: "token_type \<Rightarrow> string \<Rightarrow> parser \<Rightarrow> string" where
  "exception_message expected context p =
     ''syntax error ''
     @ (if context \<noteq> [] then ''while parsing '' @ context @ '' '' else [])
     @ ''- ''
     @ (if ps_last_token p = Parse_error
        then lx_error_message (ps_lexer p) @ ''; last read: '' @ [CHR 0x27] @ get_token_string (ps_lexer p) @ [CHR 0x27]
        else ''unexpected '' @ token_type_name (ps_last_token p))
     @ (if expected \<noteq> Uninitialized then ''; expected '' @ token_type_name expected else [])"

definition syntax_error :: "token_type \<Rightarrow> string \<Rightarrow> parser \<Rightarrow> json_exception" where
  "syntax_error expected context p =
     parse_error_create 101 (lx_position (ps_lexer p)) (exception_message expected context p)"

text \<open>After a \<open>{\<close> or a comma in an object: a key, a colon and the first token of the value.\<close>

definition parse_key :: "(string \<Rightarrow> string option) \<Rightarrow> parser \<Rightarrow> json_exception + parser" where
  "parse_key strtod p =
     (if ps_last_token p \<noteq> Value_string then Inl (syntax_error Value_string ''object key'' p)
      else
        let p = get_token strtod (on_sax (sax_key (lx_token_buffer (ps_lexer p))) p) in
        if ps_last_token p \<noteq> Name_separator then Inl (syntax_error Name_separator ''object separator'' p)
        else Inr p)"

text \<open>The switch on the last token: \<open>True\<close> when it ends in \<^verbatim>\<open>continue\<close>, \<open>False\<close> when a value is complete.\<close>

definition parse_token :: "(string \<Rightarrow> string option) \<Rightarrow> parser \<Rightarrow> json_exception + bool \<times> parser" where
  "parse_token strtod p =
     (case ps_last_token p of
        Begin_object \<Rightarrow>
          (let p = get_token strtod (on_sax start_object p) in
           if ps_last_token p = End_object then Inr (False, on_sax end_object p)
           else
             case parse_key strtod p of
               Inl e \<Rightarrow> Inl e
             | Inr p \<Rightarrow> Inr (True, get_token strtod (p\<lparr>ps_states := False # ps_states p\<rparr>)))
      | Begin_array \<Rightarrow>
          (let p = get_token strtod (on_sax start_array p) in
           if ps_last_token p = End_array then Inr (False, on_sax end_array p)
           else Inr (True, p\<lparr>ps_states := True # ps_states p\<rparr>))
      | Value_float \<Rightarrow>
          (case lx_value_float (ps_lexer p) of
             None \<Rightarrow> Inl (out_of_range_create 406
               (''number overflow parsing '' @ [CHR 0x27] @ get_token_string (ps_lexer p) @ [CHR 0x27]))
           | Some res \<Rightarrow> Inr (False, on_sax (handle_value (V_float res)) p))
      | Literal_false \<Rightarrow> Inr (False, on_sax (handle_value (V_boolean False)) p)
      | Literal_null \<Rightarrow> Inr (False, on_sax (handle_value V_null) p)
      | Literal_true \<Rightarrow> Inr (False, on_sax (handle_value (V_boolean True)) p)
      | Value_integer \<Rightarrow> Inr (False, on_sax (handle_value (V_integer (lx_value_integer (ps_lexer p)))) p)
      | Value_string \<Rightarrow> Inr (False, on_sax (handle_value (V_string (lx_token_buffer (ps_lexer p)))) p)
      | Value_unsigned \<Rightarrow> Inr (False, on_sax (handle_value (V_unsigned (lx_value_unsigned (ps_lexer p)))) p)
      | Parse_error \<Rightarrow> Inl (syntax_error Uninitialized ''value'' p)
      | End_of_input \<Rightarrow>
          (if chars_read_total (lx_position (ps_lexer p)) = 1
           then Inl (parse_error_create 101 (lx_position (ps_lexer p))
             ''attempting to parse an empty input; check that your input string or stream contains the expected JSON'')
           else Inl (syntax_error Literal_or_value ''value'' p))
      | _ \<Rightarrow> Inl (syntax_error Literal_or_value ''value'' p))"

text \<open>The evaluation of the state after a value: \<open>False\<close> when the hierarchy is complete, \<open>True\<close> to go on.\<close>

definition parse_state :: "(string \<Rightarrow> string option) \<Rightarrow> parser \<Rightarrow> json_exception + bool \<times> parser" where
  "parse_state strtod p =
     (case ps_states p of
        [] \<Rightarrow> Inr (False, p)
      | True # states \<Rightarrow>
          (let p = get_token strtod p in
           if ps_last_token p = Value_separator then Inr (True, get_token strtod p)
           else if ps_last_token p = End_array
           then Inr (True, (on_sax end_array p)\<lparr>ps_states := states, ps_skip := True\<rparr>)
           else Inl (syntax_error End_array ''array'' p))
      | False # states \<Rightarrow>
          (let p = get_token strtod p in
           if ps_last_token p = Value_separator then
             (case parse_key strtod (get_token strtod p) of
                Inl e \<Rightarrow> Inl e
              | Inr p \<Rightarrow> Inr (True, get_token strtod p))
           else if ps_last_token p = End_object
           then Inr (True, (on_sax end_object p)\<lparr>ps_states := states, ps_skip := True\<rparr>)
           else Inl (syntax_error End_object ''object'' p)))"

definition parse_step :: "(string \<Rightarrow> string option) \<Rightarrow> parser \<Rightarrow> json_exception + bool \<times> parser" where
  "parse_step strtod p =
     (case (if ps_skip p then Inr (False, p\<lparr>ps_skip := False\<rparr>) else parse_token strtod p) of
        Inl e \<Rightarrow> Inl e
      | Inr (True, p) \<Rightarrow> Inr (True, p)
      | Inr (False, p) \<Rightarrow> parse_state strtod p)"

subsection \<open>Progress\<close>

lemma length_scan_string_loop: "length (remaining (snd (scan_string_loop l))) \<le> length (remaining l)"
proof (induction l rule: scan_string_loop.induct)
  case (1 l)
  show ?case
  proof (cases "lx_current (lex_get l)")
    case None
    then show ?thesis by (simp add: scan_string_loop.simps [of l] Let_def length_remaining_get)
  next
    case (Some c)
    let ?step = "if c = backslash then scan_escape (lex_get l) else scan_plain c (lex_get l)"
    obtain ok l1 where step: "?step = (ok, l1)" by fastforce
    then have "length (remaining l1) \<le> length (remaining l)"
      using length_string_step [OF step] length_remaining_get order_trans by blast
    moreover have "length (remaining (snd (scan_string_loop l1))) \<le> length (remaining l1)" if "c \<noteq> quote" ok
      using "1.IH" [OF refl Some that(1) step [symmetric]] that(2) by simp
    ultimately show ?thesis
      using Some step by (cases ok) (auto simp: scan_string_loop.simps [of l] Let_def length_remaining_get)
  qed
qed

lemma length_scan_number_loop:
  assumes "scan_number_loop st number_type l = (t, l')"
  shows "length (remaining (if t = Parse_error then l' else lex_unget l')) \<le> length (remaining l)"
  using assms
proof (induction st number_type l rule: scan_number_loop.induct)
  case (1 st number_type l)
  show ?case
  proof (cases "number_next st (lx_current (lex_get l))")
    case (Goto st')
    then show ?thesis
      using "1.IH" [OF refl refl Goto] "1.prems" length_remaining_get [of l]
      by (simp add: scan_number_loop.simps [of st number_type l] Let_def)
  qed (use "1.prems" in \<open>auto simp: scan_number_loop.simps [of st number_type l] Let_def length_remaining_get\<close>)
qed

lemma remaining_scan_number_done: "remaining (snd (scan_number_done strtod t l)) = remaining (lex_unget l)"
  by (simp add: scan_number_done_def Let_def split: option.splits)

lemma length_scan_number: "length (remaining (snd (scan_number strtod c l))) \<le> length (remaining l)"
proof -
  obtain t l1 where loop: "scan_number_loop (number_start c) Value_unsigned (lex_add c (lex_reset l)) = (t, l1)" by fastforce
  from length_scan_number_loop [OF loop] show ?thesis
    by (auto simp: scan_number_def loop remaining_scan_number_done split: if_splits)
qed

lemma length_scan_literal_loop: "length (remaining (snd (scan_literal_loop cs t l))) \<le> length (remaining l)"
  by (induction cs t l rule: scan_literal_loop.induct)
    (auto simp: Let_def length_remaining_get intro: order_trans [OF _ length_remaining_get])

lemma length_skip_whitespace:
  "length (remaining (skip_whitespace l)) \<le> length (remaining l)
   \<and> (lx_current (skip_whitespace l) \<noteq> None \<longrightarrow> length (remaining (skip_whitespace l)) < length (remaining l))"
proof (induction l rule: skip_whitespace.induct)
  case (1 l)
  show ?case
  proof (cases "lx_current (lex_get l)")
    case None
    then show ?thesis using length_remaining_get [of l] by (simp add: skip_whitespace.simps [of l] Let_def)
  next
    case (Some c)
    then show ?thesis
      using "1.IH" [OF refl Some] length_remaining_get_less [of l]
      by (cases "is_ws c") (auto simp: skip_whitespace.simps [of l] Let_def)
  qed
qed

lemma length_scan_token: "length (remaining (snd (scan_token strtod l))) \<le> length (remaining l)"
proof (cases "lx_current l")
  case (Some c)
  have branch: "length (remaining (snd (if b then r else r'))) \<le> n"
    if "length (remaining (snd r)) \<le> n" "length (remaining (snd r')) \<le> n" for b n and r r' :: "token_type \<times> lexer"
    using that by simp
  have string: "length (remaining (snd (scan_string l))) \<le> length (remaining l)"
    using length_scan_string_loop [of "lex_reset l"] by (simp add: scan_string_def)
  have literal: "length (remaining (snd (scan_literal cs t l))) \<le> length (remaining l)" for cs t
    unfolding scan_literal_def by (rule length_scan_literal_loop)
  show ?thesis
    unfolding scan_token_def Some option.case
    by (intro branch string literal length_scan_number) simp_all
qed (simp add: scan_token_def)

lemma length_skip_bom: "length (remaining (snd (skip_bom l))) \<le> length (remaining l)"
proof -
  note g = length_remaining_get [of l]
  note gg = order_trans [OF length_remaining_get [of "lex_get l"] g]
  note ggg = order_trans [OF length_remaining_get [of "lex_get (lex_get l)"] gg]
  show ?thesis by (simp add: skip_bom_def Let_def gg ggg)
qed

abbreviation final_token :: "token_type \<Rightarrow> bool" where
  "final_token t \<equiv> t = End_of_input \<or> t = Parse_error"

lemma length_lex_scan:
  assumes "lex_scan strtod l = (t, l')"
  shows "length (remaining l') \<le> length (remaining l) \<and> (\<not> final_token t \<longrightarrow> length (remaining l') < length (remaining l))"
proof -
  have scan: "length (remaining l') \<le> length (remaining l1) \<and> (\<not> final_token t \<longrightarrow> length (remaining l') < length (remaining l1))"
    if "scan_token strtod (skip_whitespace l1) = (t, l')" for l1
  proof -
    have "lx_current (skip_whitespace l1) \<noteq> None" if "\<not> final_token t"
      using that \<open>scan_token strtod (skip_whitespace l1) = (t, l')\<close> by (auto simp: scan_token_def split: option.splits)
    then show ?thesis
      using that length_scan_token [of strtod "skip_whitespace l1"] length_skip_whitespace [of l1] by auto
  qed
  show ?thesis
  proof (cases "chars_read_total (lx_position l) = 0")
    case True
    obtain ok l1 where "skip_bom l = (ok, l1)" by fastforce
    then show ?thesis
      using assms True length_skip_bom [of l] scan [of l1] by (cases ok) (auto simp: lex_scan_def)
  next
    case False
    then show ?thesis using assms scan [of l] by (simp add: lex_scan_def)
  qed
qed

definition unread :: "parser \<Rightarrow> nat" where
  "unread p = length (remaining (ps_lexer p))"

definition parser_measure :: "parser \<Rightarrow> nat" where
  "parser_measure p = 2 * unread p + (if final_token (ps_last_token p) then 0 else 1)"

lemma unread_simps [simp]:
  "unread (on_sax f p) = unread p" "unread (p\<lparr>ps_states := s\<rparr>) = unread p" "unread (p\<lparr>ps_skip := b\<rparr>) = unread p"
  "ps_last_token (on_sax f p) = ps_last_token p"
  by (simp_all add: unread_def on_sax_def)

lemma measure_get_token:
  "parser_measure (get_token strtod p) \<le> 2 * unread p"
  "unread (get_token strtod p) \<le> unread p"
  "\<not> final_token (ps_last_token (get_token strtod p)) \<Longrightarrow> parser_measure (get_token strtod p) < 2 * unread p"
  "\<not> final_token (ps_last_token (get_token strtod p)) \<Longrightarrow> unread (get_token strtod p) < unread p"
  using length_lex_scan [of strtod "ps_lexer p"]
  by (auto simp: get_token_def parser_measure_def unread_def split: prod.splits)

lemma unread_le_measure: "2 * unread p \<le> parser_measure p"
  by (simp add: parser_measure_def)

lemma parse_key_unread: "parse_key strtod p = Inr p' \<Longrightarrow> unread p' < unread p"
  using measure_get_token(4) [of strtod "on_sax (sax_key (lx_token_buffer (ps_lexer p))) p"]
  by (auto simp: parse_key_def Let_def split: if_splits)

lemma measure_on_sax [simp]:
  "parser_measure (on_sax f p) = parser_measure p" "parser_measure (p\<lparr>ps_states := s\<rparr>) = parser_measure p"
  "parser_measure (p\<lparr>ps_skip := b\<rparr>) = parser_measure p"
  by (simp_all add: parser_measure_def)

lemma parse_token_measure:
  assumes "parse_token strtod p = Inr (b, p')"
  shows "parser_measure p' \<le> parser_measure p \<and> (b \<longrightarrow> parser_measure p' < parser_measure p)"
proof -
  let ?o = "get_token strtod (on_sax start_object p)" and ?a = "get_token strtod (on_sax start_array p)"
  have o: "parser_measure ?o \<le> 2 * unread p" "unread ?o \<le> unread p" and a: "parser_measure ?a \<le> 2 * unread p"
    using measure_get_token [of strtod "on_sax start_object p"] measure_get_token [of strtod "on_sax start_array p"] by simp_all
  have key: "parser_measure (get_token strtod (q\<lparr>ps_states := s\<rparr>)) < 2 * unread p" if "parse_key strtod ?o = Inr q" for q s
    using parse_key_unread [OF that] measure_get_token(1) [of strtod "q\<lparr>ps_states := s\<rparr>"] o by simp
  have m: "2 * unread p \<le> parser_measure p" "\<not> final_token (ps_last_token p) \<Longrightarrow> 2 * unread p < parser_measure p"
    by (simp_all add: parser_measure_def)
  show ?thesis
  proof (cases "ps_last_token p")
    case Begin_object
    show ?thesis
    proof (cases "ps_last_token ?o = End_object")
      case True
      with Begin_object assms have "p' = on_sax end_object ?o" "\<not> b" by (simp_all add: parse_token_def Let_def)
      then show ?thesis using o m by simp
    next
      case False
      then obtain q where "parse_key strtod ?o = Inr q" "p' = get_token strtod (q\<lparr>ps_states := False # ps_states q\<rparr>)"
        using Begin_object assms by (auto simp: parse_token_def Let_def split: sum.splits)
      with key [of q "False # ps_states q"] m(1) show ?thesis by simp
    qed
  next
    case Begin_array
    then show ?thesis using assms a m by (auto simp: parse_token_def Let_def split: if_splits)
  qed (use assms in \<open>auto simp: parse_token_def split: if_splits option.splits\<close>)
qed

lemma parse_state_measure:
  assumes "parse_state strtod p = Inr (True, p')"
  shows "parser_measure p' < parser_measure p"
proof -
  let ?q = "get_token strtod p"
  have q: "parser_measure ?q < 2 * unread p" "unread ?q < unread p" if "\<not> final_token (ps_last_token ?q)"
    using measure_get_token(3,4) that by blast+
  have qq: "parser_measure (get_token strtod ?q) \<le> 2 * unread ?q" "unread (get_token strtod ?q) \<le> unread ?q"
    by (rule measure_get_token)+
  have key: "parser_measure (get_token strtod r) \<le> 2 * unread ?q" if "parse_key strtod (get_token strtod ?q) = Inr r" for r
    using parse_key_unread [OF that] measure_get_token(1) [of strtod r] qq(2) by simp
  note m = unread_le_measure [of p]
  show ?thesis
    using assms
  proof (cases "ps_states p")
    case (Cons b states)
    show ?thesis
    proof (cases b)
      case True
      with Cons assms m q qq show ?thesis by (fastforce simp: parse_state_def Let_def split: if_splits)
    next
      case False
      with Cons assms m q key show ?thesis by (fastforce simp: parse_state_def Let_def split: if_splits sum.splits)
    qed
  qed (simp add: parse_state_def)
qed

lemma parse_step_measure:
  assumes "parse_step strtod p = Inr (True, p')"
  shows "parser_measure p' < parser_measure p"
proof (cases "ps_skip p")
  case True
  then show ?thesis using assms parse_state_measure [of strtod "p\<lparr>ps_skip := False\<rparr>" p'] by (simp add: parse_step_def)
next
  case False
  then obtain b q where q: "parse_token strtod p = Inr (b, q)" using assms by (auto simp: parse_step_def split: sum.splits)
  show ?thesis
  proof (cases b)
    case True
    then show ?thesis using assms q parse_token_measure [OF q] \<open>\<not> ps_skip p\<close> by (simp add: parse_step_def)
  next
    case False
    then have "parse_state strtod q = Inr (True, p')" using assms q \<open>\<not> ps_skip p\<close> by (simp add: parse_step_def)
    from parse_state_measure [OF this] parse_token_measure [OF q] show ?thesis by simp
  qed
qed

function sax_parse_internal :: "(string \<Rightarrow> string option) \<Rightarrow> parser \<Rightarrow> json_exception + parser" where
  "sax_parse_internal strtod p =
     (case parse_step strtod p of
        Inl e \<Rightarrow> Inl e
      | Inr (True, p') \<Rightarrow> sax_parse_internal strtod p'
      | Inr (False, p') \<Rightarrow> Inr p')"
  by pat_completeness auto
termination
  by (relation "measure (\<lambda>(_, p). parser_measure p)") (auto dest: parse_step_measure)

declare sax_parse_internal.simps [simp del]

definition new_parser :: "(string \<Rightarrow> string option) \<Rightarrow> string \<Rightarrow> parser" where
  "new_parser strtod text =
     get_token strtod \<lparr>ps_lexer = new_lexer text, ps_last_token = Uninitialized, ps_states = [], ps_skip = False,
       ps_sax = \<lparr>dom_root = V_null, ref_stack = []\<rparr>\<rparr>"

definition json_parse :: "(string \<Rightarrow> string option) \<Rightarrow> string \<Rightarrow> json_exception + json_value" where
  "json_parse strtod text =
     (case sax_parse_internal strtod (new_parser strtod text) of
        Inl e \<Rightarrow> Inl e
      | Inr p \<Rightarrow>
          let p = get_token strtod p in
          if ps_last_token p \<noteq> End_of_input then Inl (syntax_error End_of_input ''value'' p)
          else Inr (dom_root (ps_sax p)))"

end
