(* ===== verification/Json_Parse_Exact.thy ===== *)
theory Json_Parse_Exact
  imports Json_Parser
begin

text \<open>
  The parser is exact: it returns a value for a text if and only if the text is a document of the grammar, and then the
  value the grammar gives. Both directions follow the loop from the state in which a value is expected to the state
  after the value.
\<close>

section \<open>States of the loop\<close>

text \<open>A value is expected from \<open>l\<close> on; or a value is complete and the state is evaluated next.\<close>

definition expects :: "bool list \<Rightarrow> sax_dom \<Rightarrow> token_type \<times> lexer \<Rightarrow> parser" where
  "expects states d x = \<lparr>ps_lexer = snd x, ps_last_token = fst x, ps_states = states, ps_skip = False, ps_sax = d\<rparr>"

definition completed :: "bool list \<Rightarrow> sax_dom \<Rightarrow> token_type \<times> lexer \<Rightarrow> parser" where
  "completed states d x = \<lparr>ps_lexer = snd x, ps_last_token = fst x, ps_states = states, ps_skip = True, ps_sax = d\<rparr>"

text \<open>A key is expected from \<open>l\<close> on, in an object whose state is already on the stack.\<close>

definition run_member :: "(string \<Rightarrow> string option) \<Rightarrow> bool list \<Rightarrow> sax_dom \<Rightarrow> lexer \<Rightarrow> json_exception + parser" where
  "run_member strtod states d l =
     (case parse_key strtod (expects (False # states) d (lex_scan strtod l)) of
        Inl e \<Rightarrow> Inl e
      | Inr p \<Rightarrow> sax_parse_internal strtod (get_token strtod p))"

lemma get_token_eq:
  "get_token strtod (p\<lparr>ps_skip := b\<rparr>) = (get_token strtod p)\<lparr>ps_skip := b\<rparr>"
  "get_token strtod (p\<lparr>ps_states := s\<rparr>) = (get_token strtod p)\<lparr>ps_states := s\<rparr>"
  by (simp_all add: get_token_def split: prod.splits)

lemma run_completed:
  assumes "parse_token strtod p = Inr (False, q)" "\<not> ps_skip p" "\<not> ps_skip q"
  shows "sax_parse_internal strtod p = sax_parse_internal strtod (q\<lparr>ps_skip := True\<rparr>)"
proof -
  have "q\<lparr>ps_skip := False\<rparr> = q" using assms(3) by (cases q) simp
  then have "parse_state strtod (q\<lparr>ps_skip := False\<rparr>) = parse_state strtod q" by (rule arg_cong)
  then have "parse_step strtod p = parse_step strtod (q\<lparr>ps_skip := True\<rparr>)"
    using assms by (simp add: parse_step_def)
  then show ?thesis by (subst (1 2) sax_parse_internal.simps) simp
qed

lemma run_continue:
  "parse_step strtod p = Inr (True, q) \<Longrightarrow> sax_parse_internal strtod p = sax_parse_internal strtod q"
  by (subst sax_parse_internal.simps) simp

lemma run_error: "parse_step strtod p = Inl e \<Longrightarrow> sax_parse_internal strtod p = Inl e"
  by (subst sax_parse_internal.simps) simp

lemma run_scalar:
  assumes "token_scalar t l = Some v"
  shows "sax_parse_internal strtod (expects S d (t, l)) = sax_parse_internal strtod (completed S (handle_value v d) (t, l))"
proof -
  have "parse_token strtod (expects S d (t, l)) = Inr (False, expects S (handle_value v d) (t, l))"
    using assms by (cases t) (auto simp: parse_token_def expects_def on_sax_def)
  then show ?thesis by (subst run_completed) (auto simp: expects_def completed_def)
qed

lemma parse_key_states:
  "parse_key strtod (p\<lparr>ps_states := s\<rparr>) = map_sum id (\<lambda>q. q\<lparr>ps_states := s\<rparr>) (parse_key strtod p)"
proof -
  have "on_sax f (p\<lparr>ps_states := s\<rparr>) = (on_sax f p)\<lparr>ps_states := s\<rparr>" for f p by (simp add: on_sax_def)
  moreover have "syntax_error e c (p\<lparr>ps_states := s\<rparr>) = syntax_error e c p" for e c p
    by (simp add: syntax_error_def exception_message_def)
  ultimately show ?thesis by (simp add: parse_key_def Let_def get_token_eq)
qed

subsection \<open>Arrays\<close>

lemma run_array_empty:
  assumes "lex_scan strtod l = (End_array, l')"
  shows "sax_parse_internal strtod (expects S d (Begin_array, l))
     = sax_parse_internal strtod (completed S (handle_value (V_array []) d) (End_array, l'))"
proof -
  have "parse_token strtod (expects S d (Begin_array, l)) = Inr (False, expects S (end_array (start_array d)) (End_array, l'))"
    using assms by (simp add: parse_token_def Let_def get_token_def expects_def on_sax_def)
  moreover have "end_array (start_array d) = handle_value (V_array []) d"
    by (simp add: end_array_def start_array_def)
  ultimately show ?thesis by (subst run_completed) (auto simp: expects_def completed_def)
qed

lemma run_array_begin:
  assumes "fst (lex_scan strtod l) \<noteq> End_array"
  shows "sax_parse_internal strtod (expects S d (Begin_array, l))
     = sax_parse_internal strtod (expects (True # S) (start_array d) (lex_scan strtod l))"
proof (rule run_continue)
  show "parse_step strtod (expects S d (Begin_array, l)) = Inr (True, expects (True # S) (start_array d) (lex_scan strtod l))"
    using assms by (auto simp: parse_step_def parse_token_def Let_def get_token_def expects_def on_sax_def split: prod.splits)
qed

lemma run_array_next:
  "lex_scan strtod l = (Value_separator, l') \<Longrightarrow>
   sax_parse_internal strtod (completed (True # S) d (t, l)) = sax_parse_internal strtod (expects (True # S) d (lex_scan strtod l'))"
  by (rule run_continue) (simp add: parse_step_def parse_state_def Let_def get_token_def expects_def completed_def split: prod.splits)

lemma run_array_end:
  "lex_scan strtod l = (End_array, l') \<Longrightarrow>
   sax_parse_internal strtod (completed (True # S) d (t, l)) = sax_parse_internal strtod (completed S (end_array d) (End_array, l'))"
  by (rule run_continue) (simp add: parse_step_def parse_state_def Let_def get_token_def completed_def on_sax_def)

lemma run_array_error:
  "lex_scan strtod l = (t', l') \<Longrightarrow> t' \<noteq> Value_separator \<Longrightarrow> t' \<noteq> End_array \<Longrightarrow>
   \<exists>e. sax_parse_internal strtod (completed (True # S) d (t, l)) = Inl e"
  by (rule exI, rule run_error) (simp add: parse_step_def parse_state_def Let_def get_token_def completed_def)

subsection \<open>Objects\<close>

lemma run_object_empty:
  assumes "lex_scan strtod l = (End_object, l')"
  shows "sax_parse_internal strtod (expects S d (Begin_object, l))
     = sax_parse_internal strtod (completed S (handle_value (V_object []) d) (End_object, l'))"
proof -
  have "parse_token strtod (expects S d (Begin_object, l)) = Inr (False, expects S (end_object (start_object d)) (End_object, l'))"
    using assms by (simp add: parse_token_def Let_def get_token_def expects_def on_sax_def)
  moreover have "end_object (start_object d) = handle_value (V_object []) d"
    by (simp add: end_object_def start_object_def)
  ultimately show ?thesis by (subst run_completed) (auto simp: expects_def completed_def)
qed

lemma run_object_begin:
  assumes "fst (lex_scan strtod l) \<noteq> End_object"
  shows "sax_parse_internal strtod (expects S d (Begin_object, l)) = run_member strtod S (start_object d) l"
proof -
  let ?p = "expects S (start_object d) (lex_scan strtod l)"
  have p: "get_token strtod (on_sax start_object (expects S d (Begin_object, l))) = ?p"
    by (simp add: get_token_def expects_def on_sax_def split: prod.splits)
  have member: "expects (False # S) (start_object d) (lex_scan strtod l) = ?p\<lparr>ps_states := False # S\<rparr>"
    by (simp add: expects_def)
  have states: "ps_states q = S" if "parse_key strtod ?p = Inr q" for q
    using that by (auto simp: parse_key_def Let_def get_token_def on_sax_def expects_def split: if_splits prod.splits)
  show ?thesis
  proof (cases "parse_key strtod ?p")
    case (Inl e)
    then have "parse_step strtod (expects S d (Begin_object, l)) = Inl e"
      using assms p by (simp add: parse_step_def parse_token_def Let_def) (simp add: expects_def)
    then show ?thesis using run_error Inl by (simp add: run_member_def member parse_key_states)
  next
    case (Inr q)
    then have "parse_step strtod (expects S d (Begin_object, l)) = Inr (True, get_token strtod (q\<lparr>ps_states := False # S\<rparr>))"
      using assms p states [OF Inr] by (simp add: parse_step_def parse_token_def Let_def) (simp add: expects_def)
    then show ?thesis using run_continue Inr by (simp add: run_member_def member parse_key_states)
  qed
qed

lemma run_object_next:
  assumes "lex_scan strtod l = (Value_separator, l')"
  shows "sax_parse_internal strtod (completed (False # S) d (t, l)) = run_member strtod S d l'"
proof -
  let ?p = "expects (False # S) d (lex_scan strtod l')"
  have p: "get_token strtod (get_token strtod ((completed (False # S) d (t, l))\<lparr>ps_skip := False\<rparr>)) = ?p"
    using assms by (simp add: get_token_def expects_def completed_def split: prod.splits)
  have step: "parse_step strtod (completed (False # S) d (t, l)) =
      (case parse_key strtod ?p of Inl e \<Rightarrow> Inl e | Inr q \<Rightarrow> Inr (True, get_token strtod q))"
    using assms p [symmetric] by (simp add: parse_step_def parse_state_def Let_def get_token_def completed_def)
  show ?thesis
  proof (cases "parse_key strtod ?p")
    case (Inl e)
    then show ?thesis using run_error step by (simp add: run_member_def)
  next
    case (Inr q)
    then show ?thesis using run_continue step by (simp add: run_member_def)
  qed
qed

lemma run_object_end:
  "lex_scan strtod l = (End_object, l') \<Longrightarrow>
   sax_parse_internal strtod (completed (False # S) d (t, l)) = sax_parse_internal strtod (completed S (end_object d) (End_object, l'))"
  by (rule run_continue) (simp add: parse_step_def parse_state_def Let_def get_token_def completed_def on_sax_def)

lemma run_object_error:
  "lex_scan strtod l = (t', l') \<Longrightarrow> t' \<noteq> Value_separator \<Longrightarrow> t' \<noteq> End_object \<Longrightarrow>
   \<exists>e. sax_parse_internal strtod (completed (False # S) d (t, l)) = Inl e"
  by (rule exI, rule run_error) (simp add: parse_step_def parse_state_def Let_def get_token_def completed_def)

lemma run_member_value:
  assumes "lex_scan strtod l = (Value_string, l1)" "lex_scan strtod l1 = (Name_separator, l2)"
  shows "run_member strtod S d l
     = sax_parse_internal strtod (expects (False # S) (sax_key (lx_token_buffer l1) d) (lex_scan strtod l2))"
proof -
  have "parse_key strtod (expects (False # S) d (lex_scan strtod l))
      = Inr (expects (False # S) (sax_key (lx_token_buffer l1) d) (Name_separator, l2))"
    using assms by (simp add: parse_key_def Let_def get_token_def expects_def on_sax_def)
  then show ?thesis using assms by (simp add: run_member_def get_token_def expects_def split: prod.splits)
qed

lemma run_member_success:
  assumes "run_member strtod S d l = Inr q"
  obtains l1 l2 where "lex_scan strtod l = (Value_string, l1)" "lex_scan strtod l1 = (Name_separator, l2)"
proof -
  obtain t l1 where 1: "lex_scan strtod l = (t, l1)" by fastforce
  obtain t' l2 where 2: "lex_scan strtod l1 = (t', l2)" by fastforce
  have "t = Value_string" "t' = Name_separator"
    using assms 1 2 by (auto simp: run_member_def parse_key_def Let_def get_token_def expects_def on_sax_def split: if_splits)
  with 1 2 that show ?thesis by simp
qed

section \<open>Every document is accepted\<close>

lemma object_put_twice [simp]: "object_put k v (object_put k u fs) = object_put k v fs"
  by (induction fs) auto

lemma sax_key_value:
  assumes "ref_stack d = Open_object fs k0 # cs"
  shows "handle_value v (sax_key k d) = d\<lparr>ref_stack := Open_object (object_put k v fs) k # cs\<rparr>"
  using assms by (auto simp: handle_value_def sax_key_def)

lemma handle_value_array:
  "ref_stack d = Open_array us # cs \<Longrightarrow> handle_value v d = d\<lparr>ref_stack := Open_array (us @ [v]) # cs\<rparr>"
  by (simp add: handle_value_def)

lemma end_container:
  "ref_stack d = Open_array us # cs \<Longrightarrow> end_array d = handle_value (V_array us) (d\<lparr>ref_stack := cs\<rparr>)"
  "ref_stack d = Open_object fs k # cs \<Longrightarrow> end_object d = handle_value (V_object fs) (d\<lparr>ref_stack := cs\<rparr>)"
  by (simp_all add: end_array_def end_object_def)

definition ends_value :: "string \<Rightarrow> bool" where
  "ends_value r \<longleftrightarrow> r = [] \<or> \<not> continues_number (hd r)"

lemma ends_value_Cons [simp]:
  "ends_value (CHR '','' # r)" "ends_value (CHR '']'' # r)" "ends_value (CHR ''}'' # r)" "ends_value (CHR 0x00 # r)"
  "ends_value []"
  by (simp_all add: ends_value_def continues_number_def is_dec_def float_mark_def)

lemma ends_value_ws: "ws_text w \<Longrightarrow> ends_value r \<Longrightarrow> ends_value (w @ r)"
  by (cases w) (auto simp: ends_value_def continues_number_def is_dec_def float_mark_def is_ws_def)

lemma scan_punct:
  assumes "reads l (w @ c # r)" "ws_text w" "punctuation c = Some t"
  obtains l' where "lex_scan strtod l = (t, l')" "reads l' r"
  using scan_punctuation [OF reads_begins [OF assms(1)] assms(2,3), of strtod] lex_scan_fetch [OF assms(1), of strtod] by auto

lemma punctuation_simps [simp]:
  "punctuation (CHR ''['') = Some Begin_array" "punctuation (CHR '']'') = Some End_array"
  "punctuation (CHR ''{'') = Some Begin_object" "punctuation (CHR ''}'') = Some End_object"
  "punctuation (CHR '':'') = Some Name_separator" "punctuation (CHR '','') = Some Value_separator"
  by (simp_all add: punctuation_def)

text \<open>Which token a text begins with.\<close>

lemma punctuation_inj: "punctuation c = Some t \<Longrightarrow> punctuation c' = Some t \<Longrightarrow> c = c'"
  by (auto simp: punctuation_def split: if_splits)

lemma scanned_punctuationD:
  assumes "scanned strtod cs t l'" "punctuation c = Some t"
  shows "\<exists>w r. cs = w @ c # r \<and> ws_text w \<and> reads l' r"
  using assms
proof cases
  case (scanned_punctuation w c' r)
  with assms(2) punctuation_inj [of c t c'] show ?thesis by blast
qed (auto simp: punctuation_def split: if_splits)

lemma value_first: "value_text strtod v s \<Longrightarrow> \<exists>c s'. s = c # s' \<and> \<not> is_ws c \<and> c \<noteq> CHR '']'' \<and> c \<noteq> CHR 0xEF"
proof (cases rule: value_text.cases)
  assume "scalar_text strtod v s"
  then show ?thesis
    by cases (auto simp: number_text_iff is_ws_def is_dec_def)
qed (auto simp: is_ws_def)

lemma first_unique:
  assumes "w @ c # r = w' @ c' # r'" "ws_text w" "ws_text w'" "\<not> is_ws c" "\<not> is_ws c'"
  shows "c = c'"
proof -
  have "hd (dropWhile is_ws (w @ c # r)) = c" "hd (dropWhile is_ws (w' @ c' # r')) = c'"
    using assms(2-5) by (simp_all add: dropWhile_append2 list_all_iff)
  then show ?thesis using assms(1) by simp
qed

lemma fetch_not_End_array:
  assumes "begins l (w @ s @ r)" "ws_text w" "value_text strtod v s"
  shows "fst (fetch strtod l) \<noteq> End_array"
proof
  assume "fst (fetch strtod l) = End_array"
  then obtain w' r' where "w @ s @ r = w' @ CHR '']'' # r'" "ws_text w'"
    using scanned_punctuationD [OF scan_scanned [OF assms(1)], of strtod End_array "snd (fetch strtod l)" "CHR '']''"]
    by (metis prod.collapse punctuation_simps(2))
  moreover obtain c s' where "s = c # s'" "\<not> is_ws c" "c \<noteq> CHR '']''" using value_first [OF assms(3)] by blast
  ultimately show False using first_unique [of w c "s' @ r" w' "CHR '']''" r'] assms(2) by (simp add: is_ws_def)
qed

text \<open>What the three kinds of text lead to.\<close>

definition accepts_value :: "(string \<Rightarrow> string option) \<Rightarrow> json_value \<Rightarrow> string \<Rightarrow> bool" where
  "accepts_value strtod v s \<longleftrightarrow>
     (\<forall>l w r S d. begins l (w @ s @ r) \<longrightarrow> ws_text w \<longrightarrow> ends_value r \<longrightarrow>
        (\<exists>x. reads (snd x) r \<and>
           sax_parse_internal strtod (expects S d (fetch strtod l)) = sax_parse_internal strtod (completed S (handle_value v d) x)))"

definition accepts_elements :: "(string \<Rightarrow> string option) \<Rightarrow> json_value list \<Rightarrow> string \<Rightarrow> bool" where
  "accepts_elements strtod vs b \<longleftrightarrow>
     (\<forall>l r S d us cs. reads l (b @ CHR '']'' # r) \<longrightarrow> ref_stack d = Open_array us # cs \<longrightarrow>
        (\<exists>x. reads (snd x) r \<and> sax_parse_internal strtod (expects (True # S) d (lex_scan strtod l))
           = sax_parse_internal strtod (completed S (handle_value (V_array (us @ vs)) (d\<lparr>ref_stack := cs\<rparr>)) x)))"

definition accepts_members :: "(string \<Rightarrow> string option) \<Rightarrow> (string \<times> json_value) list \<Rightarrow> string \<Rightarrow> bool" where
  "accepts_members strtod fs b \<longleftrightarrow>
     (\<forall>l r S d us k cs. reads l (b @ CHR ''}'' # r) \<longrightarrow> ref_stack d = Open_object us k # cs \<longrightarrow>
        (\<exists>x. reads (snd x) r \<and> run_member strtod S d l
           = sax_parse_internal strtod
               (completed S (handle_value (V_object (fold (\<lambda>(k, v). object_put k v) fs us)) (d\<lparr>ref_stack := cs\<rparr>)) x)))"

lemma accepts_valueD:
  assumes "accepts_value strtod v s" "reads l (w @ s @ r)" "ws_text w" "ends_value r"
  obtains x where "reads (snd x) r"
    "sax_parse_internal strtod (expects S d (lex_scan strtod l)) = sax_parse_internal strtod (completed S (handle_value v d) x)"
  using assms lex_scan_fetch [OF assms(2), of strtod] reads_begins [OF assms(2)] unfolding accepts_value_def by metis

lemma accepts_scalar: "scalar_text strtod v s \<Longrightarrow> accepts_value strtod v s"
  unfolding accepts_value_def
proof (intro allI impI)
  fix l w r S d
  assume "scalar_text strtod v s" "begins l (w @ s @ r)" "ws_text w" "ends_value r"
  then obtain t l' where "fetch strtod l = (t, l')" "reads l' r" "token_scalar t l' = Some v"
    using scan_scalar [of strtod v s l w r] by (auto simp: ends_value_def)
  with run_scalar show "\<exists>x. reads (snd x) r \<and>
      sax_parse_internal strtod (expects S d (fetch strtod l)) = sax_parse_internal strtod (completed S (handle_value v d) x)"
    by (intro exI [of _ "(t, l')"]) simp
qed

lemma accepts_array_empty: "ws_text u \<Longrightarrow> accepts_value strtod (V_array []) (CHR ''['' # u @ '']'')"
  unfolding accepts_value_def
proof (intro allI impI)
  fix l w r S d
  assume u: "ws_text u" and l: "begins l (w @ (CHR ''['' # u @ '']'') @ r)" "ws_text w"
  obtain l1 where 1: "fetch strtod l = (Begin_array, l1)" "reads l1 (u @ CHR '']'' # r)"
    using scan_punctuation [of l w "CHR ''[''" "u @ CHR '']'' # r" Begin_array strtod] l by auto
  obtain l2 where 2: "lex_scan strtod l1 = (End_array, l2)" "reads l2 r" using scan_punct [OF 1(2) u] by (metis punctuation_simps(2))
  show "\<exists>x. reads (snd x) r \<and>
      sax_parse_internal strtod (expects S d (fetch strtod l)) = sax_parse_internal strtod (completed S (handle_value (V_array []) d) x)"
    using run_array_empty [OF 2(1)] 1(1) 2(2) by (intro exI [of _ "(End_array, l2)"]) simp
qed

lemma accepts_array:
  assumes "accepts_elements strtod vs b" "elements_text strtod vs b"
  shows "accepts_value strtod (V_array vs) (CHR ''['' # b @ '']'')"
  unfolding accepts_value_def
proof (intro allI impI)
  fix l w r S d
  assume l: "begins l (w @ (CHR ''['' # b @ '']'') @ r)" "ws_text w"
  obtain l1 where 1: "fetch strtod l = (Begin_array, l1)" "reads l1 (b @ CHR '']'' # r)"
    using scan_punctuation [of l w "CHR ''[''" "b @ CHR '']'' # r" Begin_array strtod] l by auto
  have "fst (lex_scan strtod l1) \<noteq> End_array"
    using assms(2)
  proof cases
    case (elements_one u v s u')
    then show ?thesis
      using fetch_not_End_array [of l1 u s "u' @ CHR '']'' # r" strtod v] 1(2) lex_scan_fetch [OF 1(2)] by (simp add: reads_begins)
  next
    case (elements_more u v s u' vs' b')
    then show ?thesis
      using fetch_not_End_array [of l1 u s "u' @ CHR '','' # b' @ CHR '']'' # r" strtod v] 1(2) lex_scan_fetch [OF 1(2)]
      by (simp add: reads_begins)
  qed
  from run_array_begin [OF this]
  have "sax_parse_internal strtod (expects S d (fetch strtod l))
      = sax_parse_internal strtod (expects (True # S) (start_array d) (lex_scan strtod l1))" using 1(1) by simp
  moreover have "ref_stack (start_array d) = Open_array [] # ref_stack d" "(start_array d)\<lparr>ref_stack := ref_stack d\<rparr> = d"
    by (simp_all add: start_array_def)
  ultimately show "\<exists>x. reads (snd x) r \<and>
      sax_parse_internal strtod (expects S d (fetch strtod l)) = sax_parse_internal strtod (completed S (handle_value (V_array vs) d) x)"
    using assms(1) 1(2) unfolding accepts_elements_def by fastforce
qed

lemma accepts_object_empty: "ws_text u \<Longrightarrow> accepts_value strtod (V_object []) (CHR ''{'' # u @ ''}'')"
  unfolding accepts_value_def
proof (intro allI impI)
  fix l w r S d
  assume u: "ws_text u" and l: "begins l (w @ (CHR ''{'' # u @ ''}'') @ r)" "ws_text w"
  obtain l1 where 1: "fetch strtod l = (Begin_object, l1)" "reads l1 (u @ CHR ''}'' # r)"
    using scan_punctuation [of l w "CHR ''{''" "u @ CHR ''}'' # r" Begin_object strtod] l by auto
  obtain l2 where 2: "lex_scan strtod l1 = (End_object, l2)" "reads l2 r" using scan_punct [OF 1(2) u] by (metis punctuation_simps(4))
  show "\<exists>x. reads (snd x) r \<and>
      sax_parse_internal strtod (expects S d (fetch strtod l)) = sax_parse_internal strtod (completed S (handle_value (V_object []) d) x)"
    using run_object_empty [OF 2(1)] 1(1) 2(2) by (intro exI [of _ "(End_object, l2)"]) simp
qed

lemma members_first:
  "members_text strtod fs b \<Longrightarrow> \<exists>w t k b'. b = w @ quote # t @ quote # b' \<and> ws_text w \<and> string_text t k"
  by (cases rule: members_text.cases) auto

lemma scan_member_key:
  assumes "reads l (w @ quote # t @ quote # r)" "ws_text w" "string_text t k"
  obtains l' where "lex_scan strtod l = (Value_string, l')" "reads l' r" "lx_token_buffer l' = k"
  using scan_key [OF reads_begins [OF assms(1)] assms(2,3), of strtod] lex_scan_fetch [OF assms(1), of strtod] by auto

lemma accepts_object:
  assumes "accepts_members strtod fs b" "members_text strtod fs b"
  shows "accepts_value strtod (json_object fs) (CHR ''{'' # b @ ''}'')"
  unfolding accepts_value_def
proof (intro allI impI)
  fix l w r S d
  assume l: "begins l (w @ (CHR ''{'' # b @ ''}'') @ r)" "ws_text w"
  obtain l1 where 1: "fetch strtod l = (Begin_object, l1)" "reads l1 (b @ CHR ''}'' # r)"
    using scan_punctuation [of l w "CHR ''{''" "b @ CHR ''}'' # r" Begin_object strtod] l by auto
  obtain u t k b' where b: "b = u @ quote # t @ quote # b'" "ws_text u" "string_text t k" using members_first [OF assms(2)] by blast
  obtain l2 where "lex_scan strtod l1 = (Value_string, l2)"
    using scan_member_key [of l1 u t "b' @ CHR ''}'' # r" k strtod] 1(2) b by auto
  then have "sax_parse_internal strtod (expects S d (fetch strtod l)) = run_member strtod S (start_object d) l1"
    using run_object_begin [of strtod l1 S d] 1(1) by simp
  moreover have "ref_stack (start_object d) = Open_object [] [] # ref_stack d" "(start_object d)\<lparr>ref_stack := ref_stack d\<rparr> = d"
    by (simp_all add: start_object_def)
  ultimately show "\<exists>x. reads (snd x) r \<and>
      sax_parse_internal strtod (expects S d (fetch strtod l)) = sax_parse_internal strtod (completed S (handle_value (json_object fs) d) x)"
    using assms(1) 1(2) unfolding accepts_members_def json_object_def by fastforce
qed

lemma accepts_elements_one:
  assumes "ws_text w" "accepts_value strtod v s" "ws_text w'"
  shows "accepts_elements strtod [v] (w @ s @ w')"
  unfolding accepts_elements_def
proof (intro allI impI)
  fix l r S us cs and d :: sax_dom
  assume l: "reads l ((w @ s @ w') @ CHR '']'' # r)" and d: "ref_stack d = Open_array us # cs"
  then have "reads l (w @ s @ (w' @ CHR '']'' # r))" by simp
  moreover have "ends_value (w' @ CHR '']'' # r)" by (rule ends_value_ws [OF assms(3)]) simp
  ultimately obtain x where x: "reads (snd x) (w' @ CHR '']'' # r)"
      "sax_parse_internal strtod (expects (True # S) d (lex_scan strtod l)) = sax_parse_internal strtod (completed (True # S) (handle_value v d) x)"
    using accepts_valueD [OF assms(2) _ assms(1)] by metis
  obtain l2 where 2: "lex_scan strtod (snd x) = (End_array, l2)" "reads l2 r"
    using scan_punct [OF x(1) assms(3)] by (metis punctuation_simps(2))
  have "end_array (handle_value v d) = handle_value (V_array (us @ [v])) (d\<lparr>ref_stack := cs\<rparr>)"
    using d by (simp add: handle_value_array end_container)
  with run_array_end [OF 2(1), of S "handle_value v d" "fst x"] x(2) 2(2)
  show "\<exists>x. reads (snd x) r \<and> sax_parse_internal strtod (expects (True # S) d (lex_scan strtod l))
      = sax_parse_internal strtod (completed S (handle_value (V_array (us @ [v])) (d\<lparr>ref_stack := cs\<rparr>)) x)"
    by (intro exI [of _ "(End_array, l2)"]) simp
qed

lemma accepts_elements_more:
  assumes "ws_text w" "accepts_value strtod v s" "ws_text w'" "accepts_elements strtod vs b"
  shows "accepts_elements strtod (v # vs) (w @ s @ w' @ CHR '','' # b)"
  unfolding accepts_elements_def
proof (intro allI impI)
  fix l r S us cs and d :: sax_dom
  assume l: "reads l ((w @ s @ w' @ CHR '','' # b) @ CHR '']'' # r)" and d: "ref_stack d = Open_array us # cs"
  then have "reads l (w @ s @ (w' @ CHR '','' # b @ CHR '']'' # r))" by simp
  moreover have "ends_value (w' @ CHR '','' # b @ CHR '']'' # r)" by (rule ends_value_ws [OF assms(3)]) simp
  ultimately obtain x where x: "reads (snd x) (w' @ CHR '','' # b @ CHR '']'' # r)"
      "sax_parse_internal strtod (expects (True # S) d (lex_scan strtod l)) = sax_parse_internal strtod (completed (True # S) (handle_value v d) x)"
    using accepts_valueD [OF assms(2) _ assms(1)] by metis
  obtain l2 where 2: "lex_scan strtod (snd x) = (Value_separator, l2)" "reads l2 (b @ CHR '']'' # r)"
    using scan_punct [OF x(1) assms(3)] by (metis punctuation_simps(6))
  have "ref_stack (handle_value v d) = Open_array (us @ [v]) # cs" "(handle_value v d)\<lparr>ref_stack := cs\<rparr> = d\<lparr>ref_stack := cs\<rparr>"
    using d by (simp_all add: handle_value_array)
  with assms(4) 2(2) obtain y where "reads (snd y) r" "sax_parse_internal strtod (expects (True # S) (handle_value v d) (lex_scan strtod l2))
      = sax_parse_internal strtod (completed S (handle_value (V_array (us @ v # vs)) (d\<lparr>ref_stack := cs\<rparr>)) y)"
    unfolding accepts_elements_def by (metis append.assoc append_Cons append_Nil)
  with run_array_next [OF 2(1), of S "handle_value v d" "fst x"] x(2)
  show "\<exists>x. reads (snd x) r \<and> sax_parse_internal strtod (expects (True # S) d (lex_scan strtod l))
      = sax_parse_internal strtod (completed S (handle_value (V_array (us @ v # vs)) (d\<lparr>ref_stack := cs\<rparr>)) x)"
    by (intro exI [of _ y]) simp
qed

lemma run_member_accepts:
  assumes "reads l (w0 @ quote # t @ quote # w1 @ CHR '':'' # w @ s @ r)" "ws_text w0" "string_text t k" "ws_text w1" "ws_text w"
    and "accepts_value strtod v s" "ends_value r" "ref_stack d = Open_object us k0 # cs"
  obtains x where "reads (snd x) r"
    "run_member strtod S d l
      = sax_parse_internal strtod (completed (False # S) (d\<lparr>ref_stack := Open_object (object_put k v us) k # cs\<rparr>) x)"
proof -
  obtain l1 where 1: "lex_scan strtod l = (Value_string, l1)" "reads l1 (w1 @ CHR '':'' # w @ s @ r)" "lx_token_buffer l1 = k"
    using scan_member_key [OF assms(1-3)] by blast
  obtain l2 where 2: "lex_scan strtod l1 = (Name_separator, l2)" "reads l2 (w @ s @ r)"
    using scan_punct [OF 1(2) assms(4)] by (metis punctuation_simps(5))
  obtain x where "reads (snd x) r" "sax_parse_internal strtod (expects (False # S) (sax_key k d) (lex_scan strtod l2))
      = sax_parse_internal strtod (completed (False # S) (handle_value v (sax_key k d)) x)"
    using accepts_valueD [OF assms(6) 2(2) assms(5,7)] by metis
  with run_member_value [OF 1(1) 2(1), of S d] 1(3) sax_key_value [OF assms(8)] that show ?thesis by simp
qed

lemma accepts_members_one:
  assumes "ws_text w0" "string_text t k" "ws_text w1" "ws_text w" "accepts_value strtod v s" "ws_text w'"
  shows "accepts_members strtod [(k, v)] (w0 @ quote # t @ quote # w1 @ CHR '':'' # w @ s @ w')"
  unfolding accepts_members_def
proof (intro allI impI)
  fix l r S us k0 cs and d :: sax_dom
  assume l: "reads l ((w0 @ quote # t @ quote # w1 @ CHR '':'' # w @ s @ w') @ CHR ''}'' # r)" and d: "ref_stack d = Open_object us k0 # cs"
  let ?d = "d\<lparr>ref_stack := Open_object (object_put k v us) k # cs\<rparr>"
  have "reads l (w0 @ quote # t @ quote # w1 @ CHR '':'' # w @ s @ (w' @ CHR ''}'' # r))" using l by simp
  moreover have "ends_value (w' @ CHR ''}'' # r)" by (rule ends_value_ws [OF assms(6)]) simp
  ultimately obtain x where x: "reads (snd x) (w' @ CHR ''}'' # r)"
      "run_member strtod S d l = sax_parse_internal strtod (completed (False # S) ?d x)"
    using run_member_accepts assms(1-5) d by metis
  obtain l2 where 2: "lex_scan strtod (snd x) = (End_object, l2)" "reads l2 r"
    using scan_punct [OF x(1) assms(6)] by (metis punctuation_simps(4))
  have "end_object ?d = handle_value (V_object (object_put k v us)) (d\<lparr>ref_stack := cs\<rparr>)"
    by (simp add: end_container)
  with run_object_end [OF 2(1), of S ?d "fst x"] x(2) 2(2)
  show "\<exists>x. reads (snd x) r \<and> run_member strtod S d l = sax_parse_internal strtod
      (completed S (handle_value (V_object (fold (\<lambda>(k, v). object_put k v) [(k, v)] us)) (d\<lparr>ref_stack := cs\<rparr>)) x)"
    by (intro exI [of _ "(End_object, l2)"]) simp
qed

lemma accepts_members_more:
  assumes "ws_text w0" "string_text t k" "ws_text w1" "ws_text w" "accepts_value strtod v s" "ws_text w'" "accepts_members strtod fs b"
  shows "accepts_members strtod ((k, v) # fs) (w0 @ quote # t @ quote # w1 @ CHR '':'' # w @ s @ w' @ CHR '','' # b)"
  unfolding accepts_members_def
proof (intro allI impI)
  fix l r S us k0 cs and d :: sax_dom
  assume l: "reads l ((w0 @ quote # t @ quote # w1 @ CHR '':'' # w @ s @ w' @ CHR '','' # b) @ CHR ''}'' # r)"
    and d: "ref_stack d = Open_object us k0 # cs"
  let ?d = "d\<lparr>ref_stack := Open_object (object_put k v us) k # cs\<rparr>" and ?r = "w' @ CHR '','' # b @ CHR ''}'' # r"
  have "reads l (w0 @ quote # t @ quote # w1 @ CHR '':'' # w @ s @ ?r)" using l by simp
  moreover have "ends_value ?r" by (rule ends_value_ws [OF assms(6)]) simp
  ultimately obtain x where x: "reads (snd x) ?r"
      "run_member strtod S d l = sax_parse_internal strtod (completed (False # S) ?d x)"
    using run_member_accepts assms(1-5) d by metis
  obtain l2 where 2: "lex_scan strtod (snd x) = (Value_separator, l2)" "reads l2 (b @ CHR ''}'' # r)"
    using scan_punct [OF x(1) assms(6)] by (metis punctuation_simps(6))
  have "ref_stack ?d = Open_object (object_put k v us) k # cs" by simp
  with assms(7) 2(2) obtain y where "reads (snd y) r" "run_member strtod S ?d l2 = sax_parse_internal strtod
      (completed S (handle_value (V_object (fold (\<lambda>(k, v). object_put k v) fs (object_put k v us))) (?d\<lparr>ref_stack := cs\<rparr>)) y)"
    unfolding accepts_members_def by blast
  with run_object_next [OF 2(1), of S ?d "fst x"] x(2)
  show "\<exists>x. reads (snd x) r \<and> run_member strtod S d l = sax_parse_internal strtod
      (completed S (handle_value (V_object (fold (\<lambda>(k, v). object_put k v) ((k, v) # fs) us)) (d\<lparr>ref_stack := cs\<rparr>)) x)"
    by (intro exI [of _ y]) simp
qed

lemma grammar_accepted:
  "value_text strtod v s \<Longrightarrow> accepts_value strtod v s"
  "elements_text strtod vs b \<Longrightarrow> accepts_elements strtod vs b"
  "members_text strtod fs b' \<Longrightarrow> accepts_members strtod fs b'"
  by (induction rule: value_text_elements_text_members_text.inducts)
    (simp_all add: accepts_scalar accepts_array_empty accepts_array accepts_object_empty accepts_object accepts_elements_one
      accepts_elements_more accepts_members_one accepts_members_more)

section \<open>Only documents are accepted\<close>

definition sound_value :: "(string \<Rightarrow> string option) \<Rightarrow> string \<Rightarrow> bool" where
  "sound_value strtod cs \<longleftrightarrow>
     (\<forall>l S d q. begins l cs \<longrightarrow> sax_parse_internal strtod (expects S d (fetch strtod l)) = Inr q \<longrightarrow>
        (\<exists>w s v r x. cs = w @ s @ r \<and> ws_text w \<and> value_text strtod v s \<and> reads (snd x) r \<and>
           sax_parse_internal strtod (expects S d (fetch strtod l)) = sax_parse_internal strtod (completed S (handle_value v d) x)))"

definition sound_elements :: "(string \<Rightarrow> string option) \<Rightarrow> string \<Rightarrow> bool" where
  "sound_elements strtod cs \<longleftrightarrow>
     (\<forall>l S d us ds q. reads l cs \<longrightarrow> ref_stack d = Open_array us # ds \<longrightarrow>
        sax_parse_internal strtod (expects (True # S) d (lex_scan strtod l)) = Inr q \<longrightarrow>
        (\<exists>b vs r x. cs = b @ CHR '']'' # r \<and> elements_text strtod vs b \<and> reads (snd x) r \<and>
           sax_parse_internal strtod (expects (True # S) d (lex_scan strtod l))
             = sax_parse_internal strtod (completed S (handle_value (V_array (us @ vs)) (d\<lparr>ref_stack := ds\<rparr>)) x)))"

definition sound_members :: "(string \<Rightarrow> string option) \<Rightarrow> string \<Rightarrow> bool" where
  "sound_members strtod cs \<longleftrightarrow>
     (\<forall>l S d us k ds q. reads l cs \<longrightarrow> ref_stack d = Open_object us k # ds \<longrightarrow> run_member strtod S d l = Inr q \<longrightarrow>
        (\<exists>b fs r x. cs = b @ CHR ''}'' # r \<and> members_text strtod fs b \<and> reads (snd x) r \<and>
           run_member strtod S d l = sax_parse_internal strtod
             (completed S (handle_value (V_object (fold (\<lambda>(k, v). object_put k v) fs us)) (d\<lparr>ref_stack := ds\<rparr>)) x)))"

lemma run_value_error:
  assumes "t \<in> {End_array, End_object, Name_separator, Value_separator, End_of_input, Parse_error} \<or> t = Value_float \<and> lx_value_float l = None"
  shows "\<exists>e. sax_parse_internal strtod (expects S d (t, l)) = Inl e"
proof -
  have "\<exists>e. parse_step strtod (expects S d (t, l)) = Inl e"
    using assms by (auto simp: parse_step_def parse_token_def expects_def)
  then show ?thesis using run_error by blast
qed

lemma lex_scan_scanned: "reads l cs \<Longrightarrow> lex_scan strtod l = (t, l') \<Longrightarrow> scanned strtod cs t l'"
  using scan_scanned [OF reads_begins] lex_scan_fetch by metis

lemma lex_scan_punctuationD:
  assumes "reads l cs" "lex_scan strtod l = (t, l')" "punctuation c = Some t"
  obtains w r where "cs = w @ c # r" "ws_text w" "reads l' r"
  using scanned_punctuationD [OF lex_scan_scanned [OF assms(1,2)] assms(3)] by blast

lemma sound_array:
  assumes "reads l r" "sound_elements strtod r"
    and "sax_parse_internal strtod (expects S d (Begin_array, l)) = Inr q"
  shows "\<exists>b v r' x. r = b @ r' \<and> value_text strtod v (CHR ''['' # b) \<and> reads (snd x) r' \<and>
     sax_parse_internal strtod (expects S d (Begin_array, l)) = sax_parse_internal strtod (completed S (handle_value v d) x)"
proof (cases "fst (lex_scan strtod l) = End_array")
  case True
  then obtain l' where l': "lex_scan strtod l = (End_array, l')" by (metis prod.collapse)
  obtain w r' where "r = w @ CHR '']'' # r'" "ws_text w" "reads l' r'"
    using lex_scan_punctuationD [OF assms(1) l' punctuation_simps(2)] by blast
  then have "r = (w @ '']'') @ r'" "value_text strtod (V_array []) (CHR ''['' # w @ '']'')" "reads (snd (End_array, l')) r'"
    using value_array_empty by simp_all
  with run_array_empty [OF l'] show ?thesis by blast
next
  case False
  note run = run_array_begin [OF this, of S d]
  have "ref_stack (start_array d) = Open_array [] # ref_stack d" "(start_array d)\<lparr>ref_stack := ref_stack d\<rparr> = d"
    by (simp_all add: start_array_def)
  then obtain b vs r' x where "r = b @ CHR '']'' # r'" "elements_text strtod vs b" "reads (snd x) r'"
      and x: "sax_parse_internal strtod (expects (True # S) (start_array d) (lex_scan strtod l))
        = sax_parse_internal strtod (completed S (handle_value (V_array vs) d) x)"
    using assms run unfolding sound_elements_def by (metis append_Nil)
  then have "r = (b @ '']'') @ r'" "value_text strtod (V_array vs) (CHR ''['' # b @ '']'')" "reads (snd x) r'"
    using value_array by simp_all
  with run x show ?thesis by (metis append_Cons)
qed

lemma sound_object:
  assumes "reads l r" "sound_members strtod r"
    and "sax_parse_internal strtod (expects S d (Begin_object, l)) = Inr q"
  shows "\<exists>b v r' x. r = b @ r' \<and> value_text strtod v (CHR ''{'' # b) \<and> reads (snd x) r' \<and>
     sax_parse_internal strtod (expects S d (Begin_object, l)) = sax_parse_internal strtod (completed S (handle_value v d) x)"
proof (cases "fst (lex_scan strtod l) = End_object")
  case True
  then obtain l' where l': "lex_scan strtod l = (End_object, l')" by (metis prod.collapse)
  obtain w r' where "r = w @ CHR ''}'' # r'" "ws_text w" "reads l' r'"
    using lex_scan_punctuationD [OF assms(1) l' punctuation_simps(4)] by blast
  then have "r = (w @ ''}'') @ r'" "value_text strtod (V_object []) (CHR ''{'' # w @ ''}'')" "reads (snd (End_object, l')) r'"
    using value_object_empty by simp_all
  with run_object_empty [OF l'] show ?thesis by blast
next
  case False
  note run = run_object_begin [OF this, of S d]
  have "ref_stack (start_object d) = Open_object [] [] # ref_stack d" "(start_object d)\<lparr>ref_stack := ref_stack d\<rparr> = d"
    by (simp_all add: start_object_def)
  then obtain b fs r' x where "r = b @ CHR ''}'' # r'" "members_text strtod fs b" "reads (snd x) r'"
      and x: "run_member strtod S (start_object d) l = sax_parse_internal strtod (completed S (handle_value (json_object fs) d) x)"
    using assms run unfolding sound_members_def json_object_def by metis
  then have "r = (b @ ''}'') @ r'" "value_text strtod (json_object fs) (CHR ''{'' # b @ ''}'')" "reads (snd x) r'"
    using value_object by simp_all
  with run x show ?thesis by (metis append_Cons)
qed

lemma sound_value_step:
  assumes "\<And>cs'. length cs' < length cs \<Longrightarrow> sound_elements strtod cs' \<and> sound_members strtod cs'"
  shows "sound_value strtod cs"
  unfolding sound_value_def
proof (intro allI impI)
  fix l S d q
  assume l: "begins l cs" and q: "sax_parse_internal strtod (expects S d (fetch strtod l)) = Inr q"
  obtain t l' where t: "fetch strtod l = (t, l')" by fastforce
  let ?goal = "\<exists>w s v r x. cs = w @ s @ r \<and> ws_text w \<and> value_text strtod v s \<and> reads (snd x) r \<and>
      sax_parse_internal strtod (expects S d (fetch strtod l)) = sax_parse_internal strtod (completed S (handle_value v d) x)"
  have scalar: ?goal if "cs = w @ s @ r" "ws_text w" "scalar_text strtod v s" "token_scalar t l' = Some v" "reads l' r" for w s r v
  proof -
    have "reads (snd (t, l')) r" using that(5) by simp
    with that run_scalar [OF that(4), of strtod S d] t value_scalar show ?thesis by metis
  qed
  from scan_scanned [OF l t] show ?goal
  proof cases
    case (scanned_punctuation w c r)
    have shorter: "sound_elements strtod r" "sound_members strtod r" using assms [of r] scanned_punctuation(1) by simp_all
    have not_error: "t \<notin> {End_array, End_object, Name_separator, Value_separator}"
      using q t run_value_error [of t l' strtod S d] by auto
    consider (array) "t = Begin_array" "c = CHR ''[''" | (object) "t = Begin_object" "c = CHR ''{''"
      using scanned_punctuation(3) not_error by (auto simp: punctuation_def split: if_splits)
    then show ?thesis
    proof cases
      case array
      then have "sax_parse_internal strtod (expects S d (Begin_array, l')) = Inr q" using q t by simp
      from sound_array [OF scanned_punctuation(4) shorter(1) this] obtain b v r' x
        where "r = b @ r'" "value_text strtod v (c # b)" "reads (snd x) r'"
          "sax_parse_internal strtod (expects S d (fetch strtod l)) = sax_parse_internal strtod (completed S (handle_value v d) x)"
        using array t by auto
      moreover from this scanned_punctuation have "cs = w @ (c # b) @ r'" by simp
      ultimately show ?thesis using scanned_punctuation(2) by blast
    next
      case object
      then have "sax_parse_internal strtod (expects S d (Begin_object, l')) = Inr q" using q t by simp
      from sound_object [OF scanned_punctuation(4) shorter(2) this] obtain b v r' x
        where "r = b @ r'" "value_text strtod v (c # b)" "reads (snd x) r'"
          "sax_parse_internal strtod (expects S d (fetch strtod l)) = sax_parse_internal strtod (completed S (handle_value v d) x)"
        using object t by auto
      moreover from this scanned_punctuation have "cs = w @ (c # b) @ r'" by simp
      ultimately show ?thesis using scanned_punctuation(2) by blast
    qed
  next
    case (scanned_string w b r)
    have "scalar_text strtod (V_string (lx_token_buffer l')) (quote # b @ [quote])" by (rule scalar_string [OF scanned_string(4)])
    with scanned_string show ?thesis by (intro scalar [of w "quote # b @ [quote]" r "V_string (lx_token_buffer l')"]) simp_all
  next
    case (scanned_scalar w s r v)
    then show ?thesis using scalar by blast
  qed (use q t run_value_error [of t l' strtod S d] in auto)
qed

lemma sound_valueD:
  assumes "sound_value strtod cs" "reads l cs" "sax_parse_internal strtod (expects S d (lex_scan strtod l)) = Inr q"
  obtains w s v r x where "cs = w @ s @ r" "ws_text w" "value_text strtod v s" "reads (snd x) r"
    "sax_parse_internal strtod (expects S d (lex_scan strtod l)) = sax_parse_internal strtod (completed S (handle_value v d) x)"
  using assms lex_scan_fetch [OF assms(2), of strtod] reads_begins [OF assms(2)] unfolding sound_value_def by metis

lemma value_not_empty: "value_text strtod v s \<Longrightarrow> s \<noteq> []"
  using value_first by blast

lemma sound_elements_step:
  assumes "sound_value strtod cs" "\<And>cs'. length cs' < length cs \<Longrightarrow> sound_elements strtod cs'"
  shows "sound_elements strtod cs"
  unfolding sound_elements_def
proof (intro allI impI)
  fix l S us ds q and d :: sax_dom
  let ?run = "sax_parse_internal strtod (expects (True # S) d (lex_scan strtod l))"
  assume l: "reads l cs" and d: "ref_stack d = Open_array us # ds" and q: "?run = Inr q"
  obtain w s v r x where v: "cs = w @ s @ r" "ws_text w" "value_text strtod v s" "reads (snd x) r"
      "?run = sax_parse_internal strtod (completed (True # S) (handle_value v d) x)"
    using sound_valueD [OF assms(1) l q] by metis
  obtain t l2 where t: "lex_scan strtod (snd x) = (t, l2)" by fastforce
  have "t = Value_separator \<or> t = End_array"
    using run_array_error [OF t, of S "handle_value v d" "fst x"] q v(5) by auto
  then show "\<exists>b vs r x. cs = b @ CHR '']'' # r \<and> elements_text strtod vs b \<and> reads (snd x) r \<and>
      ?run = sax_parse_internal strtod (completed S (handle_value (V_array (us @ vs)) (d\<lparr>ref_stack := ds\<rparr>)) x)"
  proof
    assume sep: "t = Value_separator"
    obtain w' r' where r': "r = w' @ CHR '','' # r'" "ws_text w'" "reads l2 r'"
      using lex_scan_punctuationD [OF v(4) t [unfolded sep] punctuation_simps(6)] by blast
    have run: "?run = sax_parse_internal strtod (expects (True # S) (handle_value v d) (lex_scan strtod l2))"
      using run_array_next [OF t [unfolded sep], of S "handle_value v d" "fst x"] v(5) by simp
    moreover have "length r' < length cs" using v(1) r'(1) by simp
    moreover have "ref_stack (handle_value v d) = Open_array (us @ [v]) # ds" "(handle_value v d)\<lparr>ref_stack := ds\<rparr> = d\<lparr>ref_stack := ds\<rparr>"
      using d by (simp_all add: handle_value_array)
    ultimately obtain b vs r'' y where b: "r' = b @ CHR '']'' # r''" "elements_text strtod vs b" "reads (snd y) r''"
        "sax_parse_internal strtod (expects (True # S) (handle_value v d) (lex_scan strtod l2))
          = sax_parse_internal strtod (completed S (handle_value (V_array ((us @ [v]) @ vs)) (d\<lparr>ref_stack := ds\<rparr>)) y)"
      using assms(2) [of r'] r'(3) q unfolding sound_elements_def by metis
    have "cs = (w @ s @ w' @ CHR '','' # b) @ CHR '']'' # r''" using v(1) r'(1) b(1) by simp
    moreover have "elements_text strtod (v # vs) (w @ s @ w' @ CHR '','' # b)" by (rule elements_more [OF v(2,3) r'(2) b(2)])
    ultimately show ?thesis using b(3,4) run by (metis append.assoc append_Cons append_Nil)
  next
    assume close: "t = End_array"
    obtain w' r' where r': "r = w' @ CHR '']'' # r'" "ws_text w'" "reads l2 r'"
      using lex_scan_punctuationD [OF v(4) t [unfolded close] punctuation_simps(2)] by blast
    have "end_array (handle_value v d) = handle_value (V_array (us @ [v])) (d\<lparr>ref_stack := ds\<rparr>)"
      using d by (simp add: handle_value_array end_container)
    then have "?run = sax_parse_internal strtod (completed S (handle_value (V_array (us @ [v])) (d\<lparr>ref_stack := ds\<rparr>)) (End_array, l2))"
      using run_array_end [OF t [unfolded close], of S "handle_value v d" "fst x"] v(5) by simp
    moreover have "cs = (w @ s @ w') @ CHR '']'' # r'" using v(1) r'(1) by simp
    moreover have "reads (snd (End_array, l2)) r'" using r'(3) by simp
    ultimately show ?thesis using elements_one [OF v(2,3) r'(2)] by blast
  qed
qed

lemma sound_members_step:
  assumes "\<And>cs'. length cs' < length cs \<Longrightarrow> sound_value strtod cs' \<and> sound_members strtod cs'"
  shows "sound_members strtod cs"
  unfolding sound_members_def
proof (intro allI impI)
  fix l S us k0 ds q and d :: sax_dom
  assume l: "reads l cs" and d: "ref_stack d = Open_object us k0 # ds" and q: "run_member strtod S d l = Inr q"
  obtain l1 l2 where 1: "lex_scan strtod l = (Value_string, l1)" and 2: "lex_scan strtod l1 = (Name_separator, l2)"
    using run_member_success [OF q] by blast
  define k where "k = lx_token_buffer l1"
  obtain w0 t r1 where k: "cs = w0 @ quote # t @ quote # r1" "ws_text w0" "string_text t k" "reads l1 r1"
    using lex_scan_scanned [OF l 1] unfolding k_def
    by cases (auto simp: punctuation_def split: if_splits)
  obtain w1 r2 where c: "r1 = w1 @ CHR '':'' # r2" "ws_text w1" "reads l2 r2"
    using lex_scan_punctuationD [OF k(4) 2 punctuation_simps(5)] by blast
  have run: "run_member strtod S d l = sax_parse_internal strtod (expects (False # S) (sax_key k d) (lex_scan strtod l2))"
    using run_member_value [OF 1 2] by (simp add: k_def)
  have "length r2 < length cs" using k(1) c(1) by simp
  then obtain w s v r x where v: "r2 = w @ s @ r" "ws_text w" "value_text strtod v s" "reads (snd x) r"
      "run_member strtod S d l = sax_parse_internal strtod (completed (False # S) (handle_value v (sax_key k d)) x)"
    using sound_valueD [of strtod r2 l2 "False # S" "sax_key k d" q] assms [of r2] c(3) q run by metis
  let ?d = "d\<lparr>ref_stack := Open_object (object_put k v us) k # ds\<rparr>"
  note v5 = v(5) [unfolded sax_key_value [OF d]]
  obtain tok l3 where t: "lex_scan strtod (snd x) = (tok, l3)" by fastforce
  have "tok = Value_separator \<or> tok = End_object"
    using run_object_error [OF t, of S ?d "fst x"] q v5 by auto
  then show "\<exists>b fs r x. cs = b @ CHR ''}'' # r \<and> members_text strtod fs b \<and> reads (snd x) r \<and>
      run_member strtod S d l = sax_parse_internal strtod
        (completed S (handle_value (V_object (fold (\<lambda>(k, v). object_put k v) fs us)) (d\<lparr>ref_stack := ds\<rparr>)) x)"
  proof
    assume sep: "tok = Value_separator"
    obtain w' r' where r': "r = w' @ CHR '','' # r'" "ws_text w'" "reads l3 r'"
      using lex_scan_punctuationD [OF v(4) t [unfolded sep] punctuation_simps(6)] by blast
    have next_member: "run_member strtod S d l = run_member strtod S ?d l3"
      using run_object_next [OF t [unfolded sep], of S ?d "fst x"] v5 by simp
    have "length r' < length cs" using k(1) c(1) v(1) r'(1) by simp
    then have "sound_members strtod r'" using assms by blast
    moreover have "ref_stack ?d = Open_object (object_put k v us) k # ds" by simp
    moreover have "run_member strtod S ?d l3 = Inr q" using q next_member by simp
    ultimately obtain b fs r'' y where b: "r' = b @ CHR ''}'' # r''" "members_text strtod fs b" "reads (snd y) r''"
        "run_member strtod S d l = sax_parse_internal strtod
          (completed S (handle_value (V_object (fold (\<lambda>(k, v). object_put k v) fs (object_put k v us))) (?d\<lparr>ref_stack := ds\<rparr>)) y)"
      using r'(3) unfolding sound_members_def next_member by blast
    have "cs = (w0 @ quote # t @ quote # w1 @ CHR '':'' # w @ s @ w' @ CHR '','' # b) @ CHR ''}'' # r''"
      using k(1) c(1) v(1) r'(1) b(1) by simp
    moreover have "members_text strtod ((k, v) # fs) (w0 @ quote # t @ quote # w1 @ CHR '':'' # w @ s @ w' @ CHR '','' # b)"
      by (rule members_more [OF k(2,3) c(2) v(2,3) r'(2) b(2)])
    moreover have "run_member strtod S d l = sax_parse_internal strtod
        (completed S (handle_value (V_object (fold (\<lambda>(k, v). object_put k v) ((k, v) # fs) us)) (d\<lparr>ref_stack := ds\<rparr>)) y)"
      using b(4) by simp
    ultimately show ?thesis using b(3) by blast
  next
    assume close: "tok = End_object"
    obtain w' r' where r': "r = w' @ CHR ''}'' # r'" "ws_text w'" "reads l3 r'"
      using lex_scan_punctuationD [OF v(4) t [unfolded close] punctuation_simps(4)] by blast
    have "run_member strtod S d l = sax_parse_internal strtod
        (completed S (handle_value (V_object (fold (\<lambda>(k, v). object_put k v) [(k, v)] us)) (d\<lparr>ref_stack := ds\<rparr>)) (End_object, l3))"
      using run_object_end [OF t [unfolded close], of S ?d "fst x"] v5 by (simp add: end_container)
    moreover have "cs = (w0 @ quote # t @ quote # w1 @ CHR '':'' # w @ s @ w') @ CHR ''}'' # r'"
      using k(1) c(1) v(1) r'(1) by simp
    moreover have "reads (snd (End_object, l3)) r'" using r'(3) by simp
    ultimately show ?thesis using members_one [OF k(2,3) c(2) v(2,3) r'(2)] by blast
  qed
qed

lemma sound_all: "sound_value strtod cs \<and> sound_elements strtod cs \<and> sound_members strtod cs"
proof (induction cs rule: length_induct)
  case (1 cs)
  then have shorter: "sound_value strtod cs'" "sound_elements strtod cs'" "sound_members strtod cs'" if "length cs' < length cs" for cs'
    using that by blast+
  have "sound_value strtod cs" by (rule sound_value_step) (simp add: shorter)
  moreover from this have "sound_elements strtod cs" by (rule sound_elements_step) (simp add: shorter)
  moreover have "sound_members strtod cs" by (rule sound_members_step) (simp add: shorter)
  ultimately show ?case by blast
qed

section \<open>Documents\<close>

lemma begins_new: "begins (new_lexer text) text"
  by (simp add: begins_def new_lexer_def remaining_def)

lemma lex_scan_new:
  "lex_scan strtod (new_lexer text) =
     (case skip_bom (new_lexer text) of
        (False, l) \<Rightarrow> (Parse_error, lex_error ''invalid BOM; must be 0xEF 0xBB 0xBF if given'' l)
      | (True, l) \<Rightarrow> fetch strtod l)"
proof -
  have "chars_read_total (lx_position (new_lexer text)) = 0" by (simp add: new_lexer_def)
  then show ?thesis by (simp add: lex_scan_def fetch_def split: prod.splits bool.splits)
qed

lemma skip_bom_plain:
  assumes "text = [] \<or> hd text \<noteq> CHR 0xEF"
  shows "\<exists>l. skip_bom (new_lexer text) = (True, l) \<and> begins l text"
proof -
  have "lx_current (lex_get (new_lexer text)) \<noteq> Some (CHR 0xEF)"
    using assms begins_get_Nil(2) [of "new_lexer text"] begins_get_Cons(2) [of "new_lexer text"] begins_new [of "text"]
    by (cases "text") auto
  then show ?thesis
    using begins_unget_get [OF begins_new [of "text"]] by (simp add: skip_bom_def Let_def)
qed

lemma skip_bom_mark: "\<exists>l. skip_bom (new_lexer (bom @ cs)) = (True, l) \<and> begins l cs"
proof -
  let ?l = "new_lexer (bom @ cs)"
  have "begins ?l (CHR 0xEF # CHR 0xBB # CHR 0xBF # cs)" using begins_new [of "bom @ cs"] by (simp add: bom_def)
  note 1 = begins_get_Cons [OF this]
  note 2 = reads_get_Cons [OF 1(1)]
  note 3 = reads_get_Cons [OF 2(1)]
  show ?thesis by (simp add: skip_bom_def Let_def 1 2 3 reads_begins)
qed

lemma skip_bom_True:
  assumes "skip_bom (new_lexer text) = (True, l)"
  shows "\<exists>m cs. text = m @ cs \<and> (m = [] \<or> m = bom) \<and> begins l cs"
proof (cases "text = [] \<or> hd text \<noteq> CHR 0xEF")
  case True
  then show ?thesis using skip_bom_plain [OF True] assms by (intro exI [of _ "[]"] exI [of _ "text"]) auto
next
  case False
  then obtain cs1 where "text = CHR 0xEF # cs1" by (cases "text") auto
  with begins_new [of "text"] have "begins (new_lexer text) (CHR 0xEF # cs1)" by simp
  note 1 = begins_get_Cons [OF this]
  have b: "lx_current (lex_get (lex_get (new_lexer text))) = Some (CHR 0xBB)"
      "lx_current (lex_get (lex_get (lex_get (new_lexer text)))) = Some (CHR 0xBF)"
      "l = lex_get (lex_get (lex_get (new_lexer text)))"
    using assms 1(2) by (auto simp: skip_bom_def Let_def split: if_splits)
  obtain cs2 where 2: "cs1 = CHR 0xBB # cs2" "reads (lex_get (lex_get (new_lexer text))) cs2"
    using 1(1) b(1) by (cases rule: reads_get_cases) auto
  obtain cs3 where 3: "cs2 = CHR 0xBF # cs3" "reads (lex_get (lex_get (lex_get (new_lexer text)))) cs3"
    using 2(2) b(2) by (cases rule: reads_get_cases) auto
  have "text = bom @ cs3" using \<open>text = _\<close> 2(1) 3(1) by (simp add: bom_def)
  moreover have "begins l cs3" using 3(2) b(3) by (simp add: reads_begins)
  ultimately show ?thesis by blast
qed

abbreviation empty_dom :: sax_dom where
  "empty_dom \<equiv> \<lparr>dom_root = V_null, ref_stack = []\<rparr>"

lemma new_parser_expects: "new_parser strtod text = expects [] empty_dom (lex_scan strtod (new_lexer text))"
  by (simp add: new_parser_def get_token_def expects_def split: prod.splits)

lemma run_root: "sax_parse_internal strtod (completed [] d x) = Inr (expects [] d x)"
  by (subst sax_parse_internal.simps) (simp add: parse_step_def parse_state_def completed_def expects_def)

lemma json_parse_root:
  assumes "sax_parse_internal strtod (new_parser strtod text) = sax_parse_internal strtod (completed [] (handle_value v empty_dom) x)"
  shows "json_parse strtod text = Inr u \<longleftrightarrow> fst (lex_scan strtod (snd x)) = End_of_input \<and> u = v"
  using assms
  by (auto simp: json_parse_def run_root Let_def get_token_def expects_def handle_value_def split: prod.splits)

lemma document_accepted:
  assumes "document_text strtod v text"
  shows "json_parse strtod text = Inr v"
proof -
  obtain m w s w' r where t: "text = m @ w @ s @ w' @ r" "m = [] \<or> m = bom" "ws_text w" "value_text strtod v s" "ws_text w'"
      "r = [] \<or> hd r = CHR 0x00"
    using assms unfolding document_text_def by blast
  have "\<exists>l. skip_bom (new_lexer text) = (True, l) \<and> begins l (w @ s @ w' @ r)"
    using t(2)
  proof
    assume "m = []"
    obtain c s' where "s = c # s'" "c \<noteq> CHR 0xEF" using value_first [OF t(4)] by blast
    moreover have "d \<noteq> CHR 0xEF" if "is_ws d" for d using that by (auto simp: is_ws_def)
    ultimately have "hd text \<noteq> CHR 0xEF" using t(1,3) \<open>m = []\<close> by (cases w) auto
    then show ?thesis using skip_bom_plain [of "text"] t(1) \<open>m = []\<close> by simp
  next
    assume "m = bom"
    then show ?thesis using skip_bom_mark [of "w @ s @ w' @ r"] t(1) by simp
  qed
  then obtain l where l: "lex_scan strtod (new_lexer text) = fetch strtod l" "begins l (w @ s @ w' @ r)"
    by (auto simp: lex_scan_new)
  have "ends_value r" using t(6) by (cases r) auto
  then have "ends_value (w' @ r)" by (rule ends_value_ws [OF t(5)])
  then obtain x where x: "reads (snd x) (w' @ r)"
      "sax_parse_internal strtod (new_parser strtod text) = sax_parse_internal strtod (completed [] (handle_value v empty_dom) x)"
    using grammar_accepted(1) [OF t(4)] l t(3) unfolding accepts_value_def new_parser_expects by metis
  obtain l' where "lex_scan strtod (snd x) = (End_of_input, l')"
    using scan_end [OF reads_begins [OF x(1)] t(5,6), of strtod] lex_scan_fetch [OF x(1), of strtod] by auto
  then show ?thesis using json_parse_root [OF x(2)] by simp
qed

lemma accepted_document:
  assumes "json_parse strtod text = Inr v"
  shows "document_text strtod v text"
proof -
  obtain q where q: "sax_parse_internal strtod (new_parser strtod text) = Inr q"
    using assms by (auto simp: json_parse_def split: sum.splits)
  obtain ok l where mark: "skip_bom (new_lexer text) = (ok, l)" by fastforce
  have ok
  proof (rule ccontr)
    assume "\<not> ok"
    define l' where "l' = lex_error ''invalid BOM; must be 0xEF 0xBB 0xBF if given'' l"
    have "new_parser strtod text = expects [] empty_dom (Parse_error, l')"
      using mark \<open>\<not> ok\<close> by (simp add: new_parser_expects lex_scan_new l'_def)
    then show False using q run_value_error [of Parse_error l' strtod "[]" empty_dom] by auto
  qed
  then have "skip_bom (new_lexer text) = (True, l)" using mark by simp
  then obtain m cs where m: "text = m @ cs" "m = [] \<or> m = bom" "begins l cs" using skip_bom_True [of "text" l] by auto
  have scan: "lex_scan strtod (new_lexer text) = fetch strtod l" using mark \<open>ok\<close> by (simp add: lex_scan_new)
  obtain w s u r x where u: "cs = w @ s @ r" "ws_text w" "value_text strtod u s" "reads (snd x) r"
      "sax_parse_internal strtod (new_parser strtod text) = sax_parse_internal strtod (completed [] (handle_value u empty_dom) x)"
    using sound_all [of strtod cs] m(3) q unfolding sound_value_def new_parser_expects scan by metis
  have "fst (lex_scan strtod (snd x)) = End_of_input" "v = u" using json_parse_root [OF u(5), of v] assms by simp_all
  then obtain l' where "lex_scan strtod (snd x) = (End_of_input, l')" by (metis prod.collapse)
  from lex_scan_scanned [OF u(4) this] obtain w' r' where "r = w' @ r'" "ws_text w'" "r' = [] \<or> hd r' = CHR 0x00"
    by cases (auto simp: punctuation_def split: if_splits)
  with m u(1-3) \<open>v = u\<close> show ?thesis unfolding document_text_def by blast
qed

section \<open>Errors\<close>

lemma scan_literal_result: "fst (scan_literal_loop cs t l) \<in> {t, Parse_error}"
  by (induction cs t l rule: scan_literal_loop.induct) (auto simp: Let_def)

lemma scan_token_float:
  assumes "scan_token strtod l = (Value_float, l')"
  shows "\<exists>s. lx_value_float l' = strtod s"
proof (cases "lx_current l")
  case (Some c)
  have literal: "scan_literal s t l \<noteq> (Value_float, l')" if "t \<noteq> Value_float" for s t
    using scan_literal_result [of "tl s" t l] that by (auto simp: scan_literal_def)
  have string: "scan_string l \<noteq> (Value_float, l')"
    using scan_string_result [of "lex_reset l"] by (auto simp: scan_string_def)
  have float_done: "\<exists>s. lx_value_float l' = strtod s" if "scan_number_done strtod t l1 = (Value_float, l')" for t l1
    using that by (auto simp: scan_number_done_def Let_def split: if_splits option.splits)
  have number: "\<exists>s. lx_value_float l' = strtod s" if "scan_number strtod c l = (Value_float, l')"
    using that float_done by (auto simp: scan_number_def split: prod.splits if_splits)
  show ?thesis
  proof (cases "punctuation c = None")
    case False
    then show ?thesis
      using assms Some scan_token_punctuation [OF Some] by (auto simp: punctuation_def split: if_splits)
  next
    case True
    then have "scan_token strtod l = (if c = CHR ''t'' then scan_literal ''true'' Literal_true l
        else if c = CHR ''f'' then scan_literal ''false'' Literal_false l
        else if c = CHR ''n'' then scan_literal ''null'' Literal_null l
        else if c = quote then scan_string l
        else if c = CHR ''-'' \<or> decimal_digit (Some c) then scan_number strtod c l
        else if c = CHR 0x00 then (End_of_input, l) else (Parse_error, lex_error ''invalid literal'' l))"
      using Some by (simp add: scan_token_def punctuation_def split: if_splits)
    then show ?thesis
      using assms number literal [of Literal_true "''true''"] literal [of Literal_false "''false''"] literal [of Literal_null "''null''"] string
      by (cases "c = CHR ''t''"; cases "c = CHR ''f''"; cases "c = CHR ''n''"; cases "c = quote") (simp_all split: if_splits)
  qed
qed (use assms in \<open>simp add: scan_token_def\<close>)

text \<open>A floating-point token carries what \<open>strtod\<close> gave for it.\<close>

definition float_read :: "(string \<Rightarrow> string option) \<Rightarrow> parser \<Rightarrow> bool" where
  "float_read strtod p \<longleftrightarrow> (ps_last_token p = Value_float \<longrightarrow> (\<exists>s. lx_value_float (ps_lexer p) = strtod s))"

lemma float_read_simps [simp]:
  "float_read strtod (on_sax f p) = float_read strtod p" "float_read strtod (p\<lparr>ps_states := S\<rparr>) = float_read strtod p"
  "float_read strtod (p\<lparr>ps_skip := b\<rparr>) = float_read strtod p"
  by (simp_all add: float_read_def on_sax_def)

lemma float_read_get_token [simp]: "float_read strtod (get_token strtod p)"
proof -
  have "\<exists>s. lx_value_float l' = strtod s" if "lex_scan strtod l = (Value_float, l')" for l l'
    using that scan_token_float by (auto simp: lex_scan_def split: prod.splits bool.splits)
  then show ?thesis by (auto simp: float_read_def get_token_def split: prod.splits)
qed

lemma parse_key_error: "parse_key strtod p = Inl e \<Longrightarrow> \<exists>pos m. e = parse_error_create 101 pos m"
  by (auto simp: parse_key_def Let_def syntax_error_def split: if_splits)

definition overflow_error :: "(string \<Rightarrow> string option) \<Rightarrow> json_exception \<Rightarrow> bool" where
  "overflow_error strtod e \<longleftrightarrow>
     (\<exists>token. e = out_of_range_create 406 (''number overflow parsing '' @ [CHR 0x27] @ token @ [CHR 0x27])) \<and> (\<exists>s. strtod s = None)"

lemma parse_token_outcome:
  assumes "float_read strtod p"
  shows "case parse_token strtod p of
      Inl e \<Rightarrow> (\<exists>pos m. e = parse_error_create 101 pos m) \<or> overflow_error strtod e
    | Inr (b, q) \<Rightarrow> float_read strtod q"
proof (cases "ps_last_token p")
  case Value_float
  then obtain s where "lx_value_float (ps_lexer p) = strtod s" using assms by (auto simp: float_read_def)
  with Value_float assms show ?thesis
    by (auto simp: parse_token_def overflow_error_def split: option.splits)
next
  case Begin_object
  then show ?thesis using assms by (auto simp: parse_token_def Let_def dest: parse_key_error split: sum.splits)
qed (use assms in \<open>auto simp: parse_token_def Let_def syntax_error_def\<close>)

lemma parse_state_outcome:
  assumes "float_read strtod p"
  shows "case parse_state strtod p of
      Inl e \<Rightarrow> \<exists>pos m. e = parse_error_create 101 pos m
    | Inr (b, q) \<Rightarrow> float_read strtod q"
proof (cases "ps_states p")
  case (Cons b S)
  then show ?thesis
    by (cases b) (auto simp: parse_state_def Let_def syntax_error_def dest: parse_key_error split: sum.splits)
qed (use assms in \<open>simp add: parse_state_def\<close>)

lemma parse_step_outcome:
  assumes "float_read strtod p"
  shows "case parse_step strtod p of
      Inl e \<Rightarrow> (\<exists>pos m. e = parse_error_create 101 pos m) \<or> overflow_error strtod e
    | Inr (b, q) \<Rightarrow> float_read strtod q"
proof (cases "ps_skip p")
  case True
  have "float_read strtod (p\<lparr>ps_skip := False\<rparr>)" using assms by simp
  from parse_state_outcome [OF this] True show ?thesis by (auto simp: parse_step_def split: sum.splits)
next
  case False
  show ?thesis
  proof (cases "parse_token strtod p")
    case (Inl e)
    then show ?thesis using False parse_token_outcome [OF assms] by (simp add: parse_step_def)
  next
    case (Inr r)
    then obtain b q where q: "parse_token strtod p = Inr (b, q)" by (cases r) auto
    then have "float_read strtod q" using parse_token_outcome [OF assms] by simp
    with parse_state_outcome [OF this] False q show ?thesis by (cases b) (auto simp: parse_step_def split: sum.splits)
  qed
qed

lemma sax_parse_error:
  "float_read strtod p \<Longrightarrow> sax_parse_internal strtod p = Inl e \<Longrightarrow>
   (\<exists>pos m. e = parse_error_create 101 pos m) \<or> overflow_error strtod e"
proof (induction strtod p rule: sax_parse_internal.induct)
  case (1 strtod p)
  note step = parse_step_outcome [OF "1.prems"(1)]
  show ?case
  proof (cases "parse_step strtod p")
    case (Inl e')
    then show ?thesis using "1.prems"(2) step by (simp add: sax_parse_internal.simps [of strtod p])
  next
    case (Inr r)
    then obtain b q where q: "parse_step strtod p = Inr (b, q)" by (cases r) auto
    have b using "1.prems"(2) q by (cases b) (simp_all add: sax_parse_internal.simps [of strtod p])
    then show ?thesis using "1.IH" [OF q refl] step q "1.prems"(2) by (simp add: sax_parse_internal.simps [of strtod p])
  qed
qed

lemma parse_failure:
  assumes "json_parse strtod text = Inl e"
  shows "(\<exists>pos m. e = parse_error_create 101 pos m) \<or> overflow_error strtod e"
proof -
  have "float_read strtod (new_parser strtod text)" by (simp add: new_parser_def)
  then show ?thesis
    using assms sax_parse_error by (auto simp: json_parse_def Let_def syntax_error_def split: sum.splits if_splits)
qed

section \<open>Properties\<close>

text \<open>
  C5 The parser is exact: \<^verbatim>\<open>Json::parse\<close> returns a value for a text if and only if the text is a JSON document by RFC
  8259, with an optional byte order mark before it and nothing but white space after it up to the end or a null byte, and
  then it is the value of that document. So no invalid text is accepted, no valid text is refused and the value is unique,
  for every nesting, white space, escape, UTF-8 sequence and number.
\<close>

theorem json_parse_exact: "json_parse strtod text = Inr v \<longleftrightarrow> document_text strtod v text"
  using document_accepted accepted_document by blast

text \<open>
  Parsing always ends, and fails in two ways only: with the parse error 101 that gives the position, or, when a number
  is beyond the range of the floating-point type, with the out-of-range error 406 that quotes it. Text that is not a
  document gives one of them.
\<close>

theorem json_parse_errors:
  assumes "json_parse strtod text = Inl e"
  shows "(\<nexists>v. document_text strtod v text) \<and> ((\<exists>pos m. e = parse_error_create 101 pos m) \<or> overflow_error strtod e)"
  using assms document_accepted parse_failure [OF assms] by force

theorem json_parse_errors_witness:
  "json_parse Some [] = Inl (parse_error_create 101 \<lparr>chars_read_total = 1, chars_read_current_line = 1, lines_read = 0\<rparr>
     ''attempting to parse an empty input; check that your input string or stream contains the expected JSON'')
   \<and> (\<nexists>v. document_text Some v [])"
proof -
  have "json_parse Some [] = Inl (parse_error_create 101 \<lparr>chars_read_total = 1, chars_read_current_line = 1, lines_read = 0\<rparr>
      ''attempting to parse an empty input; check that your input string or stream contains the expected JSON'')"
    by (simp add: json_parse_def new_parser_def new_lexer_def get_token_def lex_scan_def skip_bom_def lex_get_def count_char_def
        next_current_def lex_unget_def skip_whitespace.simps scan_token_def sax_parse_internal.simps parse_step_def parse_token_def Let_def)
  with json_parse_errors [OF this] show ?thesis by blast
qed

end
