(* ===== verification/Json_Roundtrip.thy ===== *)
theory Json_Roundtrip
  imports Json_Parse_Exact
begin

text \<open>
  What the parser returns is well formed, so the serializer never throws on it; and the parser reads back what the
  serializer writes.
\<close>

section \<open>Well-formed values\<close>

text \<open>
  Strings and keys are UTF-8 and the keys of an object are in strictly ascending order. The signed alternative holds
  only numbers written with a minus sign, so none above zero.
\<close>

fun wf_value :: "json_value \<Rightarrow> bool" where
  "wf_value (V_integer x) = (sint x \<le> 0)"
| "wf_value (V_string s) = utf8_text s"
| "wf_value (V_array xs) = list_all wf_value xs"
| "wf_value (V_object fs) =
     (sorted_wrt string_less (map fst fs) \<and> list_all (\<lambda>f. utf8_text (fst f) \<and> wf_value (snd f)) fs)"
| "wf_value v = True"

lemma wf_value_utf8: "wf_value v \<Longrightarrow> utf8_value v"
proof (induction v)
  case (V_array xs)
  then show ?case by (auto simp: list_all_iff)
next
  case (V_object fs)
  then show ?case by (auto simp: list_all_iff snds.simps)
qed auto

subsection \<open>Ascending keys\<close>

lemma object_put_keys: "fst ` set (object_put k v fs) = insert k (fst ` set fs)"
  by (induction k v fs rule: object_put.induct) (simp_all add: insert_commute)

lemma object_put_sorted:
  "sorted_wrt string_less (map fst fs) \<Longrightarrow> sorted_wrt string_less (map fst (object_put k v fs))"
proof (induction fs)
  case (Cons f fs)
  obtain k' v' where f: "f = (k', v')" by (cases f)
  consider "k = k'" | "k \<noteq> k'" "string_less k k'" | "k \<noteq> k'" "\<not> string_less k k'" by blast
  then show ?case
  proof cases
    case 2
    then show ?thesis using Cons.prems f string_less_trans by auto
  next
    case 3
    then have "string_less k' k" using string_less_total by blast
    moreover have "set (map fst (object_put k v fs)) = insert k (set (map fst fs))" using object_put_keys [of k v fs] by simp
    ultimately show ?thesis using Cons f 3 by (auto simp del: set_map)
  qed (use Cons f in simp)
qed simp

lemma object_put_all:
  "list_all P fs \<Longrightarrow> P (k, v) \<Longrightarrow> list_all P (object_put k v fs)"
  by (induction k v fs rule: object_put.induct) auto

lemma json_object_wf:
  assumes "list_all (\<lambda>f. utf8_text (fst f) \<and> wf_value (snd f)) fs"
  shows "wf_value (json_object fs)"
proof -
  let ?ok = "\<lambda>gs. sorted_wrt string_less (map fst gs) \<and> list_all (\<lambda>f. utf8_text (fst f) \<and> wf_value (snd f)) gs"
  have "?ok (fold (\<lambda>(k, v). object_put k v) fs gs)" if "?ok gs" for gs
    using assms that
  proof (induction fs arbitrary: gs)
    case (Cons f fs)
    obtain k v where f: "f = (k, v)" by (cases f)
    from Cons have "?ok (object_put k v gs)" using object_put_sorted object_put_all by (simp add: f)
    from Cons.IH [OF _ this] Cons.prems(1) show ?case by (simp add: f)
  qed simp
  from this [of "[]"] show ?thesis by (simp add: json_object_def)
qed

text \<open>An object with ascending keys is the result of inserting its fields.\<close>

lemma object_put_last:
  "list_all (\<lambda>f. string_less (fst f) k) fs \<Longrightarrow> object_put k v fs = fs @ [(k, v)]"
proof (induction fs)
  case (Cons f fs)
  then have less: "string_less (fst f) k" by simp
  then have "\<not> string_less k (fst f)" using string_less_trans [of "fst f" k "fst f"] by (auto simp: string_less_irrefl)
  moreover have "k \<noteq> fst f" using less by (auto simp: string_less_irrefl)
  ultimately have "object_put k v (f # fs) = f # object_put k v fs" by (cases f) simp
  with Cons show ?case by simp
qed simp

lemma json_object_sorted:
  assumes "sorted_wrt string_less (map fst fs)"
  shows "json_object fs = V_object fs"
proof -
  have "fold (\<lambda>(k, v). object_put k v) fs gs = gs @ fs" if "sorted_wrt string_less (map fst (gs @ fs))" for gs
    using that
  proof (induction fs arbitrary: gs)
    case (Cons f fs)
    then have "list_all (\<lambda>g. string_less (fst g) (fst f)) gs" by (auto simp: sorted_wrt_append list_all_iff)
    with Cons.IH [of "gs @ [f]"] Cons.prems show ?case by (cases f) (simp add: object_put_last)
  qed simp
  from this [of "[]"] assms show ?thesis by (simp add: json_object_def)
qed

section \<open>The grammar gives well-formed values\<close>

lemma utf8_from_ranges: "list_all2 in_range rs cs \<Longrightarrow> utf8_text s \<Longrightarrow> utf8_from rs (cs @ s)"
  by (induction rs cs rule: list_all2_induct) (simp_all add: utf8_text_def)

lemma utf8_text_sequence:
  "sequence_ranges (of_char c) = Some rs \<Longrightarrow> list_all2 in_range rs cs \<Longrightarrow> utf8_text s \<Longrightarrow> utf8_text (c # cs @ s)"
  using utf8_from_ranges by (simp add: utf8_text_def [of "c # cs @ s"])

text \<open>The encoding of a code point is one sequence of the UTF-8 table, by the length of the encoding.\<close>

definition utf8_sequence :: "string \<Rightarrow> bool" where
  "utf8_sequence bs = (\<exists>rs. sequence_ranges (of_char (hd bs)) = Some rs \<and> list_all2 in_range rs (tl bs))"

lemma utf8_sequence_two: "2 \<le> n \<Longrightarrow> n < 32 \<Longrightarrow> m < 64 \<Longrightarrow> utf8_sequence [char_of (0xC0 + n), char_of (0x80 + m)]" for n m :: nat
  by (simp add: utf8_sequence_def sequence_ranges_def in_range_def)

lemma utf8_sequence_three:
  fixes n m k :: nat
  assumes "n < 16" "m < 64" "k < 64" "n = 0 \<Longrightarrow> 32 \<le> m" "n = 13 \<Longrightarrow> m < 32"
  shows "utf8_sequence [char_of (0xE0 + n), char_of (0x80 + m), char_of (0x80 + k)]"
proof -
  consider "n = 0" | "n = 13" | "n \<noteq> 0" "n \<noteq> 13" by blast
  then show ?thesis using assms by cases (auto simp: utf8_sequence_def sequence_ranges_def in_range_def)
qed

lemma utf8_sequence_four:
  fixes n m k l :: nat
  assumes "n < 5" "m < 64" "k < 64" "l < 64" "n = 0 \<Longrightarrow> 16 \<le> m" "n = 4 \<Longrightarrow> m < 16"
  shows "utf8_sequence [char_of (0xF0 + n), char_of (0x80 + m), char_of (0x80 + k), char_of (0x80 + l)]"
proof -
  consider "n = 0" | "n = 4" | "n \<noteq> 0" "n \<noteq> 4" by blast
  then show ?thesis using assms by cases (auto simp: utf8_sequence_def sequence_ranges_def in_range_def)
qed

lemma mid_digit: "n div b mod 64 = n div b - 64 * (n div (b * 64))" for n b :: nat
  by (simp add: modulo_nat_def div_mult2_eq)

lemma utf8_sequence_encode:
  assumes "cp \<le> 0x10FFFF" "\<not> high_surrogate cp" "\<not> low_surrogate cp"
  shows "utf8_sequence (utf8_encode cp)"
proof -
  consider "cp < 0x80" | "0x80 \<le> cp" "cp < 0x800" | "0x800 \<le> cp" "cp < 0x10000" | "0x10000 \<le> cp" by linarith
  then show ?thesis
  proof cases
    case 1
    then show ?thesis by (simp add: utf8_encode_def utf8_sequence_def sequence_ranges_def)
  next
    case 2
    then have "2 \<le> cp div 64" "cp div 64 < 32" by auto
    with 2 show ?thesis using utf8_sequence_two [of "cp div 64" "cp mod 64"] by (simp add: utf8_encode_def)
  next
    case 3
    have "cp < 0xD800" if "cp div 4096 = 13"
    proof -
      have "cp < 57344" using that by auto
      then show ?thesis using assms(2,3) by (auto simp: high_surrogate_def low_surrogate_def)
    qed
    with 3 have "cp div 4096 < 16" "cp div 4096 = 0 \<Longrightarrow> 32 \<le> cp div 64 mod 64" "cp div 4096 = 13 \<Longrightarrow> cp div 64 mod 64 < 32"
      using mid_digit [of cp 64] by auto
    with 3 show ?thesis using utf8_sequence_three [of "cp div 4096" "cp div 64 mod 64" "cp mod 64"] by (simp add: utf8_encode_def)
  next
    case 4
    with assms(1) have "cp div 262144 < 5" "cp div 262144 = 0 \<Longrightarrow> 16 \<le> cp div 4096 mod 64" "cp div 262144 = 4 \<Longrightarrow> cp div 4096 mod 64 < 16"
      using mid_digit [of cp 4096] by auto
    with 4 show ?thesis
      using utf8_sequence_four [of "cp div 262144" "cp div 4096 mod 64" "cp div 64 mod 64" "cp mod 64"] by (simp add: utf8_encode_def)
  qed
qed

lemma utf8_text_encode:
  assumes "cp \<le> 0x10FFFF" "\<not> high_surrogate cp" "\<not> low_surrogate cp" "utf8_text s"
  shows "utf8_text (utf8_encode cp @ s)"
proof -
  have "utf8_encode cp = hd (utf8_encode cp) # tl (utf8_encode cp)" by (simp add: utf8_encode_def)
  moreover obtain rs where "sequence_ranges (of_char (hd (utf8_encode cp))) = Some rs" "list_all2 in_range rs (tl (utf8_encode cp))"
    using utf8_sequence_encode [OF assms(1-3)] by (auto simp: utf8_sequence_def)
  ultimately show ?thesis using utf8_text_sequence assms(4) by (metis append_Cons)
qed

lemma pair_not_surrogate:
  assumes "high_surrogate hi" "low_surrogate lo"
  defines "cp \<equiv> 0x10000 + (hi - 0xD800) * 0x400 + (lo - 0xDC00)"
  shows "cp \<le> 0x10FFFF" "\<not> high_surrogate cp" "\<not> low_surrogate cp"
  using assms(1,2) by (auto simp: cp_def high_surrogate_def low_surrogate_def)

lemma utf8_text_ascii: "(of_char c :: nat) < 0x80 \<Longrightarrow> utf8_text s \<Longrightarrow> utf8_text (c # s)"
  by (simp add: utf8_text_def sequence_ranges_def)

lemma string_text_utf8: "string_text t s \<Longrightarrow> utf8_text s"
proof (induction rule: string_text.induct)
  case (string_short e d t s)
  then have "(of_char d :: nat) < 0x80" by (auto simp: short_escape_def split: if_splits)
  with string_short.IH show ?case by (intro utf8_text_ascii)
next
  case (string_unicode hs cp t s)
  then have "cp \<le> 0x10FFFF" using hex4_less by fastforce
  with string_unicode show ?case by (intro utf8_text_encode)
next
  case (string_pair hs hi hs' lo t s)
  then show ?case using utf8_text_encode [OF pair_not_surrogate [of hi lo]] by blast
next
  case (string_plain c rs cs t s)
  then show ?case by (intro utf8_text_sequence)
qed (simp add: utf8_text_def)

lemma sint_minus_of_nat: "n \<le> 2 ^ 63 \<Longrightarrow> sint (- of_nat n :: i64) = - int n"
proof -
  assume n: "n \<le> 2 ^ 63"
  have w: "(- of_nat n :: i64) = word_of_int (- int n)" by simp
  have "sint (- of_nat n :: i64) = signed_take_bit 63 (- int n)" unfolding w signed_of_int by simp
  also have "\<dots> = - int n" using n by (intro signed_take_bit_int_eq_self) simp_all
  finally show ?thesis .
qed

lemma number_value_wf: "number_value strtod s = Some v \<Longrightarrow> wf_value v"
  by (auto simp: number_value_def Let_def sint_minus_of_nat split: if_splits)

lemma grammar_wf:
  "value_text strtod v s \<Longrightarrow> wf_value v"
  "elements_text strtod vs b \<Longrightarrow> list_all wf_value vs"
  "members_text strtod fs b' \<Longrightarrow> list_all (\<lambda>f. utf8_text (fst f) \<and> wf_value (snd f)) fs"
proof (induction rule: value_text_elements_text_members_text.inducts)
  case (value_scalar v s)
  then show ?case by cases (auto simp: number_value_wf string_text_utf8)
qed (auto simp: json_object_wf string_text_utf8)

text \<open>The serializer is total on them, floating-point numbers included.\<close>

lemma join_total:
  assumes "\<And>x. x \<in> set xs \<Longrightarrow> \<exists>t. f x = Inr t"
  shows "\<exists>t. join_throws (separated (map f xs) @ [Inr z]) = Inr t"
proof -
  have "f x = Inr t \<longleftrightarrow> True \<and> t = projr (f x)" if "x \<in> set xs" for x t
    using assms [OF that] by auto
  from join_separated [of xs f "\<lambda>_. True" "\<lambda>x. projr (f x)" z, OF this] show ?thesis by (auto simp: list_all_iff)
qed

lemma dump_total: "utf8_value v \<Longrightarrow> \<exists>t. dump v = Inr t"
proof (induction v)
  case (V_string s)
  then show ?case by (auto simp: join_throws_Cons_iff dump_escaped_iff simp del: join_throws.simps(2))
next
  case (V_array xs)
  then have "\<exists>t. join_throws (separated (map dump xs) @ [Inr '']'']) = Inr t"
    by (intro join_total) (auto simp: list_all_iff)
  then show ?case by auto
next
  case (V_object fs)
  let ?field = "\<lambda>f. join_throws [Inr [quote], dump_escaped (fst f), Inr [quote, CHR '':''], dump (snd f)]"
  have "\<exists>t. ?field f = Inr t" if "f \<in> set fs" for f
    using V_object.IH [of f "snd f"] V_object.prems that
    by (auto simp: list_all_iff snds.simps join_throws_Cons_iff dump_escaped_iff simp del: join_throws.simps(2))
  then have "\<exists>t. join_throws (separated (map ?field fs) @ [Inr ''}'']) = Inr t" by (intro join_total)
  then show ?case by (auto simp del: join_throws.simps(2) simp add: join_throws_Inr)
qed auto

section \<open>The parser reads what the serializer writes\<close>

text \<open>The only difference the text does not show is between a signed and an unsigned zero.\<close>

fun unsigned_zero :: "json_value \<Rightarrow> json_value" where
  "unsigned_zero (V_integer x) = (if x = 0 then V_unsigned 0 else V_integer x)"
| "unsigned_zero (V_array xs) = V_array (map unsigned_zero xs)"
| "unsigned_zero (V_object fs) = V_object (map (\<lambda>f. (fst f, unsigned_zero (snd f))) fs)"
| "unsigned_zero v = v"

subsection \<open>Numbers\<close>

lemma dec_text_is_dec: "all_dec (dec_text n)"
  using digits_less [of 10] is_dec_digit_char by (auto simp: radix_text_def list_all_iff)

lemma dec_text_int_text: "int_text (dec_text n)"
proof (cases "dec_text n")
  case (Cons c cs)
  show ?thesis
  proof (cases "c = CHR ''0''")
    case True
    have "hd (digits 10 n) < 10" using digits_less [of 10 "hd (digits 10 n)" n] by simp
    moreover have "digit_char (hd (digits 10 n)) = c" using Cons by (cases "digits 10 n") (auto simp: radix_text_def)
    ultimately have "n = 0" using True digit_char_eq_zero hd_digits_zero [of 10 n] by auto
    then show ?thesis using digit_char_zero by (simp add: radix_text_def digits.simps [of 10 0] int_text_def)
  next
    case False
    then show ?thesis using Cons dec_text_is_dec [of n] by (simp add: int_text_def)
  qed
qed (simp add: radix_text_def)

lemma dec_text_number: "number_text (dec_text n)" "number_text (CHR ''-'' # dec_text n)"
proof -
  have "frac_text []" "exp_text []" by (simp_all add: frac_text_def)
  then show "number_text (dec_text n)" "number_text (CHR ''-'' # dec_text n)"
    unfolding number_text_def using dec_text_int_text [of n] by (metis append_Nil append_Nil2, metis append_Cons append_Nil append_Nil2)
qed

lemma dec_text_no_mark: "\<not> list_ex float_mark (dec_text n)"
proof -
  have "\<not> float_mark c" if "is_dec c" for c using that by (auto simp: float_mark_def)
  then show ?thesis using dec_text_is_dec [of n] by (auto simp: list_ex_iff list_all_iff)
qed

lemma dec_text_hd: "\<not> prefix ''-'' (dec_text n)"
  using dec_text_is_dec [of n] by (cases "dec_text n") auto

lemma number_value_dec:
  "n < 2 ^ 64 \<Longrightarrow> number_value strtod (dec_text n) = Some (V_unsigned (of_nat n))"
  "n \<le> 2 ^ 63 \<Longrightarrow> number_value strtod (CHR ''-'' # dec_text n) = Some (V_integer (- of_nat n))"
proof -
  have "\<not> float_mark (CHR ''-'')" by (simp add: float_mark_def)
  then show "n < 2 ^ 64 \<Longrightarrow> number_value strtod (dec_text n) = Some (V_unsigned (of_nat n))"
      "n \<le> 2 ^ 63 \<Longrightarrow> number_value strtod (CHR ''-'' # dec_text n) = Some (V_integer (- of_nat n))"
    using text_value_radix_text [of 10 n] by (simp_all add: number_value_def dec_text_no_mark dec_text_hd)
qed

lemma negative_magnitude:
  assumes "sint (x :: i64) < 0"
  shows "unat (- x) \<le> 2 ^ 63" "- of_nat (unat (- x)) = x"
proof -
  define n where "n = nat (- sint x)"
  have "n \<le> 2 ^ 63" using sint_ge [of x] by (simp add: n_def)
  have "- x = word_of_int (- sint x)" by simp
  also have "\<dots> = of_nat n" using assms by (simp add: n_def)
  finally have "unat (- x) = n" using \<open>n \<le> 2 ^ 63\<close> by (simp add: unat_of_nat)
  with \<open>n \<le> 2 ^ 63\<close> show "unat (- x) \<le> 2 ^ 63" by simp
  show "- of_nat (unat (- x)) = x" by simp
qed

subsection \<open>Strings\<close>

lemma utf8_text_Cons:
  assumes "utf8_text (c # cs)"
  obtains rs bs r where "sequence_ranges (of_char c) = Some rs" "list_all2 in_range rs bs" "cs = bs @ r" "utf8_text r"
proof -
  have split: "\<exists>bs r. list_all2 in_range rs bs \<and> cs = bs @ r \<and> utf8_text r" if "utf8_from rs cs" for rs cs
    using that
  proof (induction rs cs rule: utf8_from.induct)
    case (3 r rs c cs)
    then obtain bs r' where "list_all2 in_range rs bs" "cs = bs @ r'" "utf8_text r'" "in_range r c" by auto
    then have "list_all2 in_range (r # rs) (c # bs)" "c # cs = (c # bs) @ r'" by simp_all
    with \<open>utf8_text r'\<close> show ?case by blast
  next
    case (4 c cs)
    then show ?case by (intro exI [of _ "[]"] exI [of _ "c # cs"]) (simp add: utf8_text_def)
  qed (auto simp: utf8_text_def)
  obtain rs where "sequence_ranges (of_char c) = Some rs" "utf8_from rs cs"
    using assms by (auto simp: utf8_text_def split: option.splits)
  with split [of rs cs] that show ?thesis by blast
qed

lemma sequence_high:
  assumes "sequence_ranges n = Some rs" "list_all2 in_range rs bs" "b \<in> set bs"
  shows "0x80 \<le> (of_char b :: nat)"
proof -
  have "0x80 \<le> fst range" if "range \<in> set rs" for range
    using assms(1) that by (auto simp: sequence_ranges_def split: if_splits)
  moreover obtain i where "i < length bs" "b = bs ! i" using assms(3) by (auto simp: in_set_conv_nth)
  moreover from this have "rs ! i \<in> set rs" "in_range (rs ! i) b" using assms(2) by (auto simp: list_all2_conv_all_nth)
  ultimately show ?thesis by (fastforce simp: in_range_def)
qed

lemma json_escape_high: "(\<And>b. b \<in> set bs \<Longrightarrow> 0x80 \<le> (of_char b :: nat)) \<Longrightarrow> json_escape bs = bs"
  by (induction bs) (simp_all add: escape_plain)

lemma string_text_escape_char:
  assumes "(of_char c :: nat) < 0x80" "string_text t s"
  shows "string_text (json_escape_char c @ t) (c # s)"
proof (cases "c \<in> {backslash, quote, CHR 0x08, CHR 0x0C, CHR 0x0A, CHR 0x0D, CHR 0x09}")
  case True
  then obtain e where "json_escape_char c = [backslash, e]" "short_escape e = Some c"
    by (auto simp: json_escape_char_def short_escape_def)
  with string_short assms(2) show ?thesis by simp
next
  case special: False
  show ?thesis
  proof (cases "(of_char c :: nat) < 0x20")
    case True
    then have esc: "json_escape_char c = [backslash, CHR ''u''] @ hex_lower 4 (of_char c)"
      using special by (simp add: json_escape_char_def)
    have "hex4 (hex_lower 4 (of_char c)) (of_char c)" using True by (simp add: hex4_def length_hex_lower)
    moreover have "\<not> high_surrogate (of_char c)" "\<not> low_surrogate (of_char c)" "utf8_encode (of_char c) = [c]"
      using True by (simp_all add: high_surrogate_def low_surrogate_def utf8_encode_def)
    ultimately show ?thesis using string_unicode [of "hex_lower 4 (of_char c)" "of_char c" t s] assms(2) by (simp add: esc)
  next
    case False
    then have "json_escape_char c = [c]" using special by (simp add: json_escape_char_def)
    moreover have "sequence_ranges (of_char c) = Some []" using assms(1) by (simp add: sequence_ranges_def)
    ultimately show ?thesis using string_plain [of c "[]" "[]" t s] False special assms(2) by simp
  qed
qed

lemma string_text_escape: "utf8_text s \<Longrightarrow> string_text (json_escape s) s"
proof (induction s rule: length_induct)
  case (1 s)
  show ?case
  proof (cases s)
    case (Cons c cs)
    obtain rs bs r where r: "sequence_ranges (of_char c) = Some rs" "list_all2 in_range rs bs" "cs = bs @ r" "utf8_text r"
      using utf8_text_Cons "1.prems" Cons by blast
    then have rest: "string_text (json_escape r) r" using "1.IH" Cons by simp
    show ?thesis
    proof (cases "(of_char c :: nat) < 0x80")
      case True
      then have "bs = []" using r(1,2) by (simp add: sequence_ranges_def)
      then show ?thesis using string_text_escape_char [OF True rest] Cons r(3) by simp
    next
      case False
      then have "json_escape (c # bs) = c # bs" using sequence_high [OF r(1,2)] by (intro json_escape_high) auto
      then have "json_escape s = c # bs @ json_escape r" using Cons r(3) json_escape_append [of "c # bs" r] by simp
      moreover have "c \<noteq> quote" "c \<noteq> backslash" using False by auto
      ultimately show ?thesis using string_plain [OF _ _ _ r(1,2) rest] False Cons r(3) by simp
    qed
  qed (simp add: string_end)
qed

subsection \<open>Values\<close>

lemma elements_commas:
  assumes "xs \<noteq> []" "\<And>x. x \<in> set xs \<Longrightarrow> value_text strtod (f x) (g x)"
  shows "elements_text strtod (map f xs) (commas (map g xs))"
  using assms
proof (induction xs rule: induct_list012)
  case (2 x)
  then show ?case using elements_one [of "[]" strtod "f x" "g x" "[]"] by simp
next
  case (3 x y zs)
  then have "elements_text strtod (map f (y # zs)) (commas (map g (y # zs)))" by simp
  then show ?case using elements_more [of "[]" strtod "f x" "g x" "[]"] "3.prems" by simp
qed simp

lemma members_commas:
  assumes "fs \<noteq> []" "\<And>f. f \<in> set fs \<Longrightarrow> utf8_text (fst f) \<and> value_text strtod (h (snd f)) (g (snd f))"
  shows "members_text strtod (map (\<lambda>f. (fst f, h (snd f))) fs) (commas (map (\<lambda>f. quoted (fst f) @ CHR '':'' # g (snd f)) fs))"
  using assms
proof (induction fs rule: induct_list012)
  case (2 f)
  then show ?case
    using members_one [of "[]" "json_escape (fst f)" "fst f" "[]" "[]" strtod "h (snd f)" "g (snd f)" "[]"]
    by (simp add: quoted_def string_text_escape)
next
  case (3 f f' fs)
  then have "members_text strtod (map (\<lambda>f. (fst f, h (snd f))) (f' # fs))
      (commas (map (\<lambda>f. quoted (fst f) @ CHR '':'' # g (snd f)) (f' # fs)))" by simp
  then show ?case
    using members_more [of "[]" "json_escape (fst f)" "fst f" "[]" "[]" strtod "h (snd f)" "g (snd f)" "[]"] "3.prems"
    by (simp add: quoted_def string_text_escape)
qed simp

lemma render_value_text:
  assumes "wf_value v" "no_float v"
  shows "value_text strtod (unsigned_zero v) (render (value_json v))"
  using assms
proof (induction v)
  case (V_boolean b)
  then show ?case by (cases b) (auto intro: value_scalar scalar_true scalar_false)
next
  case (V_unsigned x)
  have "unat x < 2 ^ 64" using unat_bound [of x] by simp
  then have "scalar_text strtod (V_unsigned x) (dec_text (unat x))"
    using scalar_number [OF dec_text_number(1) number_value_dec(1), of "unat x"] by simp
  then show ?case by (simp add: value_scalar)
next
  case (V_integer x)
  show ?case
  proof (cases "x = 0")
    case True
    have "scalar_text strtod (V_unsigned 0) (dec_text 0)"
      using scalar_number [OF dec_text_number(1) number_value_dec(1), of 0] by simp
    with True show ?thesis by (simp add: value_scalar)
  next
    case False
    then have neg: "sint x < 0" using V_integer.prems by (auto simp: le_less signed_eq_0_iff)
    note m = negative_magnitude [OF neg]
    have "scalar_text strtod (V_integer x) (CHR ''-'' # dec_text (unat (- x)))"
      using scalar_number [OF dec_text_number(2) number_value_dec(2) [OF m(1)]] m(2) by simp
    with neg False show ?thesis by (simp add: value_scalar)
  qed
next
  case (V_string s)
  then show ?case using scalar_string [OF string_text_escape] by (simp add: value_scalar quoted_def)
next
  case (V_array xs)
  show ?case
  proof (cases "xs = []")
    case True
    then show ?thesis using value_array_empty [of "[]"] by simp
  next
    case False
    then have "elements_text strtod (map unsigned_zero xs) (commas (map (\<lambda>v. render (value_json v)) xs))"
      using V_array by (intro elements_commas) (auto simp: list_all_iff)
    then show ?thesis using value_array by (simp add: o_def)
  qed
next
  case (V_object fs)
  show ?case
  proof (cases "fs = []")
    case True
    then show ?thesis using value_object_empty [of "[]"] by simp
  next
    case False
    let ?fs = "map (\<lambda>f. (fst f, unsigned_zero (snd f))) fs"
    have "members_text strtod ?fs (commas (map (\<lambda>f. quoted (fst f) @ CHR '':'' # render (value_json (snd f))) fs))"
      using V_object False by (intro members_commas [where g = "\<lambda>v. render (value_json v)"]) (auto simp: list_all_iff snds.simps)
    moreover have "json_object ?fs = V_object ?fs"
      using V_object.prems by (intro json_object_sorted) (simp add: o_def)
    ultimately show ?thesis using value_object [of strtod ?fs] by (simp add: o_def)
  qed
qed (auto intro: value_scalar scalar_null)

lemma parse_render:
  assumes "wf_value v" and "no_float v"
  shows "json_parse strtod (render (value_json v)) = Inr (unsigned_zero v)"
proof -
  have "document_text strtod (unsigned_zero v) (render (value_json v))"
    unfolding document_text_def using render_value_text [OF assms, of strtod]
    by (intro exI [of _ "[]"] exI [of _ "render (value_json v)"]) simp
  then show ?thesis by (rule document_accepted)
qed

section \<open>Properties\<close>

text \<open>
  C7 What the parser returns is well formed: every string and key in it is UTF-8, the keys of every object are in
  strictly ascending order whatever order and repetitions the text had, and a signed number is never above zero. The
  serializer therefore never throws on a parsed value.
\<close>

theorem parse_well_formed:
  assumes "json_parse strtod text = Inr v"
  shows "wf_value v \<and> (\<exists>t. dump v = Inr t)"
proof -
  obtain s where "value_text strtod v s" using accepted_document [OF assms] unfolding document_text_def by blast
  then have "wf_value v" by (rule grammar_wf)
  then show ?thesis using dump_total wf_value_utf8 by blast
qed

theorem parse_well_formed_witness:
  "json_parse Some (''['' @ [quote] @ ''a'' @ [quote] @ '',-2]'') = Inr (V_array [V_string ''a'', V_integer (- 2)])
   \<and> wf_value (V_array [V_string ''a'', V_integer (- 2)]) \<and> (\<exists>t. dump (V_array [V_string ''a'', V_integer (- 2)]) = Inr t)"
proof -
  let ?v = "V_array [V_string ''a'', V_integer (- 2)]"
  have "digit_char 2 = CHR ''2''" by code_simp
  then have "render (value_json ?v) = ''['' @ [quote] @ ''a'' @ [quote] @ '',-2]''"
    by (simp add: quoted_def json_escape_char_def radix_text_def digits.simps [of 10 2])
  then have "json_parse Some (''['' @ [quote] @ ''a'' @ [quote] @ '',-2]'') = Inr ?v"
    using parse_render [of ?v Some] by (simp add: utf8_text_def sequence_ranges_def)
  with parse_well_formed [OF this] show ?thesis by blast
qed

text \<open>
  C6 Serializing and parsing: the serializer returns a text for every well-formed value without floating-point numbers,
  and the parser reads that text back as the same value, for every nesting, every string with its escapes and every 64-bit
  integer; only a signed zero comes back unsigned.
\<close>

theorem parse_dump:
  assumes "wf_value v" and "no_float v"
  shows "\<exists>t. dump v = Inr t \<and> json_parse strtod t = Inr (unsigned_zero v)"
  using dump_value_iff [OF assms(2)] wf_value_utf8 [OF assms(1)] parse_render [OF assms] by blast

theorem parse_dump_witness:
  "\<exists>t. dump (V_object [(''a'', V_array [V_integer (- 5), V_string [CHR 0xC3, CHR 0xA9]]), (''b'', V_null)]) = Inr t
     \<and> json_parse Some t = Inr (V_object [(''a'', V_array [V_integer (- 5), V_string [CHR 0xC3, CHR 0xA9]]), (''b'', V_null)])"
proof -
  let ?v = "V_object [(''a'', V_array [V_integer (- 5), V_string [CHR 0xC3, CHR 0xA9]]), (''b'', V_null)]"
  have "wf_value ?v" "no_float ?v" by (simp_all add: utf8_text_def sequence_ranges_def in_range_def)
  moreover have "unsigned_zero ?v = ?v" by simp
  ultimately show ?thesis using parse_dump [of ?v Some] by simp
qed

end
