(* ===== verification/Ida_Args.thy ===== *)
theory Ida_Args
  imports Json_Roundtrip
begin

text \<open>
  Arguments of the IDA adapter's core functions (first part of \<^verbatim>\<open>dbgatlas_ida.cpp\<close>): numbers and addresses from text,
  lists from arrays or comma-separated text, booleans, and the optional and required members of the JSON argument object.
  \<^verbatim>\<open>Json::parse\<close> is the parser of \<open>Json_Parser\<close>.
\<close>

section \<open>Errors in sequence\<close>

definition andthen :: "'a throws \<Rightarrow> ('a \<Rightarrow> 'b throws) \<Rightarrow> 'b throws" where
  "andthen m f = (case m of Inl e \<Rightarrow> Inl e | Inr x \<Rightarrow> f x)"

lemma andthen_simps [simp]: "andthen (Inl e) f = Inl e" "andthen (Inr x) f = f x"
  by (simp_all add: andthen_def)

lemma andthen_Inr_iff: "andthen m f = Inr y \<longleftrightarrow> (\<exists>x. m = Inr x \<and> f x = Inr y)"
  by (cases m) auto

lemma andthen_Inl_iff: "andthen m f = Inl e \<longleftrightarrow> m = Inl e \<or> (\<exists>x. m = Inr x \<and> f x = Inl e)"
  by (cases m) auto

fun map_throws :: "('a \<Rightarrow> 'b throws) \<Rightarrow> 'a list \<Rightarrow> 'b list throws" where
  "map_throws f [] = Inr []"
| "map_throws f (x # xs) = andthen (f x) (\<lambda>y. andthen (map_throws f xs) (\<lambda>ys. Inr (y # ys)))"

lemma map_throws_Inr_iff:
  assumes "\<And>x y. x \<in> set xs \<Longrightarrow> f x = Inr y \<longleftrightarrow> P x \<and> y = g x"
  shows "map_throws f xs = Inr ys \<longleftrightarrow> list_all P xs \<and> ys = map g xs"
  using assms by (induction xs arbitrary: ys) (auto simp: andthen_Inr_iff)

lemma map_throws_length: "map_throws f xs = Inr ys \<Longrightarrow> length ys = length xs"
  by (induction xs arbitrary: ys) (auto simp: andthen_Inr_iff)

lemma map_throws_total: "(\<And>x. x \<in> set xs \<Longrightarrow> f x = Inr (g x)) \<Longrightarrow> map_throws f xs = Inr (map g xs)"
  by (induction xs) auto

section \<open>Numbers from text\<close>

text \<open>\<^verbatim>\<open>std::isspace\<close> in the C locale.\<close>

definition is_space :: "char \<Rightarrow> bool" where
  "is_space ch \<longleftrightarrow> (let n = of_char ch :: nat in n = 32 \<or> 9 \<le> n \<and> n \<le> 13)"

definition trim_copy :: "string \<Rightarrow> string" where
  "trim_copy value = rev (dropWhile is_space (rev (dropWhile is_space value)))"

fun parse_digits :: "u64 \<Rightarrow> u64 \<Rightarrow> string \<Rightarrow> u64 option" where
  "parse_digits base result [] = Some result"
| "parse_digits base result (ch # cs) =
     (case digit_val ch of
        None \<Rightarrow> None
      | Some d \<Rightarrow>
          let digit = of_nat d in
          if base \<le> digit then None
          else if (- 1 - digit) div base < result then None
          else parse_digits base (result * base + digit) cs)"

definition numeral_base :: "string \<Rightarrow> u64 \<times> string" where
  "numeral_base value =
     (if 2 < length value \<and> value ! 0 = CHR ''0'' \<and> (value ! 1 = CHR ''x'' \<or> value ! 1 = CHR ''X'') then (16, drop 2 value)
      else if 2 < length value \<and> value ! 0 = CHR ''0'' \<and> (value ! 1 = CHR ''b'' \<or> value ! 1 = CHR ''B'') then (2, drop 2 value)
      else (10, value))"

definition parse_u64_text :: "string \<Rightarrow> u64 option" where
  "parse_u64_text t =
     (let value = trim_copy t in
      if value = [] then None
      else let (base, ds) = numeral_base value in parse_digits base 0 ds)"

section \<open>Members of the argument object\<close>

text \<open>Only \<^verbatim>\<open>Json::parse_error\<close> is caught; the other exception of the parser leaves the function as it is.\<close>

definition parse_json_args :: "(string \<Rightarrow> string option) \<Rightarrow> string \<Rightarrow> json_value throws" where
  "parse_json_args strtod args =
     (let trimmed = trim_copy args in
      if trimmed = [] then Inr (V_object [])
      else case json_parse strtod trimmed of
             Inr v \<Rightarrow> Inr v
           | Inl (Json_parse_error what) \<Rightarrow> Inl (Invalid_argument (''arguments_json is not valid JSON: '' @ what))
           | Inl (Json_out_of_range what) \<Rightarrow> Inl (Runtime_error what))"

definition json_arg :: "json_value \<Rightarrow> string \<Rightarrow> json_value option" where
  "json_arg args key =
     (if key = [] then Some args
      else case args of
             V_object fs \<Rightarrow>
               (case map_of fs key of None \<Rightarrow> None | Some v \<Rightarrow> if v = V_null then None else Some v)
           | _ \<Rightarrow> None)"

definition json_has_arg :: "json_value \<Rightarrow> string \<Rightarrow> bool" where
  "json_has_arg args key \<longleftrightarrow> json_arg args key \<noteq> None"

text \<open>\<^verbatim>\<open>std::to_string\<close> of a negative \<^verbatim>\<open>int64_t\<close> or \<^verbatim>\<open>int\<close>.\<close>

definition signed_text :: "int \<Rightarrow> string" where
  "signed_text n = (if n < 0 then CHR ''-'' # dec_text (nat (- n)) else dec_text (nat n))"

definition json_scalar_text :: "json_value \<Rightarrow> string throws" where
  "json_scalar_text value =
     (case value of
        V_null \<Rightarrow> Inr []
      | V_string s \<Rightarrow> Inr s
      | V_unsigned x \<Rightarrow> Inr (dec_text (unat x))
      | V_integer x \<Rightarrow> Inr (if sint x < 0 then signed_text (sint x) else dec_text (unat x))
      | V_boolean b \<Rightarrow> Inr (if b then ''true'' else ''false'')
      | _ \<Rightarrow> dump value)"

definition json_u64_value :: "json_value \<Rightarrow> string \<Rightarrow> u64 throws" where
  "json_u64_value value key =
     (let from_text = andthen (json_scalar_text value) (\<lambda>t.
            case parse_u64_text t of
              None \<Rightarrow> Inl (Invalid_argument (key @ '' must be an unsigned integer or address string''))
            | Some parsed \<Rightarrow> Inr parsed)
      in case value of
           V_unsigned x \<Rightarrow> Inr x
         | V_integer x \<Rightarrow> if 0 \<le> sint x then Inr x else from_text
         | _ \<Rightarrow> from_text)"

definition json_u64_arg :: "json_value \<Rightarrow> string \<Rightarrow> u64 \<Rightarrow> u64 throws" where
  "json_u64_arg args key fallback =
     (case json_arg args key of None \<Rightarrow> Inr fallback | Some v \<Rightarrow> json_u64_value v key)"

definition required_json_u64_arg :: "json_value \<Rightarrow> string \<Rightarrow> u64 throws" where
  "required_json_u64_arg args key =
     (case json_arg args key of
        None \<Rightarrow> Inl (Invalid_argument (key @ '' is required''))
      | Some v \<Rightarrow> json_u64_value v key)"

definition optional_json_u64_arg :: "json_value \<Rightarrow> string \<Rightarrow> u64 option throws" where
  "optional_json_u64_arg args key =
     (case json_arg args key of None \<Rightarrow> Inr None | Some v \<Rightarrow> andthen (json_u64_value v key) (\<lambda>x. Inr (Some x)))"

definition json_string_arg :: "json_value \<Rightarrow> string \<Rightarrow> string throws" where
  "json_string_arg args key =
     (case json_arg args key of None \<Rightarrow> Inr [] | Some v \<Rightarrow> json_scalar_text v)"

lemma tl_dropWhile_shorter: "dropWhile P xs \<noteq> [] \<Longrightarrow> length (tl (dropWhile P xs)) < length xs"
  by (induction xs) auto

function comma_parts :: "string \<Rightarrow> string list" where
  "comma_parts scalar =
     (let part = trim_copy (takeWhile (\<lambda>c. c \<noteq> CHR '','') scalar);
          rest = dropWhile (\<lambda>c. c \<noteq> CHR '','') scalar
      in (if part = [] then [] else [part]) @ (if rest = [] then [] else comma_parts (tl rest)))"
  by pat_completeness auto
termination
  by (relation "measure length") (simp_all add: tl_dropWhile_shorter del: length_tl)

declare comma_parts.simps [simp del]

definition json_list_value :: "json_value \<Rightarrow> string list throws" where
  "json_list_value value =
     (case value of
        V_null \<Rightarrow> Inr []
      | V_array xs \<Rightarrow> map_throws json_scalar_text (filter (\<lambda>v. v \<noteq> V_null) xs)
      | _ \<Rightarrow> andthen (json_scalar_text value) (\<lambda>scalar. Inr (comma_parts scalar)))"

definition json_list_arg :: "json_value \<Rightarrow> string \<Rightarrow> string list throws" where
  "json_list_arg args key =
     (case json_arg args key of None \<Rightarrow> Inr [] | Some v \<Rightarrow> json_list_value v)"

definition json_items_arg :: "json_value \<Rightarrow> string \<Rightarrow> json_value list" where
  "json_items_arg args key =
     (case json_arg args key of
        None \<Rightarrow> []
      | Some (V_array xs) \<Rightarrow> xs
      | Some v \<Rightarrow> [v])"

definition to_lower_copy :: "string \<Rightarrow> string" where
  "to_lower_copy value = map tolower value"

definition json_bool_arg :: "json_value \<Rightarrow> string \<Rightarrow> bool \<Rightarrow> bool throws" where
  "json_bool_arg args key fallback =
     (case json_arg args key of
        None \<Rightarrow> Inr fallback
      | Some (V_boolean b) \<Rightarrow> Inr b
      | Some (V_unsigned x) \<Rightarrow> Inr (x \<noteq> 0)
      | Some (V_integer x) \<Rightarrow> Inr (x \<noteq> 0)
      | Some v \<Rightarrow> andthen (json_scalar_text v) (\<lambda>t.
          let t' = to_lower_copy t in
          Inr (if t' = ''true'' \<or> t' = ''1'' then True
               else if t' = ''false'' \<or> t' = ''0'' then False
               else fallback)))"

section \<open>Numerals are read exactly\<close>

lemma foldl_digits_ge: "1 \<le> b \<Longrightarrow> n \<le> foldl (\<lambda>a d. a * b + d) n ds" for b :: nat
proof (induction ds arbitrary: n)
  case (Cons d ds)
  have "n \<le> n * b + d" using Cons.prems by (simp add: trans_le_add1)
  also have "\<dots> \<le> foldl (\<lambda>a d. a * b + d) (n * b + d) ds" using Cons by simp
  finally show ?case by simp
qed simp

lemma overflow_check:
  fixes base digit result :: u64
  assumes "0 < base"
  shows "(- 1 - digit) div base < result \<longleftrightarrow> 2 ^ 64 \<le> unat result * unat base + unat digit"
proof -
  have "unat (- 1 - digit) = 2 ^ 64 - 1 - unat digit"
    using unat_bound [of digit] unat_sub [of digit "- 1"] by (simp add: unsigned_minus_1_eq_mask mask_eq_exp_minus_1)
  then have "unat ((- 1 - digit) div base) = (2 ^ 64 - 1 - unat digit) div unat base"
    by (simp add: unat_div)
  moreover have "0 < unat base" using assms by (simp add: word_gt_0 unat_gt_0)
  ultimately show ?thesis
    using unat_bound [of digit] by (simp add: word_less_nat_alt div_less_iff_less_mult) linarith
qed

lemma parse_digits_iff:
  assumes "1 < unat base"
  shows "parse_digits base result cs = Some v \<longleftrightarrow>
    (\<exists>ds. text_digits cs = Some ds \<and> list_all (\<lambda>d. d < unat base) ds
       \<and> unat v = foldl (\<lambda>a d. a * unat base + d) (unat result) ds)"
proof (induction cs arbitrary: result)
  case Nil
  then show ?case by (auto simp: text_digits_def word_unat_eq_iff)
next
  case (Cons ch cs)
  show ?case
  proof (cases "digit_val ch")
    case None
    then show ?thesis by (simp add: text_digits_def)
  next
    case (Some d)
    have d16: "d < 16" using Some by (rule digit_val_less)
    then have d: "unat (of_nat d :: u64) = d" by (simp add: unat_of_nat)
    have digits: "text_digits (ch # cs) = map_option (\<lambda>ds. d # ds) (text_digits cs)"
      using Some by (simp add: text_digits_def)
    have pos: "0 < base" using assms by (metis unat_0 not_less_zero word_neq_0_conv)
    show ?thesis
    proof (cases "unat base \<le> d \<or> 2 ^ 64 \<le> unat result * unat base + d")
      case True
      have "unat w \<noteq> foldl (\<lambda>a d. a * unat base + d) (unat result * unat base + d) ds"
        if "2 ^ 64 \<le> unat result * unat base + d" for w :: u64 and ds
        using that foldl_digits_ge [of "unat base" "unat result * unat base + d" ds] assms unat_bound [of w] by simp
      then show ?thesis
        using True Some overflow_check [OF pos, of "of_nat d" result] by (auto simp: digits d word_le_nat_alt Let_def)
    next
      case False
      then have "unat (result * base + of_nat d) = unat result * unat base + d"
        using d by (simp add: unat_word_ariths)
      then show ?thesis
        using False Some overflow_check [OF pos, of "of_nat d" result] Cons.IH [of "result * base + of_nat d"]
        by (auto simp: digits d word_le_nat_alt Let_def)
    qed
  qed
qed

lemma numeral_base_range: "numeral_base t = (base, ds) \<Longrightarrow> base \<in> {2, 10, 16}"
  by (auto simp: numeral_base_def split: if_splits)

lemma parse_u64_text_iff:
  "parse_u64_text t = Some v \<longleftrightarrow>
     trim_copy t \<noteq> [] \<and> (case numeral_base (trim_copy t) of (base, cs) \<Rightarrow>
       (\<exists>ds. text_digits cs = Some ds \<and> list_all (\<lambda>d. d < unat base) ds \<and> unat v = digits_value (unat base) ds))"
proof -
  obtain base cs where nb: "numeral_base (trim_copy t) = (base, cs)" by (cases "numeral_base (trim_copy t)")
  then have "1 < unat base" using numeral_base_range [OF nb] by auto
  from parse_digits_iff [OF this, of 0 cs v] nb show ?thesis
    by (simp add: parse_u64_text_def Let_def digits_value_def)
qed

lemma trim_copy_id: "list_all (\<lambda>c. \<not> is_space c) t \<Longrightarrow> trim_copy t = t"
proof -
  assume "list_all (\<lambda>c. \<not> is_space c) t"
  then have "dropWhile is_space xs = xs" if "set xs = set t" for xs
    using that by (cases xs) (auto simp: list_all_iff)
  then show "trim_copy t = t" by (simp add: trim_copy_def)
qed

lemma digit_char_not_space: "d < 16 \<Longrightarrow> \<not> is_space (digit_char d)"
  by (simp add: is_space_def digit_char_def)

lemma radix_text_chars: "c \<in> set (radix_text b n) \<Longrightarrow> 2 \<le> b \<Longrightarrow> \<exists>d < b. c = digit_char d"
  using digits_less [of b _ n] by (auto simp: radix_text_def)

lemma text_digits_radix_text:
  assumes "2 \<le> b" "b \<le> 16"
  shows "text_digits (radix_text b n) = Some (digits b n)"
  using digits_less [OF assms(1), of _ n] assms(2) unfolding radix_text_def
  by (intro text_digits_map_digit_char) (auto intro: less_le_trans)

lemma radix_text_trimmed:
  assumes "2 \<le> b" "b \<le> 16"
  shows "list_all (\<lambda>c. \<not> is_space c) (radix_text b n)"
  using radix_text_chars [of _ b n] assms digit_char_not_space by (force simp: list_all_iff)

lemma digit_char_not_prefix: "d < 10 \<Longrightarrow> digit_char d \<notin> {CHR ''x'', CHR ''X'', CHR ''b'', CHR ''B''}"
  using is_dec_digit_char [of d] by (auto simp: is_dec_def)

lemma numeral_base_dec: "numeral_base (dec_text n) = (10, dec_text n)"
proof -
  have "dec_text n ! 1 \<notin> {CHR ''x'', CHR ''X'', CHR ''b'', CHR ''B''}" if long: "2 < length (dec_text n)"
  proof -
    obtain d where "d < 10" "dec_text n ! 1 = digit_char d"
      using radix_text_chars [OF nth_mem [of 1 "dec_text n"]] long by auto
    then show ?thesis using digit_char_not_prefix [of d] by simp
  qed
  then show ?thesis by (auto simp: numeral_base_def)
qed

lemma radix_text_not_Nil [simp]: "radix_text b n \<noteq> []"
  by (simp add: radix_text_def)

lemma numeral_base_prefix:
  "numeral_base (''0x'' @ radix_text 16 n) = (16, radix_text 16 n)"
  "numeral_base (''0b'' @ radix_text 2 n) = (2, radix_text 2 n)"
  by (simp_all add: numeral_base_def)

lemma digits_value_radix: "list_all (\<lambda>d. d < b) (digits b n)" if "2 \<le> b"
  using digits_less [OF that] by (simp add: list_all_iff)

lemma parse_radix_texts:
  "parse_u64_text (dec_text (unat v)) = Some v"
  "parse_u64_text (''0x'' @ hex_text (unat v)) = Some v"
  "parse_u64_text (''0b'' @ radix_text 2 (unat v)) = Some v"
proof -
  have zero_prefix: "\<not> is_space (CHR ''0'')" "\<not> is_space (CHR ''x'')" "\<not> is_space (CHR ''b'')"
    by (simp_all add: is_space_def)
  have trims: "trim_copy (dec_text (unat v)) = dec_text (unat v)"
      "trim_copy (''0x'' @ hex_text (unat v)) = ''0x'' @ hex_text (unat v)"
      "trim_copy (''0b'' @ radix_text 2 (unat v)) = ''0b'' @ radix_text 2 (unat v)"
    using radix_text_trimmed [of _ "unat v"] zero_prefix by (simp_all add: trim_copy_id)
  show "parse_u64_text (dec_text (unat v)) = Some v" "parse_u64_text (''0x'' @ hex_text (unat v)) = Some v"
      "parse_u64_text (''0b'' @ radix_text 2 (unat v)) = Some v"
    unfolding parse_u64_text_iff trims numeral_base_dec numeral_base_prefix
    by (simp_all add: text_digits_radix_text digits_value_radix digits_value_digits)
qed

section \<open>Properties\<close>

text \<open>
  C28 Addresses and numbers are read exactly: \<open>parse_u64_text\<close> accepts a text if and only if, with the space around it
  removed, it is a non-empty numeral in the base its prefix names whose value fits 64 bits, and it returns that value, so no
  overflow is ever accepted; and every 64-bit value is read back from its decimal, hexadecimal and binary text.
\<close>

theorem parse_u64_text_exact:
  "(parse_u64_text t = Some v \<longleftrightarrow>
     trim_copy t \<noteq> [] \<and> (case numeral_base (trim_copy t) of (base, cs) \<Rightarrow>
       (\<exists>ds. text_digits cs = Some ds \<and> list_all (\<lambda>d. d < unat base) ds \<and> digits_value (unat base) ds = unat v)))
   \<and> parse_u64_text (dec_text (unat v)) = Some v
   \<and> parse_u64_text (''0x'' @ hex_text (unat v)) = Some v
   \<and> parse_u64_text (''0b'' @ radix_text 2 (unat v)) = Some v"
  by (auto simp: parse_u64_text_iff parse_radix_texts simp del: append.simps)

lemma parse_json_args_document:
  "document_text strtod v (trim_copy args) \<Longrightarrow> parse_json_args strtod args = Inr v"
proof -
  assume doc: "document_text strtod v (trim_copy args)"
  then have "trim_copy args \<noteq> []" by (auto simp: document_text_def dest: value_not_empty)
  with document_accepted [OF doc] show ?thesis by (simp add: parse_json_args_def)
qed

lemma braces_document: "document_text strtod (V_object []) (trim_copy ''{}'')"
proof -
  have "value_text strtod (V_object []) ''{}''" using value_object_empty [of "[]" strtod] by simp
  then have "document_text strtod (V_object []) ''{}''"
    unfolding document_text_def by (intro exI [of _ "[]"] exI [of _ "''{}''"]) simp
  then show ?thesis by (simp add: trim_copy_id is_space_def)
qed

lemmas braces_args = parse_json_args_document [OF braces_document]

text \<open>
  The arguments of a core function are read exactly: text of white space alone is the empty object, and otherwise the
  arguments are the value of the trimmed text if and only if that is a JSON document. Text that is not is refused as an
  invalid argument with the parser's message, except when a number in it is beyond the floating-point range: that
  exception is not caught and does not count as an invalid argument.
\<close>

lemma parse_json_args_exact:
  "case parse_json_args strtod args of
     Inr v \<Rightarrow> (if trim_copy args = [] then v = V_object [] else document_text strtod v (trim_copy args))
   | Inl e \<Rightarrow> trim_copy args \<noteq> [] \<and> (\<nexists>v. document_text strtod v (trim_copy args))
       \<and> ((\<exists>pos m. e = Invalid_argument (''arguments_json is not valid JSON: ''
              @ exception_name ''parse_error'' 101 @ ''parse error'' @ position_string pos @ '': '' @ m))
          \<or> (\<exists>m s. e = Runtime_error (exception_name ''out_of_range'' 406 @ m) \<and> strtod s = None))"
proof (cases "trim_copy args = []")
  case True
  then show ?thesis by (simp add: parse_json_args_def)
next
  case False
  show ?thesis
  proof (cases "json_parse strtod (trim_copy args)")
    case (Inr v)
    then show ?thesis using False accepted_document by (simp add: parse_json_args_def)
  next
    case (Inl e)
    have "\<nexists>v. document_text strtod v (trim_copy args)" using Inl document_accepted by force
    moreover have "(\<exists>pos m. e = parse_error_create 101 pos m) \<or> overflow_error strtod e"
      using parse_failure [OF Inl] .
    ultimately show ?thesis
      using False Inl
      by (auto simp: parse_json_args_def parse_error_create_def overflow_error_def out_of_range_create_def; blast)
  qed
qed

end
