(* ===== verification/Ida_Sdk.thy ===== *)
theory Ida_Sdk
  imports Ida_Args Adapter_Abi
begin

unbundle bit_operations_syntax

text \<open>
  What the core functions ask of IDA, and the helpers that turn its answers into JSON. The library \<^verbatim>\<open>ida.dll\<close> is not part
  of the repository: its exports are the fields of the record \<open>ida_sdk\<close>, functions of an abstract database \<open>'d\<close>, and every
  definition that calls one takes the record as an argument. A pointer that may be null is an option, an out-parameter is
  part of the result. The helpers that \<^verbatim>\<open>bytes.hpp\<close> and \<^verbatim>\<open>name.hpp\<close> define inline are definitions.
\<close>

section \<open>The exports of IDA\<close>

type_synonym ea = u64

definition BADADDR :: ea where "BADADDR = - 1"

record range_t =
  start_ea :: ea
  end_ea :: ea

type_synonym func_t = range_t
type_synonym segment_t = range_t

record string_info_t =
  si_ea :: ea
  si_length :: int
  si_type :: int

record hexrays_failure_t =
  license_missing :: bool \<comment> \<open>\<^verbatim>\<open>code == MERR_LICENSE\<close>\<close>
  errea :: ea
  desc :: string

record extlang_t =
  has_eval_snippet :: bool
  has_eval_expr :: bool

text \<open>The value \<^verbatim>\<open>eval_expr\<close> stores: a string, or something else.\<close>

type_synonym idc_value_t = "string option"

record 'd ida_sdk =
  get_func :: "'d \<Rightarrow> ea \<Rightarrow> func_t option"
  getn_func :: "'d \<Rightarrow> nat \<Rightarrow> func_t option"
  get_func_qty :: "'d \<Rightarrow> nat"
  get_func_name :: "'d \<Rightarrow> ea \<Rightarrow> string"
  get_frame_size :: "'d \<Rightarrow> func_t \<Rightarrow> u64"
  get_tinfo :: "'d \<Rightarrow> ea \<Rightarrow> bool"
  get_name_ea :: "'d \<Rightarrow> string \<Rightarrow> ea"
  get_ea_name :: "'d \<Rightarrow> ea \<Rightarrow> string"
  get_nlist_size :: "'d \<Rightarrow> nat"
  get_nlist_ea :: "'d \<Rightarrow> nat \<Rightarrow> ea"
  get_nlist_name :: "'d \<Rightarrow> nat \<Rightarrow> string option"
  get_strlist_qty :: "'d \<Rightarrow> nat"
  get_strlist_item :: "'d \<Rightarrow> nat \<Rightarrow> string_info_t option"
  get_strlit_contents :: "'d \<Rightarrow> ea \<Rightarrow> u64 \<Rightarrow> int \<Rightarrow> string option"
  get_byte :: "'d \<Rightarrow> ea \<Rightarrow> u8 option" \<comment> \<open>\<^verbatim>\<open>get_bytes(&byte, 1, ea) == 1\<close>\<close>
  prev_not_tail :: "'d \<Rightarrow> ea \<Rightarrow> ea"
  get_item_end :: "'d \<Rightarrow> ea \<Rightarrow> ea"
  get_flags_ex :: "'d \<Rightarrow> ea \<Rightarrow> u64"
  get_str_type :: "'d \<Rightarrow> ea \<Rightarrow> u32"
  generate_disasm_line :: "'d \<Rightarrow> ea \<Rightarrow> string option"
  get_cmt :: "'d \<Rightarrow> ea \<Rightarrow> bool \<Rightarrow> string option" \<comment> \<open>\<open>None\<close> when the result is not positive\<close>
  tag_remove :: "string \<Rightarrow> string"
  get_import_module_qty :: "'d \<Rightarrow> nat"
  get_import_module_name :: "'d \<Rightarrow> nat \<Rightarrow> string"
  enum_import_names :: "'d \<Rightarrow> nat \<Rightarrow> (ea \<times> string option \<times> u64) list"
  get_first_seg :: "'d \<Rightarrow> segment_t option"
  get_next_seg :: "'d \<Rightarrow> ea \<Rightarrow> segment_t option"
  get_first_cref_to :: "'d \<Rightarrow> ea \<Rightarrow> ea"
  get_next_cref_to :: "'d \<Rightarrow> ea \<Rightarrow> ea \<Rightarrow> ea"
  get_first_dref_to :: "'d \<Rightarrow> ea \<Rightarrow> ea"
  get_next_dref_to :: "'d \<Rightarrow> ea \<Rightarrow> ea \<Rightarrow> ea"
  get_first_cref_from :: "'d \<Rightarrow> ea \<Rightarrow> ea"
  get_next_cref_from :: "'d \<Rightarrow> ea \<Rightarrow> ea \<Rightarrow> ea"
  get_first_dref_from :: "'d \<Rightarrow> ea \<Rightarrow> ea"
  get_next_dref_from :: "'d \<Rightarrow> ea \<Rightarrow> ea \<Rightarrow> ea"
  find_extlang :: "'d \<Rightarrow> string \<Rightarrow> extlang_t option"
  get_hexdsp :: "'d \<Rightarrow> bool" \<comment> \<open>whether a dispatcher is returned\<close>
  build_strlist :: "'d \<Rightarrow> 'd"
  set_name :: "ea \<Rightarrow> string \<Rightarrow> 'd \<Rightarrow> bool \<times> 'd"
  set_cmt :: "ea \<Rightarrow> string \<Rightarrow> bool \<Rightarrow> 'd \<Rightarrow> bool \<times> 'd"
  apply_cdecl :: "ea \<Rightarrow> string \<Rightarrow> 'd \<Rightarrow> bool \<times> 'd"
  parse_decls :: "string \<Rightarrow> 'd \<Rightarrow> int \<times> 'd"
  save_database :: "string option \<Rightarrow> 'd \<Rightarrow> bool \<times> 'd"
  mark_cfunc_dirty :: "ea \<Rightarrow> 'd \<Rightarrow> bool \<times> 'd"
  clear_cached_cfuncs :: "'d \<Rightarrow> 'd"
  decompile_func :: "func_t \<Rightarrow> 'd \<Rightarrow> (hexrays_failure_t + string list) \<times> 'd"
  eval_snippet :: "string \<Rightarrow> 'd \<Rightarrow> (string + unit) \<times> 'd" \<comment> \<open>\<open>Inl\<close> the error buffer\<close>
  eval_expr :: "string \<Rightarrow> 'd \<Rightarrow> (string + idc_value_t) \<times> 'd"

text \<open>The session's view of the process: the open database, whether the string list was built, the cached dispatcher.\<close>

record 'd ida_state =
  database :: 'd
  strings_built :: bool
  hexdsp :: bool

section \<open>Inline helpers of the headers\<close>

definition is_code :: "u64 \<Rightarrow> bool" where
  "is_code F \<longleftrightarrow> F AND 0x600 = 0x600"

definition is_data :: "u64 \<Rightarrow> bool" where
  "is_data F \<longleftrightarrow> F AND 0x600 = 0x400"

definition is_tail :: "u64 \<Rightarrow> bool" where
  "is_tail F \<longleftrightarrow> F AND 0x600 = 0x200"

definition get_item_head :: "'d ida_sdk \<Rightarrow> 'd \<Rightarrow> ea \<Rightarrow> ea" where
  "get_item_head sdk d ea = (if is_tail (get_flags_ex sdk d ea) then prev_not_tail sdk d ea else ea)"

text \<open>\<^verbatim>\<open>dbgatlas_get_item_size\<close> and the step \<^verbatim>\<open>ea += size == 0 ? 1 : size\<close> of every walk over a function.\<close>

definition dbgatlas_get_item_size :: "'d ida_sdk \<Rightarrow> 'd \<Rightarrow> ea \<Rightarrow> u64" where
  "dbgatlas_get_item_size sdk d ea = (let item_end = get_item_end sdk d ea in if ea < item_end then item_end - ea else 0)"

definition next_item :: "'d ida_sdk \<Rightarrow> 'd \<Rightarrow> ea \<Rightarrow> ea" where
  "next_item sdk d ea = ea + (let item_size = dbgatlas_get_item_size sdk d ea in if item_size = 0 then 1 else item_size)"

section \<open>JSON of IDA's answers\<close>

definition nullable_ea :: "ea \<Rightarrow> json_value" where
  "nullable_ea value = (if value = BADADDR then V_null else V_unsigned value)"

definition json_string :: "string \<Rightarrow> string throws" where
  "json_string t = dump (V_string t)"

definition json_u64 :: "u64 \<Rightarrow> string throws" where
  "json_u64 value = dump (V_unsigned value)"

definition json_nullable_u64 :: "ea \<Rightarrow> string throws" where
  "json_nullable_u64 value = dump (nullable_ea value)"

abbreviation bool_text :: "bool \<Rightarrow> string" where
  "bool_text b \<equiv> (if b then ''true'' else ''false'')"

abbreviation key_text :: "string \<Rightarrow> string throws" where
  "key_text k \<equiv> Inr (json_key k)"

definition function_value :: "'d ida_sdk \<Rightarrow> 'd \<Rightarrow> func_t option \<Rightarrow> json_value" where
  "function_value sdk d function =
     (case function of
        None \<Rightarrow> V_null
      | Some f \<Rightarrow> json_object
          [(''address'', V_unsigned (start_ea f)),
           (''start_ea'', V_unsigned (start_ea f)),
           (''end_ea'', V_unsigned (end_ea f)),
           (''size'', V_unsigned (end_ea f - start_ea f)),
           (''name'', V_string (get_func_name sdk d (start_ea f)))])"

definition function_json :: "'d ida_sdk \<Rightarrow> 'd \<Rightarrow> func_t option \<Rightarrow> string throws" where
  "function_json sdk d function = dump (function_value sdk d function)"

definition item_state_json :: "'d ida_sdk \<Rightarrow> 'd \<Rightarrow> ea \<Rightarrow> json_value" where
  "item_state_json sdk d ea =
     (if ea = BADADDR then V_null
      else
        let head = get_item_head sdk d ea;
            item_end = get_item_end sdk d ea;
            flags = get_flags_ex sdk d ea;
            name = get_ea_name sdk d ea;
            head_name = (if head = BADADDR then [] else get_ea_name sdk d head)
        in json_object
          [(''ea'', V_unsigned ea),
           (''item_head'', if head = BADADDR then V_null else V_unsigned head),
           (''item_end'', if item_end = BADADDR then V_null else V_unsigned item_end),
           (''item_size'', if head \<noteq> BADADDR \<and> item_end \<noteq> BADADDR \<and> head \<le> item_end
              then V_unsigned (item_end - head) else V_null),
           (''is_item_head'', V_boolean (head = ea)),
           (''name'', V_string name),
           (''head_name'', V_string head_name),
           (''is_code'', V_boolean (is_code flags)),
           (''is_data'', V_boolean (is_data flags))])"

definition set_name_failure_hint :: "'d ida_sdk \<Rightarrow> 'd \<Rightarrow> ea \<Rightarrow> string" where
  "set_name_failure_hint sdk d ea =
     (if ea = BADADDR then ''address did not resolve''
      else
        let head = get_item_head sdk d ea in
        if head \<noteq> BADADDR \<and> head \<noteq> ea
        then ''address is inside an existing IDA item; inspect item boundaries before renaming or explicitly split/undefine the item''
        else ''IDA rejected the requested name; check for invalid characters, duplicate names, or unsupported address state'')"

definition apply_cdecl_failure_hint :: "'d ida_sdk \<Rightarrow> 'd \<Rightarrow> ea \<Rightarrow> string \<Rightarrow> string" where
  "apply_cdecl_failure_hint sdk d ea decl =
     (if decl = [] then ''generated declaration is empty''
      else
        let head = get_item_head sdk d ea in
        if head \<noteq> BADADDR \<and> head \<noteq> ea
        then ''address is inside an existing IDA item; applying a type may require explicit item boundary repair''
        else ''IDA could not parse or apply the generated C declaration'')"

definition bytes_hex :: "u8 list \<Rightarrow> string" where
  "bytes_hex bytes = concat (map (\<lambda>byte. [digit_char (unat byte div 16), digit_char (unat byte mod 16)]) bytes)"

definition ensure_string_list :: "'d ida_sdk \<Rightarrow> 'd ida_state \<Rightarrow> 'd ida_state" where
  "ensure_string_list sdk st =
     (if \<not> strings_built st then st\<lparr>database := build_strlist sdk (database st), strings_built := True\<rparr> else st)"

definition string_list_items :: "'d ida_sdk \<Rightarrow> 'd \<Rightarrow> string_info_t list" where
  "string_list_items sdk d = List.map_filter (get_strlist_item sdk d) [0..<get_strlist_qty sdk d]"

definition get_string_list_item_at :: "'d ida_sdk \<Rightarrow> 'd \<Rightarrow> ea \<Rightarrow> string_info_t option" where
  "get_string_list_item_at sdk d ea = find (\<lambda>item. si_ea item = ea) (string_list_items sdk d)"

definition string_info_json :: "string_info_t \<Rightarrow> string \<Rightarrow> string throws" where
  "string_info_json item t = dump (json_object
     [(''address'', V_unsigned (si_ea item)),
      (''length'', V_unsigned (if 0 < si_length item then of_int (si_length item) else 0)),
      (''type'', V_integer (of_int (si_type item))),
      (''text'', V_string t)])"

definition read_string_text :: "'d ida_sdk \<Rightarrow> 'd \<Rightarrow> ea \<Rightarrow> u64 \<Rightarrow> int \<Rightarrow> string option" where
  "read_string_text sdk d ea len type = get_strlit_contents sdk d ea len type"

text \<open>The loop of \<^verbatim>\<open>read_idb_bytes\<close>, with the number of bytes still wanted.\<close>

fun read_bytes_loop :: "'d ida_sdk \<Rightarrow> 'd \<Rightarrow> ea \<Rightarrow> nat \<Rightarrow> u8 list" where
  "read_bytes_loop sdk d ea 0 = []"
| "read_bytes_loop sdk d ea (Suc n) =
     (case get_byte sdk d ea of None \<Rightarrow> [] | Some byte \<Rightarrow> byte # read_bytes_loop sdk d (ea + 1) n)"

definition read_idb_bytes :: "'d ida_sdk \<Rightarrow> 'd \<Rightarrow> ea \<Rightarrow> u64 \<Rightarrow> u8 list throws" where
  "read_idb_bytes sdk d ea len =
     (if len = 0 \<or> 4096 < len then Inl (Invalid_argument ''length must be between 1 and 4096 bytes'')
      else Inr (read_bytes_loop sdk d ea (unat len)))"

section \<open>A small database\<close>

text \<open>
  A database with one function of sixteen bytes at 0x1000, used to show that the hypotheses of the properties can hold.
  Items are four bytes long, the byte at an address is its low byte, and one chain of references leads from 0x1004 to
  0x1008. The database itself is a log of the changes made.
\<close>

definition sample_function :: func_t where
  "sample_function = \<lparr>start_ea = 0x1000, end_ea = 0x1010\<rparr>"

definition in_sample :: "ea \<Rightarrow> bool" where
  "in_sample ea \<longleftrightarrow> 0x1000 \<le> ea \<and> ea < 0x1010"

definition sample_sdk :: "(ea \<times> string) list ida_sdk" where
  "sample_sdk =
     \<lparr>get_func = (\<lambda>_ ea. if in_sample ea then Some sample_function else None),
      getn_func = (\<lambda>_ i. if i = 0 then Some sample_function else None),
      get_func_qty = (\<lambda>_. 1), get_func_name = (\<lambda>_ _. ''main''), get_frame_size = (\<lambda>_ _. 32), get_tinfo = (\<lambda>_ _. False),
      get_name_ea = (\<lambda>_ name. if name = ''main'' then 0x1000 else BADADDR), get_ea_name = (\<lambda>_ _. ''main''),
      get_nlist_size = (\<lambda>_. 2), get_nlist_ea = (\<lambda>_ i. if i = 0 then 0x1000 else 0x2000),
      get_nlist_name = (\<lambda>_ i. if i = 0 then Some ''main'' else Some ''table''),
      get_strlist_qty = (\<lambda>_. 0), get_strlist_item = (\<lambda>_ _. None), get_strlit_contents = (\<lambda>_ _ _ _. None),
      get_byte = (\<lambda>_ ea. if in_sample ea then Some (ucast ea) else None),
      prev_not_tail = (\<lambda>_ ea. ea), get_item_end = (\<lambda>_ ea. ea + 4), get_flags_ex = (\<lambda>_ _. 0x600),
      get_str_type = (\<lambda>_ _. 0), generate_disasm_line = (\<lambda>_ ea. Some ''nop''), get_cmt = (\<lambda>_ _ _. None),
      tag_remove = (\<lambda>t. t), get_import_module_qty = (\<lambda>_. 0), get_import_module_name = (\<lambda>_ _. []),
      enum_import_names = (\<lambda>_ _. []),
      get_first_seg = (\<lambda>_. Some sample_function), get_next_seg = (\<lambda>_ _. None),
      get_first_cref_to = (\<lambda>_ _. 0x1004), get_next_cref_to = (\<lambda>_ _ x. if x = 0x1004 then 0x1008 else BADADDR),
      get_first_dref_to = (\<lambda>_ _. BADADDR), get_next_dref_to = (\<lambda>_ _ _. BADADDR),
      get_first_cref_from = (\<lambda>_ _. BADADDR), get_next_cref_from = (\<lambda>_ _ _. BADADDR),
      get_first_dref_from = (\<lambda>_ _. BADADDR), get_next_dref_from = (\<lambda>_ _ _. BADADDR),
      find_extlang = (\<lambda>_ _. None), get_hexdsp = (\<lambda>_. False), build_strlist = (\<lambda>d. d),
      set_name = (\<lambda>ea name d. (name \<noteq> ''bad'', (ea, name) # d)), set_cmt = (\<lambda>ea t _ d. (True, (ea, t) # d)),
      apply_cdecl = (\<lambda>ea t d. (True, (ea, t) # d)), parse_decls = (\<lambda>_ d. (0, d)), save_database = (\<lambda>_ d. (True, d)),
      mark_cfunc_dirty = (\<lambda>_ d. (True, d)), clear_cached_cfuncs = (\<lambda>d. d), decompile_func = (\<lambda>_ d. (Inr [], d)),
      eval_snippet = (\<lambda>_ d. (Inr (), d)), eval_expr = (\<lambda>_ d. (Inr None, d))\<rparr>"

lemma sample_simps [simp]:
  "get_func sample_sdk d ea = (if in_sample ea then Some sample_function else None)"
  "getn_func sample_sdk d i = (if i = 0 then Some sample_function else None)"
  "get_func_qty sample_sdk d = 1" "get_func_name sample_sdk d ea = ''main''" "get_frame_size sample_sdk d f = 32"
  "get_name_ea sample_sdk d name = (if name = ''main'' then 0x1000 else BADADDR)"
  "get_ea_name sample_sdk d ea = ''main''" "get_nlist_size sample_sdk d = 2"
  "get_nlist_ea sample_sdk d i = (if i = 0 then 0x1000 else 0x2000)"
  "get_nlist_name sample_sdk d i = (if i = 0 then Some ''main'' else Some ''table'')"
  "get_byte sample_sdk d ea = (if in_sample ea then Some (ucast ea) else None)"
  "get_item_end sample_sdk d ea = ea + 4" "get_flags_ex sample_sdk d ea = 0x600"
  "generate_disasm_line sample_sdk d ea = Some ''nop''" "get_tinfo sample_sdk d ea = False"
  "get_first_seg sample_sdk d = Some sample_function" "get_next_seg sample_sdk d ea = None"
  "get_first_cref_to sample_sdk d ea = 0x1004"
  "get_next_cref_to sample_sdk d ea x = (if x = 0x1004 then 0x1008 else BADADDR)"
  "get_first_dref_to sample_sdk d ea = BADADDR" "get_first_cref_from sample_sdk d ea = BADADDR"
  "get_hexdsp sample_sdk d = False" "build_strlist sample_sdk d = d"
  "set_name sample_sdk ea name d = (name \<noteq> ''bad'', (ea, name) # d)"
  "set_cmt sample_sdk ea t r d = (True, (ea, t) # d)"
  by (simp_all add: sample_sdk_def)

end
