(* ===== verification/Ida_Query.thy ===== *)
theory Ida_Query
  imports Ida_Sdk
begin

unbundle bit_operations_syntax

text \<open>
  The core functions that read the database: number conversion, lookups, the paged lists of functions, globals, imports and
  strings, and strings, bytes and integers at an address (\<^verbatim>\<open>core_int_convert\<close> to \<^verbatim>\<open>core_get_int\<close>).
  A function returns its JSON text or throws; output written before a throw is lost with its stream.
\<close>

section \<open>Text of results\<close>

text \<open>\<^verbatim>\<open>{"items":[...],"count":n}\<close>.\<close>

definition items_text :: "string list \<Rightarrow> nat \<Rightarrow> string" where
  "items_text rows n = ''{'' @ json_key ''items'' @ ''['' @ comma_loop True rows @ ''],'' @ json_key ''count'' @ dec_text n @ ''}''"

text \<open>\<^verbatim>\<open>{"offset":o,"items":[...],"count":n,"total":t}\<close>.\<close>

definition page_text :: "u64 \<Rightarrow> string list \<Rightarrow> nat \<Rightarrow> nat \<Rightarrow> string" where
  "page_text offset rows emitted total_rows =
     ''{'' @ json_key ''offset'' @ dec_text (unat offset) @ '','' @ json_key ''items'' @ ''['' @ comma_loop True rows
     @ ''],'' @ json_key ''count'' @ dec_text emitted @ '','' @ json_key ''total'' @ dec_text total_rows @ ''}''"

section \<open>int\_convert\<close>

text \<open>\<^verbatim>\<open>value |= uint64_t(byte) << (i * 8)\<close> for successive bytes.\<close>

fun or_bytes :: "nat \<Rightarrow> u8 list \<Rightarrow> u64 \<Rightarrow> u64" where
  "or_bytes i [] value = value"
| "or_bytes i (byte # bytes) value = or_bytes (Suc i) bytes (value OR push_bit (i * 8) (ucast byte))"

definition is_byte_separator :: "char \<Rightarrow> bool" where
  "is_byte_separator c \<longleftrightarrow> c = CHR '' '' \<or> c = CHR '','' \<or> c = CHR ''-''"

function byte_items :: "nat \<Rightarrow> string \<Rightarrow> u64 \<Rightarrow> u64 option" where
  "byte_items index bytes value =
     (if bytes = [] \<or> 8 \<le> index then Some value
      else
        let token_on = dropWhile is_byte_separator bytes;
            token = takeWhile (\<lambda>c. \<not> is_byte_separator c) token_on;
            rest = dropWhile (\<lambda>c. \<not> is_byte_separator c) token_on
        in case parse_u64_text token of
             None \<Rightarrow> None
           | Some byte \<Rightarrow>
               if byte \<le> 0xff then byte_items (Suc index) rest (value OR push_bit (index * 8) byte) else None)"
  by pat_completeness auto
termination by (relation "measure (\<lambda>(index, _). 8 - index)") auto

declare byte_items.simps [simp del]

definition int_convert_value :: "string \<Rightarrow> u64 option" where
  "int_convert_value input =
     (if prefix ''ascii:'' input then Some (or_bytes 0 (map byte_of (take 8 (drop 6 input))) 0)
      else if prefix ''bytes:'' input \<or> prefix ''bytes_le:'' input
      then byte_items 0 (tl (dropWhile (\<lambda>c. c \<noteq> CHR '':'') input)) 0
      else parse_u64_text input)"

fun binary_loop :: "u64 \<Rightarrow> nat list \<Rightarrow> bool \<Rightarrow> string" where
  "binary_loop value [] seen_one = []"
| "binary_loop value (b # bs) seen_one =
     (if bit value b \<or> seen_one \<or> b = 0
      then (if bit value b then CHR ''1'' else CHR ''0'') # binary_loop value bs True
      else binary_loop value bs seen_one)"

definition value_bytes :: "u64 \<Rightarrow> u8 list" where
  "value_bytes value = map (\<lambda>i. ucast (drop_bit (8 * i) value)) [0..<8]"

definition printable_ascii :: "u8 list \<Rightarrow> string" where
  "printable_ascii bytes =
     map (\<lambda>byte. if 0x20 \<le> byte \<and> byte < 0x7f then char_of (unat byte) else CHR ''.'') (takeWhile (\<lambda>byte. byte \<noteq> 0) bytes)"

definition int_convert_row :: "string \<Rightarrow> string throws" where
  "int_convert_row input = join_throws
     ([Inr ''{'', key_text ''input'', json_string input]
      @ (case int_convert_value input of
           Some value \<Rightarrow>
             [Inr '','', key_text ''decimal'', json_string (dec_text (unat value)),
              Inr '','', key_text ''hex'', json_string (''0x'' @ hex_text (unat value)),
              Inr '','', key_text ''binary'', json_string (''0b'' @ binary_loop value (rev [0..<64]) False),
              Inr '','', key_text ''bytes_le'', Inr ''['',
              Inr (comma_loop True (map (\<lambda>byte. dec_text (unat byte)) (value_bytes value))), Inr '']'',
              Inr '','', key_text ''ascii'', json_string (printable_ascii (value_bytes value))]
         | None \<Rightarrow>
             [Inr '','', key_text ''error'',
              Inr ([quote] @ ''not a supported integer, hex, binary, bytes, or ASCII representation'' @ [quote])])
      @ [Inr ''}''])"

definition is_object :: "json_value \<Rightarrow> bool" where
  "is_object v \<longleftrightarrow> (case v of V_object _ \<Rightarrow> True | _ \<Rightarrow> False)"

definition core_int_convert :: "json_value \<Rightarrow> string throws" where
  "core_int_convert args =
     andthen (json_list_arg args ''inputs'') (\<lambda>inputs0.
     andthen (if inputs0 = [] \<and> \<not> is_object args then json_list_arg args '''' else Inr inputs0) (\<lambda>inputs.
     andthen (map_throws int_convert_row inputs) (\<lambda>rows.
     Inr (items_text rows (length inputs)))))"

section \<open>lookup\_funcs\<close>

definition rebase :: "u64 \<Rightarrow> u64 \<Rightarrow> u64 \<Rightarrow> ea" where
  "rebase address runtime_module_base ida_image_base =
     (if runtime_module_base \<le> address \<and> ida_image_base \<le> - 1 - (address - runtime_module_base)
      then ida_image_base + (address - runtime_module_base) else BADADDR)"

definition lookup_address :: "'d ida_sdk \<Rightarrow> 'd \<Rightarrow> u64 \<Rightarrow> u64 \<Rightarrow> string \<Rightarrow> ea" where
  "lookup_address sdk d runtime_module_base ida_image_base query =
     (case parse_u64_text query of
        Some address \<Rightarrow> rebase address runtime_module_base ida_image_base
      | None \<Rightarrow> get_name_ea sdk d (c_string query))"

definition lookup_row :: "'d ida_sdk \<Rightarrow> 'd \<Rightarrow> u64 \<Rightarrow> u64 \<Rightarrow> string \<Rightarrow> string throws" where
  "lookup_row sdk d runtime_module_base ida_image_base query =
     (let address = parse_u64_text query;
          ea = lookup_address sdk d runtime_module_base ida_image_base query;
          function = (if ea = BADADDR then None else get_func sdk d ea)
      in join_throws
           [Inr ''{'', key_text ''query'', json_string query,
            Inr '','', key_text ''input_type'', json_string (if address \<noteq> None then ''address'' else ''name''),
            Inr '','', key_text ''found'', Inr (if function = None then ''false'' else ''true''),
            Inr '','', key_text ''ida_ea'', json_nullable_u64 ea,
            Inr '','', key_text ''function'', function_json sdk d function, Inr ''}''])"

definition core_lookup_funcs :: "'d ida_sdk \<Rightarrow> 'd \<Rightarrow> json_value \<Rightarrow> string throws" where
  "core_lookup_funcs sdk d args =
     andthen (json_list_arg args ''queries'') (\<lambda>queries.
     andthen (json_u64_arg args ''runtime_module_base'' 0) (\<lambda>runtime_module_base.
     andthen (json_u64_arg args ''ida_image_base'' 0) (\<lambda>ida_image_base.
     andthen (map_throws (lookup_row sdk d runtime_module_base ida_image_base) queries) (\<lambda>rows.
     Inr (items_text rows (length queries))))))"

section \<open>Paged lists\<close>

text \<open>
  The counting of the four list functions: \<^verbatim>\<open>if (total++ < offset) continue; if (emitted >= count) continue;\<close> and then the
  row, which may throw. The result is the rows, how many were emitted, and the total.
\<close>

fun page_loop :: "u64 \<Rightarrow> u64 \<Rightarrow> nat \<Rightarrow> nat \<Rightarrow> string throws list \<Rightarrow> (string list \<times> nat \<times> nat) throws" where
  "page_loop offset limit total_rows emitted [] = Inr ([], emitted, total_rows)"
| "page_loop offset limit total_rows emitted (row # rows) =
     (if total_rows < unat offset then page_loop offset limit (Suc total_rows) emitted rows
      else if unat limit \<le> emitted then page_loop offset limit (Suc total_rows) emitted rows
      else andthen row (\<lambda>t. andthen (page_loop offset limit (Suc total_rows) (Suc emitted) rows) (\<lambda>(ts, e, n). Inr (t # ts, e, n))))"

definition page_result :: "u64 \<Rightarrow> u64 \<Rightarrow> string throws list \<Rightarrow> string throws" where
  "page_result offset limit rows =
     andthen (page_loop offset limit 0 0 rows) (\<lambda>(ts, emitted, total_rows). Inr (page_text offset ts emitted total_rows))"

text \<open>The three arguments of a list, the count limited to 1000.\<close>

definition page_args :: "json_value \<Rightarrow> (u64 \<times> u64 \<times> string) throws" where
  "page_args args =
     andthen (json_u64_arg args ''offset'' 0) (\<lambda>offset.
     andthen (json_u64_arg args ''count'' 50) (\<lambda>limit.
     andthen (json_string_arg args ''filter'') (\<lambda>filter_text.
     Inr (offset, min limit 1000, filter_text))))"

definition passes_filter :: "string \<Rightarrow> string \<Rightarrow> bool" where
  "passes_filter filter_text haystack \<longleftrightarrow>
     filter_text = [] \<or> str_find (to_lower_copy haystack) (to_lower_copy filter_text) \<noteq> None"

definition core_list_funcs :: "'d ida_sdk \<Rightarrow> 'd \<Rightarrow> json_value \<Rightarrow> string throws" where
  "core_list_funcs sdk d args =
     andthen (page_args args) (\<lambda>(offset, limit, filter_text).
     andthen (map_throws (\<lambda>i. function_json sdk d (getn_func sdk d i)) [0..<get_func_qty sdk d]) (\<lambda>items.
     page_result offset limit (map Inr (filter (passes_filter filter_text) items))))"

definition global_row :: "ea \<times> string \<Rightarrow> string throws" where
  "global_row g = join_throws
     [Inr ''{'', key_text ''address'', json_u64 (fst g), Inr '','', key_text ''name'', json_string (snd g), Inr ''}'']"

text \<open>The entries of the name list that are not in a function.\<close>

definition name_text :: "'d ida_sdk \<Rightarrow> 'd \<Rightarrow> nat \<Rightarrow> string" where
  "name_text sdk d i = (case get_nlist_name sdk d i of None \<Rightarrow> [] | Some name \<Rightarrow> name)"

definition global_entries :: "'d ida_sdk \<Rightarrow> 'd \<Rightarrow> (ea \<times> string) list" where
  "global_entries sdk d =
     map (\<lambda>i. (get_nlist_ea sdk d i, name_text sdk d i))
       (filter (\<lambda>i. \<not> (get_nlist_ea sdk d i = BADADDR \<or> get_func sdk d (get_nlist_ea sdk d i) \<noteq> None))
         [0..<get_nlist_size sdk d])"

definition core_list_globals :: "'d ida_sdk \<Rightarrow> 'd \<Rightarrow> json_value \<Rightarrow> string throws" where
  "core_list_globals sdk d args =
     andthen (page_args args) (\<lambda>(offset, limit, filter_text).
     page_result offset limit (map global_row (filter (\<lambda>g. passes_filter filter_text (snd g)) (global_entries sdk d))))"

text \<open>An import as \<^verbatim>\<open>collect_import_cb\<close> gets it: the module, its address, its name or null, its ordinal.\<close>

definition import_matches :: "string \<Rightarrow> string \<times> ea \<times> string option \<times> u64 \<Rightarrow> bool" where
  "import_matches lower_filter imp =
     (case imp of (module, ea, name, ordinal) \<Rightarrow>
        lower_filter = []
        \<or> str_find (to_lower_copy (module @ (case name of None \<Rightarrow> [] | Some n \<Rightarrow> '' '' @ n))) lower_filter \<noteq> None)"

definition import_row :: "string \<times> ea \<times> string option \<times> u64 \<Rightarrow> string throws" where
  "import_row imp =
     (case imp of (module, ea, name, ordinal) \<Rightarrow> join_throws
        [Inr ''{'', key_text ''module'', json_string module,
         Inr '','', key_text ''name'', (case name of None \<Rightarrow> Inr ''null'' | Some n \<Rightarrow> json_string n),
         Inr '','', key_text ''ordinal'', Inr (if ordinal = 0 then ''null'' else dec_text (unat ordinal)),
         Inr '','', key_text ''iat_ea'', json_u64 ea, Inr ''}''])"

definition import_entries :: "'d ida_sdk \<Rightarrow> 'd \<Rightarrow> (string \<times> ea \<times> string option \<times> u64) list" where
  "import_entries sdk d =
     concat (map (\<lambda>i. map (Pair (get_import_module_name sdk d i)) (enum_import_names sdk d i))
       [0..<get_import_module_qty sdk d])"

definition core_list_imports :: "'d ida_sdk \<Rightarrow> 'd \<Rightarrow> json_value \<Rightarrow> string throws" where
  "core_list_imports sdk d args =
     andthen (page_args args) (\<lambda>(offset, limit, filter_text).
     page_result offset limit
       (map import_row (filter (import_matches (to_lower_copy filter_text)) (import_entries sdk d))))"

text \<open>How many bytes of a listed string are read: all of them for a length that is not positive.\<close>

definition listed_length :: "string_info_t \<Rightarrow> u64" where
  "listed_length item = (if 0 < si_length item then of_int (si_length item) else - 1)"

definition capped_length :: "u64 \<Rightarrow> u64" where
  "capped_length len = (if len \<noteq> - 1 then min len 4096 else len)"

definition string_entries :: "'d ida_sdk \<Rightarrow> 'd \<Rightarrow> (string_info_t \<Rightarrow> u64) \<Rightarrow> (string_info_t \<times> string) list" where
  "string_entries sdk d read_length =
     List.map_filter
       (\<lambda>item. map_option (Pair item) (read_string_text sdk d (si_ea item) (read_length item) (si_type item)))
       (string_list_items sdk d)"

definition core_list_strings :: "'d ida_sdk \<Rightarrow> json_value \<Rightarrow> 'd ida_state \<Rightarrow> string throws \<times> 'd ida_state" where
  "core_list_strings sdk args st =
     (let st' = ensure_string_list sdk st; d = database st' in
      (andthen (page_args args) (\<lambda>(offset, limit, filter_text).
       page_result offset limit
         (map (\<lambda>(item, t). string_info_json item t)
           (filter (\<lambda>(item, t). passes_filter filter_text t)
             (string_entries sdk d (\<lambda>item. capped_length (listed_length item)))))), st'))"

section \<open>Strings, bytes and integers at an address\<close>

text \<open>\<^verbatim>\<open>static_cast<int32>\<close>.\<close>

definition to_int32 :: "u64 \<Rightarrow> int" where
  "to_int32 x = sint (ucast x :: u32)"

definition STRTYPE_C :: int where "STRTYPE_C = 0"

definition get_string :: "'d ida_sdk \<Rightarrow> 'd \<Rightarrow> json_value \<Rightarrow> string throws" where
  "get_string sdk d args =
     andthen (required_json_u64_arg args ''addr'') (\<lambda>addr.
     let item = get_string_list_item_at sdk d addr in
     andthen (optional_json_u64_arg args ''length'') (\<lambda>length_arg.
     andthen (case length_arg of
                Some n \<Rightarrow> if n = 0 \<or> 4096 < n then Inl (Invalid_argument ''length must be between 1 and 4096 bytes'') else Inr ()
              | None \<Rightarrow> Inr ()) (\<lambda>_.
     andthen (optional_json_u64_arg args ''type'') (\<lambda>type_arg.
     let listed = (case item of Some i \<Rightarrow> listed_length i | None \<Rightarrow> - 1);
         len = (case length_arg of Some n \<Rightarrow> n | None \<Rightarrow> capped_length listed);
         type = (case type_arg of
                   Some t \<Rightarrow> to_int32 t
                 | None \<Rightarrow> (case item of
                     Some i \<Rightarrow> si_type i
                   | None \<Rightarrow> to_int32 (ucast (get_str_type sdk d addr))));
         found = read_string_text sdk d addr len type
     in join_throws
          ([Inr ''{'', key_text ''address'', json_u64 addr,
            Inr '','', key_text ''found'', Inr (bool_text (found \<noteq> None)),
            Inr '','', key_text ''length'', (if len = - 1 then Inr ''null'' else json_u64 len),
            Inr '','', key_text ''type'', Inr (signed_text type)]
           @ (case found of
                Some t \<Rightarrow> [Inr '','', key_text ''text'', json_string t]
              | None \<Rightarrow> [Inr '','', key_text ''text'', Inr ''null''])
           @ [Inr ''}''])))))"

definition core_get_string :: "'d ida_sdk \<Rightarrow> json_value \<Rightarrow> 'd ida_state \<Rightarrow> string throws \<times> 'd ida_state" where
  "core_get_string sdk args st =
     (let st' = ensure_string_list sdk st in (get_string sdk (database st') args, st'))"

definition core_get_bytes :: "'d ida_sdk \<Rightarrow> 'd \<Rightarrow> json_value \<Rightarrow> string throws" where
  "core_get_bytes sdk d args =
     andthen (required_json_u64_arg args ''addr'') (\<lambda>addr.
     andthen (required_json_u64_arg args ''length'') (\<lambda>len.
     andthen (read_idb_bytes sdk d addr len) (\<lambda>bytes.
     join_throws
       [Inr ''{'', key_text ''address'', json_u64 addr,
        Inr '','', key_text ''requested_length'', json_u64 len,
        Inr '','', key_text ''read_length'', json_u64 (of_nat (length bytes)),
        Inr '','', key_text ''complete'', Inr (bool_text (length bytes = unat len)),
        Inr '','', key_text ''bytes_hex'', json_string (bytes_hex bytes), Inr ''}''])))"

definition int_of_bytes :: "string \<Rightarrow> u8 list \<Rightarrow> u64" where
  "int_of_bytes endian bytes =
     (if endian = ''little'' then or_bytes 0 bytes 0
      else foldl (\<lambda>value byte. push_bit 8 value OR ucast byte) 0 bytes)"

definition get_int_result :: "u64 \<Rightarrow> u64 \<Rightarrow> string \<Rightarrow> u8 list \<Rightarrow> string throws" where
  "get_int_result addr width endian bytes =
     (let complete = (length bytes = unat width); v = int_of_bytes endian bytes in
      join_throws
        ([Inr ''{'', key_text ''address'', json_u64 addr,
          Inr '','', key_text ''size'', json_u64 width,
          Inr '','', key_text ''endian'', json_string endian,
          Inr '','', key_text ''complete'', Inr (bool_text complete),
          Inr '','', key_text ''bytes_hex'', json_string (bytes_hex bytes)]
         @ (if complete
            then [Inr '','', key_text ''decimal'', json_string (dec_text (unat v)),
                  Inr '','', key_text ''hex'', json_string (''0x'' @ hex_text (unat v))]
            else [Inr '','', key_text ''decimal'', Inr ''null'', Inr '','', key_text ''hex'', Inr ''null''])
         @ [Inr ''}'']))"

definition core_get_int :: "'d ida_sdk \<Rightarrow> 'd \<Rightarrow> json_value \<Rightarrow> string throws" where
  "core_get_int sdk d args =
     andthen (required_json_u64_arg args ''addr'') (\<lambda>addr.
     andthen (optional_json_u64_arg args ''size'') (\<lambda>size_arg.
     let width = (case size_arg of None \<Rightarrow> 8 | Some n \<Rightarrow> n) in
     if width \<notin> {1, 2, 4, 8} then Inl (Invalid_argument ''size must be one of 1, 2, 4, or 8 bytes'')
     else
     andthen (json_string_arg args ''endian'') (\<lambda>endian_arg.
     let endian = (if endian_arg = [] then ''little'' else endian_arg) in
     if endian \<noteq> ''little'' \<and> endian \<noteq> ''big'' then Inl (Invalid_argument ''endian must be `little` or `big`'')
     else
     andthen (read_idb_bytes sdk d addr width) (get_int_result addr width endian))))"

section \<open>Numbers and bytes\<close>

lemma not_bit_above:
  fixes v :: "'a::len word"
  assumes "unat v < 2 ^ k" and "k \<le> n"
  shows "\<not> bit v n"
proof -
  have "take_bit k v = v"
    using assms(1) by (simp add: word_unat_eq_iff unsigned_take_bit_eq take_bit_nat_eq_self)
  then have "bit v n \<longleftrightarrow> bit (take_bit k v) n" by simp
  then show ?thesis using assms(2) by (simp add: bit_take_bit_iff)
qed

lemma unat_ucast_u8: "unat (ucast (b :: u8) :: u64) = unat b"
  using unat_bound [of b] by (simp add: unsigned_ucast_eq take_bit_nat_eq_self)

lemma unat_or_push:
  fixes v :: u64 and b :: u8
  assumes "unat v < 256 ^ i" and "i < 8"
  shows "unat (v OR push_bit (i * 8) (ucast b)) = unat v + 256 ^ i * unat b"
proof -
  have pow: "(256 :: nat) ^ i = 2 ^ (i * 8)" using power_mult [of "2 :: nat" 8 i] by (simp add: mult.commute)
  have "(256 :: nat) ^ i * 256 \<le> 256 ^ 8"
    using assms(2) power_increasing [of "Suc i" 8 "256 :: nat"] by (simp add: mult.commute)
  have room: "256 ^ i * unat b + 256 ^ i \<le> (2 :: nat) ^ 64"
  proof -
    have "256 ^ i * (unat b + 1) \<le> (256 :: nat) ^ i * 256" using unat_bound [of b] by (intro mult_le_mono2) simp
    also have "\<dots> \<le> 2 ^ 64" using \<open>(256 :: nat) ^ i * 256 \<le> 256 ^ 8\<close> by simp
    finally show ?thesis by (simp only: distrib_left mult_1_right)
  qed
  have push: "unat (push_bit (i * 8) (ucast b) :: u64) = 256 ^ i * unat b"
    using room assms(1) unfolding unsigned_push_bit_eq unat_ucast_u8
    by (simp add: push_bit_eq_mult take_bit_nat_eq_self pow mult.commute)
  have "\<not> bit v n \<or> \<not> bit (push_bit (i * 8) (ucast b) :: u64) n" for n
    using not_bit_above [of v "i * 8" n] assms(1) pow by (auto simp: bit_push_bit_iff not_le)
  then have "v OR push_bit (i * 8) (ucast b) = v + push_bit (i * 8) (ucast b)"
    by (intro disjunctive_add [symmetric])
  then show ?thesis using assms(1) room push by (simp add: unat_word_ariths)
qed

lemma unat_or_bytes:
  assumes "unat v < 256 ^ i" and "i + length bytes \<le> 8"
  shows "unat (or_bytes i bytes v) = unat v + 256 ^ i * le_nat bytes"
  using assms
proof (induction i bytes v rule: or_bytes.induct)
  case (2 i b bytes v)
  then have v: "unat (v OR push_bit (i * 8) (ucast b)) = unat v + 256 ^ i * unat b"
    by (intro unat_or_push) auto
  have "256 ^ i * unat b \<le> 256 ^ i * 255" using unat_bound [of b] by (intro mult_le_mono2) simp
  then have "unat (v OR push_bit (i * 8) (ucast b)) < 256 ^ Suc i"
    using "2.prems"(1) unfolding v power_Suc by linarith
  with "2.IH" "2.prems" v show ?case by (simp add: algebra_simps)
qed simp

lemma unat_big_step:
  fixes v :: u64 and b :: u8
  assumes "unat v < 256 ^ 7"
  shows "unat (push_bit 8 v OR ucast b) = unat v * 256 + unat b"
proof -
  have "unat (push_bit 8 v) = unat v * 256"
    using assms by (simp only: unsigned_push_bit_eq) (simp add: push_bit_eq_mult take_bit_nat_eq_self)
  moreover have "\<not> bit (push_bit 8 v) n \<or> \<not> bit (ucast b :: u64) n" for n
    using not_bit_above [of "ucast b :: u64" 8 n] unat_bound [of b] by (auto simp: bit_push_bit_iff unat_ucast_u8 not_le)
  then have "push_bit 8 v OR ucast b = push_bit 8 v + ucast b" by (intro disjunctive_add [symmetric])
  ultimately show ?thesis using assms unat_bound [of b] by (simp add: unat_word_ariths unat_ucast_u8)
qed

lemma le_nat_less: "le_nat bytes < 256 ^ length bytes"
proof (induction bytes)
  case (Cons b bytes)
  then have "unat b + 256 * le_nat bytes < 256 + 256 * (256 ^ length bytes - 1)"
    using unat_bound [of b] by (intro add_less_le_mono) auto
  then show ?case using zero_less_power [of "256 :: nat" "length bytes"] by (simp add: algebra_simps)
qed simp

lemma unat_big_endian:
  assumes "length bytes \<le> 8"
  shows "unat (foldl (\<lambda>w byte. push_bit 8 w OR ucast byte) 0 bytes :: u64) = le_nat (rev bytes)"
  using assms
proof (induction bytes rule: rev_induct)
  case (snoc b bytes)
  let ?v = "foldl (\<lambda>w byte. push_bit 8 w OR ucast byte) 0 bytes :: u64"
  have v: "unat ?v = le_nat (rev bytes)" using snoc by simp
  have "le_nat (rev bytes) < 256 ^ length bytes" using le_nat_less [of "rev bytes"] by simp
  also have "\<dots> \<le> 256 ^ 7" using snoc.prems by (intro power_increasing) auto
  finally show ?case using unat_big_step [of ?v b] v by simp
qed simp

lemma int_of_bytes_value:
  assumes "length bytes \<le> 8"
  shows "unat (int_of_bytes endian bytes) = le_nat (if endian = ''little'' then bytes else rev bytes)"
  using unat_or_bytes [of 0 0 bytes] unat_big_endian [OF assms] assms by (simp add: int_of_bytes_def)

lemma unat_value_byte: "unat (ucast (drop_bit (8 * i) v) :: u8) = unat (v :: u64) div 256 ^ i mod 256"
  by (simp only: unsigned_ucast_eq unsigned_drop_bit_eq) (use unat_bound [of v] in \<open>simp add: take_bit_eq_mod drop_bit_eq_div power_mult\<close>)

lemma value_bytes_le: "value_bytes v = le_bytes 8 (unat v)"
proof -
  have "value_bytes v = map (\<lambda>i. of_nat (unat v div 256 ^ i mod 256)) [0..<8]"
    unfolding value_bytes_def
    by (intro map_cong refl) (simp add: word_unat_eq_iff unat_value_byte unat_of_nat)
  then show ?thesis by (simp add: le_bytes_map)
qed

lemma le_nat_value_bytes: "le_nat (value_bytes v) = unat v"
  using unat_bound [of v] by (simp add: value_bytes_le le_nat_le_bytes)

text \<open>The binary text: the digits below the leading one are all written.\<close>

definition bit_char :: "u64 \<Rightarrow> nat \<Rightarrow> char" where
  "bit_char v i = (if bit v i then CHR ''1'' else CHR ''0'')"

lemma binary_loop_seen: "binary_loop v bs True = map (bit_char v) bs"
  by (induction bs) (auto simp: bit_char_def)

lemma digit_char_bit: "digit_char (unat v div 2 ^ i mod 2) = bit_char v i"
proof -
  have "bit v i \<longleftrightarrow> odd (unat v div 2 ^ i)" 
    using bit_iff_odd [of "unat v" i] by (simp add: bit_unsigned_iff)
  moreover have "digit_char 0 = CHR ''0''" "digit_char 1 = CHR ''1''" by code_simp+
  ultimately show ?thesis by (simp add: bit_char_def mod_2_eq_odd)
qed

lemma digits_small: "n < b \<Longrightarrow> digits b n = [n]"
  by (subst digits.simps) simp

lemma digits_2:
  assumes "2 ^ m \<le> x" and "x < 2 ^ Suc m"
  shows "digits 2 x = map (\<lambda>i. x div 2 ^ i mod 2) (rev [0..<Suc m])"
  using assms
proof (induction m arbitrary: x)
  case 0
  then have "x = 1" by simp
  then show ?case by (simp add: digits_small)
next
  case (Suc m)
  have up: "[0..<Suc (Suc m)] = 0 # map Suc [0..<Suc m]" by (simp add: upt_conv_Cons map_Suc_upt del: upt_Suc)
  have "digits 2 (x div 2) = map (\<lambda>i. x div 2 div 2 ^ i mod 2) (rev [0..<Suc m])"
    using Suc.prems by (intro Suc.IH) auto
  moreover have "\<not> x < 2"
  proof -
    have "(1 :: nat) \<le> 2 ^ m" by simp
    then show ?thesis using Suc.prems(1) unfolding power_Suc by linarith
  qed
  ultimately show ?case
    by (subst digits.simps) (simp add: up rev_map [symmetric] o_def div_mult2_eq del: upt_Suc)
qed

lemma binary_loop_text:
  assumes "unat v < 2 ^ Suc n"
  shows "binary_loop v (rev [0..<Suc n]) False = radix_text 2 (unat v)"
  using assms
proof (induction n)
  case 0
  then have "unat v = 0 \<or> unat v = 1" by auto
  then show ?case
    using digit_char_bit [of v 0] by (auto simp: radix_text_def digits_small bit_char_def)
next
  case (Suc n)
  show ?case
  proof (cases "bit v (Suc n)")
    case True
    then have "2 ^ Suc n \<le> unat v" using not_bit_above [of v "Suc n" "Suc n"] by force
    then have "digits 2 (unat v) = map (\<lambda>i. unat v div 2 ^ i mod 2) (rev [0..<Suc (Suc n)])"
      using Suc.prems by (rule digits_2)
    then have "radix_text 2 (unat v) = map (bit_char v) (rev [0..<Suc (Suc n)])"
      by (simp add: radix_text_def digit_char_bit o_def del: upt_Suc)
    with True show ?thesis
      by (simp add: binary_loop_seen bit_char_def)
  next
    case False
    then have "even (unat v div 2 ^ Suc n)" 
      using bit_iff_odd [of "unat v" "Suc n"] by (simp add: bit_unsigned_iff)
    moreover have "unat v div 2 ^ Suc n < 2" using Suc.prems by (simp add: less_mult_imp_div_less)
    ultimately have "unat v div 2 ^ Suc n = 0" by (auto simp: less_2_cases_iff)
    then have "unat v < 2 ^ Suc n" by (simp add: div_eq_0_iff)
    with Suc.IH False show ?thesis by simp
  qed
qed

lemma binary_text: "binary_loop v (rev [0..<64]) False = radix_text 2 (unat v)"
  using binary_loop_text [of v 63] unat_bound [of v] by simp

section \<open>Documents of results\<close>

lemma json_string_iff: "json_string s = Inr t \<longleftrightarrow> utf8_text s \<and> t = quoted s"
  using dump_value_iff [of "V_string s" t] by (simp add: json_string_def)

lemma json_string_ok: "utf8_text s \<Longrightarrow> json_string s = Inr (quoted s)"
  by (simp add: json_string_iff)

lemma json_u64_text [simp]: "json_u64 v = Inr (dec_text (unat v))"
  by (simp add: json_u64_def dump_integer_text)

text \<open>Text that needs no escaping, and text of ASCII characters only.\<close>

definition ascii_text :: "string \<Rightarrow> bool" where
  "ascii_text s \<longleftrightarrow> list_all (\<lambda>c. (of_char c :: nat) < 128) s"

lemma ascii_text_simps [simp]:
  "ascii_text []" "ascii_text (c # s) \<longleftrightarrow> (of_char c :: nat) < 128 \<and> ascii_text s" "ascii_text (s @ t) \<longleftrightarrow> ascii_text s \<and> ascii_text t"
  by (auto simp: ascii_text_def)

lemma ascii_radix_text: "2 \<le> b \<Longrightarrow> b \<le> 16 \<Longrightarrow> ascii_text (radix_text b n)"
proof -
  assume "2 \<le> b" "b \<le> 16"
  then have "(of_char c :: nat) < 128" if "c \<in> set (radix_text b n)" for c
    using radix_text_chars [OF that] by (auto simp: digit_char_def)
  then show ?thesis by (simp add: ascii_text_def list_all_iff)
qed

lemma utf8_ascii: "ascii_text s \<Longrightarrow> utf8_text s"
  unfolding utf8_text_def by (induction s) (auto simp: sequence_ranges_def)

lemma ascii_printable: "ascii_text (printable_ascii bytes)"
  by (auto simp: ascii_text_def list_all_iff printable_ascii_def word_less_nat_alt unat_of_nat)

lemma plain_printable: "list_all (\<lambda>c. 32 \<le> (of_char c :: nat) \<and> c \<noteq> quote \<and> c \<noteq> backslash) k \<Longrightarrow> plain_text k"
proof (induction k)
  case (Cons c k)
  then have "c \<noteq> d" if "(of_char d :: nat) < 32" for d using that by auto
  then have "c \<noteq> CHR 0x08" "c \<noteq> CHR 0x0C" "c \<noteq> CHR 0x0A" "c \<noteq> CHR 0x0D" "c \<noteq> CHR 0x09" by simp_all
  with Cons show ?case by (simp add: plain_text_def json_escape_char_def)
qed (simp add: plain_text_def)

lemma quoted_plain: "plain_text s \<Longrightarrow> quoted s = [quote] @ s @ [quote]"
  by (simp add: plain_text_def quoted_def)

lemma render_array_comma_loop: "render (JArray js) = ''['' @ comma_loop True (map render js) @ '']''"
  by (simp add: comma_loop_True)

lemma join_throws_Nil [simp]: "join_throws [] = Inr []"
  by simp

lemma join_throws_texts: "join_throws (Inr t # rs) = (case join_throws rs of Inl e \<Rightarrow> Inl e | Inr u \<Rightarrow> Inr (t @ u))"
  by (cases "join_throws rs") (auto simp: prepend_def)

lemma plain_result_keys [simp]:
  "plain_text ''input''" "plain_text ''decimal''" "plain_text ''hex''" "plain_text ''binary''" "plain_text ''bytes_le''"
  "plain_text ''ascii''" "plain_text ''error''" "plain_text ''items''" "plain_text ''count''" "plain_text ''query''"
  "plain_text ''input_type''" "plain_text ''found''" "plain_text ''ida_ea''" "plain_text ''function''" "plain_text ''offset''"
  "plain_text ''total''" "plain_text ''address''" "plain_text ''name''" "plain_text ''size''" "plain_text ''endian''"
  "plain_text ''complete''" "plain_text ''bytes_hex''" "plain_text ''requested_length''" "plain_text ''read_length''"
  by (simp_all add: plain_printable)

definition unsupported_number :: string where
  "unsupported_number = ''not a supported integer, hex, binary, bytes, or ASCII representation''"

definition int_convert_doc :: "string \<Rightarrow> json" where
  "int_convert_doc input = JObject ((''input'', JString input) #
     (case int_convert_value input of
        Some v \<Rightarrow>
          [(''decimal'', JString (dec_text (unat v))), (''hex'', JString (''0x'' @ hex_text (unat v))),
           (''binary'', JString (''0b'' @ radix_text 2 (unat v))),
           (''bytes_le'', JArray (map (\<lambda>b. JNat (unat b)) (value_bytes v))),
           (''ascii'', JString (printable_ascii (value_bytes v)))]
      | None \<Rightarrow> [(''error'', JString unsupported_number)]))"

lemmas render_docs = json_key_def quoted_plain comma_loop_True o_def prepend_def

lemma plain_unsupported: "plain_text unsupported_number"
  unfolding unsupported_number_def by (rule plain_printable) simp

lemma int_convert_row_doc:
  assumes "utf8_text input"
  shows "int_convert_row input = Inr (render (int_convert_doc input))"
proof (cases "int_convert_value input")
  case None
  then show ?thesis
    using quoted_plain [OF plain_unsupported] assms
    by (simp add: int_convert_row_def int_convert_doc_def json_string_ok render_docs unsupported_number_def [symmetric])
next
  case (Some v)
  have texts: "json_string (dec_text (unat v)) = Inr (quoted (dec_text (unat v)))"
      "json_string (''0x'' @ hex_text (unat v)) = Inr (quoted (''0x'' @ hex_text (unat v)))"
      "json_string (''0b'' @ radix_text 2 (unat v)) = Inr (quoted (''0b'' @ radix_text 2 (unat v)))"
      "json_string (printable_ascii (value_bytes v)) = Inr (quoted (printable_ascii (value_bytes v)))"
    by (simp_all add: json_string_ok utf8_ascii ascii_radix_text ascii_printable del: append.simps add: append.simps(1))
  show ?thesis
    using Some assms texts by (simp add: int_convert_row_def int_convert_doc_def json_string_ok binary_text render_docs)
qed

definition items_doc :: "json list \<Rightarrow> nat \<Rightarrow> json" where
  "items_doc rows n = JObject [(''items'', JArray rows), (''count'', JNat n)]"

lemma items_text_doc: "items_text (map render rows) n = render (items_doc rows n)"
  by (simp add: items_text_def items_doc_def render_docs)

text \<open>The counting loop takes a slice.\<close>

lemma page_loop_slice:
  "page_loop offset limit n emitted rows =
     andthen (map_throws (\<lambda>r. r) (take (unat limit - emitted) (drop (unat offset - n) rows)))
       (\<lambda>ts. Inr (ts, emitted + length ts, n + length rows))"
proof (induction rows arbitrary: n emitted)
  case (Cons r rows)
  consider "n < unat offset" | "unat offset \<le> n" "unat limit \<le> emitted" | "unat offset \<le> n" "emitted < unat limit"
    by linarith
  then show ?case
  proof cases
    case 1
    then have "unat offset - n = Suc (unat offset - Suc n)" by simp
    with 1 show ?thesis by (simp add: Cons.IH)
  next
    case 2
    then show ?thesis by (simp add: Cons.IH)
  next
    case 3
    then have "unat limit - emitted = Suc (unat limit - Suc emitted)" by simp
    with 3 show ?thesis
      by (cases r; cases "map_throws (\<lambda>r. r) (take (unat limit - Suc emitted) rows)") (simp_all add: Cons.IH)
  qed
qed simp

definition page_doc :: "u64 \<Rightarrow> json list \<Rightarrow> nat \<Rightarrow> json" where
  "page_doc offset rows n = JObject
     [(''offset'', JNat (unat offset)), (''items'', JArray rows), (''count'', JNat (length rows)), (''total'', JNat n)]"

definition page_slice :: "u64 \<Rightarrow> u64 \<Rightarrow> 'a list \<Rightarrow> 'a list" where
  "page_slice offset limit xs = take (unat limit) (drop (unat offset) xs)"

lemma page_text_doc: "page_text offset (map render rows) (length rows) n = render (page_doc offset rows n)"
  by (simp add: page_text_def page_doc_def render_docs)

lemma map_throws_Inr [simp]: "map_throws (\<lambda>r. r) (map (\<lambda>x. Inr (f x)) xs) = Inr (map f xs)"
  by (induction xs) auto

lemma page_result_docs:
  assumes "\<And>x. x \<in> set xs \<Longrightarrow> row x = Inr (render (doc x))"
  shows "page_result offset limit (map row xs) = Inr (render (page_doc offset (page_slice offset limit (map doc xs)) (length xs)))"
proof -
  have rows: "map row xs = map (\<lambda>j. Inr (render j)) (map doc xs)" using assms by simp
  show ?thesis
    unfolding page_result_def page_loop_slice rows take_map drop_map map_throws_Inr
    using page_text_doc [of offset "page_slice offset limit (map doc xs)" "length xs"]
    by (simp add: page_slice_def take_map drop_map)
qed

text \<open>The database answers in UTF-8, as the SDK documents for its names.\<close>

definition names_utf8 :: "'d ida_sdk \<Rightarrow> 'd \<Rightarrow> bool" where
  "names_utf8 sdk d \<longleftrightarrow> (\<forall>ea. utf8_text (get_func_name sdk d ea)) \<and> (\<forall>i. utf8_text (name_text sdk d i))"

definition function_doc :: "'d ida_sdk \<Rightarrow> 'd \<Rightarrow> func_t option \<Rightarrow> json" where
  "function_doc sdk d function =
     (case function of
        None \<Rightarrow> JNull
      | Some f \<Rightarrow> JObject
          [(''address'', JNat (unat (start_ea f))), (''end_ea'', JNat (unat (end_ea f))),
           (''name'', JString (get_func_name sdk d (start_ea f))),
           (''size'', JNat (unat (end_ea f - start_ea f))), (''start_ea'', JNat (unat (start_ea f)))])"

lemma function_value_doc: "value_json (function_value sdk d function) = function_doc sdk d function"
  by (simp add: function_value_def function_doc_def json_object_def split: option.split)

lemma no_float_function: "no_float (function_value sdk d function)"
  by (simp add: function_value_def json_object_def split: option.split)

lemma utf8_function: "names_utf8 sdk d \<Longrightarrow> utf8_value (function_value sdk d function)"
  by (simp add: function_value_def json_object_def names_utf8_def utf8_ascii split: option.split)

lemma function_json_doc: "names_utf8 sdk d \<Longrightarrow> function_json sdk d function = Inr (render (function_doc sdk d function))"
  using dump_value_iff [OF no_float_function, of sdk d "function"]
  by (simp add: function_json_def function_value_doc utf8_function)

definition global_doc :: "ea \<times> string \<Rightarrow> json" where
  "global_doc g = JObject [(''address'', JNat (unat (fst g))), (''name'', JString (snd g))]"

lemma global_row_doc: "utf8_text (snd g) \<Longrightarrow> global_row g = Inr (render (global_doc g))"
  by (simp add: global_row_def global_doc_def json_string_ok render_docs)

text \<open>The reads of consecutive bytes stop at the first byte the database does not have.\<close>

lemma read_bytes_loop_spec:
  "read_bytes_loop sdk d ea n =
     map the (takeWhile (\<lambda>b. b \<noteq> None) (map (\<lambda>i. get_byte sdk d (ea + of_nat i)) [0..<n]))"
proof (induction n arbitrary: ea)
  case (Suc n)
  have "[0..<Suc n] = 0 # map Suc [0..<n]" by (simp add: upt_conv_Cons map_Suc_upt)
  then show ?case using Suc [of "ea + 1"] by (auto simp: o_def add.assoc split: option.split simp del: upt_Suc)
qed simp

lemma read_bytes_loop_length: "length (read_bytes_loop sdk d ea n) \<le> n"
  by (induction sdk d ea n rule: read_bytes_loop.induct) (auto split: option.split)

lemma ascii_bytes_hex: "ascii_text (bytes_hex bytes)"
proof -
  have digit: "(of_char (digit_char n) :: nat) < 128" if "n < 16" for n using that by (simp add: digit_char_def)
  have "unat b div 16 < 16" "unat b mod 16 < 16" for b :: u8 using unat_bound [of b] by (simp_all add: div_less_iff_less_mult)
  then show ?thesis by (auto simp: ascii_text_def list_all_iff bytes_hex_def intro!: digit)
qed

definition lookup_doc :: "'d ida_sdk \<Rightarrow> 'd \<Rightarrow> u64 \<Rightarrow> u64 \<Rightarrow> string \<Rightarrow> json" where
  "lookup_doc sdk d runtime_module_base ida_image_base query =
     (let ea = lookup_address sdk d runtime_module_base ida_image_base query;
          found = (if ea = BADADDR then None else get_func sdk d ea)
      in JObject
           [(''query'', JString query),
            (''input_type'', JString (if parse_u64_text query \<noteq> None then ''address'' else ''name'')),
            (''found'', JBool (found \<noteq> None)),
            (''ida_ea'', if ea = BADADDR then JNull else JNat (unat ea)),
            (''function'', function_doc sdk d found)])"

lemma json_nullable_text: "json_nullable_u64 ea = Inr (render (if ea = BADADDR then JNull else JNat (unat ea)))"
  by (simp add: json_nullable_u64_def nullable_ea_def dump_integer_text)

lemma quoted_input_type: "json_string ''address'' = Inr (quoted ''address'')" "json_string ''name'' = Inr (quoted ''name'')"
  by (simp_all add: json_string_ok utf8_ascii)

lemma lookup_row_doc:
  assumes "names_utf8 sdk d" and "utf8_text query"
  shows "lookup_row sdk d m b query = Inr (render (lookup_doc sdk d m b query))"
  using assms
  by (simp add: lookup_row_def lookup_doc_def Let_def json_string_ok quoted_input_type json_nullable_text function_json_doc render_docs
      del: json_u64_text)

lemma rebase_exact:
  "rebase a m b = (if m \<le> a \<and> unat b + (unat a - unat m) < 2 ^ 64 then of_nat (unat b + (unat a - unat m)) else BADADDR)"
proof (cases "m \<le> a")
  case True
  then have rva: "unat (a - m) = unat a - unat m" by (simp add: unat_sub)
  have "unat (- 1 - (a - m)) = 2 ^ 64 - 1 - (unat a - unat m)"
    using unat_bound [of "a - m"] unat_sub [of "a - m" "- 1"] rva by (simp add: unsigned_minus_1_eq_mask mask_eq_exp_minus_1)
  then have "b \<le> - 1 - (a - m) \<longleftrightarrow> unat b + (unat a - unat m) < 2 ^ 64"
    using unat_bound [of "a - m"] rva by (simp add: word_le_nat_alt) linarith
  moreover have "b + (a - m) = of_nat (unat b + (unat a - unat m))" unfolding rva [symmetric] by simp
  ultimately show ?thesis using True by (simp add: rebase_def)
qed (simp add: rebase_def)

definition get_int_doc :: "u64 \<Rightarrow> u64 \<Rightarrow> string \<Rightarrow> u8 list \<Rightarrow> json" where
  "get_int_doc addr width endian bytes =
     (let n = le_nat (if endian = ''little'' then bytes else rev bytes) in
      JObject
        ([(''address'', JNat (unat addr)), (''size'', JNat (unat width)), (''endian'', JString endian),
          (''complete'', JBool (length bytes = unat width)), (''bytes_hex'', JString (bytes_hex bytes))]
         @ (if length bytes = unat width
            then [(''decimal'', JString (dec_text n)), (''hex'', JString (''0x'' @ hex_text n))]
            else [(''decimal'', JNull), (''hex'', JNull)])))"

lemma get_int_text:
  assumes "width \<in> {1, 2, 4, 8}" and "endian = ''little'' \<or> endian = ''big''" and "length bytes \<le> unat width"
  shows "get_int_result addr width endian bytes = Inr (render (get_int_doc addr width endian bytes))"
proof -
  have "unat width \<le> 8" using assms(1) by auto
  then have len: "length bytes \<le> 8" using assms(3) by simp
  note v = int_of_bytes_value [OF len, of endian]
  let ?n = "le_nat (if endian = ''little'' then bytes else rev bytes)"
  have texts: "json_string (dec_text ?n) = Inr (quoted (dec_text ?n))" "json_string (''0x'' @ hex_text ?n) = Inr (quoted (''0x'' @ hex_text ?n))"
      "json_string (bytes_hex bytes) = Inr (quoted (bytes_hex bytes))" "json_string endian = Inr (quoted endian)"
    using assms(2) by (auto simp add: json_string_ok utf8_ascii ascii_radix_text ascii_bytes_hex)
  show ?thesis
    using texts by (simp add: get_int_result_def get_int_doc_def v Let_def render_docs)
qed

section \<open>Properties\<close>

lemma ascii_value: "unat (the (int_convert_value (''ascii:'' @ s))) = le_nat (map byte_of (take 8 s))"
  using unat_or_bytes [of 0 0 "map byte_of (take 8 s)"] by (simp add: int_convert_value_def)

lemma core_int_convert_doc:
  assumes "json_list_arg args ''inputs'' = Inr inputs" and "inputs \<noteq> []" and "list_all utf8_text inputs"
  shows "core_int_convert args = Inr (render (items_doc (map int_convert_doc inputs) (length inputs)))"
proof -
  have "map_throws int_convert_row inputs = Inr (map (\<lambda>i. render (int_convert_doc i)) inputs)"
    using assms(3) int_convert_row_doc by (intro map_throws_total) (auto simp: list_all_iff)
  then show ?thesis
    using assms(1,2) items_text_doc [of "map int_convert_doc inputs" "length inputs"] unfolding core_int_convert_def by (simp add: o_def)
qed

text \<open>
  C27 Number conversion: for inputs that are UTF-8 the result of \<^verbatim>\<open>int_convert\<close> is exactly one document per input, in order,
  with the count. The four renderings of an accepted value denote the same 64-bit number: its decimal, hexadecimal and
  binary texts are read back as it and its eight bytes are its little-endian bytes. The \<^verbatim>\<open>ascii:\<close> form takes the first eight
  characters in little-endian order.
\<close>

theorem int_convert_documents:
  assumes "json_list_arg args ''inputs'' = Inr inputs" and "inputs \<noteq> []" and "list_all utf8_text inputs"
  shows "core_int_convert args = Inr (render (items_doc (map int_convert_doc inputs) (length inputs)))
    \<and> parse_u64_text (dec_text (unat v)) = Some v \<and> parse_u64_text (''0x'' @ hex_text (unat v)) = Some v
    \<and> parse_u64_text (''0b'' @ radix_text 2 (unat v)) = Some v \<and> le_nat (value_bytes v) = unat v
    \<and> unat (the (int_convert_value (''ascii:'' @ s))) = le_nat (map byte_of (take 8 s))"
  using core_int_convert_doc [OF assms] parse_radix_texts [of v] le_nat_value_bytes [of v] unfolding ascii_value by simp

theorem int_convert_documents_witness:
  "core_int_convert (V_object [(''inputs'', V_array [V_string ''0x10'', V_string ''zz''])])
     = Inr (render (items_doc (map int_convert_doc [''0x10'', ''zz'']) 2))"
  using int_convert_documents [of "V_object [(''inputs'', V_array [V_string ''0x10'', V_string ''zz''])]" "[''0x10'', ''zz'']" 0 "[]"]
  by (simp add: json_list_arg_def json_arg_def json_list_value_def json_scalar_text_def utf8_ascii numeral_eq_Suc)

text \<open>
  Rebasing an address: a runtime address is looked up at the image base plus its distance from the module base, computed
  without wrap-around, and at no address at all when it lies below the module or the sum does not fit; every query of
  \<^verbatim>\<open>lookup_funcs\<close> is answered by one document that says where it was looked up and which function is there.
\<close>

theorem lookup_funcs_exact:
  assumes "names_utf8 sdk d" and "json_list_arg args ''queries'' = Inr queries" and "list_all utf8_text queries"
    and "json_u64_arg args ''runtime_module_base'' 0 = Inr m" and "json_u64_arg args ''ida_image_base'' 0 = Inr b"
  shows "core_lookup_funcs sdk d args = Inr (render (items_doc (map (lookup_doc sdk d m b) queries) (length queries)))
    \<and> rebase a m b = (if m \<le> a \<and> unat b + (unat a - unat m) < 2 ^ 64 then of_nat (unat b + (unat a - unat m)) else BADADDR)"
proof -
  have "map_throws (lookup_row sdk d m b) queries = Inr (map (\<lambda>q. render (lookup_doc sdk d m b q)) queries)"
    using assms(3) lookup_row_doc [OF assms(1)] by (intro map_throws_total) (auto simp: list_all_iff)
  then show ?thesis
    using assms(2,4,5) items_text_doc [of "map (lookup_doc sdk d m b) queries" "length queries"]
    by (simp add: core_lookup_funcs_def rebase_exact o_def)
qed

lemma sample_names: "names_utf8 sample_sdk d"
  by (simp add: names_utf8_def name_text_def utf8_ascii)

theorem lookup_funcs_exact_witness:
  "core_lookup_funcs sample_sdk [] (V_object [(''ida_image_base'', V_unsigned 0x1000), (''queries'', V_array [V_string ''4'']), (''runtime_module_base'', V_unsigned 2)])
     = Inr (render (items_doc [lookup_doc sample_sdk [] 2 0x1000 ''4''] 1))
   \<and> rebase 4 2 0x1000 = 0x1002"
  using lookup_funcs_exact [of sample_sdk "[]" "V_object [(''ida_image_base'', V_unsigned 0x1000), (''queries'', V_array [V_string ''4'']), (''runtime_module_base'', V_unsigned 2)]"
    "[''4'']" 2 "0x1000" 4]
  by (simp add: sample_names json_list_arg_def json_arg_def json_list_value_def json_scalar_text_def json_u64_arg_def json_u64_value_def utf8_ascii)

lemma list_pages:
  assumes "names_utf8 sdk d" and "page_args args = Inr (offset, limit, filter_text)"
  shows "let funcs = filter (\<lambda>j. passes_filter filter_text (render j))
             (map (\<lambda>i. function_doc sdk d (getn_func sdk d i)) [0..<get_func_qty sdk d]);
           globals = filter (\<lambda>g. passes_filter filter_text (snd g)) (global_entries sdk d)
    in core_list_funcs sdk d args = Inr (render (page_doc offset (page_slice offset limit funcs) (length funcs)))
       \<and> core_list_globals sdk d args
           = Inr (render (page_doc offset (page_slice offset limit (map global_doc globals)) (length globals)))
       \<and> limit \<le> 1000"
proof -
  let ?docs = "map (\<lambda>i. function_doc sdk d (getn_func sdk d i)) [0..<get_func_qty sdk d]"
  have "map_throws (\<lambda>i. function_json sdk d (getn_func sdk d i)) [0..<get_func_qty sdk d] = Inr (map render ?docs)"
    using function_json_doc [OF assms(1)] by (simp add: map_throws_total [where g = "\<lambda>i. render (function_doc sdk d (getn_func sdk d i))"] o_def)
  moreover have "(map Inr (filter (passes_filter filter_text) (map render ?docs)) :: string throws list)
      = map (\<lambda>j. Inr (render j)) (filter (\<lambda>j. passes_filter filter_text (render j)) ?docs)"
    by (simp add: filter_map o_def)
  ultimately have funcs: "core_list_funcs sdk d args = page_result offset limit
      (map (\<lambda>j. Inr (render j)) (filter (\<lambda>j. passes_filter filter_text (render j)) ?docs))"
    unfolding core_list_funcs_def assms(2) by (simp only: andthen_simps prod.case)
  have "utf8_text (snd g)" if "g \<in> set (global_entries sdk d)" for g
    using that assms(1) by (auto simp: global_entries_def names_utf8_def)
  then have globals: "global_row g = Inr (render (global_doc g))"
    if "g \<in> set (filter (\<lambda>g. passes_filter filter_text (snd g)) (global_entries sdk d))" for g
    using that by (intro global_row_doc) auto
  have "limit \<le> 1000" using assms(2) by (auto simp: page_args_def andthen_Inr_iff)
  then show ?thesis
    unfolding Let_def funcs core_list_globals_def assms(2)
    using page_result_docs [OF globals, of "filter (\<lambda>g. passes_filter filter_text (snd g)) (global_entries sdk d)"]
    by (simp add: page_result_docs [where doc = "\<lambda>j. j"])
qed

text \<open>
  C26 The paged lists equal their reference: the page of \<^verbatim>\<open>list_funcs\<close> is the slice, of at most 1000 rows from the offset, of
  the functions whose document contains the filter without regard to case, and the total is the number of all of them; the
  same holds of \<^verbatim>\<open>list_globals\<close>, whose filter is applied to the name.
\<close>

theorem paged_lists_slice:
  assumes "names_utf8 sdk d" and "page_args args = Inr (offset, limit, filter_text)"
  shows "let funcs = filter (\<lambda>j. passes_filter filter_text (render j))
             (map (\<lambda>i. function_doc sdk d (getn_func sdk d i)) [0..<get_func_qty sdk d]);
           globals = filter (\<lambda>g. passes_filter filter_text (snd g)) (global_entries sdk d)
    in core_list_funcs sdk d args = Inr (render (page_doc offset (page_slice offset limit funcs) (length funcs)))
       \<and> core_list_globals sdk d args
           = Inr (render (page_doc offset (page_slice offset limit (map global_doc globals)) (length globals)))
       \<and> limit \<le> 1000"
  by (rule list_pages [OF assms])

theorem paged_lists_slice_witness:
  "core_list_funcs sample_sdk [] (V_object []) =
     Inr (render (page_doc 0 [function_doc sample_sdk [] (Some sample_function)] 1))"
  using paged_lists_slice [of sample_sdk "[]" "V_object []" 0 50 "[]"]
  by (simp add: sample_names page_args_def json_u64_arg_def json_arg_def json_string_arg_def passes_filter_def
      page_slice_def Let_def)

text \<open>
  Integers from the database: \<^verbatim>\<open>get_int\<close> refuses a size other than 1, 2, 4 or 8 and an unknown byte order; otherwise it
  reads the bytes from the address up to the first missing one and, exactly when all are there, reports the number they
  are in the byte order asked for, computed without truncation.
\<close>

theorem get_int_exact:
  assumes "required_json_u64_arg args ''addr'' = Inr addr" and "optional_json_u64_arg args ''size'' = Inr size_arg"
    and "json_string_arg args ''endian'' = Inr endian_arg"
  shows "let width = (case size_arg of None \<Rightarrow> 8 | Some n \<Rightarrow> n);
           endian = (if endian_arg = [] then ''little'' else endian_arg);
           bytes = map the (takeWhile (\<lambda>b. b \<noteq> None) (map (\<lambda>i. get_byte sdk d (addr + of_nat i)) [0..<unat width]))
    in core_get_int sdk d args =
         (if width \<notin> {1, 2, 4, 8} then Inl (Invalid_argument ''size must be one of 1, 2, 4, or 8 bytes'')
          else if endian \<noteq> ''little'' \<and> endian \<noteq> ''big'' then Inl (Invalid_argument ''endian must be `little` or `big`'')
          else Inr (render (get_int_doc addr width endian bytes)))"
proof -
  define width where "width = (case size_arg of None \<Rightarrow> 8 | Some n \<Rightarrow> n)"
  define endian where "endian = (if endian_arg = [] then ''little'' else endian_arg)"
  have core: "core_get_int sdk d args =
      (if width \<notin> {1, 2, 4, 8} then Inl (Invalid_argument ''size must be one of 1, 2, 4, or 8 bytes'')
       else if endian \<noteq> ''little'' \<and> endian \<noteq> ''big'' then Inl (Invalid_argument ''endian must be `little` or `big`'')
       else andthen (read_idb_bytes sdk d addr width) (get_int_result addr width endian))"
    unfolding core_get_int_def width_def endian_def using assms by (simp only: andthen_simps Let_def)
  have "andthen (read_idb_bytes sdk d addr width) (get_int_result addr width endian)
      = Inr (render (get_int_doc addr width endian (read_bytes_loop sdk d addr (unat width))))"
    if "width \<in> {1, 2, 4, 8}" "endian = ''little'' \<or> endian = ''big''"
  proof -
    have "read_idb_bytes sdk d addr width = Inr (read_bytes_loop sdk d addr (unat width))"
      using that(1) by (auto simp: read_idb_bytes_def)
    then show ?thesis using get_int_text [OF that read_bytes_loop_length] by simp
  qed
  then show ?thesis
    unfolding core Let_def width_def [symmetric] endian_def [symmetric] read_bytes_loop_spec [symmetric] by auto
qed

lemma sample_bytes: "(0x1001 :: u8) = 1" "(0x1002 :: u8) = 2"
  by simp_all

theorem get_int_exact_witness:
  "core_get_int sample_sdk [] (V_object [(''addr'', V_unsigned 0x1001), (''endian'', V_string ''big''), (''size'', V_unsigned 2)])
     = Inr (render (get_int_doc 0x1001 2 ''big'' [1, 2]))"
  using get_int_exact [of "V_object [(''addr'', V_unsigned 0x1001), (''endian'', V_string ''big''), (''size'', V_unsigned 2)]"
    "0x1001" "Some 2" "''big''" sample_sdk "[]"]
  by (simp add: required_json_u64_arg_def optional_json_u64_arg_def json_string_arg_def json_arg_def json_u64_value_def
      json_scalar_text_def in_sample_def upt_conv_Cons Let_def sample_bytes)

end
