(* ===== verification/Ida_Code.thy ===== *)
theory Ida_Code
  imports Ida_Query
begin

text \<open>
  The core functions that walk code: \<^verbatim>\<open>decompile\<close>, \<^verbatim>\<open>disasm\<close>, \<^verbatim>\<open>xrefs_to\<close>, \<^verbatim>\<open>xrefs_to_field\<close> and \<^verbatim>\<open>callees\<close>.
  The walk over the items of a function always ends, because an item's size is never negative. The loops over
  cross-references end only when IDA's chain does, so they are partial: a run that does not return is \<open>None\<close>.
\<close>

section \<open>Runs that may not return\<close>

type_synonym 'a run = "'a throws option"

definition run_then :: "'a run \<Rightarrow> ('a \<Rightarrow> 'b run) \<Rightarrow> 'b run" where
  "run_then m f = (case m of None \<Rightarrow> None | Some (Inl e) \<Rightarrow> Some (Inl e) | Some (Inr x) \<Rightarrow> f x)"

lemma run_then_simps [simp]:
  "run_then None f = None" "run_then (Some (Inl e)) f = Some (Inl e)" "run_then (Some (Inr x)) f = f x"
  by (simp_all add: run_then_def)

fun map_run :: "('a \<Rightarrow> 'b run) \<Rightarrow> 'a list \<Rightarrow> 'b list run" where
  "map_run f [] = Some (Inr [])"
| "map_run f (x # xs) = run_then (f x) (\<lambda>y. run_then (map_run f xs) (\<lambda>ys. Some (Inr (y # ys))))"

text \<open>
  \<^verbatim>\<open>for (x = first; x != BADADDR; x = next(x)) rows(x)\<close>, the loop over a chain of cross-references.
\<close>

partial_function (option) xref_rows :: "(ea \<Rightarrow> ea) \<Rightarrow> (ea \<Rightarrow> string list throws) \<Rightarrow> ea \<Rightarrow> string list run" where
  "xref_rows next row x =
     (if x = BADADDR then Some (Inr [])
      else case row x of
             Inl e \<Rightarrow> Some (Inl e)
           | Inr ts \<Rightarrow> Option.bind (xref_rows next row (next x)) (\<lambda>r. Some (prepend ts r)))"

section \<open>The walk over a function\<close>

lemma next_item_increases:
  assumes "ea < fin"
  shows "unat ea < unat (next_item sdk d ea)"
proof (cases "ea < get_item_end sdk d ea")
  case True
  then have "get_item_end sdk d ea \<noteq> ea" by auto
  with True show ?thesis by (simp add: next_item_def dbgatlas_get_item_size_def word_less_nat_alt)
next
  case False
  have "unat ea + 1 < 2 ^ 64" using assms unat_bound [of fin] by (simp add: word_less_nat_alt)
  then have "unat (ea + 1) = unat ea + 1" by (simp add: unat_word_ariths)
  then show ?thesis using False by (simp add: next_item_def dbgatlas_get_item_size_def)
qed

text \<open>The addresses \<^verbatim>\<open>for (ea = start; ea < end;) { ...; ea += size == 0 ? 1 : size; }\<close> visits.\<close>

function walk :: "'d ida_sdk \<Rightarrow> 'd \<Rightarrow> ea \<Rightarrow> ea \<Rightarrow> ea list" where
  "walk sdk d fin ea = (if ea < fin then ea # walk sdk d fin (next_item sdk d ea) else [])"
  by pat_completeness auto
termination
proof (relation "measure (\<lambda>(_, _, _, ea). 2 ^ 64 - unat ea)")
  fix sdk :: "'d ida_sdk" and d and fin ea :: ea
  assume "ea < fin"
  then have "unat ea < unat (next_item sdk d ea)" by (rule next_item_increases)
  then show "((sdk, d, fin, next_item sdk d ea), sdk, d, fin, ea) \<in> measure (\<lambda>(_, _, _, ea). 2 ^ 64 - unat ea)"
    using unat_bound [of ea] unat_bound [of "next_item sdk d ea"] by simp
qed simp

declare walk.simps [simp del]

section \<open>decompile\<close>

definition hexrays_dispatcher :: "'d ida_sdk \<Rightarrow> 'd ida_state \<Rightarrow> unit throws \<times> 'd ida_state" where
  "hexrays_dispatcher sdk st =
     (let st' = (if \<not> hexdsp st then st\<lparr>hexdsp := get_hexdsp sdk (database st)\<rparr> else st)
      in (if \<not> hexdsp st' then Inl (Runtime_error ''Hex-Rays dispatcher is unavailable'') else Inr (), st'))"

definition dbgatlas_init_hexrays_plugin :: "'d ida_sdk \<Rightarrow> 'd ida_state \<Rightarrow> bool throws \<times> 'd ida_state" where
  "dbgatlas_init_hexrays_plugin sdk st =
     (case hexrays_dispatcher sdk st of (r, st') \<Rightarrow> (map_sum id (\<lambda>_. True) r, st'))"

definition dbgatlas_term_hexrays_plugin :: "'d ida_state \<Rightarrow> 'd ida_state" where
  "dbgatlas_term_hexrays_plugin st = st\<lparr>hexdsp := False\<rparr>"

text \<open>After a termination the dispatcher is asked for again: the cached one is never used past it.\<close>

lemma term_then_init:
  "fst (dbgatlas_init_hexrays_plugin sdk (dbgatlas_term_hexrays_plugin st)) = Inr True \<longleftrightarrow> get_hexdsp sdk (database st)"
  by (simp add: dbgatlas_init_hexrays_plugin_def hexrays_dispatcher_def dbgatlas_term_hexrays_plugin_def Let_def)

definition decompile_failure_message :: "hexrays_failure_t \<Rightarrow> string" where
  "decompile_failure_message failure =
     (if license_missing failure then ''Decompiler license is not available'' else ''Hex-Rays decompilation failed'')
     @ (if desc failure \<noteq> [] then '': '' @ desc failure else [])
     @ (if errea failure \<noteq> BADADDR then '' (address: 0x'' @ hex_text (unat (errea failure)) @ '')'' else [])"

fun join_lines :: "string list \<Rightarrow> string" where
  "join_lines [] = []"
| "join_lines [l] = l"
| "join_lines (l # l' # ls) = l @ newline # join_lines (l' # ls)"

definition stale_name_warning :: string where
  "stale_name_warning = ''metadata function name does not appear in pseudocode signature; decompiler cache or function type may still contain an older name''"

definition decompile_result ::
  "(string \<Rightarrow> string option) \<Rightarrow> 'd ida_sdk \<Rightarrow> 'd \<Rightarrow> func_t \<Rightarrow> string list \<Rightarrow> string throws" where
  "decompile_result strtod sdk d function lines =
     (let pseudocode = join_lines (map (tag_remove sdk) lines);
          function_name = get_func_name sdk d (start_ea function);
          first_line = takeWhile (\<lambda>c. c \<noteq> newline) pseudocode;
          warnings = (if function_name \<noteq> [] \<and> str_find first_line function_name = None
                      then [V_string stale_name_warning] else [])
      in andthen (function_json sdk d (Some function)) (\<lambda>t.
         case json_parse strtod t of
           Inl (Json_parse_error what) \<Rightarrow> Inl (Runtime_error what)
         | Inl (Json_out_of_range what) \<Rightarrow> Inl (Runtime_error what)
         | Inr function_parsed \<Rightarrow> dump (json_object
             [(''found'', V_boolean True), (''function'', function_parsed), (''language'', V_string ''c''),
              (''pseudocode'', V_string pseudocode), (''warnings'', V_array warnings)])))"

definition core_decompile ::
  "(string \<Rightarrow> string option) \<Rightarrow> 'd ida_sdk \<Rightarrow> json_value \<Rightarrow> 'd ida_state \<Rightarrow> string throws \<times> 'd ida_state" where
  "core_decompile strtod sdk args st =
     (case required_json_u64_arg args ''addr'' of
        Inl e \<Rightarrow> (Inl e, st)
      | Inr addr \<Rightarrow>
          (case get_func sdk (database st) addr of
             None \<Rightarrow> (Inr (''{'' @ json_key ''found'' @ ''false,'' @ json_key ''pseudocode'' @ ''null,'' @ json_key ''error''
                        @ [quote] @ ''function not found'' @ [quote] @ ''}''), st)
           | Some function \<Rightarrow>
               (case dbgatlas_init_hexrays_plugin sdk st of
                  (Inl e, st1) \<Rightarrow> (Inl e, st1)
                | (Inr False, st1) \<Rightarrow> (Inl (Runtime_error ''Hex-Rays decompiler is not available''), st1)
                | (Inr True, st1) \<Rightarrow>
                    (case decompile_func sdk function (database st1) of
                       (Inl failure, d) \<Rightarrow> (Inl (Runtime_error (decompile_failure_message failure)), st1\<lparr>database := d\<rparr>)
                     | (Inr lines, d) \<Rightarrow> (decompile_result strtod sdk d function lines, st1\<lparr>database := d\<rparr>)))))"

section \<open>disasm\<close>

definition instruction_row :: "ea \<Rightarrow> string \<Rightarrow> string throws" where
  "instruction_row ea line = join_throws
     [Inr ''{'', key_text ''ea'', json_u64 ea, Inr '','', key_text ''text'', json_string line, Inr ''}'']"

text \<open>The loop stops after 256 instructions.\<close>

fun disasm_rows :: "'d ida_sdk \<Rightarrow> 'd \<Rightarrow> nat \<Rightarrow> ea list \<Rightarrow> string list throws" where
  "disasm_rows sdk d emitted [] = Inr []"
| "disasm_rows sdk d emitted (ea # eas) =
     (if emitted < 256
      then (case generate_disasm_line sdk d ea of
              None \<Rightarrow> disasm_rows sdk d emitted eas
            | Some line \<Rightarrow> andthen (instruction_row ea line) (\<lambda>t. prepend [t] (disasm_rows sdk d (Suc emitted) eas)))
      else Inr [])"

definition core_disasm :: "'d ida_sdk \<Rightarrow> 'd \<Rightarrow> json_value \<Rightarrow> string throws" where
  "core_disasm sdk d args =
     andthen (required_json_u64_arg args ''addr'') (\<lambda>addr.
     case get_func sdk d addr of
       None \<Rightarrow> Inr (''{'' @ json_key ''found'' @ ''false,'' @ json_key ''instructions'' @ ''[],'' @ json_key ''warnings''
                   @ ''['' @ [quote] @ ''function not found'' @ [quote] @ '']}'')
     | Some function \<Rightarrow>
         andthen (join_throws
           [Inr ''{'', key_text ''found'', Inr ''true,'', key_text ''function'', function_json sdk d (Some function),
            Inr '','', key_text ''arguments'', Inr ''[],'', key_text ''stack_frame'', Inr ''{'', key_text ''size'',
            json_u64 (get_frame_size sdk d function), Inr ''},'', key_text ''instructions'', Inr ''['']) (\<lambda>front.
         andthen (disasm_rows sdk d 0 (walk sdk d (end_ea function) (start_ea function))) (\<lambda>rows.
         Inr (front @ comma_loop True rows @ '']}''))))"

section \<open>Cross-references\<close>

definition xref_to_row :: "'d ida_sdk \<Rightarrow> 'd \<Rightarrow> ea \<Rightarrow> string list throws" where
  "xref_to_row sdk d x =
     map_sum id (\<lambda>t. [t]) (join_throws
       [Inr ''{'', key_text ''from'', json_u64 x, Inr '','', key_text ''type'', Inr ([quote] @ ''code'' @ [quote] @ '',''),
        key_text ''function'', function_json sdk d (get_func sdk d x), Inr ''}''])"

definition xrefs_to_item :: "'d ida_sdk \<Rightarrow> 'd \<Rightarrow> string \<Rightarrow> string run" where
  "xrefs_to_item sdk d t =
     (case parse_u64_text t of
        None \<Rightarrow> Some (Inl (Invalid_argument ''xrefs_to addrs must contain only addresses''))
      | Some value \<Rightarrow>
          run_then (xref_rows (get_next_cref_to sdk d value) (xref_to_row sdk d) (get_first_cref_to sdk d value)) (\<lambda>rows.
          Some (join_throws [Inr ''{'', key_text ''to'', json_u64 value, Inr '','', key_text ''xrefs'', Inr ''['',
            Inr (comma_loop True rows), Inr '']}''])))"

definition core_xrefs_to :: "'d ida_sdk \<Rightarrow> 'd \<Rightarrow> json_value \<Rightarrow> string run" where
  "core_xrefs_to sdk d args =
     run_then (Some (json_list_arg args ''addrs'')) (\<lambda>addrs.
     run_then (map_run (xrefs_to_item sdk d) addrs) (\<lambda>items.
     Some (Inr (items_text items (length addrs)))))"

text \<open>The part of a query after its last dot, when there is something after it.\<close>

definition field_part :: "string \<Rightarrow> string" where
  "field_part query =
     (let after = rev (takeWhile (\<lambda>c. c \<noteq> CHR ''.'') (rev query)) in
      if CHR ''.'' \<in> set query \<and> after \<noteq> [] then after else query)"

definition field_row :: "'d ida_sdk \<Rightarrow> 'd \<Rightarrow> string \<Rightarrow> func_t \<Rightarrow> ea \<Rightarrow> string list throws" where
  "field_row sdk d query function ea =
     (let query_lower = to_lower_copy query; field_lower = to_lower_copy (field_part query) in
      case generate_disasm_line sdk d ea of
        None \<Rightarrow> Inr []
      | Some t \<Rightarrow>
          let lower = to_lower_copy t in
          if query_lower \<noteq> [] \<and> str_find lower query_lower \<noteq> None \<or> field_lower \<noteq> [] \<and> str_find lower field_lower \<noteq> None
          then map_sum id (\<lambda>t. [t]) (join_throws
            [Inr ''{'', key_text ''from'', json_u64 ea,
             Inr '','', key_text ''type'', Inr ([quote] @ ''struct_field_text'' @ [quote] @ '',''), key_text ''text'', json_string t,
             Inr '','', key_text ''function'', function_json sdk d (Some function), Inr ''}''])
          else Inr [])"

definition all_functions :: "'d ida_sdk \<Rightarrow> 'd \<Rightarrow> func_t list" where
  "all_functions sdk d = List.map_filter (getn_func sdk d) [0..<get_func_qty sdk d]"

definition function_walk :: "'d ida_sdk \<Rightarrow> 'd \<Rightarrow> func_t \<Rightarrow> ea list" where
  "function_walk sdk d function = walk sdk d (end_ea function) (start_ea function)"

definition xrefs_to_field_item :: "'d ida_sdk \<Rightarrow> 'd \<Rightarrow> string \<Rightarrow> string throws" where
  "xrefs_to_field_item sdk d query =
     andthen (join_throws [Inr ''{'', key_text ''query'', json_string query, Inr '','', key_text ''match'',
       Inr ([quote] @ ''disasm_text'' @ [quote] @ '',''), key_text ''xrefs'', Inr ''['']) (\<lambda>front.
     andthen (map_throws (\<lambda>f. map_throws (field_row sdk d query f) (function_walk sdk d f)) (all_functions sdk d)) (\<lambda>rows.
     Inr (front @ comma_loop True (concat (concat rows)) @ '']}'')))"

definition core_xrefs_to_field :: "'d ida_sdk \<Rightarrow> 'd \<Rightarrow> json_value \<Rightarrow> string throws" where
  "core_xrefs_to_field sdk d args =
     andthen (json_list_arg args ''queries'') (\<lambda>queries.
     andthen (map_throws (xrefs_to_field_item sdk d) queries) (\<lambda>items.
     Inr (items_text items (length queries))))"

definition callee_row :: "'d ida_sdk \<Rightarrow> 'd \<Rightarrow> func_t \<Rightarrow> ea \<Rightarrow> string list throws" where
  "callee_row sdk d function to =
     (case get_func sdk d to of
        None \<Rightarrow> Inr []
      | Some callee \<Rightarrow>
          if start_ea callee \<noteq> start_ea function
          then map_sum id (\<lambda>t. [t]) (function_json sdk d (Some callee)) else Inr [])"

definition callees_item :: "'d ida_sdk \<Rightarrow> 'd \<Rightarrow> string \<Rightarrow> string run" where
  "callees_item sdk d t =
     (case parse_u64_text t of
        None \<Rightarrow> Some (Inl (Invalid_argument ''callees addrs must contain only addresses''))
      | Some value \<Rightarrow>
          let function = get_func sdk d value in
          run_then (Some (join_throws [Inr ''{'', key_text ''function'', function_json sdk d function,
            Inr '','', key_text ''callees'', Inr ''[''])) (\<lambda>front.
          run_then (case function of
              None \<Rightarrow> Some (Inr [])
            | Some f \<Rightarrow> map_run (\<lambda>ea. xref_rows (get_next_cref_from sdk d ea) (callee_row sdk d f) (get_first_cref_from sdk d ea))
                          (function_walk sdk d f)) (\<lambda>rows.
          Some (Inr (front @ comma_loop True (concat rows) @ '']}'')))))"

definition core_callees :: "'d ida_sdk \<Rightarrow> 'd \<Rightarrow> json_value \<Rightarrow> string run" where
  "core_callees sdk d args =
     run_then (Some (json_list_arg args ''addrs'')) (\<lambda>addrs.
     run_then (map_run (callees_item sdk d) addrs) (\<lambda>items.
     Some (Inr (items_text items (length addrs)))))"

section \<open>Walks and chains\<close>

lemma walk_range: "ea' \<in> set (walk sdk d fin ea) \<Longrightarrow> ea \<le> ea' \<and> ea' < fin"
proof (induction sdk d fin ea rule: walk.induct)
  case (1 sdk d fin ea)
  show ?case
  proof (cases "ea < fin")
    case True
    have "ea \<le> next_item sdk d ea" using next_item_increases [OF True, of sdk d] by (simp add: word_le_nat_alt)
    moreover have "ea' = ea \<or> ea' \<in> set (walk sdk d fin (next_item sdk d ea))"
      using 1(2) True by (subst (asm) walk.simps) auto
    ultimately show ?thesis using 1(1) [OF True] True by auto
  next
    case False
    then show ?thesis using 1(2) by (subst (asm) walk.simps) simp
  qed
qed

lemma walk_sorted: "sorted_wrt (<) (walk sdk d fin ea)"
proof (induction sdk d fin ea rule: walk.induct)
  case (1 sdk d fin ea)
  show ?case
  proof (cases "ea < fin")
    case True
    have "ea < next_item sdk d ea" using next_item_increases [OF True, of sdk d] by (simp add: word_less_nat_alt)
    then have "\<forall>x \<in> set (walk sdk d fin (next_item sdk d ea)). ea < x" using walk_range by fastforce
    with True 1 show ?thesis by (subst walk.simps) simp
  qed (simp add: walk.simps)
qed

lemma walk_length: "length (walk sdk d fin ea) \<le> unat fin - unat ea"
proof (induction sdk d fin ea rule: walk.induct)
  case (1 sdk d fin ea)
  show ?case
  proof (cases "ea < fin")
    case True
    then have "length (walk sdk d fin (next_item sdk d ea)) \<le> unat fin - unat (next_item sdk d ea)" by (rule 1)
    moreover have "unat ea < unat fin" using True by (simp add: word_less_nat_alt)
    moreover note next_item_increases [OF True, of sdk d]
    ultimately show ?thesis using True by (subst walk.simps) simp
  qed (simp add: walk.simps)
qed

definition instruction_doc :: "ea \<Rightarrow> string \<Rightarrow> json" where
  "instruction_doc ea line = JObject [(''ea'', JNat (unat ea)), (''text'', JString line)]"

lemma plain_code_keys [simp]:
  "plain_text ''ea''" "plain_text ''text''" "plain_text ''arguments''" "plain_text ''stack_frame''" "plain_text ''instructions''"
  "plain_text ''warnings''" "plain_text ''from''" "plain_text ''type''" "plain_text ''to''" "plain_text ''xrefs''" "plain_text ''code''"
  "plain_text ''function not found''"
  by (simp_all add: plain_printable)

lemma instruction_row_doc: "utf8_text line \<Longrightarrow> instruction_row ea line = Inr (render (instruction_doc ea line))"
  by (simp add: instruction_row_def instruction_doc_def json_string_ok render_docs)

definition lines_utf8 :: "'d ida_sdk \<Rightarrow> 'd \<Rightarrow> bool" where
  "lines_utf8 sdk d \<longleftrightarrow> (\<forall>ea line. generate_disasm_line sdk d ea = Some line \<longrightarrow> utf8_text line)"

text \<open>The instructions of a function, in address order; an item IDA has no line for is left out.\<close>

definition instruction_docs :: "'d ida_sdk \<Rightarrow> 'd \<Rightarrow> ea list \<Rightarrow> json list" where
  "instruction_docs sdk d eas = List.map_filter (\<lambda>ea. map_option (instruction_doc ea) (generate_disasm_line sdk d ea)) eas"

lemma disasm_rows_docs:
  assumes "lines_utf8 sdk d"
  shows "disasm_rows sdk d emitted eas = Inr (map render (take (256 - emitted) (instruction_docs sdk d eas)))"
proof (induction eas arbitrary: emitted)
  case (Cons ea eas)
  show ?case
  proof (cases "generate_disasm_line sdk d ea")
    case None
    then show ?thesis using Cons by (simp add: instruction_docs_def map_filter_simps)
  next
    case (Some line)
    then have "instruction_row ea line = Inr (render (instruction_doc ea line))"
      using assms by (intro instruction_row_doc) (simp add: lines_utf8_def)
    moreover have "256 - emitted = Suc (256 - Suc emitted)" if "emitted < 256" using that by simp
    ultimately show ?thesis using Some Cons by (simp add: instruction_docs_def map_filter_simps prepend_def)
  qed
qed (simp add: instruction_docs_def map_filter_simps)

definition disasm_doc :: "'d ida_sdk \<Rightarrow> 'd \<Rightarrow> func_t option \<Rightarrow> json" where
  "disasm_doc sdk d function =
     (case function of
        None \<Rightarrow> JObject [(''found'', JBool False), (''instructions'', JArray []),
                  (''warnings'', JArray [JString ''function not found''])]
      | Some f \<Rightarrow> JObject
          [(''found'', JBool True), (''function'', function_doc sdk d (Some f)), (''arguments'', JArray []),
           (''stack_frame'', JObject [(''size'', JNat (unat (get_frame_size sdk d f)))]),
           (''instructions'', JArray (take 256 (instruction_docs sdk d (function_walk sdk d f))))])"

lemma core_disasm_doc:
  assumes "names_utf8 sdk d" and "lines_utf8 sdk d" and "required_json_u64_arg args ''addr'' = Inr addr"
  shows "core_disasm sdk d args = Inr (render (disasm_doc sdk d (get_func sdk d addr)))"
proof (cases "get_func sdk d addr")
  case None
  then show ?thesis using assms(3) by (simp add: core_disasm_def disasm_doc_def render_docs)
next
  case (Some f)
  have "join_throws
        [Inr ''{'', key_text ''found'', Inr ''true,'', key_text ''function'', function_json sdk d (Some f),
         Inr '','', key_text ''arguments'', Inr ''[],'', key_text ''stack_frame'', Inr ''{'', key_text ''size'',
         json_u64 (get_frame_size sdk d f), Inr ''},'', key_text ''instructions'', Inr ''['']
      = Inr (''{'' @ json_key ''found'' @ ''true,'' @ json_key ''function'' @ render (function_doc sdk d (Some f)) @ '',''
          @ json_key ''arguments'' @ ''[],'' @ json_key ''stack_frame'' @ ''{'' @ json_key ''size''
          @ dec_text (unat (get_frame_size sdk d f)) @ ''},'' @ json_key ''instructions'' @ ''['')"
    using function_json_doc [OF assms(1), of "Some f"] by (simp add: prepend_def)
  then show ?thesis
    using Some assms(3) disasm_rows_docs [OF assms(2), of 0 "function_walk sdk d f"]
    by (simp add: core_disasm_def disasm_doc_def function_walk_def render_docs)
qed

text \<open>A chain of references ends when following it reaches the address that is none.\<close>

definition chain_ends :: "(ea \<Rightarrow> ea) \<Rightarrow> ea \<Rightarrow> bool" where
  "chain_ends next x \<longleftrightarrow> (\<exists>n. (next ^^ n) x = BADADDR)"

lemma xref_rows_chain:
  assumes "(next ^^ n) x = BADADDR" and "\<forall>i < n. (next ^^ i) x \<noteq> BADADDR"
  shows "xref_rows next row x = Some (map_sum id concat (map_throws row (map (\<lambda>i. (next ^^ i) x) [0..<n])))"
  using assms
proof (induction n arbitrary: x)
  case 0
  then show ?case by (subst xref_rows.simps) simp
next
  case (Suc n)
  have up: "[0..<Suc n] = 0 # map Suc [0..<n]" by (simp add: upt_conv_Cons map_Suc_upt)
  have x: "x \<noteq> BADADDR" using Suc.prems(2) by force
  have "xref_rows next row (next x) = Some (map_sum id concat (map_throws row (map (\<lambda>i. (next ^^ i) (next x)) [0..<n])))"
  proof (rule Suc.IH)
    show "(next ^^ n) (next x) = BADADDR" using Suc.prems(1) by (simp add: funpow_swap1)
    show "\<forall>i < n. (next ^^ i) (next x) \<noteq> BADADDR" using Suc.prems(2) by (metis funpow_swap1 funpow.simps(2) o_apply Suc_less_eq)
  qed
  then have "xref_rows next row x = (case row x of Inl e \<Rightarrow> Some (Inl e) | Inr ts \<Rightarrow>
      Some (prepend ts (map_sum id concat (map_throws row (map (\<lambda>i. (next ^^ i) (next x)) [0..<n])))))"
    using x by (subst xref_rows.simps) (simp split: sum.split)
  then show ?case
    by (cases "row x"; cases "map_throws row (map (\<lambda>i. (next ^^ i) (next x)) [0..<n])")
      (simp_all add: up o_def funpow_swap1 prepend_def del: upt_Suc)
qed

lemma chain_length:
  assumes "chain_ends next x"
  obtains n where "(next ^^ n) x = BADADDR" and "\<forall>i < n. (next ^^ i) x \<noteq> BADADDR"
proof -
  obtain n where "(next ^^ n) x = BADADDR" using assms by (auto simp: chain_ends_def)
  from ex_least_nat_le [of "\<lambda>n. (next ^^ n) x = BADADDR", OF this] that show ?thesis by blast
qed

text \<open>A run that returns, with a value or an error.\<close>

definition returns :: "'a run \<Rightarrow> bool" where
  "returns m \<longleftrightarrow> m \<noteq> None"

lemma returns_Some [simp]: "returns (Some r)"
  by (simp add: returns_def)

lemma xref_rows_returns: "chain_ends next x \<Longrightarrow> returns (xref_rows next row x)"
  by (rule chain_length) (auto simp: xref_rows_chain)

lemma run_then_returns: "returns m \<Longrightarrow> (\<And>x. m = Some (Inr x) \<Longrightarrow> returns (f x)) \<Longrightarrow> returns (run_then m f)"
  by (auto simp: returns_def run_then_def split: option.split sum.split)

lemma map_run_returns: "(\<And>x. x \<in> set xs \<Longrightarrow> returns (f x)) \<Longrightarrow> returns (map_run f xs)"
  by (induction xs) (auto intro!: run_then_returns)

definition code_chains_end :: "'d ida_sdk \<Rightarrow> 'd \<Rightarrow> bool" where
  "code_chains_end sdk d \<longleftrightarrow>
     (\<forall>ea. chain_ends (get_next_cref_to sdk d ea) (get_first_cref_to sdk d ea)
         \<and> chain_ends (get_next_cref_from sdk d ea) (get_first_cref_from sdk d ea))"

lemma xrefs_to_item_returns: "code_chains_end sdk d \<Longrightarrow> returns (xrefs_to_item sdk d t)"
  unfolding xrefs_to_item_def code_chains_end_def
  by (auto split: option.split intro!: run_then_returns xref_rows_returns simp del: join_throws.simps(2))

lemma callees_item_returns: "code_chains_end sdk d \<Longrightarrow> returns (callees_item sdk d t)"
  unfolding callees_item_def code_chains_end_def Let_def
  by (auto split: option.split intro!: run_then_returns map_run_returns xref_rows_returns simp del: join_throws.simps(2))

text \<open>The document \<^verbatim>\<open>xrefs_to\<close> writes for an address whose chain is \<open>refs\<close>.\<close>

definition xrefs_to_doc :: "'d ida_sdk \<Rightarrow> 'd \<Rightarrow> u64 \<Rightarrow> ea list \<Rightarrow> json" where
  "xrefs_to_doc sdk d to refs = JObject
     [(''to'', JNat (unat to)),
      (''xrefs'', JArray (map (\<lambda>x. JObject [(''from'', JNat (unat x)), (''type'', JString ''code''),
         (''function'', function_doc sdk d (get_func sdk d x))]) refs))]"

lemma xref_to_row_doc:
  "names_utf8 sdk d \<Longrightarrow> xref_to_row sdk d x = Inr [render (JObject [(''from'', JNat (unat x)), (''type'', JString ''code''),
     (''function'', function_doc sdk d (get_func sdk d x))])]"
  by (simp add: xref_to_row_def function_json_doc render_docs)

lemma xrefs_to_item_doc:
  assumes "names_utf8 sdk d" and "parse_u64_text t = Some to"
    and "(get_next_cref_to sdk d to ^^ n) (get_first_cref_to sdk d to) = BADADDR"
    and "\<forall>i < n. (get_next_cref_to sdk d to ^^ i) (get_first_cref_to sdk d to) \<noteq> BADADDR"
  shows "xrefs_to_item sdk d t =
    Some (Inr (render (xrefs_to_doc sdk d to (map (\<lambda>i. (get_next_cref_to sdk d to ^^ i) (get_first_cref_to sdk d to)) [0..<n]))))"
proof -
  let ?refs = "map (\<lambda>i. (get_next_cref_to sdk d to ^^ i) (get_first_cref_to sdk d to)) [0..<n]"
  let ?doc = "\<lambda>x. JObject [(''from'', JNat (unat x)), (''type'', JString ''code''), (''function'', function_doc sdk d (get_func sdk d x))]"
  have "map_throws (xref_to_row sdk d) ?refs = Inr (map (\<lambda>x. [render (?doc x)]) ?refs)"
    using xref_to_row_doc [OF assms(1)] by (intro map_throws_total) simp
  moreover have "concat (map (\<lambda>x. [render (?doc x)]) xs) = map (\<lambda>x. render (?doc x)) xs" for xs by (induction xs) simp_all
  ultimately have "xref_rows (get_next_cref_to sdk d to) (xref_to_row sdk d) (get_first_cref_to sdk d to)
      = Some (Inr (map (\<lambda>x. render (?doc x)) ?refs))"
    unfolding xref_rows_chain [OF assms(3,4)] by (simp only: map_sum.simps)
  then show ?thesis
    using assms(2) by (simp add: xrefs_to_item_def xrefs_to_doc_def render_docs del: render.simps(5)) (simp add: render_docs)
qed

subsection \<open>The text of decompile\<close>

text \<open>\<^verbatim>\<open>decompile\<close> parses the text its own helper has just written; the parser gives back the value that was written.\<close>

lemma utf8_text_append: "utf8_text s \<Longrightarrow> utf8_text t \<Longrightarrow> utf8_text (s @ t)"
proof (induction s rule: length_induct)
  case (1 s)
  show ?case
  proof (cases s)
    case (Cons c cs)
    then obtain rs bs r where "sequence_ranges (of_char c) = Some rs" "list_all2 in_range rs bs" "cs = bs @ r" "utf8_text r"
      using utf8_text_Cons "1.prems"(1) by blast
    with "1.IH" "1.prems"(2) Cons show ?thesis using utf8_text_sequence by simp
  qed (use "1.prems" in simp)
qed

lemma utf8_join_lines: "(\<And>l. l \<in> set ls \<Longrightarrow> utf8_text l) \<Longrightarrow> utf8_text (join_lines ls)"
  by (induction ls rule: join_lines.induct) (auto intro!: utf8_text_append utf8_text_ascii simp: utf8_ascii)

lemma function_reparsed:
  assumes "names_utf8 sdk d"
  shows "json_parse strtod (render (function_doc sdk d function)) = Inr (function_value sdk d function)"
proof -
  have "wf_value (function_value sdk d function)"
    using assms
    by (simp add: function_value_def json_object_def names_utf8_def utf8_ascii split: option.split)
  moreover have "unsigned_zero (function_value sdk d function) = function_value sdk d function"
    by (simp add: function_value_def json_object_def split: option.split)
  ultimately show ?thesis using parse_render [OF _ no_float_function, of sdk d "function"] by (simp add: function_value_doc)
qed

definition decompile_doc :: "'d ida_sdk \<Rightarrow> 'd \<Rightarrow> func_t \<Rightarrow> string \<Rightarrow> json" where
  "decompile_doc sdk d function pseudocode = JObject
     [(''found'', JBool True), (''function'', function_doc sdk d (Some function)), (''language'', JString ''c''),
      (''pseudocode'', JString pseudocode),
      (''warnings'', JArray (if sublist (get_func_name sdk d (start_ea function)) (takeWhile (\<lambda>c. c \<noteq> newline) pseudocode)
                             then [] else [JString stale_name_warning]))]"

lemma decompile_object:
  assumes "utf8_value fv" "no_float fv" "utf8_text p" "list_all utf8_value ws" "list_all no_float ws"
  shows "dump (json_object [(''found'', V_boolean True), (''function'', fv), (''language'', V_string ''c''),
           (''pseudocode'', V_string p), (''warnings'', V_array ws)]) =
     Inr (render (JObject [(''found'', JBool True), (''function'', value_json fv), (''language'', JString ''c''),
           (''pseudocode'', JString p), (''warnings'', JArray (map value_json ws))]))"
proof -
  let ?v = "V_object [(''found'', V_boolean True), (''function'', fv), (''language'', V_string ''c''),
    (''pseudocode'', V_string p), (''warnings'', V_array ws)]"
  have "utf8_value ?v" "no_float ?v" using assms by (simp_all add: utf8_ascii)
  from dump_value_iff [OF this(2)] this(1) show ?thesis by (simp add: json_object_def del: dump.simps render.simps)
qed

lemma decompile_result_doc:
  assumes "names_utf8 sdk d" and "utf8_text (join_lines (map (tag_remove sdk) lines))"
  shows "decompile_result strtod sdk d f lines = Inr (render (decompile_doc sdk d f (join_lines (map (tag_remove sdk) lines))))"
proof -
  define p where "p = join_lines (map (tag_remove sdk) lines)"
  let ?name = "get_func_name sdk d (start_ea f)" and ?line = "takeWhile (\<lambda>c. c \<noteq> newline) p"
  define ws where "ws = (if sublist ?name ?line then [] else [V_string stale_name_warning])"
  have warnings: "(if ?name \<noteq> [] \<and> str_find ?line ?name = None then [V_string stale_name_warning] else []) = ws"
    using str_find_iff_sublist [of ?line ?name] by (auto simp: ws_def)
  have "list_all utf8_value ws" "list_all no_float ws" by (simp_all add: ws_def stale_name_warning_def utf8_ascii)
  from decompile_object [OF utf8_function [OF assms(1)] no_float_function _ this, of p "Some f"]
  have "decompile_result strtod sdk d f lines =
      Inr (render (JObject [(''found'', JBool True), (''function'', function_doc sdk d (Some f)), (''language'', JString ''c''),
        (''pseudocode'', JString p), (''warnings'', JArray (map value_json ws))]))"
    using assms(2)
    by (simp only: decompile_result_def Let_def p_def [symmetric] warnings function_json_doc [OF assms(1)] andthen_simps
        function_reparsed [OF assms(1)] function_value_doc sum.case)
  then show ?thesis by (simp only: decompile_doc_def p_def [symmetric]) (simp add: ws_def del: render.simps)
qed

section \<open>Properties\<close>

text \<open>
  C22 The walk over a function ends on every database: it visits addresses in strictly increasing order, all of them inside
  the function, hence at most as many as the function has bytes; it is empty only for an empty range. Its step never
  wraps around, whatever end IDA reports for an item.
\<close>

theorem walk_terminates:
  "sorted_wrt (<) (walk sdk d fin start) \<and> set (walk sdk d fin start) \<subseteq> {ea. start \<le> ea \<and> ea < fin}
   \<and> length (walk sdk d fin start) \<le> unat fin - unat start \<and> (walk sdk d fin start = [] \<longleftrightarrow> fin \<le> start)"
proof -
  have "walk sdk d fin start = [] \<longleftrightarrow> fin \<le> start" by (subst walk.simps) (auto simp: not_less)
  then show ?thesis
    using walk_sorted [of sdk d fin start] walk_range [of _ sdk d fin start] walk_length [of sdk d fin start] by blast
qed

text \<open>
  C20 Disassembly equals its reference: the result of \<^verbatim>\<open>disasm\<close> is the document with the function at the address, its frame
  size and the first 256 lines IDA gives on the walk over the function, or the not-found document.
\<close>

theorem disasm_reference:
  assumes "names_utf8 sdk d" and "lines_utf8 sdk d" and "required_json_u64_arg args ''addr'' = Inr addr"
  shows "core_disasm sdk d args = Inr (render (disasm_doc sdk d (get_func sdk d addr)))"
  by (rule core_disasm_doc [OF assms])

theorem disasm_reference_witness:
  "core_disasm sample_sdk [] (V_object [(''addr'', V_unsigned 0x1004)]) = Inr (render (disasm_doc sample_sdk [] (Some sample_function)))"
  using disasm_reference [of sample_sdk "[]" "V_object [(''addr'', V_unsigned 0x1004)]" "0x1004"]
  by (simp add: sample_names lines_utf8_def utf8_ascii required_json_u64_arg_def json_arg_def json_u64_value_def in_sample_def)

text \<open>
  C21 Decompilation reports what Hex-Rays gave: when the decompiler is available and decompiles the function at the address,
  \<^verbatim>\<open>decompile\<close> never fails in parsing the text of its own function record, and its result is the document with that
  function, the lines without their tags joined by newlines, and a warning exactly when the name of the function is not
  part of the first line. The state keeps the dispatcher and the database the decompiler left.
\<close>

theorem decompile_reference:
  assumes "required_json_u64_arg args ''addr'' = Inr addr" and "get_func sdk (database st) addr = Some f"
    and "hexdsp st \<or> get_hexdsp sdk (database st)" and "decompile_func sdk f (database st) = (Inr lines, d)"
    and "names_utf8 sdk d" and "list_all utf8_text (map (tag_remove sdk) lines)"
  shows "core_decompile strtod sdk args st =
    (Inr (render (decompile_doc sdk d f (join_lines (map (tag_remove sdk) lines)))), st\<lparr>hexdsp := True, database := d\<rparr>)"
proof -
  have "utf8_text (join_lines (map (tag_remove sdk) lines))" using assms(6) by (intro utf8_join_lines) (auto simp: list_all_iff)
  from decompile_result_doc [OF assms(5) this]
  show ?thesis
    using assms(1-4)
    by (auto simp: core_decompile_def dbgatlas_init_hexrays_plugin_def hexrays_dispatcher_def Let_def)
qed

theorem decompile_reference_witness:
  "core_decompile Some (sample_sdk\<lparr>decompile_func := \<lambda>_ d. (Inr [''int main()'', ''{}''], d)\<rparr>)
     (V_object [(''addr'', V_unsigned 0x1004)]) \<lparr>database = [], strings_built = False, hexdsp = True\<rparr> =
   (Inr (render (decompile_doc (sample_sdk\<lparr>decompile_func := \<lambda>_ d. (Inr [''int main()'', ''{}''], d)\<rparr>) [] sample_function
      (''int main()'' @ newline # ''{}''))), \<lparr>database = [], strings_built = False, hexdsp = True\<rparr>)"
proof -
  let ?sdk = "sample_sdk\<lparr>decompile_func := \<lambda>_ d. (Inr [''int main()'', ''{}''], d)\<rparr>"
  have "names_utf8 ?sdk []" using sample_names [of "[]"] by (simp add: names_utf8_def name_text_def)
  moreover have "tag_remove ?sdk l = l" for l by (simp add: sample_sdk_def)
  moreover have "utf8_text ''int main()''" "utf8_text ''{}''" by (simp_all add: utf8_ascii)
  ultimately show ?thesis
    using decompile_reference [of "V_object [(''addr'', V_unsigned 0x1004)]" "0x1004" ?sdk
      "\<lparr>database = [], strings_built = False, hexdsp = True\<rparr>" sample_function "[''int main()'', ''{}'']" "[]" Some]
    by (simp add: required_json_u64_arg_def json_arg_def json_u64_value_def in_sample_def)
qed

text \<open>
  C23 The cross-reference functions return whenever the database's chains of references end: \<^verbatim>\<open>xrefs_to\<close> and \<^verbatim>\<open>callees\<close> give a
  result or an error for every argument, and the entry of \<^verbatim>\<open>xrefs_to\<close> for an address lists exactly the chain, in its order.
\<close>

theorem xrefs_return:
  assumes "code_chains_end sdk d" and "names_utf8 sdk d" and "parse_u64_text t = Some to"
  shows "returns (core_xrefs_to sdk d args) \<and> returns (core_callees sdk d args)
    \<and> (\<exists>n. (get_next_cref_to sdk d to ^^ n) (get_first_cref_to sdk d to) = BADADDR
         \<and> xrefs_to_item sdk d t = Some (Inr (render (xrefs_to_doc sdk d to
              (map (\<lambda>i. (get_next_cref_to sdk d to ^^ i) (get_first_cref_to sdk d to)) [0..<n])))))"
proof -
  have "returns (core_xrefs_to sdk d args)" "returns (core_callees sdk d args)"
    unfolding core_xrefs_to_def core_callees_def
    using xrefs_to_item_returns [OF assms(1)] callees_item_returns [OF assms(1)]
    by (intro run_then_returns map_run_returns; simp)+
  moreover obtain n where "(get_next_cref_to sdk d to ^^ n) (get_first_cref_to sdk d to) = BADADDR"
      "\<forall>i < n. (get_next_cref_to sdk d to ^^ i) (get_first_cref_to sdk d to) \<noteq> BADADDR"
    using assms(1) chain_length [of "get_next_cref_to sdk d to"] unfolding code_chains_end_def by blast
  ultimately show ?thesis using xrefs_to_item_doc [OF assms(2,3)] by blast
qed

lemma sample_chains: "code_chains_end sample_sdk d"
proof -
  have "(get_next_cref_to sample_sdk d ea ^^ Suc (Suc 0)) 0x1004 = BADADDR" for ea by simp
  moreover have "(get_next_cref_from sample_sdk d ea ^^ 0) BADADDR = BADADDR" for ea by simp
  ultimately show ?thesis unfolding code_chains_end_def chain_ends_def sample_simps by blast
qed

theorem xrefs_return_witness:
  "\<exists>n. (get_next_cref_to sample_sdk [] 0x1010 ^^ n) 0x1004 = BADADDR \<and> returns (core_callees sample_sdk [] (V_object []))"
  using xrefs_return [OF sample_chains sample_names, of "dec_text (unat (0x1010 :: u64))" "0x1010" "[]" "V_object []"]
    parse_radix_texts(1) [of "0x1010"] by auto

end
