(* ===== verification/Ida_Edit.thy ===== *)
theory Ida_Edit
  imports Ida_Code
begin

text \<open>
  The core functions that change the database or run code in it: \<^verbatim>\<open>rename\<close>, \<^verbatim>\<open>set_comments\<close>, \<^verbatim>\<open>set_type\<close>,
  \<^verbatim>\<open>declare_type\<close>, \<^verbatim>\<open>inspect_item\<close>, \<^verbatim>\<open>force_recompile\<close>, \<^verbatim>\<open>idb_save\<close> and \<^verbatim>\<open>py_eval\<close>. Each item of a batch is tried on its
  own: what it throws becomes its \<^verbatim>\<open>error\<close> member and the next item still runs. The state is threaded through, so
  changes made before an exception stay.
\<close>

section \<open>Batches\<close>

text \<open>\<^verbatim>\<open>std::exception::what()\<close>.\<close>

fun what :: "cpp_exception \<Rightarrow> string" where
  "what (Invalid_argument m) = m"
| "what (Runtime_error m) = m"
| "what Bad_alloc = ''bad allocation''"
| "what Unknown_exception = []"

fun each_item :: "('i \<Rightarrow> 's \<Rightarrow> 'r throws \<times> 's) \<Rightarrow> 'i list \<Rightarrow> 's \<Rightarrow> 'r list throws \<times> 's" where
  "each_item step [] st = (Inr [], st)"
| "each_item step (item # items) st =
     (case step item st of
        (Inl e, st1) \<Rightarrow> (Inl e, st1)
      | (Inr r, st1) \<Rightarrow> (case each_item step items st1 of (rs, st2) \<Rightarrow> (prepend [r] rs, st2)))"

section \<open>Addresses and declarations\<close>

definition resolve_addr_or_name :: "'d ida_sdk \<Rightarrow> 'd \<Rightarrow> json_value \<Rightarrow> ea throws" where
  "resolve_addr_or_name sdk d object =
     andthen (optional_json_u64_arg object ''addr'') (\<lambda>addr.
     case addr of
       Some a \<Rightarrow> Inr a
     | None \<Rightarrow>
         andthen (json_string_arg object ''name'') (\<lambda>name.
         if name \<noteq> [] then Inr (get_name_ea sdk d (c_string name))
         else Inl (Invalid_argument ''item requires addr or name'')))"

definition resolve_query_addr_or_name :: "'d ida_sdk \<Rightarrow> 'd \<Rightarrow> string \<Rightarrow> ea" where
  "resolve_query_addr_or_name sdk d query =
     (case parse_u64_text query of Some addr \<Rightarrow> addr | None \<Rightarrow> get_name_ea sdk d (c_string query))"

definition current_name_or_placeholder :: "'d ida_sdk \<Rightarrow> 'd \<Rightarrow> ea \<Rightarrow> string" where
  "current_name_or_placeholder sdk d ea =
     (let name = get_ea_name sdk d ea in if name \<noteq> [] then name else ''dbgatlas_'' @ hex_text (unat ea))"

definition make_decl_for_ea :: "'d ida_sdk \<Rightarrow> 'd \<Rightarrow> ea \<Rightarrow> string \<Rightarrow> string" where
  "make_decl_for_ea sdk d ea type_text =
     (let trimmed = trim_copy type_text in
      if trimmed = [] then trimmed
      else if str_find trimmed '';'' \<noteq> None then trimmed
      else
        let name = current_name_or_placeholder sdk d ea in
        if str_find trimmed name \<noteq> None then trimmed @ '';''
        else case str_find trimmed ''['' of
               Some array_pos \<Rightarrow> trim_copy (take array_pos trimmed) @ '' '' @ name @ drop array_pos trimmed @ '';''
             | None \<Rightarrow> trimmed @ '' '' @ name @ '';'')"

section \<open>rename and set\_type\<close>

text \<open>
  What a tried item leaves: the kind and address as far as they were settled, whether IDA accepted the change, the error
  text, the generated declaration. The count of changed items is the count of accepted ones.
\<close>

record edit_outcome =
  oc_kind :: string
  oc_ea :: ea
  oc_ok :: bool
  oc_error :: string
  oc_decl :: string

text \<open>\<^verbatim>\<open>if (func_t* f = get_func(ea)) mark_cfunc_dirty(f->start_ea, false);\<close> goes through the dispatcher, which may throw.\<close>

definition mark_dirty :: "'d ida_sdk \<Rightarrow> ea \<Rightarrow> 'd ida_state \<Rightarrow> bool throws \<times> 'd ida_state" where
  "mark_dirty sdk ea st =
     (case hexrays_dispatcher sdk st of
        (Inl e, st1) \<Rightarrow> (Inl e, st1)
      | (Inr _, st1) \<Rightarrow>
          (case mark_cfunc_dirty sdk ea (database st1) of (ok, d) \<Rightarrow> (Inr ok, st1\<lparr>database := d\<rparr>)))"

definition after_change :: "'d ida_sdk \<Rightarrow> edit_outcome \<Rightarrow> 'd ida_state \<Rightarrow> edit_outcome \<times> 'd ida_state" where
  "after_change sdk oc st =
     (case get_func sdk (database st) (oc_ea oc) of
        None \<Rightarrow> (oc, st)
      | Some f \<Rightarrow>
          (case mark_dirty sdk (start_ea f) st of
             (Inl e, st1) \<Rightarrow> (oc\<lparr>oc_error := what e\<rparr>, st1)
           | (Inr _, st1) \<Rightarrow> (oc, st1)))"

text \<open>The address an item is about: the start of its function for the kind \<open>function\<close>.\<close>

definition edit_target :: "'d ida_sdk \<Rightarrow> 'd \<Rightarrow> string \<Rightarrow> ea \<Rightarrow> ea throws" where
  "edit_target sdk d kind ea =
     (if kind = ''function''
      then (case get_func sdk d ea of
              None \<Rightarrow> Inl (Invalid_argument ''addr/name does not resolve to a function'')
            | Some f \<Rightarrow> Inr (start_ea f))
      else Inr ea)"

definition rename_try :: "'d ida_sdk \<Rightarrow> json_value \<Rightarrow> string \<Rightarrow> string \<Rightarrow> 'd ida_state \<Rightarrow> edit_outcome \<times> 'd ida_state" where
  "rename_try sdk item kind new_name st =
     (let none = \<lparr>oc_kind = kind, oc_ea = BADADDR, oc_ok = False, oc_error = [], oc_decl = []\<rparr> in
      case resolve_addr_or_name sdk (database st) item of
        Inl e \<Rightarrow> (none\<lparr>oc_error := what e\<rparr>, st)
      | Inr ea \<Rightarrow>
          let kind' = (if kind = [] then ''addr'' else kind); oc = none\<lparr>oc_kind := kind', oc_ea := ea\<rparr> in
          if kind' \<noteq> ''function'' \<and> kind' \<noteq> ''global''
          then (oc\<lparr>oc_error := ''kind must be `function` or `global`''\<rparr>, st)
          else if new_name = [] then (oc\<lparr>oc_error := ''new_name is required''\<rparr>, st)
          else case edit_target sdk (database st) kind' ea of
                 Inl e \<Rightarrow> (oc\<lparr>oc_error := what e\<rparr>, st)
               | Inr target \<Rightarrow>
                   (case set_name sdk target (c_string new_name) (database st) of
                      (False, d) \<Rightarrow> (oc\<lparr>oc_ea := target, oc_error := ''set_name failed''\<rparr>, st\<lparr>database := d\<rparr>)
                    | (True, d) \<Rightarrow> after_change sdk (oc\<lparr>oc_ea := target, oc_ok := True\<rparr>) (st\<lparr>database := d\<rparr>)))"

text \<open>\<^verbatim>\<open>result["error"] = ...; result["hint"] = ...;\<close>\<close>

definition with_error :: "string \<Rightarrow> string \<Rightarrow> (string \<times> json_value) list \<Rightarrow> json_value" where
  "with_error err hint members =
     json_object (members @ (if err \<noteq> [] then [(''error'', V_string err), (''hint'', V_string hint)] else []))"

definition rename_row :: "'d ida_sdk \<Rightarrow> 'd \<Rightarrow> string \<Rightarrow> edit_outcome \<Rightarrow> json_value" where
  "rename_row sdk d new_name oc =
     with_error (oc_error oc)
       (if oc_error oc = ''set_name failed'' then set_name_failure_hint sdk d (oc_ea oc) else oc_error oc)
       [(''kind'', V_string (oc_kind oc)), (''ea'', nullable_ea (oc_ea oc)), (''new_name'', V_string new_name),
        (''ok'', V_boolean (oc_ok oc)), (''item_state'', item_state_json sdk d (oc_ea oc))]"

definition rename_item :: "'d ida_sdk \<Rightarrow> json_value \<Rightarrow> 'd ida_state \<Rightarrow> (json_value \<times> bool) throws \<times> 'd ida_state" where
  "rename_item sdk item st =
     (case andthen (json_string_arg item ''kind'') (\<lambda>kind.
           andthen (json_string_arg item ''new_name'') (\<lambda>new_name. Inr (kind, new_name))) of
        Inl e \<Rightarrow> (Inl e, st)
      | Inr (kind, new_name) \<Rightarrow>
          (case rename_try sdk item kind new_name st of
             (oc, st1) \<Rightarrow> (Inr (rename_row sdk (database st1) new_name oc, oc_ok oc), st1)))"

text \<open>\<^verbatim>\<open>{"items": rows, "count": n, "changed_count": changed}\<close>, as \<^verbatim>\<open>rename\<close> and \<^verbatim>\<open>set_type\<close> dump it.\<close>

definition batch_value :: "nat \<Rightarrow> (json_value \<times> bool) list \<Rightarrow> json_value" where
  "batch_value n rows = json_object
     [(''items'', V_array (map fst rows)), (''count'', V_unsigned (of_nat n)),
      (''changed_count'', V_unsigned (of_nat (length (filter snd rows))))]"

definition core_rename :: "'d ida_sdk \<Rightarrow> json_value \<Rightarrow> 'd ida_state \<Rightarrow> string throws \<times> 'd ida_state" where
  "core_rename sdk args st =
     (let items = json_items_arg args ''items'' in
      case each_item (rename_item sdk) items st of
        (rows, st1) \<Rightarrow> (andthen rows (\<lambda>rs. dump (batch_value (length items) rs)), st1))"

definition set_type_try :: "'d ida_sdk \<Rightarrow> json_value \<Rightarrow> string \<Rightarrow> string \<Rightarrow> 'd ida_state \<Rightarrow> edit_outcome \<times> 'd ida_state" where
  "set_type_try sdk item kind type_text st =
     (let none = \<lparr>oc_kind = kind, oc_ea = BADADDR, oc_ok = False, oc_error = [], oc_decl = []\<rparr> in
      case resolve_addr_or_name sdk (database st) item of
        Inl e \<Rightarrow> (none\<lparr>oc_error := what e\<rparr>, st)
      | Inr ea \<Rightarrow>
          let kind' = (if kind = [] then ''addr'' else kind); oc = none\<lparr>oc_kind := kind', oc_ea := ea\<rparr> in
          if kind' \<noteq> ''function'' \<and> kind' \<noteq> ''global'' \<and> kind' \<noteq> ''addr''
          then (oc\<lparr>oc_error := ''kind must be `function`, `global`, or `addr`''\<rparr>, st)
          else case edit_target sdk (database st) kind' ea of
                 Inl e \<Rightarrow> (oc\<lparr>oc_error := what e\<rparr>, st)
               | Inr target \<Rightarrow>
                   let decl = make_decl_for_ea sdk (database st) target type_text;
                       oc' = oc\<lparr>oc_ea := target, oc_decl := decl\<rparr> in
                   if decl = [] then (oc'\<lparr>oc_error := ''type is required''\<rparr>, st)
                   else (case apply_cdecl sdk target (c_string decl) (database st) of
                           (False, d) \<Rightarrow> (oc'\<lparr>oc_error := ''apply_cdecl failed''\<rparr>, st\<lparr>database := d\<rparr>)
                         | (True, d) \<Rightarrow> after_change sdk (oc'\<lparr>oc_ok := True\<rparr>) (st\<lparr>database := d\<rparr>)))"

definition set_type_row :: "'d ida_sdk \<Rightarrow> 'd \<Rightarrow> edit_outcome \<Rightarrow> json_value" where
  "set_type_row sdk d oc =
     with_error (oc_error oc)
       (if oc_error oc = ''apply_cdecl failed'' then apply_cdecl_failure_hint sdk d (oc_ea oc) (oc_decl oc) else oc_error oc)
       [(''kind'', V_string (oc_kind oc)), (''ea'', nullable_ea (oc_ea oc)), (''ok'', V_boolean (oc_ok oc)),
        (''generated_decl'', V_string (oc_decl oc)), (''item_state'', item_state_json sdk d (oc_ea oc))]"

definition set_type_item :: "'d ida_sdk \<Rightarrow> json_value \<Rightarrow> 'd ida_state \<Rightarrow> (json_value \<times> bool) throws \<times> 'd ida_state" where
  "set_type_item sdk item st =
     (case andthen (json_string_arg item ''kind'') (\<lambda>kind.
           andthen (json_string_arg item ''type'') (\<lambda>type_text. Inr (kind, type_text))) of
        Inl e \<Rightarrow> (Inl e, st)
      | Inr (kind, type_text) \<Rightarrow>
          (case set_type_try sdk item kind type_text st of
             (oc, st1) \<Rightarrow> (Inr (set_type_row sdk (database st1) oc, oc_ok oc), st1)))"

definition core_set_type :: "'d ida_sdk \<Rightarrow> json_value \<Rightarrow> 'd ida_state \<Rightarrow> string throws \<times> 'd ida_state" where
  "core_set_type sdk args st =
     (let items = json_items_arg args ''items'' in
      case each_item (set_type_item sdk) items st of
        (rows, st1) \<Rightarrow> (andthen rows (\<lambda>rs. dump (batch_value (length items) rs)), st1))"

section \<open>set\_comments\<close>

definition comment_row :: "ea \<Rightarrow> bool \<Rightarrow> bool \<Rightarrow> string \<Rightarrow> string throws" where
  "comment_row ea repeatable ok err = join_throws
     ([Inr ''{'', key_text ''ea'', json_nullable_u64 ea,
       Inr '','', key_text ''repeatable'', Inr (bool_text repeatable),
       Inr '','', key_text ''ok'', Inr (bool_text ok)]
      @ (if err \<noteq> [] then [Inr '','', key_text ''error'', json_string err] else [])
      @ [Inr ''}''])"

definition comment_item :: "'d ida_sdk \<Rightarrow> json_value \<Rightarrow> 'd ida_state \<Rightarrow> (string \<times> bool) throws \<times> 'd ida_state" where
  "comment_item sdk item st =
     (case andthen (json_string_arg item ''text'') (\<lambda>t.
           andthen (json_bool_arg item ''repeatable'' False) (\<lambda>repeatable. Inr (t, repeatable))) of
        Inl e \<Rightarrow> (Inl e, st)
      | Inr (t, repeatable) \<Rightarrow>
          (case (case resolve_addr_or_name sdk (database st) item of
                   Inl e \<Rightarrow> (BADADDR, False, what e, st)
                 | Inr ea \<Rightarrow>
                     (case set_cmt sdk ea (c_string t) repeatable (database st) of
                        (ok, d) \<Rightarrow> (ea, ok, if ok then [] else ''set_cmt failed'', st\<lparr>database := d\<rparr>))) of
             (ea, ok, err, st1) \<Rightarrow> (andthen (comment_row ea repeatable ok err) (\<lambda>row. Inr (row, ok)), st1)))"

text \<open>\<^verbatim>\<open>{"items":[...],"count":n,"changed_count":c}\<close> and what may follow.\<close>

definition changed_text :: "(string \<times> bool) list \<Rightarrow> nat \<Rightarrow> string \<Rightarrow> string" where
  "changed_text rows n tail_text =
     ''{'' @ json_key ''items'' @ ''['' @ comma_loop True (map fst rows) @ ''],'' @ json_key ''count'' @ dec_text n @ '',''
     @ json_key ''changed_count'' @ dec_text (length (filter snd rows)) @ tail_text @ ''}''"

definition core_set_comments :: "'d ida_sdk \<Rightarrow> json_value \<Rightarrow> 'd ida_state \<Rightarrow> string throws \<times> 'd ida_state" where
  "core_set_comments sdk args st =
     (let items = json_items_arg args ''items'' in
      case each_item (comment_item sdk) items st of
        (rows, st1) \<Rightarrow> (andthen rows (\<lambda>rs. Inr (changed_text rs (length items) [])), st1))"

section \<open>declare\_type and inspect\_item\<close>

definition normalize_decl :: "string \<Rightarrow> string" where
  "normalize_decl decl =
     (let normalized = trim_copy decl in
      (if normalized \<noteq> [] \<and> last normalized \<noteq> CHR '';'' then normalized @ '';'' else normalized) @ [newline])"

definition declare_item :: "'d ida_sdk \<Rightarrow> nat \<times> string \<Rightarrow> 'd ida_state \<Rightarrow> (json_value \<times> int) throws \<times> 'd ida_state" where
  "declare_item sdk indexed st =
     (case indexed of (index, decl) \<Rightarrow>
      case parse_decls sdk (c_string (normalize_decl decl)) (database st) of
        (item_errors, d) \<Rightarrow>
          (Inr (json_object
             ([(''index'', V_unsigned (of_nat index)), (''ok'', V_boolean (item_errors = 0)),
               (''errors'', V_integer (of_int item_errors)), (''decl'', V_string decl)]
              @ (if item_errors \<noteq> 0 then [(''hint'', V_string ''IDA failed to parse this declaration; try declaring dependent typedefs separately or remove unsupported calling-convention syntax'')] else [])),
            item_errors), st\<lparr>database := d\<rparr>))"

definition declare_value :: "nat \<Rightarrow> (json_value \<times> int) list \<Rightarrow> json_value" where
  "declare_value n rows =
     (let errors = sum_list (map snd rows) in
      json_object
        [(''ok'', V_boolean (errors = 0)), (''count'', V_unsigned (of_nat n)),
         (''changed_count'', V_unsigned (of_nat (length (filter (\<lambda>r. snd r = 0) rows)))),
         (''errors'', V_integer (of_int errors)), (''items'', V_array (map fst rows))])"

definition core_declare_type :: "'d ida_sdk \<Rightarrow> json_value \<Rightarrow> 'd ida_state \<Rightarrow> string throws \<times> 'd ida_state" where
  "core_declare_type sdk args st =
     (case json_list_arg args ''decls'' of
        Inl e \<Rightarrow> (Inl e, st)
      | Inr decls \<Rightarrow>
          (case each_item (declare_item sdk) (zip [0..<length decls] decls) st of
             (rows, st1) \<Rightarrow> (andthen rows (\<lambda>rs. dump (declare_value (length decls) rs)), st1)))"

definition inspect_row :: "'d ida_sdk \<Rightarrow> 'd \<Rightarrow> string \<Rightarrow> json_value" where
  "inspect_row sdk d query =
     (let ea = resolve_query_addr_or_name sdk d query in
      json_object [(''query'', V_string query), (''ea'', nullable_ea ea), (''item_state'', item_state_json sdk d ea)])"

definition core_inspect_item :: "'d ida_sdk \<Rightarrow> 'd \<Rightarrow> json_value \<Rightarrow> string throws" where
  "core_inspect_item sdk d args =
     andthen (json_list_arg args ''queries'') (\<lambda>queries.
     dump (json_object
       [(''items'', V_array (map (inspect_row sdk d) queries)), (''count'', V_unsigned (of_nat (length queries)))]))"

section \<open>force\_recompile and idb\_save\<close>

definition recompile_item :: "'d ida_sdk \<Rightarrow> string \<Rightarrow> 'd ida_state \<Rightarrow> (string \<times> bool) throws \<times> 'd ida_state" where
  "recompile_item sdk t st =
     (let ea = resolve_query_addr_or_name sdk (database st) t;
          function = (if ea = BADADDR then None else get_func sdk (database st) ea)
      in case (case function of
                 None \<Rightarrow> (Inr False, st)
               | Some f \<Rightarrow> mark_dirty sdk (start_ea f) st) of
           (Inl e, st1) \<Rightarrow> (Inl e, st1)
         | (Inr ok, st1) \<Rightarrow>
             let err = (if function = None then ''function not found'' else if ok then [] else ''mark_cfunc_dirty failed'') in
             (andthen (join_throws
                ([Inr ''{'', key_text ''query'', json_string t,
                  Inr '','', key_text ''ea'', json_nullable_u64 (case function of None \<Rightarrow> BADADDR | Some f \<Rightarrow> start_ea f),
                  Inr '','', key_text ''ok'', Inr (bool_text ok)]
                 @ (if err \<noteq> [] then [Inr '','', key_text ''error'', json_string err] else [])
                 @ [Inr ''}''])) (\<lambda>row. Inr (row, ok)), st1))"

definition core_force_recompile :: "'d ida_sdk \<Rightarrow> json_value \<Rightarrow> 'd ida_state \<Rightarrow> string throws \<times> 'd ida_state" where
  "core_force_recompile sdk args st =
     (case dbgatlas_init_hexrays_plugin sdk st of
        (Inl e, st1) \<Rightarrow> (Inl e, st1)
      | (Inr False, st1) \<Rightarrow> (Inl (Runtime_error ''Hex-Rays decompiler is not available''), st1)
      | (Inr True, st1) \<Rightarrow>
          (case json_list_arg args ''addrs'' of
             Inl e \<Rightarrow> (Inl e, st1)
           | Inr [] \<Rightarrow>
               (Inr (''{'' @ json_key ''items'' @ ''[],'' @ json_key ''count'' @ ''0,'' @ json_key ''changed_count'' @ ''0,''
                  @ json_key ''all'' @ ''true}''),
                st1\<lparr>database := clear_cached_cfuncs sdk (database st1)\<rparr>)
           | Inr addrs \<Rightarrow>
               (case each_item (recompile_item sdk) addrs st1 of
                  (rows, st2) \<Rightarrow>
                    (andthen rows (\<lambda>rs. Inr (changed_text rs (length addrs) ('','' @ json_key ''all'' @ ''false''))), st2))))"

definition core_idb_save :: "'d ida_sdk \<Rightarrow> json_value \<Rightarrow> 'd ida_state \<Rightarrow> string throws \<times> 'd ida_state" where
  "core_idb_save sdk args st =
     (case json_string_arg args ''path'' of
        Inl e \<Rightarrow> (Inl e, st)
      | Inr path \<Rightarrow>
          (case save_database sdk (if path = [] then None else Some (c_string path)) (database st) of
             (ok, d) \<Rightarrow>
               (join_throws
                  ([Inr ''{'', key_text ''ok'', Inr (bool_text ok),
                    Inr '','', key_text ''path'', (if path = [] then Inr ''null'' else json_string path),
                    Inr '','', key_text ''changed_count'', Inr (if ok then ''1'' else ''0'')]
                   @ (if \<not> ok then [Inr '','', key_text ''error'', Inr ([quote] @ ''save_database failed'' @ [quote])] else [])
                   @ [Inr ''}'']), st\<lparr>database := d\<rparr>)))"

section \<open>py\_eval\<close>

definition py_wrapper :: "string \<Rightarrow> string" where
  "py_wrapper literal = concat (map (\<lambda>l. l @ [newline])
     [''def __dbgatlas_py_eval_run():'',
      ''    import contextlib, io, json, traceback'',
      ''    _json_dumps = json.dumps'',
      ''    _format_exc = traceback.format_exc'',
      ''    _stdout = io.StringIO()'',
      ''    _stderr = io.StringIO()'',
      ''    _error = None'',
      ''    try:'',
      ''        with contextlib.redirect_stdout(_stdout), contextlib.redirect_stderr(_stderr):'',
      ''            exec('' @ literal @ '', globals(), globals())'',
      ''    except BaseException:'',
      ''        _error = _format_exc()'',
      ''    return _json_dumps({'',
      ''        '' @ [CHR 0x27] @ ''ok'' @ [CHR 0x27] @ '': _error is None,'',
      ''        '' @ [CHR 0x27] @ ''stdout'' @ [CHR 0x27] @ '': _stdout.getvalue(),'',
      ''        '' @ [CHR 0x27] @ ''stderr'' @ [CHR 0x27] @ '': _stderr.getvalue(),'',
      ''        '' @ [CHR 0x27] @ ''error'' @ [CHR 0x27] @ '': _error,'',
      ''    })'',
      ''__dbgatlas_py_eval_result = __dbgatlas_py_eval_run()''])"

definition find_python :: "'d ida_sdk \<Rightarrow> 'd \<Rightarrow> extlang_t option" where
  "find_python sdk d =
     (case find_extlang sdk d ''Python'' of Some l \<Rightarrow> Some l | None \<Rightarrow> find_extlang sdk d ''py'')"

definition run_python :: "'d ida_sdk \<Rightarrow> string \<Rightarrow> 'd ida_state \<Rightarrow> string throws \<times> 'd ida_state" where
  "run_python sdk wrapper st =
     (case eval_snippet sdk (c_string wrapper) (database st) of
        (Inl errbuf, d) \<Rightarrow> (Inl (Runtime_error (''IDAPython eval_snippet failed: '' @ errbuf)), st\<lparr>database := d\<rparr>)
      | (Inr _, d) \<Rightarrow>
          (case eval_expr sdk ''__dbgatlas_py_eval_result'' d of
             (Inl err, d') \<Rightarrow> (Inl (Runtime_error (''IDAPython result retrieval failed: '' @ err)), st\<lparr>database := d'\<rparr>)
           | (Inr None, d') \<Rightarrow>
               (Inl (Runtime_error ''IDAPython result retrieval returned a non-string value''), st\<lparr>database := d'\<rparr>)
           | (Inr (Some t), d') \<Rightarrow> (Inr (c_string t), st\<lparr>database := d'\<rparr>)))"

definition core_py_eval :: "'d ida_sdk \<Rightarrow> json_value \<Rightarrow> 'd ida_state \<Rightarrow> string throws \<times> 'd ida_state" where
  "core_py_eval sdk args st =
     (case json_string_arg args ''code'' of
        Inl e \<Rightarrow> (Inl e, st)
      | Inr code \<Rightarrow>
          if code = [] then (Inl (Invalid_argument ''code is required''), st)
          else case find_python sdk (database st) of
                 None \<Rightarrow> (Inl (Runtime_error ''IDAPython external language is not available''), st)
               | Some python \<Rightarrow>
                   if \<not> has_eval_snippet python \<or> \<not> has_eval_expr python
                   then (Inl (Runtime_error ''IDAPython external language is not available''), st)
                   else case json_string code of
                          Inl e \<Rightarrow> (Inl e, st)
                        | Inr literal \<Rightarrow> run_python sdk (py_wrapper literal) st)"

section \<open>A batch runs every item\<close>

text \<open>
  The contract of a batch: on the items it accepts, a step never aborts the batch. Then every item is run once, in order,
  on the state the previous one left.
\<close>

definition run_items :: "('i \<Rightarrow> 's \<Rightarrow> 'r throws \<times> 's) \<Rightarrow> 'i list \<Rightarrow> 's \<Rightarrow> 's" where
  "run_items step items st = fold (\<lambda>item s. snd (step item s)) items st"

text \<open>The rows are the results of the items, each on the state its predecessors left.\<close>

definition batch_rows :: "('i \<Rightarrow> 's \<Rightarrow> 'r throws \<times> 's) \<Rightarrow> 'i list \<Rightarrow> 's \<Rightarrow> 'r list \<Rightarrow> bool" where
  "batch_rows step items st rows \<longleftrightarrow>
     length rows = length items \<and> (\<forall>i < length items. fst (step (items ! i) (run_items step (take i items) st)) = Inr (rows ! i))"

locale item_batch =
  fixes step :: "'i \<Rightarrow> 's \<Rightarrow> 'r throws \<times> 's" and accepts :: "'i \<Rightarrow> bool"
  assumes step_total: "accepts item \<Longrightarrow> \<exists>r st'. step item st = (Inr r, st')"
begin

lemma each_item_complete:
  assumes "list_all accepts items"
  shows "\<exists>rows. each_item step items st = (Inr rows, run_items step items st) \<and> batch_rows step items st rows"
  using assms
proof (induction items arbitrary: st)
  case (Cons item items)
  obtain r st1 where step: "step item st = (Inr r, st1)" using step_total [of item st] Cons.prems by auto
  obtain rows where "each_item step items st1 = (Inr rows, run_items step items st1)" "batch_rows step items st1 rows"
    using Cons by auto
  with step show ?case
    by (intro exI [of _ "r # rows"]) (auto simp: batch_rows_def run_items_def prepend_def nth_Cons' take_Cons' less_Suc_eq_0_disj)
qed (simp add: run_items_def batch_rows_def)

end

definition has_texts :: "string list \<Rightarrow> json_value \<Rightarrow> bool" where
  "has_texts keys item \<longleftrightarrow> list_all (\<lambda>k. \<exists>t. json_string_arg item k = Inr t) keys"

interpretation rename_batch: item_batch "rename_item sdk" "has_texts [''kind'', ''new_name'']" for sdk :: "'d ida_sdk"
  by unfold_locales (auto simp: has_texts_def rename_item_def split: prod.split)

interpretation set_type_batch: item_batch "set_type_item sdk" "has_texts [''kind'', ''type'']" for sdk :: "'d ida_sdk"
  by unfold_locales (auto simp: has_texts_def set_type_item_def split: prod.split)

interpretation declare_batch: item_batch "declare_item sdk" "\<lambda>_. True" for sdk :: "'d ida_sdk"
  by unfold_locales (auto simp: declare_item_def split: prod.split)

section \<open>Declarations\<close>

lemma str_find_appended: "str_find (xs @ ys @ zs) ys \<noteq> None"
  by (simp only: str_find_iff_sublist) (auto simp: sublist_def)

lemma make_decl_shape:
  assumes "trim_copy type_text \<noteq> []" and "str_find (trim_copy type_text) '';'' = None"
  shows "last (make_decl_for_ea sdk d ea type_text) = CHR '';''
    \<and> str_find (make_decl_for_ea sdk d ea type_text) (current_name_or_placeholder sdk d ea) \<noteq> None"
proof -
  let ?t = "trim_copy type_text" and ?name = "current_name_or_placeholder sdk d ea"
  consider "str_find ?t ?name \<noteq> None" | "str_find ?t ?name = None" "str_find ?t ''['' = None"
    | pos where "str_find ?t ?name = None" "str_find ?t ''['' = Some pos" by blast
  then show ?thesis
  proof cases
    case 1
    then have "make_decl_for_ea sdk d ea type_text = ?t @ '';''" using assms by (simp add: make_decl_for_ea_def Let_def)
    moreover have "str_find (?t @ '';'') ?name \<noteq> None"
      using 1 unfolding str_find_iff_sublist by (metis sublist_append)
    ultimately show ?thesis by simp
  next
    case 2
    then have "make_decl_for_ea sdk d ea type_text = (?t @ '' '') @ ?name @ '';''"
      using assms by (simp add: make_decl_for_ea_def Let_def)
    then show ?thesis using str_find_appended [of "?t @ '' ''" ?name "'';''"] by simp
  next
    case (3 pos)
    then have "make_decl_for_ea sdk d ea type_text = (trim_copy (take pos ?t) @ '' '') @ ?name @ (drop pos ?t @ '';'')"
      using assms by (simp add: make_decl_for_ea_def Let_def)
    then show ?thesis using str_find_appended [of "trim_copy (take pos ?t) @ '' ''" ?name "drop pos ?t @ '';''"] by simp
  qed
qed

section \<open>Properties\<close>

text \<open>
  C19 Batches are complete: when the texts of its items can be read, \<^verbatim>\<open>rename\<close> and \<^verbatim>\<open>set_type\<close> run every item once and in
  order, each on the database its predecessors left and whatever happened to them, and report one row per item, in
  order, with the number of accepted changes; \<^verbatim>\<open>declare_type\<close> does so for every list of declarations. The only failure
  left is that of the serializer.
\<close>

theorem batches_complete:
  assumes "json_items_arg args ''items'' = items" and "list_all (has_texts [''kind'', ''new_name'', ''type'']) items"
    and "json_list_arg args ''decls'' = Inr decls"
  shows "(\<exists>rows. batch_rows (rename_item sdk) items st rows
        \<and> core_rename sdk args st = (dump (batch_value (length items) rows), run_items (rename_item sdk) items st))
    \<and> (\<exists>rows. batch_rows (set_type_item sdk) items st rows
        \<and> core_set_type sdk args st = (dump (batch_value (length items) rows), run_items (set_type_item sdk) items st))
    \<and> (\<exists>rows. batch_rows (declare_item sdk) (zip [0..<length decls] decls) st rows
        \<and> core_declare_type sdk args st
            = (dump (declare_value (length decls) rows), run_items (declare_item sdk) (zip [0..<length decls] decls) st))"
proof (intro conjI)
  have texts: "list_all (has_texts [''kind'', ''new_name'']) items" "list_all (has_texts [''kind'', ''type'']) items"
    using assms(2) by (auto simp: list_all_iff has_texts_def)
  show "\<exists>rows. batch_rows (rename_item sdk) items st rows
      \<and> core_rename sdk args st = (dump (batch_value (length items) rows), run_items (rename_item sdk) items st)"
    using rename_batch.each_item_complete [OF texts(1), of sdk st] assms(1) by (auto simp: core_rename_def Let_def)
  show "\<exists>rows. batch_rows (set_type_item sdk) items st rows
      \<and> core_set_type sdk args st = (dump (batch_value (length items) rows), run_items (set_type_item sdk) items st)"
    using set_type_batch.each_item_complete [OF texts(2), of sdk st] assms(1) by (auto simp: core_set_type_def Let_def)
  show "\<exists>rows. batch_rows (declare_item sdk) (zip [0..<length decls] decls) st rows
      \<and> core_declare_type sdk args st
          = (dump (declare_value (length decls) rows), run_items (declare_item sdk) (zip [0..<length decls] decls) st)"
    using declare_batch.each_item_complete [of "zip [0..<length decls] decls" sdk st] assms(3)
    by (auto simp: core_declare_type_def list_all_iff)
qed

definition sample_state :: "(ea \<times> string) list ida_state" where
  "sample_state = \<lparr>database = [], strings_built = False, hexdsp = False\<rparr>"

definition sample_batch :: json_value where
  "sample_batch = V_object [(''decls'', V_array [V_string ''int a'']),
     (''items'', V_array [V_object [(''kind'', V_string ''global'')], V_null])]"

theorem batches_complete_witness:
  "\<exists>rows. length rows = 2 \<and> fst (core_rename sample_sdk sample_batch sample_state) = dump (batch_value 2 rows)"
  using batches_complete [of sample_batch "[V_object [(''kind'', V_string ''global'')], V_null]" "[''int a'']" sample_sdk sample_state]
  by (auto simp: sample_batch_def json_items_arg_def json_list_arg_def json_list_value_def json_arg_def has_texts_def batch_rows_def
      json_string_arg_def json_scalar_text_def numeral_2_eq_2)

text \<open>
  An item of \<^verbatim>\<open>rename\<close> without a kind is never renamed: the kind it defaults to is refused, so the row says that the
  kind must be \<^verbatim>\<open>function\<close> or \<^verbatim>\<open>global\<close> and the database is not touched. The sibling \<^verbatim>\<open>set_type\<close> accepts the same default.
\<close>

theorem rename_without_kind:
  assumes "json_string_arg item ''kind'' = Inr []" and "json_string_arg item ''new_name'' = Inr new_name"
    and "resolve_addr_or_name sdk (database st) item = Inr ea"
  shows "rename_item sdk item st =
    (Inr (json_object
       [(''kind'', V_string ''addr''), (''ea'', nullable_ea ea), (''new_name'', V_string new_name), (''ok'', V_boolean False),
        (''item_state'', item_state_json sdk (database st) ea),
        (''error'', V_string ''kind must be `function` or `global`''),
        (''hint'', V_string ''kind must be `function` or `global`'')], False), st)"
  using assms by (simp add: rename_item_def rename_try_def rename_row_def with_error_def)

theorem rename_without_kind_witness:
  "snd (rename_item sample_sdk (V_object [(''addr'', V_unsigned 0x1000), (''new_name'', V_string ''x'')]) sample_state) = sample_state"
  using rename_without_kind [of "V_object [(''addr'', V_unsigned 0x1000), (''new_name'', V_string ''x'')]" "''x''" sample_sdk sample_state "0x1000"]
  by (simp add: json_string_arg_def json_arg_def json_scalar_text_def resolve_addr_or_name_def optional_json_u64_arg_def json_u64_value_def)

text \<open>
  Without Hex-Rays a rename inside a function succeeds and reports a failure: IDA accepts the name, the database keeps
  the change and the item is counted as changed, but refreshing the decompiler's cache throws and its message becomes the
  error of the row.
\<close>

theorem rename_without_hexrays:
  assumes "resolve_addr_or_name sdk (database st) item = Inr ea" and "new_name \<noteq> []"
    and "set_name sdk ea (c_string new_name) (database st) = (True, d)" and "get_func sdk d ea = Some f"
    and "\<not> hexdsp st" and "\<not> get_hexdsp sdk d"
  shows "rename_try sdk item ''global'' new_name st =
    (\<lparr>oc_kind = ''global'', oc_ea = ea, oc_ok = True, oc_error = ''Hex-Rays dispatcher is unavailable'', oc_decl = []\<rparr>,
     st\<lparr>database := d, hexdsp := False\<rparr>)"
  using assms
  by (simp add: rename_try_def edit_target_def after_change_def mark_dirty_def hexrays_dispatcher_def Let_def)

theorem rename_without_hexrays_witness:
  "oc_error (fst (rename_try sample_sdk (V_object [(''addr'', V_unsigned 0x1000)]) ''global'' ''x'' sample_state))
     = ''Hex-Rays dispatcher is unavailable''
   \<and> database (snd (rename_try sample_sdk (V_object [(''addr'', V_unsigned 0x1000)]) ''global'' ''x'' sample_state)) = [(0x1000, ''x'')]"
  using rename_without_hexrays [of sample_sdk sample_state "V_object [(''addr'', V_unsigned 0x1000)]" "0x1000" "''x''" "[(0x1000, ''x'')]" sample_function]
  by (simp add: sample_state_def resolve_addr_or_name_def optional_json_u64_arg_def json_arg_def json_u64_value_def in_sample_def c_string_def)

text \<open>
  The declaration built for \<^verbatim>\<open>set_type\<close>: from any type text without a semicolon it is a declaration of the item, ended by
  a semicolon and naming the item by its current name or by a placeholder made of its address, also for array types, whose
  bounds stay behind the name; a blank text gives none.
\<close>

theorem make_decl_declares:
  "let decl = make_decl_for_ea sdk d ea type_text in
   if trim_copy type_text = [] then decl = []
   else if str_find (trim_copy type_text) '';'' \<noteq> None then decl = trim_copy type_text
   else last decl = CHR '';'' \<and> str_find decl (current_name_or_placeholder sdk d ea) \<noteq> None"
proof -
  consider "trim_copy type_text = []" | "trim_copy type_text \<noteq> []" "str_find (trim_copy type_text) '';'' \<noteq> None"
    | "trim_copy type_text \<noteq> []" "str_find (trim_copy type_text) '';'' = None" by blast
  then show ?thesis
  proof cases
    case 3
    then show ?thesis using make_decl_shape [OF 3, of sdk d ea] by (simp only: Let_def simp_thms if_False)
  qed (simp_all add: make_decl_for_ea_def)
qed

end
