(* ===== verification/Ida_Search.thy ===== *)
theory Ida_Search
  imports Ida_Edit
begin

text \<open>
  The searching core functions (\<^verbatim>\<open>find_bytes\<close>, \<^verbatim>\<open>search_text\<close>, \<^verbatim>\<open>query_xrefs\<close>, \<^verbatim>\<open>query_funcs\<close>, \<^verbatim>\<open>query_entities\<close>), their
  byte patterns and their pages. \<^verbatim>\<open>std::regex\<close> and the order \<^verbatim>\<open>std::sort\<close> gives
  to equal elements are parameters.
\<close>

section \<open>Pages\<close>

text \<open>The loop of \<^verbatim>\<open>paged_result_json\<close>, with the number of rows it may still emit.\<close>

fun page_from :: "string list \<Rightarrow> nat \<Rightarrow> nat \<Rightarrow> string list" where
  "page_from rows i 0 = []"
| "page_from rows i (Suc n) = (if i < length rows then rows ! i # page_from rows (Suc i) n else [])"

definition page_limit :: "u64 \<Rightarrow> u64" where
  "page_limit n = min (if n = 0 then 50 else n) 1000"

definition page_next :: "string list \<Rightarrow> u64 \<Rightarrow> u64 \<Rightarrow> u64 option" where
  "page_next rows offset n =
     (let next = offset + of_nat (length (page_from rows (unat offset) (unat (page_limit n)))) in
      if unat next < length rows then Some next else None)"

definition paged_result_json :: "string list \<Rightarrow> u64 \<Rightarrow> u64 \<Rightarrow> string throws" where
  "paged_result_json rows offset n =
     (let page = page_from rows (unat offset) (unat (page_limit n)) in
      join_throws
        [Inr ''{'', key_text ''offset'', json_u64 offset, Inr '','', key_text ''items'', Inr ''['',
         Inr (comma_loop True page), Inr ''],'', key_text ''count'', json_u64 (of_nat (length page)),
         Inr '','', key_text ''total'', json_u64 (of_nat (length rows)),
         Inr '','', key_text ''next_offset'',
         (case page_next rows offset n of Some next \<Rightarrow> json_u64 next | None \<Rightarrow> Inr ''null''), Inr ''}''])"

section \<open>Byte patterns\<close>

text \<open>A pattern byte and whether it is a wildcard.\<close>

type_synonym byte_pattern = "(u8 \<times> bool) list"

definition is_hex_text :: "string \<Rightarrow> bool" where
  "is_hex_text t \<longleftrightarrow> t \<noteq> [] \<and> list_all (\<lambda>c. digit_val c \<noteq> None) t"

definition strip_hex_prefix_copy :: "string \<Rightarrow> string" where
  "strip_hex_prefix_copy token = (if prefix ''0x'' token \<or> prefix ''0X'' token then drop 2 token else token)"

definition byte_pattern_error :: "string \<Rightarrow> string \<Rightarrow> string \<Rightarrow> cpp_exception" where
  "byte_pattern_error pattern token reason = Invalid_argument
     (''invalid byte pattern `'' @ pattern @ ''`: token `'' @ token @ ''` '' @ reason
      @ ''; expected bytes like `48 8B ?? ??` or compact even-length hex like `488b9090`'')"

function pattern_tokens :: "string \<Rightarrow> string list" where
  "pattern_tokens pattern =
     (let on = dropWhile is_space pattern in
      if on = [] then []
      else takeWhile (\<lambda>c. \<not> is_space c) on # pattern_tokens (dropWhile (\<lambda>c. \<not> is_space c) on))"
  by pat_completeness auto

lemma dropWhile_token_shorter:
  "dropWhile P xs \<noteq> [] \<Longrightarrow> length (dropWhile (\<lambda>c. \<not> P c) (dropWhile P xs)) < length xs"
proof (induction xs)
  case (Cons x xs)
  then show ?case by (cases "P x") (auto simp: less_Suc_eq_le length_dropWhile_le)
qed simp

termination pattern_tokens
  by (relation "measure length") (simp_all add: dropWhile_token_shorter del: dropWhile_eq_Nil_conv)

declare pattern_tokens.simps [simp del]

text \<open>One byte from hexadecimal digits.\<close>

definition pattern_byte :: "string \<Rightarrow> cpp_exception \<Rightarrow> (u8 \<times> bool) throws" where
  "pattern_byte hex error =
     (case parse_u64_text (''0x'' @ hex) of
        None \<Rightarrow> Inl error
      | Some value \<Rightarrow> if 0xff < value then Inl error else Inr (ucast value, False))"

fun compact_bytes :: "cpp_exception \<Rightarrow> string \<Rightarrow> byte_pattern throws" where
  "compact_bytes error (a # b # cs) =
     andthen (pattern_byte [a, b] error) (\<lambda>p. prepend [p] (compact_bytes error cs))"
| "compact_bytes error _ = Inr []"

definition token_bytes :: "string \<Rightarrow> string \<Rightarrow> byte_pattern throws" where
  "token_bytes pattern token =
     (if token = ''?'' \<or> token = ''??'' then Inr [(0, True)]
      else
        let hex = strip_hex_prefix_copy token in
        if hex = [] then Inl (byte_pattern_error pattern token ''is empty after the hex prefix'')
        else if \<not> is_hex_text hex then Inl (byte_pattern_error pattern token ''contains non-hex characters'')
        else if 2 < length hex
        then (if odd (length hex) then Inl (byte_pattern_error pattern token ''has an odd number of compact hex digits'')
              else compact_bytes (byte_pattern_error pattern token ''contains an invalid compact hex byte'') hex)
        else map_sum id (\<lambda>p. [p]) (pattern_byte hex (byte_pattern_error pattern token ''is greater than 0xff'')))"

definition parse_byte_pattern :: "string \<Rightarrow> byte_pattern throws" where
  "parse_byte_pattern pattern =
     andthen (map_throws (token_bytes pattern) (pattern_tokens pattern)) (\<lambda>parts.
     if concat parts = [] then Inl (Invalid_argument ''pattern must not be empty'') else Inr (concat parts))"

fun byte_pattern_matches :: "'d ida_sdk \<Rightarrow> 'd \<Rightarrow> ea \<Rightarrow> byte_pattern \<Rightarrow> bool" where
  "byte_pattern_matches sdk d ea [] = True"
| "byte_pattern_matches sdk d ea ((b, wildcard) # ps) =
     (case get_byte sdk d ea of
        None \<Rightarrow> False
      | Some byte \<Rightarrow> if \<not> wildcard \<and> byte \<noteq> b then False else byte_pattern_matches sdk d (ea + 1) ps)"

section \<open>find\_bytes\<close>

record find_state =
  fs_total :: u64
  fs_rows :: "string list"
  fs_truncated :: bool

record find_request =
  fr_offset :: u64
  fr_limit :: u64
  fr_stop_after :: u64

definition hit_row :: "string \<Rightarrow> ea \<Rightarrow> string throws" where
  "hit_row pattern_text ea = join_throws
     [Inr ''{'', key_text ''pattern'', json_string pattern_text, Inr '','', key_text ''ea'', json_u64 ea, Inr ''}'']"

text \<open>A match at \<open>ea\<close>; the loop breaks when \<open>fs_truncated\<close> is set.\<close>

definition find_hit :: "find_request \<Rightarrow> string \<Rightarrow> ea \<Rightarrow> find_state \<Rightarrow> find_state throws" where
  "find_hit req pattern_text ea s =
     (let index = fs_total s; s1 = s\<lparr>fs_total := index + 1\<rparr> in
      if fr_stop_after req \<le> fs_total s1 then Inr (s1\<lparr>fs_truncated := True\<rparr>)
      else if index < fr_offset req then Inr s1
      else if unat (fr_limit req) \<le> length (fs_rows s1) then Inr (s1\<lparr>fs_truncated := True\<rparr>)
      else andthen (hit_row pattern_text ea) (\<lambda>row. Inr (s1\<lparr>fs_rows := fs_rows s1 @ [row]\<rparr>)))"

text \<open>\<^verbatim>\<open>for (ea = seg->start_ea; ea + size <= seg->end_ea; ++ea)\<close>: the sum may wrap around.\<close>

partial_function (option) scan_segment ::
  "'d ida_sdk \<Rightarrow> 'd \<Rightarrow> find_request \<Rightarrow> string \<Rightarrow> byte_pattern \<Rightarrow> ea \<Rightarrow> ea \<Rightarrow> find_state \<Rightarrow> find_state run" where
  "scan_segment sdk d req pattern_text pat fin ea s =
     (if ea + of_nat (length pat) \<le> fin
      then (if \<not> byte_pattern_matches sdk d ea pat then scan_segment sdk d req pattern_text pat fin (ea + 1) s
            else case find_hit req pattern_text ea s of
                   Inl e \<Rightarrow> Some (Inl e)
                 | Inr s' \<Rightarrow> if fs_truncated s' then Some (Inr s')
                            else scan_segment sdk d req pattern_text pat fin (ea + 1) s')
      else Some (Inr s))"

definition segment_too_short :: "segment_t \<Rightarrow> byte_pattern \<Rightarrow> bool" where
  "segment_too_short seg pat \<longleftrightarrow> end_ea seg \<le> start_ea seg \<or> unat (end_ea seg - start_ea seg) < length pat"

partial_function (option) scan_segments ::
  "'d ida_sdk \<Rightarrow> 'd \<Rightarrow> find_request \<Rightarrow> string \<Rightarrow> byte_pattern \<Rightarrow> segment_t option \<Rightarrow> find_state \<Rightarrow> find_state run" where
  "scan_segments sdk d req pattern_text pat seg s =
     (case seg of
        None \<Rightarrow> Some (Inr s)
      | Some sg \<Rightarrow>
          if segment_too_short sg pat then scan_segments sdk d req pattern_text pat (get_next_seg sdk d (end_ea sg)) s
          else Option.bind (scan_segment sdk d req pattern_text pat (end_ea sg) (start_ea sg) s) (\<lambda>r.
            case r of
              Inl e \<Rightarrow> Some (Inl e)
            | Inr s' \<Rightarrow> if fs_truncated s' then Some (Inr s')
                       else scan_segments sdk d req pattern_text pat (get_next_seg sdk d (end_ea sg)) s'))"

fun scan_patterns :: "'d ida_sdk \<Rightarrow> 'd \<Rightarrow> find_request \<Rightarrow> string list \<Rightarrow> find_state \<Rightarrow> find_state run" where
  "scan_patterns sdk d req [] s = Some (Inr s)"
| "scan_patterns sdk d req (pattern_text # ps) s =
     run_then (Some (parse_byte_pattern pattern_text)) (\<lambda>pat.
     run_then (scan_segments sdk d req pattern_text pat (get_first_seg sdk d) s) (\<lambda>s'.
     if fs_truncated s' then Some (Inr s') else scan_patterns sdk d req ps s'))"

definition find_result :: "find_request \<Rightarrow> find_state \<Rightarrow> string throws" where
  "find_result req s =
     (let next = fr_offset req + of_nat (length (fs_rows s)) in
      join_throws
        [Inr ''{'', key_text ''offset'', json_u64 (fr_offset req), Inr '','', key_text ''items'', Inr ''['',
         Inr (comma_loop True (fs_rows s)), Inr ''],'', key_text ''count'', json_u64 (of_nat (length (fs_rows s))),
         Inr '','', key_text ''total'', json_u64 (fs_total s), Inr '','', key_text ''next_offset'',
         (if fs_truncated s \<or> next < fs_total s then json_u64 next else Inr ''null''), Inr ''}''])"

definition find_request_of :: "u64 \<Rightarrow> u64 \<Rightarrow> find_request" where
  "find_request_of offset limit_arg =
     (let limit = min limit_arg 10000; stop = offset + limit + 1 in
      \<lparr>fr_offset = offset, fr_limit = limit, fr_stop_after = (if stop < offset then - 1 else stop)\<rparr>)"

definition core_find_bytes :: "'d ida_sdk \<Rightarrow> 'd \<Rightarrow> json_value \<Rightarrow> string run" where
  "core_find_bytes sdk d args =
     run_then (Some (json_list_arg args ''patterns'')) (\<lambda>patterns.
     run_then (Some (json_u64_arg args ''offset'' 0)) (\<lambda>offset.
     run_then (Some (json_u64_arg args ''limit'' 100)) (\<lambda>limit_arg.
     let req = find_request_of offset limit_arg in
     run_then (scan_patterns sdk d req patterns \<lparr>fs_total = 0, fs_rows = [], fs_truncated = False\<rparr>) (\<lambda>s.
     Some (find_result req s)))))"

section \<open>search\_text\<close>

definition maybe_add_search_row :: "string \<Rightarrow> ea \<Rightarrow> string \<Rightarrow> string \<Rightarrow> string list throws" where
  "maybe_add_search_row scope ea t needle =
     (if needle = [] \<or> str_find (to_lower_copy t) needle = None then Inr []
      else map_sum id (\<lambda>r. [r]) (join_throws
        [Inr ''{'', key_text ''scope'', json_string scope, Inr '','', key_text ''ea'', json_u64 ea,
         Inr '','', key_text ''text'', json_string t, Inr ''}'']))"

definition search_at :: "'d ida_sdk \<Rightarrow> 'd \<Rightarrow> string \<Rightarrow> string \<Rightarrow> ea \<Rightarrow> string list throws" where
  "search_at sdk d scope needle ea =
     andthen (if scope = ''all'' \<or> scope = ''disasm''
              then (case generate_disasm_line sdk d ea of
                      None \<Rightarrow> Inr [] | Some line \<Rightarrow> maybe_add_search_row ''disasm'' ea line needle)
              else Inr []) (\<lambda>lines.
     andthen (if scope = ''all'' \<or> scope = ''comments''
              then andthen (case get_cmt sdk d ea False of
                              None \<Rightarrow> Inr [] | Some t \<Rightarrow> maybe_add_search_row ''comments'' ea t needle) (\<lambda>cmts.
                   andthen (case get_cmt sdk d ea True of
                              None \<Rightarrow> Inr [] | Some t \<Rightarrow> maybe_add_search_row ''comments'' ea t needle) (\<lambda>rcmts.
                   Inr (cmts @ rcmts)))
              else Inr []) (\<lambda>comments.
     Inr (lines @ comments)))"

definition search_strings :: "'d ida_sdk \<Rightarrow> 'd \<Rightarrow> string \<Rightarrow> string list throws" where
  "search_strings sdk d needle =
     map_sum id concat (map_throws (\<lambda>(item, t). maybe_add_search_row ''strings'' (si_ea item) t needle)
       (string_entries sdk d listed_length))"

definition search_names :: "'d ida_sdk \<Rightarrow> 'd \<Rightarrow> string \<Rightarrow> string list throws" where
  "search_names sdk d needle =
     map_sum id concat (map_throws (\<lambda>i. maybe_add_search_row ''names'' (get_nlist_ea sdk d i) (name_text sdk d i) needle)
       [0..<get_nlist_size sdk d])"

definition search_code :: "'d ida_sdk \<Rightarrow> 'd \<Rightarrow> string \<Rightarrow> string \<Rightarrow> string list throws" where
  "search_code sdk d scope needle =
     map_sum id concat (map_throws (search_at sdk d scope needle)
       (concat (map (function_walk sdk d) (all_functions sdk d))))"

text \<open>The rows of the three passes, and the state after the first one.\<close>

definition search_rows ::
  "'d ida_sdk \<Rightarrow> string \<Rightarrow> string \<Rightarrow> 'd ida_state \<Rightarrow> string list throws \<times> 'd ida_state" where
  "search_rows sdk scope needle st =
     (let st' = (if scope = ''all'' \<or> scope = ''strings'' then ensure_string_list sdk st else st); d = database st' in
      (andthen (if scope = ''all'' \<or> scope = ''strings'' then search_strings sdk d needle else Inr []) (\<lambda>r1.
       andthen (if scope = ''all'' \<or> scope = ''names'' then search_names sdk d needle else Inr []) (\<lambda>r2.
       andthen (if scope = ''all'' \<or> scope = ''disasm'' \<or> scope = ''comments''
                then search_code sdk d scope needle else Inr []) (\<lambda>r3.
       Inr (r1 @ r2 @ r3)))), st'))"

text \<open>\<^verbatim>\<open>json_u64_arg(args, "limit", json_u64_arg(args, "count", 100))\<close>.\<close>

definition limit_or_count :: "json_value \<Rightarrow> u64 throws" where
  "limit_or_count args = andthen (json_u64_arg args ''count'' 100) (json_u64_arg args ''limit'')"

definition core_search_text :: "'d ida_sdk \<Rightarrow> json_value \<Rightarrow> 'd ida_state \<Rightarrow> string throws \<times> 'd ida_state" where
  "core_search_text sdk args st =
     (case andthen (json_string_arg args ''query'') (\<lambda>query.
           andthen (json_string_arg args ''scope'') (\<lambda>scope_arg.
           andthen (json_u64_arg args ''offset'' 0) (\<lambda>offset.
           andthen (limit_or_count args) (\<lambda>n.
           Inr (query, if scope_arg = [] then ''all'' else scope_arg, offset, n))))) of
        Inl e \<Rightarrow> (Inl e, st)
      | Inr (query, scope, offset, n) \<Rightarrow>
          (case search_rows sdk scope (to_lower_copy query) st of
             (rows, st') \<Rightarrow> (andthen rows (\<lambda>rs. paged_result_json rs offset n), st')))"

section \<open>query\_xrefs\<close>

definition xref_query_row :: "'d ida_sdk \<Rightarrow> 'd \<Rightarrow> string \<Rightarrow> string \<Rightarrow> ea \<Rightarrow> ea \<Rightarrow> string list throws" where
  "xref_query_row sdk d direction kind x to =
     map_sum id (\<lambda>t. [t]) (join_throws
       [Inr ''{'', key_text ''direction'', json_string direction, Inr '','', key_text ''type'', json_string kind,
        Inr '','', key_text ''from'', json_u64 x, Inr '','', key_text ''to'', json_u64 to,
        Inr '','', key_text ''function'', function_json sdk d (get_func sdk d (if direction = ''to'' then x else to)), Inr ''}''])"

text \<open>One pass over a chain, when the type of reference is asked for.\<close>

definition xref_pass :: "string \<Rightarrow> string \<Rightarrow> (ea \<Rightarrow> ea) \<Rightarrow> ea \<Rightarrow> (ea \<Rightarrow> string list throws) \<Rightarrow> string list run" where
  "xref_pass xref_type kind next first row =
     (if xref_type = ''all'' \<or> xref_type = kind then xref_rows next row first else Some (Inr []))"

definition xref_query_rows :: "'d ida_sdk \<Rightarrow> 'd \<Rightarrow> string \<Rightarrow> string \<Rightarrow> ea \<Rightarrow> string list run" where
  "xref_query_rows sdk d direction xref_type ea =
     (if direction = ''to''
      then run_then (xref_pass xref_type ''code'' (get_next_cref_to sdk d ea) (get_first_cref_to sdk d ea)
             (\<lambda>x. xref_query_row sdk d direction ''code'' x ea)) (\<lambda>r1.
           run_then (xref_pass xref_type ''data'' (get_next_dref_to sdk d ea) (get_first_dref_to sdk d ea)
             (\<lambda>x. xref_query_row sdk d direction ''data'' x ea)) (\<lambda>r2. Some (Inr (r1 @ r2))))
      else if direction = ''from''
      then run_then (xref_pass xref_type ''code'' (get_next_cref_from sdk d ea) (get_first_cref_from sdk d ea)
             (\<lambda>to. xref_query_row sdk d direction ''code'' ea to)) (\<lambda>r1.
           run_then (xref_pass xref_type ''data'' (get_next_dref_from sdk d ea) (get_first_dref_from sdk d ea)
             (\<lambda>to. xref_query_row sdk d direction ''data'' ea to)) (\<lambda>r2. Some (Inr (r1 @ r2))))
      else Some (Inl (Invalid_argument ''direction must be `to` or `from`'')))"

definition core_query_xrefs :: "'d ida_sdk \<Rightarrow> 'd \<Rightarrow> json_value \<Rightarrow> string run" where
  "core_query_xrefs sdk d args =
     run_then (Some (json_string_arg args ''target'')) (\<lambda>target.
     run_then (Some (json_string_arg args ''direction'')) (\<lambda>direction_arg.
     run_then (Some (json_string_arg args ''xref_type'')) (\<lambda>type_arg.
     run_then (Some (json_u64_arg args ''offset'' 0)) (\<lambda>offset.
     run_then (Some (limit_or_count args)) (\<lambda>n.
     let direction = (if direction_arg = [] then ''to'' else direction_arg);
         xref_type = (if type_arg = [] then ''all'' else type_arg);
         ea = resolve_query_addr_or_name sdk d target in
     if ea = BADADDR then Some (Inl (Invalid_argument ''target was not found''))
     else run_then (xref_query_rows sdk d direction xref_type ea) (\<lambda>rows.
          Some (paged_result_json rows offset n)))))))"

section \<open>query\_funcs\<close>

record func_row =
  row_ea :: ea
  row_size :: u64
  row_name :: string
  row_has_type :: bool
  row_json :: string

record func_query =
  q_filter :: string
  q_regex :: "(string \<Rightarrow> bool) option"
  q_sort_by :: string
  q_descending :: bool
  q_offset :: u64
  q_count :: u64
  q_min_size :: u64
  q_max_size :: u64
  q_has_type :: "bool option"

text \<open>\<^verbatim>\<open>std::regex(name_regex, icase)\<close> is \<open>regex\<close>: the search it performs, or what its constructor throws.\<close>

definition func_query_of :: "(string \<Rightarrow> (string \<Rightarrow> bool) throws) \<Rightarrow> json_value \<Rightarrow> func_query throws" where
  "func_query_of regex args =
     andthen (json_string_arg args ''filter'') (\<lambda>filter_text.
     andthen (json_string_arg args ''name_regex'') (\<lambda>name_regex.
     andthen (json_string_arg args ''sort_by'') (\<lambda>sort_by.
     andthen (json_bool_arg args ''descending'' False) (\<lambda>descending.
     andthen (json_u64_arg args ''offset'' 0) (\<lambda>offset.
     andthen (json_u64_arg args ''count'' 50) (\<lambda>n.
     andthen (json_u64_arg args ''min_size'' 0) (\<lambda>min_size.
     andthen (json_u64_arg args ''max_size'' (- 1)) (\<lambda>max_size.
     andthen (if json_has_arg args ''has_type'' then map_sum id Some (json_bool_arg args ''has_type'' False) else Inr None) (\<lambda>has_type.
     andthen (if name_regex \<noteq> [] then map_sum id Some (regex name_regex) else Inr None) (\<lambda>rx.
     Inr \<lparr>q_filter = to_lower_copy filter_text, q_regex = rx, q_sort_by = sort_by, q_descending = descending,
          q_offset = offset, q_count = n, q_min_size = min_size, q_max_size = max_size, q_has_type = has_type\<rparr>))))))))))"

definition func_row_of :: "'d ida_sdk \<Rightarrow> 'd \<Rightarrow> func_t \<Rightarrow> func_row throws" where
  "func_row_of sdk d f =
     (let name = get_func_name sdk d (start_ea f); sz = end_ea f - start_ea f; typed = get_tinfo sdk d (start_ea f) in
      andthen (join_throws
        [Inr ''{'', key_text ''address'', json_u64 (start_ea f), Inr '','', key_text ''name'', json_string name,
         Inr '','', key_text ''size'', json_u64 sz, Inr '','', key_text ''has_type'', Inr (bool_text typed), Inr ''}'']) (\<lambda>t.
      Inr \<lparr>row_ea = start_ea f, row_size = sz, row_name = name, row_has_type = typed, row_json = t\<rparr>))"

definition func_selected :: "'d ida_sdk \<Rightarrow> 'd \<Rightarrow> func_query \<Rightarrow> func_t \<Rightarrow> bool" where
  "func_selected sdk d q f \<longleftrightarrow>
     (let name = get_func_name sdk d (start_ea f); sz = end_ea f - start_ea f in
      (q_filter q = [] \<or> str_find (to_lower_copy name) (q_filter q) \<noteq> None)
      \<and> (case q_regex q of None \<Rightarrow> True | Some rx \<Rightarrow> rx name)
      \<and> q_min_size q \<le> sz \<and> sz \<le> q_max_size q
      \<and> (case q_has_type q of None \<Rightarrow> True | Some t \<Rightarrow> get_tinfo sdk d (start_ea f) = t))"

text \<open>The comparison the rows are sorted with.\<close>

definition row_before :: "string \<Rightarrow> bool \<Rightarrow> func_row \<Rightarrow> func_row \<Rightarrow> bool" where
  "row_before sort_by descending a b =
     (if sort_by = ''name''
      then (if descending then string_less (row_name b) (row_name a) else string_less (row_name a) (row_name b))
      else if sort_by = ''size''
      then (if descending then row_size b < row_size a else row_size a < row_size b)
      else (if descending then row_ea b < row_ea a else row_ea a < row_ea b))"

text \<open>\<^verbatim>\<open>std::sort\<close> is the parameter \<open>std_sort\<close>, because the order it leaves equal elements in is its own.\<close>

type_synonym row_sort = "(func_row \<Rightarrow> func_row \<Rightarrow> bool) \<Rightarrow> func_row list \<Rightarrow> func_row list"

definition core_query_funcs ::
  "(string \<Rightarrow> (string \<Rightarrow> bool) throws) \<Rightarrow> row_sort \<Rightarrow> 'd ida_sdk \<Rightarrow> 'd \<Rightarrow> json_value \<Rightarrow> string throws" where
  "core_query_funcs regex std_sort sdk d args =
     andthen (func_query_of regex args) (\<lambda>q.
     andthen (map_throws (func_row_of sdk d) (filter (func_selected sdk d q) (all_functions sdk d))) (\<lambda>rows.
     paged_result_json (map row_json (std_sort (row_before (q_sort_by q) (q_descending q)) rows)) (q_offset q) (q_count q)))"

section \<open>query\_entities\<close>

definition entity_row :: "string \<Rightarrow> ea \<times> string \<Rightarrow> string throws" where
  "entity_row kind e = join_throws
     [Inr ''{'', key_text ''kind'', json_string (if kind = ''globals'' then ''global'' else ''name''),
      Inr '','', key_text ''address'', json_u64 (fst e), Inr '','', key_text ''name'', json_string (snd e), Inr ''}'']"

definition named_entries :: "'d ida_sdk \<Rightarrow> 'd \<Rightarrow> string \<Rightarrow> (ea \<times> string) list" where
  "named_entries sdk d kind =
     map (\<lambda>i. (get_nlist_ea sdk d i, name_text sdk d i))
       (filter (\<lambda>i. \<not> (kind = ''globals'' \<and> get_func sdk d (get_nlist_ea sdk d i) \<noteq> None)) [0..<get_nlist_size sdk d])"

definition matching_rows :: "string \<Rightarrow> string list \<Rightarrow> string list" where
  "matching_rows lower_filter rows =
     filter (\<lambda>row. lower_filter = [] \<or> str_find (to_lower_copy row) lower_filter \<noteq> None) rows"

definition entity_rows :: "'d ida_sdk \<Rightarrow> 'd \<Rightarrow> string \<Rightarrow> string list throws" where
  "entity_rows sdk d kind =
     (if kind = ''functions''
      then map_throws (\<lambda>i. function_json sdk d (getn_func sdk d i)) [0..<get_func_qty sdk d]
      else if kind = ''globals'' \<or> kind = ''names'' then map_throws (entity_row kind) (named_entries sdk d kind)
      else map_throws (\<lambda>(item, t). string_info_json item t) (string_entries sdk d listed_length))"

definition core_query_entities :: "'d ida_sdk \<Rightarrow> json_value \<Rightarrow> 'd ida_state \<Rightarrow> string throws \<times> 'd ida_state" where
  "core_query_entities sdk args st =
     (case andthen (json_string_arg args ''kind'') (\<lambda>kind_arg.
           andthen (json_string_arg args ''filter'') (\<lambda>filter_text.
           andthen (json_u64_arg args ''offset'' 0) (\<lambda>offset.
           andthen (json_u64_arg args ''count'' 50) (\<lambda>n.
           Inr (if kind_arg = [] then ''functions'' else kind_arg, to_lower_copy filter_text, offset, n))))) of
        Inl e \<Rightarrow> (Inl e, st)
      | Inr (kind, lower_filter, offset, n) \<Rightarrow>
          if kind = ''imports'' then (core_list_imports sdk (database st) args, st)
          else if kind \<in> {''functions'', ''globals'', ''names'', ''strings''}
          then let st' = (if kind = ''strings'' then ensure_string_list sdk st else st) in
               (andthen (entity_rows sdk (database st') kind) (\<lambda>rows.
                paged_result_json (matching_rows lower_filter rows) offset n), st')
          else (Inl (Invalid_argument ''kind must be functions, globals, imports, strings, or names''), st))"

section \<open>Pages cover all rows\<close>

lemma page_from_slice: "page_from rows i n = take n (drop i rows)"
proof (induction rows i n rule: page_from.induct)
  case (2 rows i n)
  then show ?case by (cases "i < length rows") (simp_all add: Cons_nth_drop_Suc [symmetric])
qed simp

lemma page_limit_range: "1 \<le> unat (page_limit n)" "unat (page_limit n) \<le> 1000"
proof -
  have "(1 :: u64) \<le> page_limit n" "page_limit n \<le> 1000"
    by (auto simp: page_limit_def min_def word_le_nat_alt unat_eq_0 Suc_le_eq unat_gt_0)
  then show "1 \<le> unat (page_limit n)" "unat (page_limit n) \<le> 1000" by (simp_all add: word_le_nat_alt)
qed

definition paged_doc :: "json list \<Rightarrow> u64 \<Rightarrow> u64 \<Rightarrow> json" where
  "paged_doc rows offset n =
     (let page = take (unat (page_limit n)) (drop (unat offset) rows); next = unat offset + length page in
      JObject
        [(''offset'', JNat (unat offset)), (''items'', JArray page), (''count'', JNat (length page)),
         (''total'', JNat (length rows)), (''next_offset'', if next < length rows then JNat next else JNull)])"

lemma plain_search_keys [simp]: "plain_text ''next_offset''" "plain_text ''pattern''"
  by (simp_all add: plain_printable)

lemma page_next_value:
  assumes "length rows < 2 ^ 64"
  shows "page_next rows offset n =
    (let next = unat offset + length (take (unat (page_limit n)) (drop (unat offset) rows)) in
     if next < length rows then Some (of_nat next) else None)"
proof -
  let ?page = "take (unat (page_limit n)) (drop (unat offset) rows)"
  let ?next = "unat offset + length ?page"
  have "?next < 2 ^ 64"
    using assms unat_bound [of offset] by (cases "unat offset < length rows") auto
  then have "unat (offset + of_nat (length ?page)) = ?next" by (simp add: unat_word_ariths unat_of_nat)
  moreover have "offset + of_nat (length ?page) = of_nat ?next" by simp
  ultimately show ?thesis unfolding page_next_def page_from_slice Let_def by metis
qed

lemma paged_result_doc:
  assumes "length rows < 2 ^ 64"
  shows "paged_result_json (map render rows) offset n = Inr (render (paged_doc rows offset n))"
proof -
  let ?page = "take (unat (page_limit n)) (drop (unat offset) rows)"
  have len: "length ?page < 2 ^ 64" using assms by simp
  have nat: "unat (of_nat k :: u64) = k" if "k < 2 ^ 64" for k using that by (simp add: unat_of_nat)
  show ?thesis
    using page_next_value [of "map render rows" offset n] assms nat [OF len] nat [OF assms] nat [of "unat offset + length ?page"]
    by (auto simp: paged_result_json_def paged_doc_def page_from_slice Let_def take_map drop_map render_docs)
qed

text \<open>A client that asks for the page at \<^verbatim>\<open>next_offset\<close> until that is null, at most \<open>fuel\<close> times.\<close>

fun all_pages :: "string list \<Rightarrow> u64 \<Rightarrow> nat \<Rightarrow> u64 \<Rightarrow> string list" where
  "all_pages rows n 0 offset = []"
| "all_pages rows n (Suc fuel) offset =
     page_from rows (unat offset) (unat (page_limit n))
     @ (case page_next rows offset n of None \<Rightarrow> [] | Some next \<Rightarrow> all_pages rows n fuel next)"

lemma all_pages_drop:
  assumes "length rows < 2 ^ 64" and "length rows \<le> unat offset + fuel"
  shows "all_pages rows n fuel offset = drop (unat offset) rows"
  using assms(2)
proof (induction fuel arbitrary: offset)
  case (Suc fuel)
  let ?page = "take (unat (page_limit n)) (drop (unat offset) rows)"
  let ?next = "unat offset + length ?page"
  show ?case
  proof (cases "?next < length rows")
    case True
    then have len: "length ?page = unat (page_limit n)" by auto
    have "unat (of_nat k :: u64) = k" if "k < 2 ^ 64" for k using that by (simp add: unat_of_nat)
    from this [OF less_trans [OF True assms(1)]] have nat: "unat (of_nat ?next :: u64) = ?next" .
    then have "all_pages rows n fuel (of_nat ?next) = drop ?next rows"
      using Suc.IH [of "of_nat ?next"] Suc.prems len page_limit_range [of n] by simp
    then have "all_pages rows n (Suc fuel) offset = ?page @ drop ?next rows"
      using True page_next_value [OF assms(1), of offset n] by (simp add: page_from_slice Let_def)
    also have "\<dots> = drop (unat offset) rows"
      using len by (metis add.commute append_take_drop_id drop_drop)
    finally show ?thesis .
  next
    case False
    then have "all_pages rows n (Suc fuel) offset = ?page"
      using page_next_value [OF assms(1), of offset n] by (simp add: page_from_slice Let_def)
    also have "\<dots> = drop (unat offset) rows" using False by auto
    finally show ?thesis .
  qed
qed simp

section \<open>Patterns read back\<close>

definition hex2 :: "u8 \<Rightarrow> string" where
  "hex2 b = [digit_char (unat b div 16), digit_char (unat b mod 16)]"

lemma byte_digits: "unat (b :: u8) div 16 < 16" "unat b mod 16 < 16"
  using unat_bound [of b] by (simp_all add: div_less_iff_less_mult)

lemma pattern_byte_hex2: "pattern_byte (hex2 b) error = Inr (b, False)"
proof -
  have digits: "text_digits (hex2 b) = Some [unat b div 16, unat b mod 16]"
    using byte_digits [of b] by (simp add: hex2_def text_digits_def)
  have "list_all (\<lambda>c. \<not> is_space c) (''0x'' @ hex2 b)"
    using byte_digits [of b] digit_char_not_space by (simp add: hex2_def is_space_def)
  then have "trim_copy (''0x'' @ hex2 b) = ''0x'' @ hex2 b" by (rule trim_copy_id)
  moreover have "numeral_base (''0x'' @ hex2 b) = (16, hex2 b)" by (simp add: numeral_base_def hex2_def)
  moreover have "digits_value 16 [unat b div 16, unat b mod 16] = unat b" by (simp add: digits_value_def)
  ultimately have "parse_u64_text (''0x'' @ hex2 b) = Some (ucast b)"
    using byte_digits [of b] by (simp add: parse_u64_text_iff digits unat_ucast_u8)
  moreover have "\<not> 0xff < (ucast b :: u64)" using unat_bound [of b] by (simp add: word_less_nat_alt unat_ucast_u8)
  moreover have "ucast (ucast b :: u64) = b"
    by (rule bit_word_eqI) (simp add: bit_ucast_iff)
  ultimately show ?thesis by (simp add: pattern_byte_def)
qed

lemma hex2_digits: "list_all (\<lambda>c. digit_val c \<noteq> None) (hex2 b)"
  using byte_digits [of b] by (simp add: hex2_def)

lemma hex2_no_prefix: "\<not> prefix ''0x'' (hex2 b @ cs)" "\<not> prefix ''0X'' (hex2 b @ cs)"
proof -
  have "digit_val (CHR ''x'') = None" "digit_val (CHR ''X'') = None" by (simp_all add: digit_val_def)
  then have "digit_char (unat b mod 16) \<noteq> CHR ''x''" "digit_char (unat b mod 16) \<noteq> CHR ''X''"
    using digit_val_digit_char [OF byte_digits(2) [of b]] by (metis option.distinct(1))+
  then show "\<not> prefix ''0x'' (hex2 b @ cs)" "\<not> prefix ''0X'' (hex2 b @ cs)" by (auto simp: hex2_def)
qed

lemma bytes_hex_hex2: "bytes_hex bytes = concat (map hex2 bytes)"
  by (simp add: bytes_hex_def hex2_def [abs_def])

lemma length_bytes_hex: "length (bytes_hex bytes) = 2 * length bytes"
  by (induction bytes) (simp_all add: bytes_hex_def)

lemma compact_bytes_hex: "compact_bytes error (bytes_hex bytes) = Inr (map (\<lambda>b. (b, False)) bytes)"
proof (induction bytes)
  case (Cons b bytes)
  then show ?case using pattern_byte_hex2 [of b error] by (simp add: bytes_hex_def hex2_def prepend_def)
qed (simp add: bytes_hex_def)

lemma token_bytes_hex:
  assumes "bytes \<noteq> []"
  shows "token_bytes pattern (bytes_hex bytes) = Inr (map (\<lambda>b. (b, False)) bytes)"
proof -
  obtain b bs where bytes: "bytes = b # bs" using assms by (cases bytes) auto
  have digits: "list_all (\<lambda>c. digit_val c \<noteq> None) (bytes_hex bytes)"
    unfolding bytes_hex_hex2 using hex2_digits by (induction bytes) auto
  have front: "bytes_hex bytes = hex2 b @ bytes_hex bs" by (simp add: bytes bytes_hex_hex2)
  have hex: "strip_hex_prefix_copy (bytes_hex bytes) = bytes_hex bytes"
    unfolding strip_hex_prefix_copy_def front using hex2_no_prefix by simp
  have not_wild: "bytes_hex bytes \<noteq> ''?''" "bytes_hex bytes \<noteq> ''??''"
    using digits by (auto simp: digit_val_def)
  have nonempty: "bytes_hex bytes \<noteq> []" using length_bytes_hex [of bytes] assms by auto
  show ?thesis
  proof (cases bs)
    case Nil
    then have "bytes_hex bytes = hex2 b" "length (hex2 b) = 2" by (simp_all add: bytes bytes_hex_hex2 hex2_def)
    then show ?thesis
      using hex digits not_wild nonempty pattern_byte_hex2 [of b] by (simp add: token_bytes_def is_hex_text_def Let_def bytes Nil)
  next
    case (Cons c cs)
    then have "2 < length (bytes_hex bytes)" "even (length (bytes_hex bytes))" by (simp_all add: length_bytes_hex bytes)
    then show ?thesis
      using hex digits not_wild nonempty by (simp add: token_bytes_def is_hex_text_def Let_def compact_bytes_hex)
  qed
qed

text \<open>The text of a pattern: a token per byte, separated by spaces.\<close>

definition pattern_token :: "u8 \<times> bool \<Rightarrow> string" where
  "pattern_token p = (if snd p then ''??'' else hex2 (fst p))"

fun text_of_pattern :: "byte_pattern \<Rightarrow> string" where
  "text_of_pattern [] = []"
| "text_of_pattern [p] = pattern_token p"
| "text_of_pattern (p # q # ps) = pattern_token p @ CHR '' '' # text_of_pattern (q # ps)"

lemma hex2_bytes_hex: "hex2 b = bytes_hex [b]"
  by (simp add: bytes_hex_hex2)

lemma token_bytes_token: "snd p \<longrightarrow> fst p = 0 \<Longrightarrow> token_bytes pattern (pattern_token p) = Inr [p]"
proof (cases "snd p")
  case False
  then show ?thesis using token_bytes_hex [of "[fst p]" pattern] by (cases p) (simp add: pattern_token_def hex2_bytes_hex)
next
  case True
  moreover assume "snd p \<longrightarrow> fst p = 0"
  ultimately show ?thesis by (cases p) (simp add: pattern_token_def token_bytes_def)
qed

lemma token_no_space: "list_all (\<lambda>c. \<not> is_space c) (pattern_token p)" and token_not_Nil: "pattern_token p \<noteq> []"
  using byte_digits [of "fst p"] digit_char_not_space by (auto simp: pattern_token_def hex2_def is_space_def)

lemma pattern_tokens_step:
  assumes "list_all (\<lambda>c. \<not> is_space c) tok" and "tok \<noteq> []"
  shows "pattern_tokens tok = [tok]" and "pattern_tokens (tok @ CHR '' '' # rest) = tok # pattern_tokens rest"
proof -
  have "\<not> is_space (hd tok)" using assms by (cases tok) auto
  then have drop: "dropWhile is_space (tok @ xs) = tok @ xs" for xs using assms(2) by (cases tok) auto
  have space: "is_space (CHR '' '')" by (simp add: is_space_def)
  have all: "\<forall>c \<in> set tok. \<not> is_space c" using assms(1) by (simp add: list_all_iff)
  have "pattern_tokens [] = []" by (simp add: pattern_tokens.simps)
  then show "pattern_tokens tok = [tok]"
    using drop [of "[]"] all assms(2) by (subst pattern_tokens.simps) (simp add: Let_def takeWhile_eq_all_conv [THEN iffD2] dropWhile_eq_Nil_conv [THEN iffD2])
  have "pattern_tokens (CHR '' '' # rest) = pattern_tokens rest"
    using space by (subst (1 2) pattern_tokens.simps) simp
  then show "pattern_tokens (tok @ CHR '' '' # rest) = tok # pattern_tokens rest"
    using drop [of "CHR '' '' # rest"] all assms(2) space
    by (subst pattern_tokens.simps) (simp add: Let_def takeWhile_append2 dropWhile_append2)
qed

lemma pattern_tokens_text: "pattern_tokens (text_of_pattern ps) = map pattern_token ps"
proof (induction ps rule: text_of_pattern.induct)
  case 1
  then show ?case by (simp add: pattern_tokens.simps)
qed (simp_all add: pattern_tokens_step token_no_space token_not_Nil)

lemma parse_pattern_text:
  assumes "ps \<noteq> []" and "list_all (\<lambda>p. snd p \<longrightarrow> fst p = 0) ps"
  shows "parse_byte_pattern (text_of_pattern ps) = Inr ps"
proof -
  have "map_throws (token_bytes (text_of_pattern ps)) (map pattern_token qs) = Inr (map (\<lambda>p. [p]) qs)"
    if "list_all (\<lambda>p. snd p \<longrightarrow> fst p = 0) qs" for qs
    using that by (induction qs) (simp_all add: token_bytes_token)
  from this [OF assms(2)] have "map_throws (token_bytes (text_of_pattern ps)) (pattern_tokens (text_of_pattern ps)) = Inr (map (\<lambda>p. [p]) ps)"
    by (simp only: pattern_tokens_text)
  moreover have "concat (map (\<lambda>p. [p]) ps) = ps" by (induction ps) auto
  ultimately show ?thesis using assms(1) unfolding parse_byte_pattern_def by (simp only: andthen_simps if_False)
qed

lemma parse_bytes_hex:
  assumes "bytes \<noteq> []"
  shows "parse_byte_pattern (bytes_hex bytes) = Inr (map (\<lambda>b. (b, False)) bytes)"
proof -
  have "list_all (\<lambda>c. \<not> is_space c) (bytes_hex bytes)"
    using byte_digits digit_char_not_space by (auto simp: list_all_iff bytes_hex_def)
  moreover have "bytes_hex bytes \<noteq> []" using length_bytes_hex [of bytes] assms by auto
  ultimately have "pattern_tokens (bytes_hex bytes) = [bytes_hex bytes]" by (rule pattern_tokens_step(1))
  then show ?thesis using assms token_bytes_hex [OF assms] by (simp add: parse_byte_pattern_def)
qed

section \<open>Scanning a segment\<close>

text \<open>The hits of a pattern between two addresses, and what the loop does with a list of hits.\<close>

definition segment_hits :: "'d ida_sdk \<Rightarrow> 'd \<Rightarrow> byte_pattern \<Rightarrow> ea \<Rightarrow> ea \<Rightarrow> ea list" where
  "segment_hits sdk d pat fin start =
     filter (\<lambda>ea. byte_pattern_matches sdk d ea pat) (map of_nat [unat start..<Suc (unat fin) - length pat])"

fun take_hits :: "find_request \<Rightarrow> (string \<times> ea) list \<Rightarrow> find_state \<Rightarrow> find_state throws" where
  "take_hits req [] s = Inr s"
| "take_hits req ((pattern_text, ea) # hs) s =
     andthen (find_hit req pattern_text ea s) (\<lambda>s'. if fs_truncated s' then Inr s' else take_hits req hs s')"

lemma take_hits_append:
  "\<not> fs_truncated s \<Longrightarrow>
     take_hits req (xs @ ys) s = andthen (take_hits req xs s) (\<lambda>s'. if fs_truncated s' then Inr s' else take_hits req ys s')"
  by (induction req xs s rule: take_hits.induct) (auto simp: andthen_def split: sum.split)

lemma scan_segment_hits:
  assumes "unat fin < 2 ^ 64 - 1" and "length pat \<le> unat fin" and "unat ea \<le> Suc (unat fin) - length pat"
  shows "scan_segment sdk d req pattern_text pat fin ea s = Some (take_hits req (map (Pair pattern_text) (segment_hits sdk d pat fin ea)) s)"
  using assms(3)
proof (induction "Suc (unat fin) - length pat - unat ea" arbitrary: ea s)
  case 0
  then have ea: "unat ea + length pat = Suc (unat fin)" using assms(2) by simp
  then have "unat (ea + of_nat (length pat)) = Suc (unat fin)"
    using assms(1) by (simp add: unat_word_ariths unat_of_nat)
  then have "\<not> ea + of_nat (length pat) \<le> fin" by (simp add: word_le_nat_alt)
  moreover have "segment_hits sdk d pat fin ea = []" using 0 by (simp add: segment_hits_def)
  ultimately show ?case by (subst scan_segment.simps) simp
next
  case (Suc k)
  then have less: "unat ea < Suc (unat fin) - length pat" by simp
  then have "unat (ea + of_nat (length pat)) = unat ea + length pat"
    using assms(1) by (simp add: unat_word_ariths unat_of_nat)
  then have go: "ea + of_nat (length pat) \<le> fin" using less by (simp add: word_le_nat_alt)
  have step: "unat (ea + 1) = Suc (unat ea)" using less assms(1) by (simp add: unat_word_ariths)
  then have IH: "scan_segment sdk d req pattern_text pat fin (ea + 1) s'
      = Some (take_hits req (map (Pair pattern_text) (segment_hits sdk d pat fin (ea + 1))) s')" for s'
    using Suc less by (intro Suc.hyps(1)) simp_all
  have hits: "segment_hits sdk d pat fin ea
      = (if byte_pattern_matches sdk d ea pat then [ea] else []) @ segment_hits sdk d pat fin (ea + 1)"
    using less by (simp add: segment_hits_def step upt_conv_Cons)
  show ?case
    by (subst scan_segment.simps) (use go in \<open>simp add: hits IH andthen_def split: sum.split\<close>)
qed

text \<open>The segments IDA enumerates, and the hits of the patterns in them, in the order of the loops.\<close>

fun seg_chain :: "'d ida_sdk \<Rightarrow> 'd \<Rightarrow> segment_t option \<Rightarrow> segment_t list \<Rightarrow> bool" where
  "seg_chain sdk d seg [] \<longleftrightarrow> seg = None"
| "seg_chain sdk d seg (sg # sgs) \<longleftrightarrow> seg = Some sg \<and> seg_chain sdk d (get_next_seg sdk d (end_ea sg)) sgs"

definition pattern_hits :: "'d ida_sdk \<Rightarrow> 'd \<Rightarrow> segment_t list \<Rightarrow> string \<Rightarrow> byte_pattern \<Rightarrow> (string \<times> ea) list" where
  "pattern_hits sdk d segs pattern_text pat =
     concat (map (\<lambda>sg. if segment_too_short sg pat then []
                       else map (Pair pattern_text) (segment_hits sdk d pat (end_ea sg) (start_ea sg))) segs)"

definition all_hits :: "'d ida_sdk \<Rightarrow> 'd \<Rightarrow> segment_t list \<Rightarrow> string list \<Rightarrow> byte_pattern list \<Rightarrow> (string \<times> ea) list" where
  "all_hits sdk d segs patterns pats = concat (map2 (pattern_hits sdk d segs) patterns pats)"

definition below_top :: "segment_t list \<Rightarrow> bool" where
  "below_top segs \<longleftrightarrow> list_all (\<lambda>sg. end_ea sg \<noteq> - 1) segs"

lemma long_segment:
  assumes "\<not> segment_too_short sg pat" and "end_ea sg \<noteq> - 1"
  shows "unat (end_ea sg) < 2 ^ 64 - 1" "length pat \<le> unat (end_ea sg)" "unat (start_ea sg) \<le> Suc (unat (end_ea sg)) - length pat"
proof -
  have "unat (end_ea sg) \<noteq> 2 ^ 64 - 1"
    using assms(2) by (simp add: word_unat_eq_iff unsigned_minus_1_eq_mask mask_eq_exp_minus_1)
  then show "unat (end_ea sg) < 2 ^ 64 - 1" using unat_bound [of "end_ea sg"] by simp
  have "start_ea sg < end_ea sg" "length pat \<le> unat (end_ea sg - start_ea sg)"
    using assms(1) by (auto simp: segment_too_short_def)
  then show "length pat \<le> unat (end_ea sg)" "unat (start_ea sg) \<le> Suc (unat (end_ea sg)) - length pat"
    by (simp_all add: unat_sub word_less_nat_alt word_le_nat_alt)
qed

lemma scan_segments_hits:
  assumes "seg_chain sdk d seg segs" and "below_top segs" and "\<not> fs_truncated s"
  shows "scan_segments sdk d req pattern_text pat seg s = Some (take_hits req (pattern_hits sdk d segs pattern_text pat) s)"
  using assms
proof (induction segs arbitrary: seg s)
  case Nil
  then show ?case by (subst scan_segments.simps) (simp add: pattern_hits_def)
next
  case (Cons sg segs)
  then have seg: "seg = Some sg" and chain: "seg_chain sdk d (get_next_seg sdk d (end_ea sg)) segs" and top: "end_ea sg \<noteq> - 1"
    and IH: "\<And>s. \<not> fs_truncated s \<Longrightarrow> scan_segments sdk d req pattern_text pat (get_next_seg sdk d (end_ea sg)) s
      = Some (take_hits req (pattern_hits sdk d segs pattern_text pat) s)"
    by (auto simp: below_top_def)
  show ?case
  proof (cases "segment_too_short sg pat")
    case True
    then show ?thesis using IH [OF Cons.prems(3)] by (subst scan_segments.simps) (simp add: seg pattern_hits_def)
  next
    case False
    then show ?thesis
      using scan_segment_hits [OF long_segment [OF False top], of sdk d req pattern_text s] IH Cons.prems(3)
      by (subst scan_segments.simps) (auto simp: seg pattern_hits_def take_hits_append andthen_def split: sum.split)
  qed
qed

lemma scan_patterns_hits:
  assumes "list_all2 (\<lambda>t pat. parse_byte_pattern t = Inr pat) patterns pats"
    and "seg_chain sdk d (get_first_seg sdk d) segs" and "below_top segs" and "\<not> fs_truncated s"
  shows "scan_patterns sdk d req patterns s = Some (take_hits req (all_hits sdk d segs patterns pats) s)"
  using assms(1,4)
proof (induction patterns pats arbitrary: s rule: list_all2_induct)
  case (Cons t ts pat pats)
  then show ?case
    using scan_segments_hits [OF assms(2,3) Cons.prems, of req t pat]
    by (cases "take_hits req (pattern_hits sdk d segs t pat) s") (auto simp: all_hits_def take_hits_append)
qed (simp add: all_hits_def)

text \<open>A segment that ends at the highest address is never left by the bound of the loop.\<close>

lemma scan_segment_top:
  assumes "scan_segment sdk d req pattern_text pat fin ea s = Some r"
  shows "fin = - 1 \<longrightarrow> (\<exists>ea'. byte_pattern_matches sdk d ea' pat)"
proof (rule scan_segment.raw_induct [where P = "\<lambda>sdk d req pt pat fin ea s r.
    fin = - 1 \<longrightarrow> (\<exists>ea'. byte_pattern_matches sdk d ea' pat)", OF _ assms])
  fix scan sdk d req pt pat fin ea s r
  assume IH: "\<And>sdk d req pt pat fin ea s r. scan sdk d req pt pat fin ea s = Some r \<Longrightarrow>
      fin = - 1 \<longrightarrow> (\<exists>ea'. byte_pattern_matches sdk d ea' pat)"
    and body: "(if ea + word_of_nat (length pat) \<le> fin
      then if \<not> byte_pattern_matches sdk d ea pat then scan sdk d req pt pat fin (ea + 1) s
           else case find_hit req pt ea s of Inl e \<Rightarrow> Some (Inl e)
                | Inr s' \<Rightarrow> if fs_truncated s' then Some (Inr s') else scan sdk d req pt pat fin (ea + 1) s'
      else Some (Inr s)) = Some r"
  then show "fin = - 1 \<longrightarrow> (\<exists>ea'. byte_pattern_matches sdk d ea' pat)"
    by (cases "byte_pattern_matches sdk d ea pat") auto
qed

section \<open>The page of hits\<close>

definition hit_doc :: "string \<Rightarrow> ea \<Rightarrow> json" where
  "hit_doc pattern_text ea = JObject [(''pattern'', JString pattern_text), (''ea'', JNat (unat ea))]"

lemma hit_row_doc: "utf8_text pt \<Longrightarrow> hit_row pt ea = Inr (render (hit_doc pt ea))"
  by (simp add: hit_row_def hit_doc_def json_string_ok render_docs)

lemma take_hits_from:
  assumes "list_all (\<lambda>h. utf8_text (fst h)) hs" and "\<not> fs_truncated s" and "unat (fs_total s) = k" and "k \<le> offset + limit"
    and "length (fs_rows s) = k - offset"
    and "unat (fr_offset req) = offset" and "unat (fr_limit req) = limit" and "unat (fr_stop_after req) = offset + limit + 1"
  shows "\<exists>s'. take_hits req hs s = Inr s' \<and> fs_truncated s' = (offset + limit < k + length hs)
    \<and> unat (fs_total s') = min (k + length hs) (offset + limit + 1)
    \<and> fs_rows s' = fs_rows s @ map (\<lambda>h. render (hit_doc (fst h) (snd h))) (drop (offset - k) (take (offset + limit - k) hs))"
  using assms(1-5)
proof (induction hs arbitrary: s k)
  case Nil
  then show ?case using unat_bound [of "fr_stop_after req"] assms(8) by auto
next
  case (Cons h hs)
  obtain pt ea where h: "h = (pt, ea)" by (cases h)
  have bound: "offset + limit + 1 < 2 ^ 64" using unat_bound [of "fr_stop_after req"] assms(8) by simp
  then have total: "unat (fs_total s + 1) = Suc k" using Cons.prems by (simp add: unat_word_ariths)
  consider "k = offset + limit" | "k < offset" | "offset \<le> k" "k < offset + limit" using Cons.prems(4) by linarith
  then show ?case
  proof cases
    case 1
    then have "fr_stop_after req \<le> fs_total s + 1" using total assms(8) by (simp add: word_le_nat_alt)
    then show ?thesis using 1 total h by (simp add: find_hit_def Let_def)
  next
    case 2
    then have "\<not> fr_stop_after req \<le> fs_total s + 1" "fs_total s < fr_offset req"
      using total assms(6,8) Cons.prems by (simp_all add: word_le_nat_alt word_less_nat_alt)
    then have hit: "find_hit req (fst h) (snd h) s = Inr (s\<lparr>fs_total := fs_total s + 1\<rparr>)" by (simp add: find_hit_def Let_def)
    have "\<exists>s'. take_hits req hs (s\<lparr>fs_total := fs_total s + 1\<rparr>) = Inr s' \<and> fs_truncated s' = (offset + limit < Suc k + length hs)
        \<and> unat (fs_total s') = min (Suc k + length hs) (offset + limit + 1)
        \<and> fs_rows s' = fs_rows s @ map (\<lambda>h. render (hit_doc (fst h) (snd h))) (drop (offset - Suc k) (take (offset + limit - Suc k) hs))"
      using Cons.IH [of "s\<lparr>fs_total := fs_total s + 1\<rparr>" "Suc k"] Cons.prems 2 total by simp
    moreover have "offset - k = Suc (offset - Suc k)" "offset + limit - k = Suc (offset + limit - Suc k)" using 2 by simp_all
    ultimately show ?thesis using hit h Cons.prems by auto
  next
    case 3
    let ?s = "s\<lparr>fs_total := fs_total s + 1, fs_rows := fs_rows s @ [render (hit_doc (fst h) (snd h))]\<rparr>"
    have "\<not> fr_stop_after req \<le> fs_total s + 1" "\<not> fs_total s < fr_offset req" "\<not> unat (fr_limit req) \<le> length (fs_rows s)"
      using 3 total assms(6,7,8) Cons.prems by (simp_all add: word_le_nat_alt word_less_nat_alt)
    then have hit: "find_hit req (fst h) (snd h) s = Inr ?s" using hit_row_doc [of "fst h" "snd h"] Cons.prems(1) by (simp add: find_hit_def Let_def)
    have "\<exists>s'. take_hits req hs ?s = Inr s' \<and> fs_truncated s' = (offset + limit < Suc k + length hs)
        \<and> unat (fs_total s') = min (Suc k + length hs) (offset + limit + 1)
        \<and> fs_rows s' = fs_rows ?s @ map (\<lambda>h. render (hit_doc (fst h) (snd h))) (drop (offset - Suc k) (take (offset + limit - Suc k) hs))"
      using Cons.prems 3 total by (intro Cons.IH) simp_all
    moreover have "offset + limit - k = Suc (offset + limit - Suc k)" "offset - k = 0" "offset - Suc k = 0" using 3 by simp_all
    ultimately show ?thesis using hit h Cons.prems by auto
  qed
qed

lemma find_request_values:
  assumes "unat offset + unat (min limit_arg 10000) + 1 < 2 ^ 64"
  shows "unat (fr_offset (find_request_of offset limit_arg)) = unat offset"
    and "unat (fr_limit (find_request_of offset limit_arg)) = unat (min limit_arg 10000)"
    and "unat (fr_stop_after (find_request_of offset limit_arg)) = unat offset + unat (min limit_arg 10000) + 1"
proof -
  have stop: "unat (offset + min limit_arg 10000 + 1) = unat offset + unat (min limit_arg 10000) + 1"
    using assms by (simp add: unat_word_ariths)
  then have "\<not> offset + min limit_arg 10000 + 1 < offset" by (simp add: word_less_nat_alt)
  with stop show "unat (fr_offset (find_request_of offset limit_arg)) = unat offset"
    "unat (fr_limit (find_request_of offset limit_arg)) = unat (min limit_arg 10000)"
    "unat (fr_stop_after (find_request_of offset limit_arg)) = unat offset + unat (min limit_arg 10000) + 1"
    by (simp_all add: find_request_of_def Let_def)
qed

text \<open>The state after a scan, and the document made of it.\<close>

definition found_page :: "nat \<Rightarrow> nat \<Rightarrow> (string \<times> ea) list \<Rightarrow> find_state \<Rightarrow> bool" where
  "found_page offset limit hits s \<longleftrightarrow>
     fs_truncated s = (offset + limit < length hits) \<and> unat (fs_total s) = min (length hits) (offset + limit + 1)
     \<and> fs_rows s = map (\<lambda>h. render (hit_doc (fst h) (snd h))) (take limit (drop offset hits))"

definition find_doc :: "nat \<Rightarrow> nat \<Rightarrow> (string \<times> ea) list \<Rightarrow> json" where
  "find_doc offset limit hits =
     (let page = take limit (drop offset hits) in
      JObject
        [(''offset'', JNat offset), (''items'', JArray (map (\<lambda>h. hit_doc (fst h) (snd h)) page)), (''count'', JNat (length page)),
         (''total'', JNat (min (length hits) (offset + limit + 1))),
         (''next_offset'', if offset + limit < length hits then JNat (offset + limit) else JNull)])"

lemma take_hits_page:
  assumes "list_all (\<lambda>h. utf8_text (fst h)) hits" and "unat offset + unat (min limit_arg 10000) + 1 < 2 ^ 64"
  shows "\<exists>s. take_hits (find_request_of offset limit_arg) hits \<lparr>fs_total = 0, fs_rows = [], fs_truncated = False\<rparr> = Inr s
    \<and> found_page (unat offset) (unat (min limit_arg 10000)) hits s"
  using take_hits_from [OF assms(1), of "\<lparr>fs_total = 0, fs_rows = [], fs_truncated = False\<rparr>" 0 "unat offset"
      "unat (min limit_arg 10000)" "find_request_of offset limit_arg"] find_request_values [OF assms(2)]
  by (auto simp: found_page_def take_drop add.commute)

lemma all_hits_utf8: "list_all utf8_text patterns \<Longrightarrow> list_all (\<lambda>h. utf8_text (fst h)) (all_hits sdk d segs patterns pats)"
  by (auto simp: all_hits_def pattern_hits_def list_all_iff dest!: set_zip_leftD)

lemma find_result_doc:
  assumes "unat (fr_offset req) = offset" and "offset + limit + 1 < 2 ^ 64" and "found_page offset limit hits s"
  shows "find_result req s = Inr (render (find_doc offset limit hits))"
proof -
  define page where "page = take limit (drop offset hits)"
  have rows: "fs_rows s = map render (map (\<lambda>h. hit_doc (fst h) (snd h)) page)" using assms(3) by (simp add: found_page_def page_def)
  have bound: "offset + length page < 2 ^ 64" using assms(2) by (simp add: page_def)
  then have sum: "unat (fr_offset req + of_nat (length page)) = offset + length page" and n: "unat (of_nat (length page) :: u64) = length page"
    using assms(1) by (simp_all add: unat_word_ariths unat_of_nat)
  have more: "fs_truncated s \<or> fr_offset req + of_nat (length page) < fs_total s \<longleftrightarrow> offset + limit < length hits"
    using assms(3) sum by (auto simp: found_page_def word_less_nat_alt page_def)
  have full: "length page = limit" if "offset + limit < length hits" using that by (simp add: page_def)
  have next_text: "(if fs_truncated s \<or> fr_offset req + of_nat (length page) < fs_total s
        then json_u64 (fr_offset req + of_nat (length page)) else Inr ''null'')
      = Inr (render (if offset + limit < length hits then JNat (offset + limit) else JNull))"
    unfolding more json_u64_text sum using full by auto
  have total: "unat (fs_total s) = min (length hits) (offset + limit + 1)" using assms(3) by (simp add: found_page_def)
  show ?thesis
    unfolding find_result_def find_doc_def Let_def rows length_map page_def [symmetric] next_text
    by (simp add: assms(1) n total render_docs)
qed

section \<open>Sorting\<close>

text \<open>What \<^verbatim>\<open>std::sort\<close> asks of a comparison, and what it promises.\<close>

definition strict_weak :: "('a \<Rightarrow> 'a \<Rightarrow> bool) \<Rightarrow> bool" where
  "strict_weak r \<longleftrightarrow> (\<forall>a. \<not> r a a) \<and> (\<forall>a b c. r a b \<longrightarrow> r b c \<longrightarrow> r a c) \<and> (\<forall>a b c. \<not> r a b \<longrightarrow> \<not> r b c \<longrightarrow> \<not> r a c)"

definition sorts :: "(('a \<Rightarrow> 'a \<Rightarrow> bool) \<Rightarrow> 'a list \<Rightarrow> 'a list) \<Rightarrow> bool" where
  "sorts srt \<longleftrightarrow>
     (\<forall>before xs. strict_weak before \<longrightarrow> mset (srt before xs) = mset xs \<and> sorted_wrt (\<lambda>a b. \<not> before b a) (srt before xs))"

text \<open>The comparison of the rows compares one key, upwards or downwards.\<close>

lemma strict_weak_key:
  assumes "\<And>a. \<not> lt a a" and "\<And>a b c. lt a b \<Longrightarrow> lt b c \<Longrightarrow> lt a c" and "\<And>a b. lt a b \<or> a = b \<or> lt b a"
  shows "strict_weak (\<lambda>a b. lt (key a) (key b))" and "strict_weak (\<lambda>a b. lt (key b) (key a))"
proof -
  have neg: "\<not> lt a c" if "\<not> lt a b" "\<not> lt b c" for a b c using that assms(2,3) by metis
  show "strict_weak (\<lambda>a b. lt (key a) (key b))" "strict_weak (\<lambda>a b. lt (key b) (key a))"
    unfolding strict_weak_def using assms(1,2) neg by blast+
qed

lemma row_before_strict_weak: "strict_weak (row_before sort_by descending)"
proof -
  note name = strict_weak_key [where lt = string_less and key = row_name, OF string_less_irrefl string_less_trans string_less_total]
  note sz = strict_weak_key [where lt = "(<)" and key = row_size, OF less_irrefl less_trans less_linear]
  note ea = strict_weak_key [where lt = "(<)" and key = row_ea, OF less_irrefl less_trans less_linear]
  show ?thesis
    using name sz ea by (cases "sort_by = ''name''"; cases "sort_by = ''size''"; cases descending) (simp_all add: row_before_def [abs_def])
qed

definition row_doc :: "func_row \<Rightarrow> json" where
  "row_doc r = JObject
     [(''address'', JNat (unat (row_ea r))), (''name'', JString (row_name r)), (''size'', JNat (unat (row_size r))),
      (''has_type'', JBool (row_has_type r))]"

definition function_row :: "'d ida_sdk \<Rightarrow> 'd \<Rightarrow> func_t \<Rightarrow> func_row" where
  "function_row sdk d f =
     (let r = \<lparr>row_ea = start_ea f, row_size = end_ea f - start_ea f, row_name = get_func_name sdk d (start_ea f),
               row_has_type = get_tinfo sdk d (start_ea f), row_json = []\<rparr>
      in r\<lparr>row_json := render (row_doc r)\<rparr>)"

lemma plain_has_type [simp]: "plain_text ''has_type''"
  by (simp add: plain_printable)

lemma func_row_of_row: "names_utf8 sdk d \<Longrightarrow> func_row_of sdk d f = Inr (function_row sdk d f)"
  by (simp add: func_row_of_def function_row_def row_doc_def Let_def names_utf8_def json_string_ok render_docs)

lemma row_json_doc: "row_json (function_row sdk d f) = render (row_doc (function_row sdk d f))"
  by (simp add: function_row_def row_doc_def Let_def)

lemma query_funcs_rows:
  assumes "sorts srt" and "names_utf8 sdk d" and "func_query_of regex args = Inr q" and "length (all_functions sdk d) < 2 ^ 64"
  shows "\<exists>rows. mset rows = mset (map (function_row sdk d) (filter (func_selected sdk d q) (all_functions sdk d)))
    \<and> sorted_wrt (\<lambda>a b. \<not> row_before (q_sort_by q) (q_descending q) b a) rows
    \<and> core_query_funcs regex srt sdk d args = Inr (render (paged_doc (map row_doc rows) (q_offset q) (q_count q)))"
proof -
  let ?sel = "filter (func_selected sdk d q) (all_functions sdk d)"
  let ?rows = "srt (row_before (q_sort_by q) (q_descending q)) (map (function_row sdk d) ?sel)"
  have rows: "mset ?rows = mset (map (function_row sdk d) ?sel)"
      "sorted_wrt (\<lambda>a b. \<not> row_before (q_sort_by q) (q_descending q) b a) ?rows"
    using assms(1) row_before_strict_weak unfolding sorts_def by blast+
  have "set ?rows = set (map (function_row sdk d) ?sel)" using rows(1) by (metis set_mset_mset)
  then have texts: "map row_json ?rows = map render (map row_doc ?rows)" using row_json_doc by auto
  have "length ?rows = length ?sel" using rows(1) by (metis length_map size_mset)
  then have "length (map row_doc ?rows) < 2 ^ 64" 
    using le_less_trans [OF length_filter_le assms(4)] by simp
  from paged_result_doc [OF this, of "q_offset q" "q_count q"]
  have "paged_result_json (map row_json ?rows) (q_offset q) (q_count q) = Inr (render (paged_doc (map row_doc ?rows) (q_offset q) (q_count q)))"
    unfolding texts .
  moreover have "map_throws (func_row_of sdk d) ?sel = Inr (map (function_row sdk d) ?sel)"
    using func_row_of_row [OF assms(2)] by (intro map_throws_total) simp
  ultimately show ?thesis using rows assms(3) by (intro exI [of _ ?rows]) (simp add: core_query_funcs_def)
qed

text \<open>Insertion sort keeps the promise.\<close>

fun insert_before :: "('a \<Rightarrow> 'a \<Rightarrow> bool) \<Rightarrow> 'a \<Rightarrow> 'a list \<Rightarrow> 'a list" where
  "insert_before before x [] = [x]"
| "insert_before before x (y # ys) = (if before x y then x # y # ys else y # insert_before before x ys)"

definition insertion_sort :: "('a \<Rightarrow> 'a \<Rightarrow> bool) \<Rightarrow> 'a list \<Rightarrow> 'a list" where
  "insertion_sort before xs = foldr (insert_before before) xs []"

lemma mset_insert_before: "mset (insert_before before x ys) = add_mset x (mset ys)"
  by (induction ys) auto

lemma set_insert_before: "set (insert_before before x ys) = insert x (set ys)"
  by (induction ys) auto

lemma sorted_insert_before:
  assumes "strict_weak before" and "sorted_wrt (\<lambda>a b. \<not> before b a) ys"
  shows "sorted_wrt (\<lambda>a b. \<not> before b a) (insert_before before x ys)"
  using assms(2)
proof (induction ys)
  case (Cons y ys)
  show ?case
  proof (cases "before x y")
    case True
    have "\<not> before z x" if "z \<in> insert y (set ys)" for z
      using that Cons.prems True assms(1) unfolding strict_weak_def sorted_wrt.simps by blast
    with True Cons.prems show ?thesis by simp
  next
    case False
    with Cons show ?thesis by (simp add: set_insert_before)
  qed
qed simp

lemma insertion_sort_sorts: "sorts insertion_sort"
  unfolding sorts_def
proof (intro allI impI)
  fix before :: "'a \<Rightarrow> 'a \<Rightarrow> bool" and xs
  assume "strict_weak before"
  then show "mset (insertion_sort before xs) = mset xs \<and> sorted_wrt (\<lambda>a b. \<not> before b a) (insertion_sort before xs)"
    by (induction xs) (simp_all add: insertion_sort_def mset_insert_before sorted_insert_before)
qed

section \<open>Properties\<close>

text \<open>
  C18 Paging loses nothing and ends: a client that follows \<^verbatim>\<open>next_offset\<close> from the first page until it is null gets every row
  exactly once, in order, after at most as many requests as there are rows, for every page size; and each page is the
  document with the slice it covers, the total and the offset of the next one.
\<close>

theorem paging_complete:
  assumes "length docs < 2 ^ 64"
  shows "all_pages (map render docs) n (length docs) 0 = map render docs
    \<and> paged_result_json (map render docs) offset n = Inr (render (paged_doc docs offset n))"
  using all_pages_drop [of "map render docs" 0 "length docs" n] paged_result_doc [OF assms, of offset n] assms by simp

theorem paging_complete_witness:
  "all_pages (map render [JNat 1, JNat 2, JNat 3]) 2 3 0 = map render [JNat 1, JNat 2, JNat 3]
   \<and> paged_result_json (map render [JNat 1, JNat 2, JNat 3]) 2 2 = Inr (render (paged_doc [JNat 1, JNat 2, JNat 3] 2 2))"
  using paging_complete [of "[JNat 1, JNat 2, JNat 3]" 2 2] by (simp add: numeral_3_eq_3)

text \<open>
  C29 Byte patterns round-trip: the spaced text of any non-empty pattern, wildcards included, is parsed back to the same
  pattern, and the hexadecimal text \<^verbatim>\<open>get_bytes\<close> prints is accepted by \<^verbatim>\<open>find_bytes\<close> as the pattern of exactly those bytes.
\<close>

theorem byte_pattern_roundtrip:
  assumes "ps \<noteq> []" and "list_all (\<lambda>p. snd p \<longrightarrow> fst p = 0) ps" and "bytes \<noteq> []"
  shows "parse_byte_pattern (text_of_pattern ps) = Inr ps
    \<and> parse_byte_pattern (bytes_hex bytes) = Inr (map (\<lambda>b. (b, False)) bytes)"
  using parse_pattern_text [OF assms(1,2)] parse_bytes_hex [OF assms(3)] by simp

theorem byte_pattern_roundtrip_witness:
  "parse_byte_pattern (text_of_pattern [(0x48, False), (0, True)]) = Inr [(0x48, False), (0, True)]
   \<and> parse_byte_pattern (bytes_hex [0x48, 0x8B]) = Inr [(0x48, False), (0x8B, False)]"
  using byte_pattern_roundtrip [of "[(0x48, False), (0, True)]" "[0x48, 0x8B]"] by simp

text \<open>
  C24 Byte search is exact: when every pattern is valid, the enumeration of segments ends and none of them ends at the highest
  address, \<^verbatim>\<open>find_bytes\<close> returns, and its document is the requested page of the matches: for each pattern in order, for
  each segment in order, the addresses where it matches, in increasing order; the next offset is given exactly when
  more matches exist, and the total is counted up to one past the page.
\<close>

theorem find_bytes_exact:
  assumes "json_list_arg args ''patterns'' = Inr patterns" and "json_u64_arg args ''offset'' 0 = Inr offset"
    and "json_u64_arg args ''limit'' 100 = Inr limit_arg" and "unat offset + unat (min limit_arg 10000) + 1 < 2 ^ 64"
    and "list_all utf8_text patterns" and "list_all2 (\<lambda>t pat. parse_byte_pattern t = Inr pat) patterns pats"
    and "seg_chain sdk d (get_first_seg sdk d) segs" and "below_top segs"
  shows "core_find_bytes sdk d args
    = Some (Inr (render (find_doc (unat offset) (unat (min limit_arg 10000)) (all_hits sdk d segs patterns pats))))"
proof -
  let ?req = "find_request_of offset limit_arg" and ?s = "\<lparr>fs_total = 0, fs_rows = [], fs_truncated = False\<rparr>"
  let ?hits = "all_hits sdk d segs patterns pats"
  obtain s where hits: "take_hits ?req ?hits ?s = Inr s"
      and s: "found_page (unat offset) (unat (min limit_arg 10000)) ?hits s"
    using take_hits_page [OF all_hits_utf8 [OF assms(5), of sdk d segs pats] assms(4)] by blast
  have "scan_patterns sdk d ?req patterns ?s = Some (Inr s)"
    using scan_patterns_hits [OF assms(6,7,8), of ?s ?req] hits by simp
  then show ?thesis
    using assms(1-3) find_result_doc [OF find_request_values(1) [OF assms(4)] assms(4) s] by (simp add: core_find_bytes_def Let_def)
qed

theorem find_bytes_exact_witness:
  "core_find_bytes sample_sdk [] (V_object [(''patterns'', V_array [V_string ''04''])])
     = Some (Inr (render (find_doc 0 100 (all_hits sample_sdk [] [sample_function] [''04''] [[(4, False)]]))))"
proof -
  have "parse_byte_pattern ''04'' = Inr [(4, False)]" by code_simp
  then show ?thesis
    using find_bytes_exact [of "V_object [(''patterns'', V_array [V_string ''04''])]" "[''04'']" 0 100 "[[(4, False)]]" sample_sdk "[]"
        "[sample_function]"]
    by (simp add: json_list_arg_def json_arg_def json_list_value_def json_scalar_text_def json_u64_arg_def utf8_ascii
        below_top_def sample_function_def)
qed

text \<open>
  A segment that ends at the highest address is scanned forever when nothing in it matches: the sum the loop compares
  with the end of the segment wraps around, so the bound never stops it.
\<close>

theorem find_bytes_top_segment:
  assumes "\<forall>ea. \<not> byte_pattern_matches sdk d ea pat"
  shows "scan_segment sdk d req pt pat (- 1) start s = None"
  using scan_segment_top [of sdk d req pt pat "- 1" start s] assms by (cases "scan_segment sdk d req pt pat (- 1) start s") auto

theorem find_bytes_top_segment_witness:
  "scan_segment (sample_sdk\<lparr>get_byte := \<lambda>_ _. None\<rparr>) [] (find_request_of 0 100) ''04'' [(4, False)] (- 1) 0x1000
     \<lparr>fs_total = 0, fs_rows = [], fs_truncated = False\<rparr> = None"
  by (rule find_bytes_top_segment) simp

text \<open>
  The order of the rows, on the keys themselves: the bytes of the names compared lexicographically, or the sizes or
  addresses as numbers, ascending, or ascending when read backwards.
\<close>

lemma string_less_bytes: "string_less a b \<longleftrightarrow> ord_class.lexordp (map of_char a :: nat list) (map of_char b)"
  by (induction a b rule: string_less.induct) auto

lemma not_string_less_bytes: "\<not> string_less b a \<longleftrightarrow> ord_class.lexordp_eq (map of_char a :: nat list) (map of_char b)"
  unfolding string_less_bytes lexordp_conv_lexordp_eq using lexordp_eq_linear by auto

definition rows_ordered :: "string \<Rightarrow> bool \<Rightarrow> func_row list \<Rightarrow> bool" where
  "rows_ordered sort_by descending rows =
     (let upwards = (if descending then rev rows else rows) in
      if sort_by = ''name'' then sorted_wrt ord_class.lexordp_eq (map (\<lambda>r. map of_char (row_name r) :: nat list) upwards)
      else if sort_by = ''size'' then sorted (map (\<lambda>r. unat (row_size r)) upwards)
      else sorted (map (\<lambda>r. unat (row_ea r)) upwards))"

lemma rows_orderedI:
  assumes "sorted_wrt (\<lambda>a b. \<not> row_before sort_by descending b a) rows"
  shows "rows_ordered sort_by descending rows"
proof -
  have "sorted_wrt (\<lambda>b a. \<not> row_before sort_by True b a) (rev rows)" if descending using assms that by (simp add: sorted_wrt_rev)
  then show ?thesis
    using assms
    by (cases descending; cases "sort_by = ''name''"; cases "sort_by = ''size''")
      (simp_all add: rows_ordered_def row_before_def sorted_wrt_map not_string_less_bytes not_less word_le_nat_alt Let_def)
qed

lemma func_selected_spec:
  "func_selected sdk d q f \<longleftrightarrow>
     (let name = get_func_name sdk d (start_ea f); sz = unat (end_ea f - start_ea f) in
      sublist (q_filter q) (to_lower_copy name) \<and> (\<forall>rx. q_regex q = Some rx \<longrightarrow> rx name)
      \<and> unat (q_min_size q) \<le> sz \<and> sz \<le> unat (q_max_size q)
      \<and> (\<forall>typed. q_has_type q = Some typed \<longrightarrow> get_tinfo sdk d (start_ea f) = typed))"
proof -
  have found: "q_filter q = [] \<or> str_find name (q_filter q) \<noteq> None \<longleftrightarrow> sublist (q_filter q) name" for name
    unfolding str_find_iff_sublist by auto
  show ?thesis unfolding func_selected_def Let_def found by (simp add: word_le_nat_alt split: option.split)
qed

text \<open>
  C25 Function queries: given what \<^verbatim>\<open>std::sort\<close> promises, the rows of \<^verbatim>\<open>query_funcs\<close> are exactly the functions whose
  lower-cased name contains the lower-cased filter, whose name the regular expression matches, whose size is within both
  bounds and whose having a type is as requested, each once; they are ordered by the bytes of the names, by size or by
  address, upwards or downwards as requested; and the result is the requested page of them. The comparison is a strict weak
  ordering for every key, as \<^verbatim>\<open>std::sort\<close> demands.
\<close>

theorem query_funcs_sorted:
  assumes "sorts srt" and "names_utf8 sdk d" and "func_query_of regex args = Inr q" and "length (all_functions sdk d) < 2 ^ 64"
  shows "strict_weak (row_before (q_sort_by q) (q_descending q))
    \<and> (\<exists>rows. mset rows = mset (map (function_row sdk d) (filter (\<lambda>f.
          (let name = get_func_name sdk d (start_ea f); sz = unat (end_ea f - start_ea f) in
           sublist (q_filter q) (to_lower_copy name) \<and> (\<forall>rx. q_regex q = Some rx \<longrightarrow> rx name)
           \<and> unat (q_min_size q) \<le> sz \<and> sz \<le> unat (q_max_size q)
           \<and> (\<forall>typed. q_has_type q = Some typed \<longrightarrow> get_tinfo sdk d (start_ea f) = typed))) (all_functions sdk d)))
    \<and> rows_ordered (q_sort_by q) (q_descending q) rows
    \<and> core_query_funcs regex srt sdk d args = Inr (render (paged_doc (map row_doc rows) (q_offset q) (q_count q))))"
  using query_funcs_rows [OF assms] row_before_strict_weak rows_orderedI unfolding func_selected_spec by blast

definition sample_query :: func_query where
  "sample_query = \<lparr>q_filter = ''mai'', q_regex = None, q_sort_by = ''size'', q_descending = True, q_offset = 0, q_count = 50,
     q_min_size = 16, q_max_size = 16, q_has_type = None\<rparr>"

theorem query_funcs_sorted_witness:
  "core_query_funcs (\<lambda>_. Inl Unknown_exception) insertion_sort sample_sdk []
     (V_object [(''descending'', V_boolean True), (''filter'', V_string ''MAI''), (''max_size'', V_unsigned 16),
        (''min_size'', V_unsigned 16), (''sort_by'', V_string ''size'')])
   = Inr (render (paged_doc [row_doc (function_row sample_sdk [] sample_function)] 0 50))"
proof -
  let ?args = "V_object [(''descending'', V_boolean True), (''filter'', V_string ''MAI''), (''max_size'', V_unsigned 16),
        (''min_size'', V_unsigned 16), (''sort_by'', V_string ''size'')]"
  have q: "func_query_of (\<lambda>_. Inl Unknown_exception) ?args = Inr sample_query"
    by (simp add: func_query_of_def sample_query_def json_string_arg_def json_arg_def json_bool_arg_def json_u64_arg_def
        json_has_arg_def json_u64_value_def json_scalar_text_def) code_simp
  have all: "all_functions sample_sdk [] = [sample_function]" by (simp add: all_functions_def map_filter_simps)
  have "sublist ''mai'' (to_lower_copy ''main'')" by code_simp
  with query_funcs_sorted [OF insertion_sort_sorts sample_names q, of "[]"]
  obtain rows where "mset rows = mset (map (function_row sample_sdk []) [sample_function])"
    "core_query_funcs (\<lambda>_. Inl Unknown_exception) insertion_sort sample_sdk [] ?args = Inr (render (paged_doc (map row_doc rows) 0 50))"
    by (auto simp: sample_query_def all sample_function_def)
  then show ?thesis by simp
qed

end
