(* ===== verification/Ida_Runtime.thy ===== *)
theory Ida_Runtime
  imports Ida_Sdk
begin

unbundle bit_operations_syntax

text \<open>
  The dynamic binding of \<^verbatim>\<open>ida.dll\<close> and \<^verbatim>\<open>idalib.dll\<close> (\<^verbatim>\<open>dbgatlas_ida_runtime.cpp\<close>): the paths, the loader with its list
  of required exports, the version check and the forwarders through which every SDK call goes. The Windows calls are the
  record \<open>windows\<close>. A function pointer is bound or null; \<open>bound\<close> are the exports bound in \<^verbatim>\<open>g_api\<close>.
\<close>

section \<open>The process\<close>

record windows =
  get_full_path :: "wide \<Rightarrow> wide option" \<comment> \<open>\<open>None\<close> when a call of \<^verbatim>\<open>GetFullPathNameW\<close> fails\<close>
  load_library :: "wide \<Rightarrow> bool"
  get_proc_address :: "string \<Rightarrow> string \<Rightarrow> bool" \<comment> \<open>whether the library exports the name\<close>
  get_last_error :: u32
  to_utf8 :: "wide \<Rightarrow> string option" \<comment> \<open>\<^verbatim>\<open>WideCharToMultiByte\<close>\<close>
  from_utf8 :: "string \<Rightarrow> wide option" \<comment> \<open>\<^verbatim>\<open>MultiByteToWideChar\<close> with \<^verbatim>\<open>MB_ERR_INVALID_CHARS\<close>\<close>
  file_attributes :: "wide \<Rightarrow> u32"
  file_header :: "wide \<Rightarrow> string option" \<comment> \<open>the bytes \<^verbatim>\<open>ReadFile\<close> gets of the first four\<close>

record ida_runtime =
  ida_module :: bool
  idalib_module :: bool
  bound :: "string list"
  loaded_install_dir :: wide

definition no_runtime :: ida_runtime where
  "no_runtime = \<lparr>ida_module = False, idalib_module = False, bound = [], loaded_install_dir = []\<rparr>"

section \<open>Paths\<close>

text \<open>ASCII text as UTF-16.\<close>

definition wide_of :: "string \<Rightarrow> wide" where
  "wide_of t = map (\<lambda>c. of_nat (of_char c)) t"

definition is_slash :: "u16 \<Rightarrow> bool" where
  "is_slash c \<longleftrightarrow> c = 0x5C \<or> c = 0x2F"

definition join_path :: "wide \<Rightarrow> string \<Rightarrow> wide" where
  "join_path base child = base @ (if base \<noteq> [] \<and> \<not> is_slash (last base) then [0x5C] else []) @ wide_of child"

definition normalize_install_dir :: "windows \<Rightarrow> wide \<Rightarrow> wide" where
  "normalize_install_dir win path =
     (case get_full_path win path of
        None \<Rightarrow> path
      | Some normalized \<Rightarrow> rev (dropWhile is_slash (rev normalized)))"

text \<open>\<^verbatim>\<open>_wcsicmp\<close> in the C locale: letters of ASCII are compared without case.\<close>

definition towlower :: "u16 \<Rightarrow> u16" where
  "towlower c = (if 65 \<le> c \<and> c \<le> 90 then c + 32 else c)"

definition wcsicmp_equal :: "wide \<Rightarrow> wide \<Rightarrow> bool" where
  "wcsicmp_equal a b \<longleftrightarrow> map towlower a = map towlower b"

definition wide_to_utf8 :: "windows \<Rightarrow> wide \<Rightarrow> string" where
  "wide_to_utf8 win t =
     (if t = [] then [] else case to_utf8 win t of None \<Rightarrow> ''<unprintable path>'' | Some s \<Rightarrow> s)"

section \<open>Binding\<close>

definition narrow_symbol_error :: "string \<Rightarrow> string \<Rightarrow> string" where
  "narrow_symbol_error dll name = dll @ '' is missing required export `'' @ name @ ''`''"

definition load_dll :: "windows \<Rightarrow> wide \<Rightarrow> string \<Rightarrow> unit throws" where
  "load_dll win path name =
     (if load_library win path then Inr ()
      else Inl (Runtime_error (''failed to load '' @ name @ '' at '' @ wide_to_utf8 win path
             @ '', GetLastError='' @ dec_text (unat (get_last_error win)))))"

definition bind_proc :: "windows \<Rightarrow> string \<times> string \<Rightarrow> string throws" where
  "bind_proc win export =
     (case export of (dll, name) \<Rightarrow>
        if get_proc_address win dll name then Inr name else Inl (Runtime_error (narrow_symbol_error dll name)))"

text \<open>The exports in the order they are bound.\<close>

definition required_exports :: "(string \<times> string) list" where
  "required_exports =
     map (Pair ''idalib.dll'') [''init_library'', ''open_database'', ''close_database'']
     @ map (Pair ''ida.dll'') [''auto_wait'', ''save_database'']
     @ [(''idalib.dll'', ''get_library_version'')]
     @ map (Pair ''ida.dll'')
         [''qalloc'', ''qrealloc'', ''qfree'', ''qalloc_or_throw'', ''qrealloc_or_throw'', ''qvector_reserve'', ''get_func'',
          ''getn_func'', ''get_func_qty'', ''get_func_name'', ''get_frame_size'', ''get_tinfo'', ''clear_tinfo_t'',
          ''get_name_ea'', ''get_ea_name'', ''get_nlist_size'', ''get_nlist_ea'', ''get_nlist_name'', ''set_name'',
          ''build_strlist'', ''get_strlist_qty'', ''get_strlist_item'', ''get_strlit_contents'', ''get_bytes'',
          ''prev_not_tail'', ''get_item_end'', ''get_flags_ex'', ''get_str_type'', ''generate_disasm_line'', ''get_cmt'',
          ''set_cmt'', ''tag_remove'', ''get_import_module_qty'', ''get_import_module_name'', ''enum_import_names'',
          ''get_first_seg'', ''get_next_seg'', ''get_first_cref_to'', ''get_next_cref_to'', ''get_first_dref_to'',
          ''get_next_dref_to'', ''get_first_cref_from'', ''get_next_cref_from'', ''get_first_dref_from'',
          ''get_next_dref_from'', ''get_idati'', ''apply_cdecl'', ''parse_decls'', ''find_extlang'', ''free_idcv'',
          ''get_hexdsp'']"

definition loaded :: "ida_runtime \<Rightarrow> bool" where
  "loaded rt \<longleftrightarrow> ida_module rt \<and> idalib_module rt"

definition dbgatlas_ida_runtime_load :: "windows \<Rightarrow> wide \<Rightarrow> ida_runtime \<Rightarrow> unit throws \<times> ida_runtime" where
  "dbgatlas_ida_runtime_load win install_dir rt =
     (let dir = normalize_install_dir win install_dir in
      if loaded rt
      then (if \<not> wcsicmp_equal (loaded_install_dir rt) dir
            then (Inl (Runtime_error (''IDA runtime is already loaded from '' @ wide_to_utf8 win (loaded_install_dir rt)
                     @ ''; requested '' @ wide_to_utf8 win dir)), rt)
            else (Inr (), rt))
      else
        case andthen (load_dll win (join_path dir ''ida.dll'') ''ida.dll'') (\<lambda>_.
             andthen (load_dll win (join_path dir ''idalib.dll'') ''idalib.dll'') (\<lambda>_.
             map_throws (bind_proc win) required_exports)) of
          Inl e \<Rightarrow> (Inl e, rt)
        | Inr names \<Rightarrow>
            (Inr (), \<lparr>ida_module = True, idalib_module = True, bound = names, loaded_install_dir = dir\<rparr>))"

section \<open>Calls through the table\<close>

definition ensure_loaded :: "ida_runtime \<Rightarrow> unit throws" where
  "ensure_loaded rt = (if \<not> loaded rt then Inl (Runtime_error ''IDA runtime has not been loaded'') else Inr ())"

text \<open>
  \<^verbatim>\<open>ensure_loaded(); return g_api.name(...);\<close> A call through a pointer that is not bound is not a value: \<open>None\<close>.
\<close>

definition forward :: "ida_runtime \<Rightarrow> string \<Rightarrow> 'a \<Rightarrow> 'a throws option" where
  "forward rt name result =
     (case ensure_loaded rt of
        Inl e \<Rightarrow> Some (Inl e)
      | Inr _ \<Rightarrow> if name \<in> set (bound rt) then Some (Inr result) else None)"

definition bad_alloc_if_null :: "'a option throws option \<Rightarrow> 'a throws option" where
  "bad_alloc_if_null r =
     map_option (\<lambda>t. andthen t (\<lambda>ptr. case ptr of None \<Rightarrow> Inl Bad_alloc | Some p \<Rightarrow> Inr p)) r"

text \<open>\<^verbatim>\<open>qfree\<close> calls only when there is something to free and the pointer is bound.\<close>

definition qfree_calls :: "ida_runtime \<Rightarrow> bool \<Rightarrow> bool" where
  "qfree_calls rt alloc_given \<longleftrightarrow> alloc_given \<and> ''qfree'' \<in> set (bound rt)"

text \<open>The names the forwarders call, in the order of the file.\<close>

definition allocation_forwarders :: "string list" where
  "allocation_forwarders = [''qalloc'', ''qrealloc'', ''qalloc_or_throw'', ''qrealloc_or_throw'', ''qvector_reserve'']"

definition database_forwarders :: "string list" where
  "database_forwarders =
     [''prev_not_tail'', ''get_flags_ex'', ''init_library'', ''open_database'', ''close_database'', ''auto_wait'', ''save_database'',
      ''get_func'', ''getn_func'', ''get_func_qty'', ''get_func_name'', ''get_frame_size'', ''get_tinfo'', ''clear_tinfo_t'',
      ''get_name_ea'', ''get_ea_name'', ''get_nlist_size'', ''get_nlist_ea'', ''get_nlist_name'', ''set_name'', ''build_strlist'',
      ''get_strlist_qty'', ''get_strlist_item'', ''get_strlit_contents'', ''get_bytes'', ''get_item_end'', ''get_str_type'']"

definition text_forwarders :: "string list" where
  "text_forwarders =
     [''generate_disasm_line'', ''get_cmt'', ''set_cmt'', ''tag_remove'', ''get_import_module_qty'', ''get_import_module_name'',
      ''enum_import_names'', ''get_first_seg'', ''get_next_seg'', ''get_first_cref_to'', ''get_next_cref_to'',
      ''get_first_dref_to'', ''get_next_dref_to'', ''get_first_cref_from'', ''get_next_cref_from'', ''get_first_dref_from'',
      ''get_next_dref_from'', ''get_idati'', ''apply_cdecl'', ''parse_decls'', ''find_extlang'', ''free_idcv'']"

text \<open>The version \<^verbatim>\<open>get_library_version\<close> reports, \<open>None\<close> when it fails.\<close>

definition validate_library_version :: "(int \<times> int \<times> int) option \<Rightarrow> unit throws" where
  "validate_library_version version =
     (case version of
        None \<Rightarrow> Inl (Runtime_error ''get_library_version failed'')
      | Some (major, minor, build) \<Rightarrow>
          if major \<noteq> 9 \<or> minor \<noteq> 3
          then Inl (Runtime_error (''IDA runtime version '' @ signed_text major @ ''.'' @ signed_text minor @ '' build ''
                 @ signed_text build @ '' does not match vendored IDA SDK headers 9.3''))
          else Inr ())"

definition dbgatlas_validate_ida_runtime_version :: "ida_runtime \<Rightarrow> (int \<times> int \<times> int) option \<Rightarrow> unit throws" where
  "dbgatlas_validate_ida_runtime_version rt version =
     andthen (ensure_loaded rt) (\<lambda>_. validate_library_version version)"

section \<open>The invariant of the loader\<close>

text \<open>A loaded runtime has every required export; the loader is the only code that writes the table.\<close>

definition runtime_ok :: "ida_runtime \<Rightarrow> bool" where
  "runtime_ok rt \<longleftrightarrow> (loaded rt \<longrightarrow> bound rt = map snd required_exports)"

lemma runtime_ok_init [inv_intros]: "runtime_ok no_runtime"
  by (simp add: runtime_ok_def no_runtime_def loaded_def)

lemma bind_all: "map_throws (bind_proc win) exports = Inr names \<Longrightarrow> names = map snd exports"
  by (induction exports arbitrary: names) (auto simp: andthen_Inr_iff bind_proc_def split: if_splits)

lemma runtime_load_ok [inv_intros]:
  "runtime_ok rt \<Longrightarrow> dbgatlas_ida_runtime_load win dir rt = (r, rt') \<Longrightarrow> runtime_ok rt'"
  by (auto simp: dbgatlas_ida_runtime_load_def runtime_ok_def Let_def andthen_Inr_iff andthen_Inl_iff dest!: bind_all split: if_splits sum.splits)

lemma runtime_load_Inr:
  assumes "dbgatlas_ida_runtime_load win dir rt = (Inr (), rt')"
  shows "loaded rt'"
  using assms by (auto simp: dbgatlas_ida_runtime_load_def loaded_def Let_def split: if_splits sum.splits)

lemma forwarders_required:
  "set (allocation_forwarders @ database_forwarders @ text_forwarders @ [''qfree'', ''get_hexdsp'', ''get_library_version''])
     = set (map snd required_exports)"
  unfolding allocation_forwarders_def database_forwarders_def text_forwarders_def required_exports_def
  by (simp add: insert_commute)

section \<open>The binding contract\<close>

text \<open>
  What the callers of the SDK rely on: whatever sequence of loads was attempted, successful or not, a call through the
  table is never a call through a pointer that is not bound.
\<close>

locale binding =
  fixes load :: "'w \<Rightarrow> 'rt \<Rightarrow> 'r \<times> 'rt" and ok :: "'rt \<Rightarrow> bool" and callable :: "'rt \<Rightarrow> string \<Rightarrow> bool" and names :: "string set"
  assumes load_ok: "ok rt \<Longrightarrow> load w rt = (r, rt') \<Longrightarrow> ok rt'"
    and ok_callable: "ok rt \<Longrightarrow> name \<in> names \<Longrightarrow> callable rt name"
begin

lemma loads_ok: "ok rt \<Longrightarrow> ok (fold (\<lambda>w rt. snd (load w rt)) ws rt)"
proof (induction ws arbitrary: rt)
  case (Cons w ws)
  then show ?case using load_ok [of rt w "fst (load w rt)" "snd (load w rt)"] by simp
qed simp

lemma loads_callable: "ok rt \<Longrightarrow> name \<in> names \<Longrightarrow> callable (fold (\<lambda>w rt. snd (load w rt)) ws rt) name"
  by (rule ok_callable [OF loads_ok])

end

definition load_from :: "windows \<times> wide \<Rightarrow> ida_runtime \<Rightarrow> unit throws \<times> ida_runtime" where
  "load_from request rt = dbgatlas_ida_runtime_load (fst request) (snd request) rt"

definition call_defined :: "ida_runtime \<Rightarrow> string \<Rightarrow> bool" where
  "call_defined rt name \<longleftrightarrow> forward rt name () \<noteq> None"

lemma call_defined_forward: "call_defined rt name \<longleftrightarrow> forward rt name result \<noteq> None"
  by (simp add: call_defined_def forward_def split: sum.split)

interpretation ida_binding: binding load_from runtime_ok call_defined "set (map snd required_exports)"
proof unfold_locales
  fix rt request r rt'
  assume "runtime_ok rt" "load_from request rt = (r, rt')"
  then show "runtime_ok rt'" unfolding load_from_def by (rule runtime_load_ok)
next
  fix rt name
  assume "runtime_ok rt" "name \<in> set (map snd required_exports)"
  then show "call_defined rt name"
    by (auto simp: call_defined_def forward_def runtime_ok_def ensure_loaded_def split: sum.split)
qed

lemma runtime_load_again:
  assumes "loaded rt"
  shows "snd (dbgatlas_ida_runtime_load win dir rt) = rt
    \<and> (fst (dbgatlas_ida_runtime_load win dir rt) = Inr () \<longleftrightarrow> wcsicmp_equal (loaded_install_dir rt) (normalize_install_dir win dir))"
  using assms by (simp add: dbgatlas_ida_runtime_load_def Let_def)

lemma runtime_load_failed: "dbgatlas_ida_runtime_load win dir rt = (Inl e, rt') \<Longrightarrow> rt' = rt"
  by (auto simp: dbgatlas_ida_runtime_load_def Let_def split: if_splits sum.splits)

section \<open>Properties\<close>

text \<open>
  C33 No SDK call goes through a null pointer: after any sequence of attempts to load the runtime, every forwarder either
  reports that the runtime is not loaded or calls an export that was bound; the exports the forwarders need are exactly
  the required ones. A loaded runtime is never replaced: loading again leaves it as it is, and succeeds exactly for the
  same directory up to case; a failed load changes nothing.
\<close>

theorem runtime_never_unbound:
  "let rt = fold (\<lambda>request rt. snd (load_from request rt)) requests no_runtime in
   list_all (\<lambda>name. forward rt name result \<noteq> None) (allocation_forwarders @ database_forwarders @ text_forwarders)
   \<and> set (allocation_forwarders @ database_forwarders @ text_forwarders @ [''qfree'', ''get_hexdsp'', ''get_library_version''])
       = set (map snd required_exports)
   \<and> (case dbgatlas_ida_runtime_load win dir rt of
        (r, rt') \<Rightarrow> if loaded rt
          then rt' = rt \<and> (r = Inr () \<longleftrightarrow> wcsicmp_equal (loaded_install_dir rt) (normalize_install_dir win dir))
          else if r = Inr () then loaded rt' else rt' = rt)"
proof -
  define rt where "rt = fold (\<lambda>request rt. snd (load_from request rt)) requests no_runtime"
  have "forward rt name result \<noteq> None" if "name \<in> set (map snd required_exports)" for name
    using ida_binding.loads_callable [OF runtime_ok_init that, of requests] unfolding rt_def call_defined_forward [of _ _ result] .
  then have "list_all (\<lambda>name. forward rt name result \<noteq> None) (allocation_forwarders @ database_forwarders @ text_forwarders)"
    unfolding list_all_iff forwarders_required [symmetric] by auto
  moreover obtain r rt' where load: "dbgatlas_ida_runtime_load win dir rt = (r, rt')" by fastforce
  moreover have "rt' = rt" if "r \<noteq> Inr ()" using that load runtime_load_failed by (cases r) auto
  ultimately show ?thesis
    unfolding Let_def rt_def [symmetric]
    using forwarders_required runtime_load_again [of rt win dir] runtime_load_Inr [of win dir rt rt'] by auto
qed

end
