(* ===== verification/Ida_Session.thy ===== *)
theory Ida_Session
  imports Ida_Search Ida_Runtime
begin

unbundle bit_operations_syntax

text \<open>
  The dispatch of core functions and the exported functions of the IDA adapter: \<^verbatim>\<open>da_ida_abi_version\<close>,
  \<^verbatim>\<open>da_ida_session_open\<close>, \<^verbatim>\<open>da_ida_lookup_function\<close>, \<^verbatim>\<open>da_ida_core_function\<close>, \<^verbatim>\<open>da_ida_session_close\<close>. The process keeps the
  global flag \<^verbatim>\<open>g_active_session\<close>, the runtime table, the database IDA has open and the session handles that are allocated.
  The mutex serialises opening and closing, so each exported call is one step.
\<close>

section \<open>Dispatch\<close>

text \<open>The code outside the repository a core function may call besides IDA.\<close>

record environment =
  env_strtod :: "string \<Rightarrow> string option"
  make_regex :: "string \<Rightarrow> (string \<Rightarrow> bool) throws"
  std_sort :: row_sort

type_synonym 'd core_result = "(string throws \<times> 'd ida_state) option"

definition pure_result :: "'d ida_state \<Rightarrow> string throws \<Rightarrow> 'd core_result" where
  "pure_result st r = Some (r, st)"

definition run_result :: "'d ida_state \<Rightarrow> string run \<Rightarrow> 'd core_result" where
  "run_result st r = map_option (\<lambda>t. (t, st)) r"

definition dispatch :: "environment \<Rightarrow> 'd ida_sdk \<Rightarrow> string \<Rightarrow> json_value \<Rightarrow> 'd ida_state \<Rightarrow> 'd core_result" where
  "dispatch env sdk function args st =
     (let d = database st in
      if function = ''lookup_funcs'' then pure_result st (core_lookup_funcs sdk d args)
      else if function = ''int_convert'' then pure_result st (core_int_convert args)
      else if function = ''list_funcs'' then pure_result st (core_list_funcs sdk d args)
      else if function = ''list_globals'' then pure_result st (core_list_globals sdk d args)
      else if function = ''list_imports'' then pure_result st (core_list_imports sdk d args)
      else if function = ''list_strings'' then Some (core_list_strings sdk args st)
      else if function = ''get_string'' then Some (core_get_string sdk args st)
      else if function = ''get_bytes'' then pure_result st (core_get_bytes sdk d args)
      else if function = ''get_int'' then pure_result st (core_get_int sdk d args)
      else if function = ''decompile'' then Some (core_decompile (env_strtod env) sdk args st)
      else if function = ''disasm'' then pure_result st (core_disasm sdk d args)
      else if function = ''xrefs_to'' then run_result st (core_xrefs_to sdk d args)
      else if function = ''xrefs_to_field'' then pure_result st (core_xrefs_to_field sdk d args)
      else if function = ''callees'' then run_result st (core_callees sdk d args)
      else if function = ''rename'' then Some (core_rename sdk args st)
      else if function = ''set_comments'' then Some (core_set_comments sdk args st)
      else if function = ''set_type'' then Some (core_set_type sdk args st)
      else if function = ''declare_type'' then Some (core_declare_type sdk args st)
      else if function = ''inspect_item'' then pure_result st (core_inspect_item sdk d args)
      else if function = ''force_recompile'' then Some (core_force_recompile sdk args st)
      else if function = ''idb_save'' then Some (core_idb_save sdk args st)
      else if function = ''py_eval'' then Some (core_py_eval sdk args st)
      else if function = ''find_bytes'' then run_result st (core_find_bytes sdk d args)
      else if function = ''search_text'' then Some (core_search_text sdk args st)
      else if function = ''query_xrefs'' then run_result st (core_query_xrefs sdk d args)
      else if function = ''query_funcs'' then pure_result st (core_query_funcs (make_regex env) (std_sort env) sdk d args)
      else if function = ''query_entities'' then Some (core_query_entities sdk args st)
      else pure_result st (Inl (Invalid_argument (''unsupported IDA Core Function `'' @ function @ ''`''))))"

definition execute_core_function ::
  "environment \<Rightarrow> 'd ida_sdk \<Rightarrow> string \<Rightarrow> string \<Rightarrow> 'd ida_state \<Rightarrow> 'd core_result" where
  "execute_core_function env sdk function args st =
     (case parse_json_args (env_strtod env) args of
        Inl e \<Rightarrow> Some (Inl e, st)
      | Inr parsed_args \<Rightarrow> dispatch env sdk function parsed_args st)"

section \<open>Sessions\<close>

text \<open>The lifecycle calls of \<^verbatim>\<open>idalib.dll\<close>.\<close>

record 'd idalib =
  init_library :: int
  library_version :: "(int \<times> int \<times> int) option"
  open_database :: "string \<Rightarrow> 'd \<Rightarrow> int \<times> 'd"
  auto_wait :: "'d \<Rightarrow> bool \<times> 'd"
  close_database :: "'d \<Rightarrow> 'd"

record ida_session =
  owner_thread :: nat
  database_open :: bool
  session_strings :: bool

text \<open>
  \<open>handles\<close> are the live allocations, by address. \<open>open_databases\<close> counts the databases opened and not yet closed, and
  \<open>text_views\<close> the text views handed out and not yet released.
\<close>

record 'd ida_process =
  active_session :: bool
  process_runtime :: ida_runtime
  process_hexdsp :: bool
  process_database :: 'd
  handles :: "nat \<rightharpoonup> ida_session"
  open_databases :: nat
  text_views :: nat

definition utf8_to_wide :: "windows \<Rightarrow> string option \<Rightarrow> string \<Rightarrow> wide throws" where
  "utf8_to_wide win value field =
     (if missing value then Inl (Invalid_argument (field @ '' must not be empty''))
      else case from_utf8 win (arg_text value) of
             None \<Rightarrow> Inl (Invalid_argument (field @ '' is not valid UTF-8''))
           | Some w \<Rightarrow> Inr w)"

definition utf8_string :: "windows \<Rightarrow> string option \<Rightarrow> string \<Rightarrow> string throws" where
  "utf8_string win value field =
     (if missing value then Inl (Invalid_argument (field @ '' must not be empty''))
      else andthen (utf8_to_wide win value field) (\<lambda>_. Inr (arg_text value)))"

definition is_existing_directory :: "windows \<Rightarrow> wide \<Rightarrow> bool" where
  "is_existing_directory win path \<longleftrightarrow> file_attributes win path \<noteq> - 1 \<and> file_attributes win path AND 0x10 \<noteq> 0"

definition is_existing_file :: "windows \<Rightarrow> wide \<Rightarrow> bool" where
  "is_existing_file win path \<longleftrightarrow> file_attributes win path \<noteq> - 1 \<and> file_attributes win path AND 0x10 = 0"

definition is_legacy_ida32_database :: "windows \<Rightarrow> wide \<Rightarrow> bool" where
  "is_legacy_ida32_database win path \<longleftrightarrow> file_header win path = Some ''IDA1''"

definition validate_ida_install_dir :: "windows \<Rightarrow> wide \<Rightarrow> unit throws" where
  "validate_ida_install_dir win install_dir =
     (if \<not> is_existing_directory win install_dir
      then Inl (Invalid_argument ''tools.ida.install_dir does not exist or is not a directory'')
      else if \<not> is_existing_file win (join_path install_dir ''ida.dll'')
      then Inl (Invalid_argument ''tools.ida.install_dir is missing ida.dll'')
      else if \<not> is_existing_file win (join_path install_dir ''idalib.dll'')
      then Inl (Invalid_argument ''tools.ida.install_dir is missing idalib.dll'')
      else Inr ())"

definition open_database_failure_message :: "int \<Rightarrow> string" where
  "open_database_failure_message open_result =
     ''open_database failed with result '' @ signed_text open_result @ ''; ida_error_kind=open_database_failed''
     @ (if open_result = 4
        then ''; possible_reason=database_locked_or_unavailable''
          @ ''; suggestion=close other IDA/IDALib sessions using this database, wait for file locks to release, or copy the IDB manually for review''
        else ''; possible_reason=ida_rejected_database''
          @ ''; suggestion=verify the database path, IDA version compatibility, file permissions, and whether another process has the database open'')"

text \<open>The exception handlers of opening.\<close>

definition open_failure :: "cpp_exception \<Rightarrow> call_result" where
  "open_failure e =
     (case e of
        Invalid_argument m \<Rightarrow> ida_fail DA_IDA_ERR_INVALID_ARGUMENT m
      | _ \<Rightarrow> ida_fail DA_IDA_ERR_DYNAMIC_LOAD (what e))"

text \<open>The checks before anything is loaded: the install directory and the database path.\<close>

definition open_arguments :: "windows \<Rightarrow> string option \<Rightarrow> string option \<Rightarrow> (wide \<times> string) throws" where
  "open_arguments win install_dir_utf8 database_path_utf8 =
     andthen (utf8_to_wide win install_dir_utf8 ''install_dir'') (\<lambda>install_dir.
     andthen (utf8_to_wide win database_path_utf8 ''database_path'') (\<lambda>database_path.
     andthen (utf8_string win database_path_utf8 ''database_path'') (\<lambda>path.
     if \<not> is_existing_file win database_path
     then Inl (Invalid_argument ''database_path does not exist or is not a file'')
     else if is_legacy_ida32_database win database_path
     then Inl (Invalid_argument ''database_path is a legacy 32-bit IDA database (IDA1); convert it to .i64 with IDA before opening it through DbgAtlas, or pass the original input file'')
     else andthen (validate_ida_install_dir win install_dir) (\<lambda>_. Inr (install_dir, path)))))"

text \<open>Opening once the runtime is loaded; \<open>address\<close> is where the handle was allocated.\<close>

definition open_loaded ::
  "'d idalib \<Rightarrow> nat \<Rightarrow> nat \<Rightarrow> string \<Rightarrow> last_error \<Rightarrow> 'd ida_process \<Rightarrow> call_result \<times> nat option \<times> 'd ida_process" where
  "open_loaded lib thread address path err p =
     (if init_library lib \<noteq> 0
      then (ida_fail DA_IDA_ERR_IDA (''init_library failed with result '' @ signed_text (init_library lib)), None, p)
      else case dbgatlas_validate_ida_runtime_version (process_runtime p) (library_version lib) of
             Inl e \<Rightarrow> (open_failure e, None, p)
           | Inr _ \<Rightarrow>
               (case open_database lib (c_string path) (process_database p) of
                  (open_result, d) \<Rightarrow>
                    let p1 = p\<lparr>process_database := d\<rparr> in
                    if open_result \<noteq> 0 then (ida_fail DA_IDA_ERR_IDA (open_database_failure_message open_result), None, p1)
                    else
                      case auto_wait lib d of
                        (False, d') \<Rightarrow>
                          (ida_fail DA_IDA_ERR_IDA ''auto_wait failed'', None, p1\<lparr>process_database := close_database lib d'\<rparr>)
                      | (True, d') \<Rightarrow>
                          ((ida_code DA_IDA_OK, err), Some address,
                           p1\<lparr>process_database := d', active_session := True, open_databases := Suc (open_databases p1),
                              handles := (handles p1)(address \<mapsto>
                                \<lparr>owner_thread = thread, database_open = True, session_strings = False\<rparr>)\<rparr>)))"

text \<open>
  The call from \<open>thread\<close>, whose last error is \<open>err\<close>: its status and last error, the handle stored through
  \<^verbatim>\<open>out_handle\<close>, the process afterwards.
\<close>

definition da_ida_session_open ::
  "windows \<Rightarrow> 'd idalib \<Rightarrow> nat \<Rightarrow> nat \<Rightarrow> string option \<Rightarrow> string option \<Rightarrow> bool \<Rightarrow> last_error \<Rightarrow> 'd ida_process
     \<Rightarrow> call_result \<times> nat option \<times> 'd ida_process" where
  "da_ida_session_open win lib thread address install_dir_utf8 database_path_utf8 out_given err p =
     (if \<not> out_given then (ida_fail DA_IDA_ERR_INVALID_ARGUMENT ''session output handle is null'', None, p)
      else if active_session p then (ida_fail DA_IDA_ERR_IDA ''only one IDA session is supported in this MVP'', None, p)
      else case open_arguments win install_dir_utf8 database_path_utf8 of
             Inl e \<Rightarrow> (open_failure e, None, p)
           | Inr (install_dir, path) \<Rightarrow>
               (case dbgatlas_ida_runtime_load win install_dir (process_runtime p) of
                  (Inl e, rt) \<Rightarrow> (open_failure e, None, p\<lparr>process_runtime := rt\<rparr>)
                | (Inr _, rt) \<Rightarrow> open_loaded lib thread address path err (p\<lparr>process_runtime := rt\<rparr>)))"

definition ensure_owner_thread :: "nat \<Rightarrow> ida_session \<Rightarrow> unit throws" where
  "ensure_owner_thread thread h =
     (if owner_thread h \<noteq> thread then Inl (Runtime_error ''IDA session used from a different thread'') else Inr ())"

text \<open>Closing always frees the handle and clears the flag, even when it throws.\<close>

definition close_session :: "'d idalib \<Rightarrow> nat \<Rightarrow> nat \<Rightarrow> ida_session \<Rightarrow> last_error \<Rightarrow> 'd ida_process \<Rightarrow> call_result \<times> 'd ida_process" where
  "close_session lib thread address h err p =
     (let freed = p\<lparr>handles := (handles p)(address := None), active_session := False\<rparr> in
      case andthen (ensure_owner_thread thread h) (\<lambda>_.
           if database_open h then ensure_loaded (process_runtime p) else Inr ()) of
        Inl e \<Rightarrow> (ida_fail DA_IDA_ERR_INTERNAL (what e), freed)
      | Inr _ \<Rightarrow>
          ((ida_code DA_IDA_OK, err),
           if database_open h
           then freed\<lparr>process_database := close_database lib (process_database p), open_databases := open_databases p - 1\<rparr>
           else freed))"

text \<open>A handle that is not null and not live is a use after free: \<open>None\<close>.\<close>

definition da_ida_session_close ::
  "'d idalib \<Rightarrow> nat \<Rightarrow> nat option \<Rightarrow> last_error \<Rightarrow> 'd ida_process \<Rightarrow> (call_result \<times> 'd ida_process) option" where
  "da_ida_session_close lib thread handle err p =
     (case handle of
        None \<Rightarrow> Some ((ida_code DA_IDA_OK, err), p)
      | Some address \<Rightarrow>
          map_option (\<lambda>h. close_session lib thread address h err p) (handles p address))"

section \<open>The other exported functions\<close>

record ida_version =
  v_struct_size :: u32
  v_flags :: u32
  v_abi_major :: u32
  v_abi_minor :: u32
  v_abi_patch :: u32
  v_ida_major :: u32
  v_ida_minor :: u32
  v_ida_build :: u32

definition da_ida_abi_version :: "ida_version option \<Rightarrow> last_error \<Rightarrow> call_result \<times> ida_version option" where
  "da_ida_abi_version out err =
     (case out of
        None \<Rightarrow> (ida_fail DA_IDA_ERR_INVALID_ARGUMENT ''version output buffer is invalid'', None)
      | Some v \<Rightarrow>
          if v_struct_size v < 32
          then (ida_fail DA_IDA_ERR_INVALID_ARGUMENT ''version output buffer is invalid'', Some v)
          else ((ida_code DA_IDA_OK, err),
                Some (v\<lparr>v_flags := 0, v_abi_major := 0, v_abi_minor := 1, v_abi_patch := 0,
                        v_ida_major := 0, v_ida_minor := 0, v_ida_build := 0\<rparr>)))"

record function_lookup =
  lk_struct_size :: u32
  lk_flags :: u32
  lk_runtime_address :: u64
  lk_runtime_module_base :: u64
  lk_rva :: u64
  lk_ida_image_base :: u64
  lk_ida_ea :: u64
  lk_function_start :: u64
  lk_function_end :: u64
  lk_found :: int
  lk_function_name :: "string option" \<comment> \<open>the text of the view, \<open>None\<close> before one is stored\<close>

definition da_ida_release_view :: "'d ida_process \<Rightarrow> 'd ida_process" where
  "da_ida_release_view p = p\<lparr>text_views := text_views p - 1\<rparr>"

definition make_text_view :: "string \<Rightarrow> 'd ida_process \<Rightarrow> string option \<times> 'd ida_process" where
  "make_text_view t p = (Some t, p\<lparr>text_views := Suc (text_views p)\<rparr>)"

text \<open>\<^verbatim>\<open>function_name.assign(name.c_str(), name_len)\<close>: \<^verbatim>\<open>get_func_name\<close> returns the length of the name it stores.\<close>

definition lookup_found :: "'d ida_sdk \<Rightarrow> func_t \<Rightarrow> u64 \<Rightarrow> function_lookup \<Rightarrow> 'd ida_process \<Rightarrow> function_lookup \<times> 'd ida_process" where
  "lookup_found sdk function ida_ea out p =
     (let name = get_func_name sdk (process_database p) ida_ea in
      case make_text_view name (da_ida_release_view p) of
        (view, p1) \<Rightarrow>
          (out\<lparr>lk_function_start := start_ea function, lk_function_end := end_ea function, lk_found := 1,
               lk_function_name := view\<rparr>, p1))"

definition lookup_body ::
  "'d ida_sdk \<Rightarrow> u64 \<Rightarrow> u64 \<Rightarrow> u64 \<Rightarrow> last_error \<Rightarrow> function_lookup \<Rightarrow> 'd ida_process
     \<Rightarrow> call_result \<times> function_lookup \<times> 'd ida_process" where
  "lookup_body sdk runtime_address runtime_module_base ida_image_base err out p =
     (if runtime_address < runtime_module_base
      then (ida_fail DA_IDA_ERR_INVALID_ARGUMENT ''runtime_address is below runtime_module_base'', out, p)
      else
        let rva = runtime_address - runtime_module_base in
        if - 1 - rva < ida_image_base then (ida_fail DA_IDA_ERR_INVALID_ARGUMENT ''ida_ea overflow'', out, p)
        else
          let ida_ea = ida_image_base + rva in
          case make_text_view [] p of
            (view, p1) \<Rightarrow>
              let out1 = out\<lparr>lk_flags := 0, lk_runtime_address := runtime_address,
                  lk_runtime_module_base := runtime_module_base, lk_rva := rva, lk_ida_image_base := ida_image_base,
                  lk_ida_ea := ida_ea, lk_function_start := 0, lk_function_end := 0, lk_found := 0, lk_function_name := view\<rparr> in
              case ensure_loaded (process_runtime p1) of
                Inl e \<Rightarrow> (ida_fail DA_IDA_ERR_INTERNAL (what e), out1, p1)
              | Inr _ \<Rightarrow>
                  (case get_func sdk (process_database p1) ida_ea of
                     None \<Rightarrow> ((ida_code DA_IDA_OK, err), out1, p1)
                   | Some function \<Rightarrow>
                       (case lookup_found sdk function ida_ea out1 p1 of
                          (out2, p2) \<Rightarrow> ((ida_code DA_IDA_OK, err), out2, p2))))"

definition da_ida_lookup_function ::
  "'d ida_sdk \<Rightarrow> nat \<Rightarrow> nat option \<Rightarrow> u64 \<Rightarrow> u64 \<Rightarrow> u64 \<Rightarrow> function_lookup option \<Rightarrow> last_error \<Rightarrow> 'd ida_process
     \<Rightarrow> (call_result \<times> function_lookup option \<times> 'd ida_process) option" where
  "da_ida_lookup_function sdk thread handle runtime_address runtime_module_base ida_image_base out err p =
     (case (handle, out) of
        (Some address, Some o') \<Rightarrow>
          if lk_struct_size o' < 104 then Some (ida_fail DA_IDA_ERR_INVALID_ARGUMENT ''lookup arguments are invalid'', out, p)
          else map_option (\<lambda>h.
            case ensure_owner_thread thread h of
              Inl e \<Rightarrow> (ida_fail DA_IDA_ERR_INTERNAL (what e), out, p)
            | Inr _ \<Rightarrow>
                (case lookup_body sdk runtime_address runtime_module_base ida_image_base err o' p of
                   (r, o'', p') \<Rightarrow> (r, Some o'', p'))) (handles p address)
      | _ \<Rightarrow> Some (ida_fail DA_IDA_ERR_INVALID_ARGUMENT ''lookup arguments are invalid'', out, p))"

text \<open>The session's view of the process, and the process after a core function ran on it.\<close>

definition session_state :: "ida_session \<Rightarrow> 'd ida_process \<Rightarrow> 'd ida_state" where
  "session_state h p = \<lparr>database = process_database p, strings_built = session_strings h, hexdsp = process_hexdsp p\<rparr>"

definition store_state :: "nat \<Rightarrow> ida_session \<Rightarrow> 'd ida_state \<Rightarrow> 'd ida_process \<Rightarrow> 'd ida_process" where
  "store_state address h st p =
     p\<lparr>process_database := database st, process_hexdsp := hexdsp st,
       handles := (handles p)(address \<mapsto> h\<lparr>session_strings := strings_built st\<rparr>)\<rparr>"

definition core_failure :: "cpp_exception \<Rightarrow> call_result" where
  "core_failure e =
     (case e of
        Invalid_argument m \<Rightarrow> ida_fail DA_IDA_ERR_INVALID_ARGUMENT m
      | _ \<Rightarrow> ida_fail DA_IDA_ERR_INTERNAL (what e))"

text \<open>The size the caller declares for its result structure, \<open>None\<close> for a null pointer; the result is the JSON text stored.\<close>

definition da_ida_core_function ::
  "environment \<Rightarrow> windows \<Rightarrow> 'd ida_sdk \<Rightarrow> nat \<Rightarrow> nat option \<Rightarrow> string option \<Rightarrow> string option \<Rightarrow> u32 option \<Rightarrow> last_error
     \<Rightarrow> 'd ida_process \<Rightarrow> (call_result \<times> string option \<times> 'd ida_process) option" where
  "da_ida_core_function env win sdk thread handle function_utf8 arguments_json_utf8 out_size err p =
     (if handle = None \<or> function_utf8 = None \<or> arguments_json_utf8 = None \<or> out_size = None \<or> the out_size < 40
      then Some (ida_fail DA_IDA_ERR_INVALID_ARGUMENT ''core function arguments are invalid'', None, p)
      else case handles p (the handle) of
             None \<Rightarrow> None
           | Some h \<Rightarrow>
               (case andthen (ensure_owner_thread thread h) (\<lambda>_.
                     andthen (utf8_string win function_utf8 ''function'') (\<lambda>function.
                     andthen (utf8_string win arguments_json_utf8 ''arguments_json'') (\<lambda>arguments_json.
                     Inr (function, arguments_json)))) of
                  Inl e \<Rightarrow> Some (core_failure e, None, p)
                | Inr (function, arguments_json) \<Rightarrow>
                    (case execute_core_function env sdk function arguments_json (session_state h p) of
                       None \<Rightarrow> None
                     | Some (Inl e, st) \<Rightarrow> Some (core_failure e, None, store_state (the handle) h st p)
                     | Some (Inr result_json, st) \<Rightarrow>
                         (case make_text_view result_json (store_state (the handle) h st p) of
                            (view, p1) \<Rightarrow> Some ((ida_code DA_IDA_OK, err), view, p1)))))"

section \<open>The session protocol\<close>

text \<open>One exported call, by any thread; a handle is allocated at an address that is free.\<close>

inductive ida_step :: "'d ida_process \<Rightarrow> 'd ida_process \<Rightarrow> bool" where
  ida_open: "handles p address = None \<Longrightarrow>
     da_ida_session_open win lib thread address install_dir path out_given err p = (r, h, p') \<Longrightarrow> ida_step p p'"
| ida_close: "da_ida_session_close lib thread handle err p = Some (r, p') \<Longrightarrow> ida_step p p'"
| ida_lookup: "da_ida_lookup_function sdk thread handle a m b out err p = Some (r, out', p') \<Longrightarrow> ida_step p p'"
| ida_core: "da_ida_core_function env win sdk thread handle function_utf8 args_utf8 out_size err p = Some (r, t, p') \<Longrightarrow> ida_step p p'"
| ida_release: "ida_step p (da_ida_release_view p)"

definition ida_start :: "'d \<Rightarrow> 'd ida_process" where
  "ida_start d = \<lparr>active_session = False, process_runtime = no_runtime, process_hexdsp = False, process_database = d,
     handles = Map.empty, open_databases = 0, text_views = 0\<rparr>"

text \<open>
  At most one handle is live, and one is live exactly when the flag is set; a live session has its database open and the
  runtime loaded, and the databases not yet closed are at least the live sessions.
\<close>

definition session_inv :: "'d ida_process \<Rightarrow> bool" where
  "session_inv p \<longleftrightarrow> runtime_ok (process_runtime p)
     \<and> (active_session p \<longleftrightarrow> handles p \<noteq> Map.empty)
     \<and> (\<forall>a b. a \<in> dom (handles p) \<longrightarrow> b \<in> dom (handles p) \<longrightarrow> a = b)
     \<and> (\<forall>h \<in> ran (handles p). database_open h \<and> loaded (process_runtime p) \<and> 0 < open_databases p)"

lemma session_inv_start [inv_intros]: "session_inv (ida_start d)"
  by (simp add: session_inv_def ida_start_def runtime_ok_init)

lemma session_inv_cong:
  assumes "session_inv p" and "process_runtime p' = process_runtime p" and "active_session p' = active_session p"
    and "handles p' = handles p" and "open_databases p' = open_databases p"
  shows "session_inv p'"
  using assms by (simp add: session_inv_def)

lemma open_loaded_cases:
  assumes "open_loaded lib thread address path err p = (r, h, p')"
  shows "handles p' = handles p \<and> active_session p' = active_session p \<and> open_databases p' = open_databases p
       \<and> process_runtime p' = process_runtime p \<and> h = None
     \<or> h = Some address \<and> active_session p' \<and> process_runtime p' = process_runtime p \<and> open_databases p' = Suc (open_databases p)
       \<and> handles p' = (handles p)(address \<mapsto> \<lparr>owner_thread = thread, database_open = True, session_strings = False\<rparr>)
       \<and> r = (0, err)"
  using assms unfolding open_loaded_def Let_def by (auto split: if_splits sum.splits prod.splits bool.splits)

lemma session_inv_open [inv_intros]:
  assumes inv: "session_inv p"
    and "da_ida_session_open win lib thread address install_dir path out_given err p = (r, h, p')"
  shows "session_inv p'"
proof (cases "out_given \<and> \<not> active_session p")
  case False
  then show ?thesis using assms by (auto simp: da_ida_session_open_def split: if_splits)
next
  case True
  then have idle: "handles p = Map.empty" "\<not> active_session p" using inv by (auto simp: session_inv_def)
  show ?thesis
  proof (cases "open_arguments win install_dir path")
    case (Inl e)
    then show ?thesis using assms True by (simp add: da_ida_session_open_def)
  next
    case (Inr args)
    obtain dir db where args: "args = (dir, db)" by (cases args)
    obtain lr rt where load: "dbgatlas_ida_runtime_load win dir (process_runtime p) = (lr, rt)" by fastforce
    have rt: "runtime_ok rt" using runtime_load_ok [OF _ load] inv by (simp add: session_inv_def)
    show ?thesis
    proof (cases lr)
      case (Inl e)
      then have "p' = p\<lparr>process_runtime := rt\<rparr>" using assms(2) True Inr args load by (simp add: da_ida_session_open_def)
      then show ?thesis using rt idle by (simp add: session_inv_def)
    next
      case lr: (Inr u)
      then have "open_loaded lib thread address db err (p\<lparr>process_runtime := rt\<rparr>) = (r, h, p')"
        using assms(2) True Inr args load by (simp add: da_ida_session_open_def)
      moreover have "loaded rt" using runtime_load_Inr load lr by (metis unit.exhaust)
      ultimately show ?thesis using open_loaded_cases rt idle by (fastforce simp: session_inv_def)
    qed
  qed
qed

lemma close_session_frees:
  assumes "close_session lib thread address h err p = (r, p')"
  shows "handles p' = (handles p)(address := None) \<and> \<not> active_session p' \<and> process_runtime p' = process_runtime p"
  using assms unfolding close_session_def Let_def by (auto split: if_splits sum.splits)

lemma session_inv_close [inv_intros]:
  assumes inv: "session_inv p" and close: "da_ida_session_close lib thread handle err p = Some (r, p')"
  shows "session_inv p'"
proof (cases handle)
  case None
  then show ?thesis using assms by (simp add: da_ida_session_close_def)
next
  case (Some address)
  then obtain h where h: "handles p address = Some h" "close_session lib thread address h err p = (r, p')"
    using close by (auto simp: da_ida_session_close_def)
  have "(handles p)(address := None) = Map.empty"
    using inv h(1) by (force simp: session_inv_def)
  then show ?thesis using close_session_frees [OF h(2)] inv by (simp add: session_inv_def)
qed

lemma lookup_body_frame:
  assumes "lookup_body sdk a m b err out p = (r, out', p')"
  shows "handles p' = handles p \<and> active_session p' = active_session p \<and> open_databases p' = open_databases p
    \<and> process_runtime p' = process_runtime p"
  using assms unfolding lookup_body_def lookup_found_def make_text_view_def da_ida_release_view_def Let_def
  by (auto split: if_splits sum.splits option.splits prod.splits)

lemma session_inv_lookup [inv_intros]:
  assumes "session_inv p" and "da_ida_lookup_function sdk thread handle a m b out err p = Some (r, out', p')"
  shows "session_inv p'"
proof -
  have "p' = p \<or> (\<exists>o1 r1 o2. lookup_body sdk a m b err o1 p = (r1, o2, p'))"
    using assms(2) unfolding da_ida_lookup_function_def ensure_owner_thread_def
    by (auto split: if_splits option.splits sum.splits prod.splits)
  then show ?thesis using assms(1) lookup_body_frame by (metis session_inv_cong)
qed

lemma session_inv_store:
  assumes "session_inv p" and "handles p address = Some h"
  shows "session_inv (store_state address h st p)"
proof -
  have dom: "dom (handles (store_state address h st p)) = dom (handles p)"
    using assms(2) by (auto simp: store_state_def)
  have "h \<in> ran (handles p)" using assms(2) by (rule ranI)
  then have "database_open k" if "k \<in> ran (handles (store_state address h st p))" for k
    using that assms(1) by (auto simp: session_inv_def store_state_def ran_def split: if_splits)
  then show ?thesis
    using assms dom \<open>h \<in> ran (handles p)\<close> unfolding session_inv_def
    by (auto simp: store_state_def)
qed

lemma session_inv_core [inv_intros]:
  assumes inv: "session_inv p"
    and "da_ida_core_function env win sdk thread handle function_utf8 args_utf8 out_size err p = Some (r, t, p')"
  shows "session_inv p'"
proof -
  have "p' = p \<or> (\<exists>address h st. handles p address = Some h \<and>
      (p' = store_state address h st p \<or> p' = (store_state address h st p)\<lparr>text_views := Suc (text_views (store_state address h st p))\<rparr>))"
    using assms(2) unfolding da_ida_core_function_def make_text_view_def
    by (auto split: if_splits option.splits sum.splits prod.splits)
  then show ?thesis
  proof (elim disjE exE conjE)
    fix address h st
    assume "handles p address = Some h"
      and p': "p' = (store_state address h st p)\<lparr>text_views := Suc (text_views (store_state address h st p))\<rparr>"
    from session_inv_cong [OF session_inv_store [OF inv this(1)], of p'] p' show ?thesis by simp
  qed (simp_all add: inv session_inv_store)
qed

lemma session_inv_step [inv_intros]: "ida_step p p' \<Longrightarrow> session_inv p \<Longrightarrow> session_inv p'"
proof (induction rule: ida_step.induct)
  case (ida_release p)
  then show ?case by (simp add: session_inv_def da_ida_release_view_def)
qed (auto intro: session_inv_open session_inv_close session_inv_lookup session_inv_core)

lemma session_inv_reachable: "ida_step\<^sup>*\<^sup>* (ida_start d) p \<Longrightarrow> session_inv p"
  by (induction rule: rtranclp_induct) (auto intro: session_inv_start session_inv_step)

section \<open>Lookups\<close>

lemma lookup_overflow: "- 1 - rva < b \<longleftrightarrow> 2 ^ 64 \<le> unat b + unat rva" for b rva :: u64
proof -
  have "unat (- 1 - rva) = 2 ^ 64 - 1 - unat rva"
    using unat_bound [of rva] unat_sub [of rva "- 1"] by (simp add: unsigned_minus_1_eq_mask mask_eq_exp_minus_1)
  then show ?thesis using unat_bound [of rva] by (simp add: word_less_nat_alt) linarith
qed

definition lookup_reply :: "'d ida_sdk \<Rightarrow> 'd \<Rightarrow> u64 \<Rightarrow> u64 \<Rightarrow> u64 \<Rightarrow> function_lookup \<Rightarrow> function_lookup" where
  "lookup_reply sdk d a m b out =
     (let ea = of_nat (unat b + (unat a - unat m)); found = get_func sdk d ea in
      out\<lparr>lk_flags := 0, lk_runtime_address := a, lk_runtime_module_base := m, lk_rva := a - m, lk_ida_image_base := b, lk_ida_ea := ea,
          lk_function_start := (case found of None \<Rightarrow> 0 | Some f \<Rightarrow> start_ea f),
          lk_function_end := (case found of None \<Rightarrow> 0 | Some f \<Rightarrow> end_ea f),
          lk_found := (case found of None \<Rightarrow> 0 | Some f \<Rightarrow> 1),
          lk_function_name := Some (case found of None \<Rightarrow> [] | Some f \<Rightarrow> get_func_name sdk d ea)\<rparr>)"

lemma lookup_body_exact:
  assumes "loaded (process_runtime p)"
  shows "lookup_body sdk a m b err out p =
    (if a < m then ((1, ''runtime_address is below runtime_module_base''), out, p)
     else if 2 ^ 64 \<le> unat b + (unat a - unat m) then ((1, ''ida_ea overflow''), out, p)
     else ((0, err), lookup_reply sdk (process_database p) a m b out, p\<lparr>text_views := Suc (text_views p)\<rparr>))"
proof (cases "a < m")
  case True
  then show ?thesis by (simp add: lookup_body_def ida_fail_def)
next
  case False
  then have rva: "unat (a - m) = unat a - unat m" by (simp add: unat_sub not_less)
  have over: "- 1 - (a - m) < b \<longleftrightarrow> 2 ^ 64 \<le> unat b + (unat a - unat m)" using lookup_overflow [of "a - m" b] by (simp only: rva)
  have sum: "b + (a - m) = of_nat (unat b + (unat a - unat m))" unfolding rva [symmetric] by simp
  have "ensure_loaded (process_runtime p) = Inr ()" using assms by (simp add: ensure_loaded_def)
  then show ?thesis
    unfolding lookup_body_def Let_def over sum lookup_reply_def lookup_found_def make_text_view_def da_ida_release_view_def
    using False by (auto simp: ida_fail_def split: option.split)
qed

section \<open>A process with one session\<close>

definition sample_windows :: windows where
  "sample_windows = \<lparr>get_full_path = Some, load_library = (\<lambda>_. True), get_proc_address = (\<lambda>_ _. True), get_last_error = 0,
     to_utf8 = (\<lambda>_. Some ''dir''), from_utf8 = (\<lambda>t. Some (wide_of t)), file_attributes = (\<lambda>path. if path = wide_of ''C'' then 0x10 else 0), file_header = (\<lambda>_. None)\<rparr>"

definition sample_lib :: "'d idalib" where
  "sample_lib = \<lparr>init_library = 0, library_version = Some (9, 3, 0), open_database = (\<lambda>_ d. (0, d)), auto_wait = Pair True,
     close_database = (\<lambda>d. d)\<rparr>"

definition sample_session :: ida_session where
  "sample_session = \<lparr>owner_thread = 7, database_open = True, session_strings = False\<rparr>"

definition sample_runtime :: ida_runtime where
  "sample_runtime = \<lparr>ida_module = True, idalib_module = True, bound = map snd required_exports, loaded_install_dir = []\<rparr>"

definition sample_process :: "(ea \<times> string) list ida_process" where
  "sample_process = \<lparr>active_session = True, process_runtime = sample_runtime, process_hexdsp = False, process_database = [],
     handles = [1 \<mapsto> sample_session], open_databases = 1, text_views = 0\<rparr>"

lemma sample_binds: "map_throws (bind_proc sample_windows) exports = Inr (map snd exports)"
  by (induction exports) (auto simp: bind_proc_def sample_windows_def)

definition sample_database :: "(ea \<times> string) list" where
  "sample_database = []"

lemma sample_opens:
  "\<exists>p. ida_step (ida_start sample_database) p \<and> handles p = [1 \<mapsto> sample_session]"
proof -
  have wide: "wide_of ''C'' \<noteq> []" "wide_of ''db'' \<noteq> wide_of ''C''" "join_path (wide_of ''C'') ''ida.dll'' \<noteq> wide_of ''C''"
      "join_path (wide_of ''C'') ''idalib.dll'' \<noteq> wide_of ''C''"
    by (simp_all add: wide_of_def join_path_def is_slash_def)
  have args: "open_arguments sample_windows (Some ''C'') (Some ''db'') = Inr (wide_of ''C'', ''db'')"
    using wide by (simp add: open_arguments_def utf8_to_wide_def utf8_string_def missing_def arg_text_def is_existing_file_def
        is_existing_directory_def is_legacy_ida32_database_def validate_ida_install_dir_def sample_windows_def)
  have load: "\<exists>rt. dbgatlas_ida_runtime_load sample_windows (wide_of ''C'') no_runtime = (Inr (), rt) \<and> loaded rt"
    by (simp add: dbgatlas_ida_runtime_load_def Let_def loaded_def no_runtime_def load_dll_def sample_binds)
      (simp add: sample_windows_def)
  then obtain rt where rt: "dbgatlas_ida_runtime_load sample_windows (wide_of ''C'') no_runtime = (Inr (), rt)" "loaded rt" by blast
  obtain r h p where run: "da_ida_session_open sample_windows sample_lib 7 1 (Some ''C'') (Some ''db'') True [] (ida_start sample_database) = (r, h, p)"
    by (metis prod_cases3)
  then have "handles p = [1 \<mapsto> sample_session]"
    using args rt by (auto simp: da_ida_session_open_def ida_start_def open_loaded_def sample_lib_def sample_session_def
        dbgatlas_validate_ida_runtime_version_def ensure_loaded_def validate_library_version_def Let_def)
  moreover have "ida_step (ida_start sample_database) p" using run by (intro ida_open [where address = 1]) (simp add: ida_start_def)
  ultimately show ?thesis by blast
qed

section \<open>Properties\<close>

text \<open>
  C3 One session at a time: in every state the process can reach through its exported calls, by whatever threads, at most
  one handle is live, the flag that refuses a second session is set exactly when one is, and a live session has its
  database open and the runtime loaded with every export bound. So no SDK call of a session can fail for want of the
  runtime or go through a null pointer.
\<close>

theorem one_session:
  assumes "ida_step\<^sup>*\<^sup>* (ida_start d) p"
  shows "(\<forall>a b. a \<in> dom (handles p) \<and> b \<in> dom (handles p) \<longrightarrow> a = b)
    \<and> (active_session p \<longleftrightarrow> handles p \<noteq> Map.empty)
    \<and> (\<forall>h \<in> ran (handles p). database_open h \<and> ensure_loaded (process_runtime p) = Inr ()
         \<and> bound (process_runtime p) = map snd required_exports)"
  using session_inv_reachable [OF assms] by (auto simp: session_inv_def ensure_loaded_def runtime_ok_def)

theorem one_session_witness:
  "\<exists>p :: (ea \<times> string) list ida_process. handles p = [1 \<mapsto> sample_session] \<and> active_session p \<and> bound (process_runtime p) = map snd required_exports"
proof -
  obtain p where p: "ida_step (ida_start sample_database) p" "handles p = [1 \<mapsto> sample_session]" using sample_opens by blast
  from one_session [OF r_into_rtranclp [of ida_step, OF p(1)]] p(2) show ?thesis by (intro exI [of _ p]) auto
qed

text \<open>
  C32 A closed session makes room for the next: whichever thread closes a live session, and whether or not closing reports
  an error, the handle is freed and the flag cleared, so the next call to open is not refused because of it.
\<close>

theorem close_makes_room:
  assumes "handles p address = Some h" and "da_ida_session_close lib thread (Some address) err p = Some (r, p')"
  shows "handles p' address = None
    \<and> fst (da_ida_session_open win lib' thread' address' install_dir path True err' p')
        \<noteq> ida_fail DA_IDA_ERR_IDA ''only one IDA session is supported in this MVP''"
proof -
  have close: "close_session lib thread address h err p = (r, p')" using assms by (simp add: da_ida_session_close_def)
  from close_session_frees [OF close] have idle: "handles p' address = None" "\<not> active_session p'" by simp_all
  have failure: "open_failure e \<noteq> ida_fail DA_IDA_ERR_IDA m" for e m
    by (simp add: open_failure_def ida_fail_def split: cpp_exception.split)
  have "fst (open_loaded lib' thread' address' db err' q) \<noteq> ida_fail DA_IDA_ERR_IDA ''only one IDA session is supported in this MVP''" for db q
    using failure unfolding open_loaded_def Let_def
    by (auto simp: ida_fail_def open_database_failure_message_def split: if_splits sum.splits prod.splits bool.splits)
  then show ?thesis
    using idle failure unfolding da_ida_session_open_def by (auto split: sum.splits prod.splits)
qed

theorem close_makes_room_witness:
  "\<exists>r p'. da_ida_session_close sample_lib 7 (Some 1) [] sample_process = Some (r, p') \<and> handles p' 1 = None"
proof -
  obtain r p' where close: "da_ida_session_close sample_lib 7 (Some 1) [] sample_process = Some (r, p')"
    by (cases "close_session sample_lib 7 1 sample_session [] sample_process") (simp add: da_ida_session_close_def sample_process_def)
  have "handles sample_process 1 = Some sample_session" by (simp add: sample_process_def)
  from close_makes_room [OF this close] close show ?thesis by blast
qed

text \<open>
  Closing from a thread that is not the owner leaks the database: the call reports an internal error, the handle is
  freed and the flag is cleared, but the database stays open in the process and nothing can close it any more.
\<close>

theorem close_from_other_thread:
  assumes "handles p address = Some h" and "owner_thread h \<noteq> thread"
  shows "\<exists>p'. da_ida_session_close lib thread (Some address) err p = Some ((500, ''IDA session used from a different thread''), p')
    \<and> handles p' address = None \<and> \<not> active_session p'
    \<and> open_databases p' = open_databases p \<and> process_database p' = process_database p"
  using assms by (simp add: da_ida_session_close_def close_session_def ensure_owner_thread_def ida_fail_def Let_def)

theorem close_from_other_thread_witness:
  "\<exists>p'. da_ida_session_close sample_lib 8 (Some 1) [] sample_process = Some ((500, ''IDA session used from a different thread''), p')
    \<and> open_databases p' = 1"
  using close_from_other_thread [of sample_process 1 sample_session 8 sample_lib "[]"]
  by (auto simp: sample_process_def sample_session_def)

text \<open>
  Calls from another thread are refused without effect: a lookup or a core function called on a live session by a
  thread that did not open it returns the internal error, stores nothing and leaves the process as it was.
\<close>

theorem other_thread_refused:
  assumes "handles p address = Some h" and "owner_thread h \<noteq> thread" and "104 \<le> lk_struct_size out" and "40 \<le> out_size"
  shows "da_ida_lookup_function sdk thread (Some address) a m b (Some out) err p
       = Some ((500, ''IDA session used from a different thread''), Some out, p)
    \<and> da_ida_core_function env win sdk thread (Some address) (Some f) (Some args) (Some out_size) err p
       = Some ((500, ''IDA session used from a different thread''), None, p)"
  using assms
  by (auto simp: da_ida_lookup_function_def da_ida_core_function_def ensure_owner_thread_def core_failure_def ida_fail_def)

definition sample_environment :: environment where
  "sample_environment = \<lparr>env_strtod = Some, make_regex = (\<lambda>_. Inl Bad_alloc), std_sort = insertion_sort\<rparr>"

theorem other_thread_refused_witness:
  "da_ida_core_function sample_environment sample_windows sample_sdk 8 (Some 1) (Some ''rename'') (Some ''{}'') (Some 40) [] sample_process
     = Some ((500, ''IDA session used from a different thread''), None, sample_process)"
  using other_thread_refused [of sample_process 1 sample_session 8
      "\<lparr>lk_struct_size = 104, lk_flags = 0, lk_runtime_address = 0, lk_runtime_module_base = 0, lk_rva = 0, lk_ida_image_base = 0,
        lk_ida_ea = 0, lk_function_start = 0, lk_function_end = 0, lk_found = 0, lk_function_name = None\<rparr>" 40 sample_sdk 0 0 0 "[]"
      sample_environment sample_windows "''rename''" "''{}''"]
  by (simp add: sample_process_def sample_session_def)

text \<open>
  C30 Function lookup: on a live session and its own thread, an address below the module and an address whose image of 64
  bits does not exist are refused and nothing is stored; otherwise the reply holds the distance from the module, the
  address in the database computed without wrap-around, and the function there if there is one, and exactly one text
  view is handed out for the caller to release.
\<close>

theorem lookup_function_exact:
  assumes "handles p address = Some h" and "owner_thread h = thread" and "104 \<le> lk_struct_size out" and "session_inv p"
  shows "da_ida_lookup_function sdk thread (Some address) a m b (Some out) err p =
    Some (if a < m then ((1, ''runtime_address is below runtime_module_base''), Some out, p)
          else if 2 ^ 64 \<le> unat b + (unat a - unat m) then ((1, ''ida_ea overflow''), Some out, p)
          else ((0, err), Some (lookup_reply sdk (process_database p) a m b out), p\<lparr>text_views := Suc (text_views p)\<rparr>))"
proof -
  have "loaded (process_runtime p)" using assms(1,4) by (auto simp: session_inv_def ran_def)
  note body = lookup_body_exact [OF this, of sdk a m b err out]
  show ?thesis
    using assms(1,2,3) by (simp add: da_ida_lookup_function_def ensure_owner_thread_def body not_less [symmetric])
qed

lemma sample_process_inv: "session_inv sample_process"
  by (simp add: session_inv_def sample_process_def sample_session_def sample_runtime_def runtime_ok_def loaded_def)

definition sample_reply :: function_lookup where
  "sample_reply = \<lparr>lk_struct_size = 104, lk_flags = 0, lk_runtime_address = 0, lk_runtime_module_base = 0, lk_rva = 0,
     lk_ida_image_base = 0, lk_ida_ea = 0, lk_function_start = 0, lk_function_end = 0, lk_found = 0, lk_function_name = None\<rparr>"

theorem lookup_function_exact_witness:
  "da_ida_lookup_function sample_sdk 7 (Some 1) 0x14 0x10 0x1000 (Some sample_reply) [] sample_process
     = Some ((0, []), Some (lookup_reply sample_sdk [] 0x14 0x10 0x1000 sample_reply), sample_process\<lparr>text_views := 1\<rparr>)"
  using lookup_function_exact [of sample_process 1 sample_session 7 sample_reply sample_sdk "0x14" "0x10" "0x1000" "[]", OF _ _ _ sample_process_inv]
  by (simp add: sample_process_def sample_session_def sample_reply_def)

definition core_function_names :: "string list" where
  "core_function_names =
     [''lookup_funcs'', ''int_convert'', ''list_funcs'', ''list_globals'', ''list_imports'', ''list_strings'', ''get_string'', ''get_bytes'',
      ''get_int'', ''decompile'', ''disasm'', ''xrefs_to'', ''xrefs_to_field'', ''callees'', ''rename'', ''set_comments'', ''set_type'',
      ''declare_type'', ''inspect_item'', ''force_recompile'', ''idb_save'', ''py_eval'', ''find_bytes'', ''search_text'', ''query_xrefs'',
      ''query_funcs'', ''query_entities'']"

lemma store_same: "handles p address = Some h \<Longrightarrow> store_state address h (session_state h p) p = p"
  by (cases p) (auto simp: store_state_def session_state_def)

lemma bracket_no_document: "\<not> document_text strtod v '']''"
proof
  assume "document_text strtod v '']''"
  then obtain m w s w' r where t: "'']'' = m @ w @ s @ w' @ r" "m = [] \<or> m = bom" "ws_text w" "value_text strtod v s"
    unfolding document_text_def by blast
  obtain c s' where s: "s = c # s'" "c \<noteq> CHR '']''" using value_first [OF t(4)] by blast
  have "m = []" using t(1,2) by (auto simp: bom_def)
  moreover have "w = []" using t(1,3) \<open>m = []\<close> by (cases w) (auto simp: is_ws_def)
  ultimately show False using t(1) s by simp
qed

text \<open>
  C31 Bad arguments and unknown functions are errors without effect. On a live session and its own thread: for every
  function, known or not, text that is neither blank nor a JSON document gives the invalid-argument status with the
  parser's message and its position, except that a number beyond the floating-point range gives the internal error; and
  with a JSON document or blank text, a name that is not one of the 27 core functions gives the invalid-argument status
  with a message that quotes it. No function is run: no result is stored and the process is as it was.
\<close>

theorem core_function_errors:
  assumes "handles p address = Some h" and "owner_thread h = thread" and "40 \<le> out_size" and "f \<noteq> []" and "args \<noteq> []"
    and "from_utf8 win f \<noteq> None" and "from_utf8 win args \<noteq> None"
  shows "(trim_copy args \<noteq> [] \<and> (\<nexists>v. document_text (env_strtod env) v (trim_copy args)) \<longrightarrow>
      (\<exists>code m. da_ida_core_function env win sdk thread (Some address) (Some f) (Some args) (Some out_size) err p = Some ((code, m), None, p)
        \<and> (code = 1 \<and> (\<exists>pos t. m = ''arguments_json is not valid JSON: '' @ exception_name ''parse_error'' 101 @ ''parse error''
                @ position_string pos @ '': '' @ t)
           \<or> code = 500 \<and> (\<exists>t number. m = exception_name ''out_of_range'' 406 @ t \<and> env_strtod env number = None))))
    \<and> ((trim_copy args = [] \<or> (\<exists>v. document_text (env_strtod env) v (trim_copy args))) \<and> f \<notin> set core_function_names \<longrightarrow>
      da_ida_core_function env win sdk thread (Some address) (Some f) (Some args) (Some out_size) err p =
        Some ((1, ''unsupported IDA Core Function `'' @ f @ ''`''), None, p))"
proof -
  have texts: "utf8_string win (Some f) ''function'' = Inr f" "utf8_string win (Some args) ''arguments_json'' = Inr args"
    using assms(4-7) by (auto simp: utf8_string_def utf8_to_wide_def missing_def arg_text_def)
  let ?call = "da_ida_core_function env win sdk thread (Some address) (Some f) (Some args) (Some out_size) err p"
  have failed: "?call = Some (core_failure e, None, p)" if "parse_json_args (env_strtod env) args = Inl e" for e
    using that assms(1,2,3) store_same [OF assms(1)]
    by (auto simp: da_ida_core_function_def execute_core_function_def texts ensure_owner_thread_def)
  have unknown: "?call = Some ((1, ''unsupported IDA Core Function `'' @ f @ ''`''), None, p)"
    if "parse_json_args (env_strtod env) args = Inr v" "f \<notin> set core_function_names" for v
  proof -
    have "dispatch env sdk f v st = Some (Inl (Invalid_argument (''unsupported IDA Core Function `'' @ f @ ''`'')), st)" for st
      using that(2) by (simp add: dispatch_def core_function_names_def pure_result_def)
    then show ?thesis
      using that(1) assms(1,2,3) store_same [OF assms(1)]
      by (auto simp: da_ida_core_function_def execute_core_function_def texts ensure_owner_thread_def core_failure_def ida_fail_def)
  qed
  show ?thesis
  proof (cases "parse_json_args (env_strtod env) args")
    case (Inl e)
    have call: "?call = Some ((fst (core_failure e), snd (core_failure e)), None, p)" using failed [OF Inl] by simp
    have "\<not> (trim_copy args = [] \<or> (\<exists>v. document_text (env_strtod env) v (trim_copy args)))"
      and "(\<exists>pos t. e = Invalid_argument (''arguments_json is not valid JSON: '' @ exception_name ''parse_error'' 101 @ ''parse error''
              @ position_string pos @ '': '' @ t))
          \<or> (\<exists>t number. e = Runtime_error (exception_name ''out_of_range'' 406 @ t) \<and> env_strtod env number = None)"
      using parse_json_args_exact [of args "env_strtod env"] unfolding Inl sum.case by blast+
    moreover have "fst (core_failure (Invalid_argument m)) = 1" "snd (core_failure (Invalid_argument m)) = m"
        "fst (core_failure (Runtime_error m)) = 500" "snd (core_failure (Runtime_error m)) = m" for m
      by (simp_all add: core_failure_def ida_fail_def)
    ultimately show ?thesis using call by metis
  next
    case (Inr v)
    then show ?thesis using parse_json_args_exact [of args "env_strtod env"] unknown [OF Inr] by (auto split: if_splits)
  qed
qed

theorem core_function_errors_witness:
  "da_ida_core_function sample_environment sample_windows sample_sdk 7 (Some 1) (Some ''nope'') (Some ''{}'') (Some 40) [] sample_process
     = Some ((1, ''unsupported IDA Core Function `nope`''), None, sample_process)
   \<and> (\<exists>t. da_ida_core_function sample_environment sample_windows sample_sdk 7 (Some 1) (Some ''disasm'') (Some '']'') (Some 40) []
        sample_process = Some ((1, ''arguments_json is not valid JSON: '' @ t), None, sample_process))"
proof
  note sample = sample_process_def sample_session_def sample_windows_def sample_environment_def core_function_names_def
  show "da_ida_core_function sample_environment sample_windows sample_sdk 7 (Some 1) (Some ''nope'') (Some ''{}'') (Some 40) [] sample_process
     = Some ((1, ''unsupported IDA Core Function `nope`''), None, sample_process)"
    using core_function_errors [of sample_process 1 sample_session 7 40 "''nope''" "''{}''" sample_windows sample_environment sample_sdk "[]"]
      braces_document
    by (auto simp: sample)
  have "trim_copy '']'' = '']''" by (simp add: trim_copy_id is_space_def)
  then show "\<exists>t. da_ida_core_function sample_environment sample_windows sample_sdk 7 (Some 1) (Some ''disasm'') (Some '']'') (Some 40) []
        sample_process = Some ((1, ''arguments_json is not valid JSON: '' @ t), None, sample_process)"
    using core_function_errors [of sample_process 1 sample_session 7 40 "''disasm''" "'']''" sample_windows sample_environment sample_sdk "[]"]
      bracket_no_document
    by (auto simp: sample)
qed

end
