(* ===== verification/Ida_Portable.thy ===== *)
theory Ida_Portable
  imports Ida_Session
begin

text \<open>
  The IDA adapter as it is compiled outside Windows (the second half of the conditional in \<^verbatim>\<open>dbgatlas_ida.cpp\<close>): the same
  exported functions without an engine. The lemmas show that a caller written for the Windows library stays correct:
  the version call agrees with it on every argument, every other call that would give a result refuses without an effect,
  and the two calls for the last error give the explanation.
\<close>

definition portable_message :: string where
  "portable_message = ''IDA adapter is only supported on Windows''"

definition portable_abi_version :: "ida_version option \<Rightarrow> int \<times> ida_version option" where
  "portable_abi_version out =
     (case out of
        None \<Rightarrow> (ida_code DA_IDA_ERR_INVALID_ARGUMENT, None)
      | Some v \<Rightarrow>
          if v_struct_size v < 32 then (ida_code DA_IDA_ERR_INVALID_ARGUMENT, Some v)
          else (ida_code DA_IDA_OK,
                Some (v\<lparr>v_flags := 0, v_abi_major := 0, v_abi_minor := 1, v_abi_patch := 0,
                        v_ida_major := 0, v_ida_minor := 0, v_ida_build := 0\<rparr>)))"

definition portable_release_view :: "'d ida_process \<Rightarrow> 'd ida_process" where
  "portable_release_view p = p"

definition portable_last_error :: "string option \<Rightarrow> nat \<Rightarrow> last_error_reply" where
  "portable_last_error buffer buffer_len =
     (let required = length portable_message + 1 in
      case buffer of
        None \<Rightarrow> (ida_code DA_IDA_ERR_BUFFER_TOO_SMALL, required, None)
      | Some buf \<Rightarrow>
          if buffer_len < required then (ida_code DA_IDA_ERR_BUFFER_TOO_SMALL, required, Some buf)
          else (ida_code DA_IDA_OK, required, Some (memcpy_into buf (portable_message @ [nul]) required)))"

text \<open>The remaining functions ignore their arguments; what the caller's pointers refer to is left as it was.\<close>

definition portable_session_open :: "string option \<Rightarrow> string option \<Rightarrow> nat option \<Rightarrow> int \<times> nat option" where
  "portable_session_open install_dir_utf8 database_path_utf8 out_handle = (ida_code DA_IDA_ERR_IDA, out_handle)"

definition portable_lookup_function :: "nat option \<Rightarrow> u64 \<Rightarrow> u64 \<Rightarrow> u64 \<Rightarrow> function_lookup option \<Rightarrow> int \<times> function_lookup option" where
  "portable_lookup_function handle runtime_address runtime_module_base ida_image_base out = (ida_code DA_IDA_ERR_IDA, out)"

definition portable_core_function :: "nat option \<Rightarrow> string option \<Rightarrow> string option \<Rightarrow> string option \<Rightarrow> int \<times> string option" where
  "portable_core_function handle function_utf8 arguments_json_utf8 out = (ida_code DA_IDA_ERR_IDA, out)"

definition portable_session_close :: "nat option \<Rightarrow> int" where
  "portable_session_close handle = ida_code DA_IDA_OK"

section \<open>Agreement with the Windows library\<close>

lemma portable_version_agrees:
  "portable_abi_version out = (case da_ida_abi_version out err of ((status, _), out') \<Rightarrow> (status, out'))"
  by (cases out) (simp_all add: portable_abi_version_def da_ida_abi_version_def ida_fail_def)

text \<open>The fixed message is fetched by the protocol of the last error.\<close>

interpretation portable_error: last_error_protocol "\<lambda>msg buffer len. if msg = portable_message then portable_last_error buffer len
    else da_ida_last_error msg buffer len" 0
  by unfold_locales
    (auto simp: portable_last_error_def da_ida_last_error_def memcpy_into_def Let_def split: option.splits if_splits)

lemma portable_error_fetched:
  assumes "portable_last_error None 0 = (st, req, b)" and "length buf = req"
  shows "\<exists>buf'. portable_last_error (Some buf) req = (0, req, Some buf') \<and> c_string buf' = portable_message"
proof -
  have "nul \<notin> set portable_message" by (simp add: portable_message_def)
  then show ?thesis using portable_error.two_calls [of portable_message st req b buf] assms by auto
qed

text \<open>A session that was never opened can be closed, and closing it again changes nothing on either platform.\<close>

lemma portable_close_agrees: "da_ida_session_close lib thread None err p = Some ((portable_session_close None, err), p)"
  by (simp add: da_ida_session_close_def portable_session_close_def)

end
