(* ===== verification/Spec2Isabelle.thy ===== *)
theory Spec2Isabelle
  imports Etw_Relog Dbgeng_Properties Ida_Portable
begin

text \<open>
  Verification of the native adapters of DbgAtlas, the C++ part of the repository (\<^verbatim>\<open>src/native\<close>).

  \<^bold>\<open>The program.\<close> DbgAtlas investigates Windows programs. Its Rust service talks to three adapter libraries through a C
  interface; each adapter is one C++ file around one engine. The ETW adapter (\<^verbatim>\<open>adapters/etw/dbgatlas_etw.cpp\<close>)
  records event traces, filters them to a process tree and extracts them into JSON lines. The DbgEng adapter
  (\<^verbatim>\<open>adapters/dbgeng/dbgatlas_dbgeng.cpp\<close>) opens dumps and processes in the Windows debugger engine, runs commands and
  reads memory. The IDA adapter (\<^verbatim>\<open>adapters/ida/dbgatlas_ida.cpp\<close>) opens one IDA database per process and answers
  27 core functions with JSON texts; \<^verbatim>\<open>dbgatlas_ida_runtime.cpp\<close> binds the two libraries of IDA at run time. All
  three share an error protocol: a status code and a last error per thread, fetched in two calls.

  \<^bold>\<open>Shared theories.\<close> \<open>Prelude\<close> has lists, words, radix texts and unordered maps. \<open>Json_Text\<close> has the text
  functions of the ETW adapter (\<^verbatim>\<open>json_escape\<close>), a datatype of documents with its canonical text and a reader that is
  proved to invert it. \<open>Json_Dump\<close> and \<open>Json_Dump_Text\<close> translate the serializer of the vendored
  \<^verbatim>\<open>nlohmann/json.hpp\<close> that the IDA adapter prints with, and prove it equal to the canonical text exactly on UTF-8.
  The parser of the same library is translated from the characters up: \<open>Json_Lexer\<close> is the class \<^verbatim>\<open>lexer\<close> (byte order
  mark, white space, strings with escapes and UTF-8, the automaton of numbers, literals, positions and messages) and
  \<open>Json_Parser\<close> the class \<^verbatim>\<open>parser\<close> with its stack of states and the builder of the value. \<open>Json_Grammar\<close> is the
  specification, the grammar of RFC 8259 as inductive relations between values and texts; \<open>Json_Tokens\<close> proves that the
  lexer reads the tokens of the grammar, \<open>Json_Parse_Exact\<close> that the parser accepts exactly its documents with exactly
  their values and how it fails, and \<open>Json_Roundtrip\<close> that values it returns are well formed and that it reads back
  what the serializer writes. The loop of the parser ends because twice the number of characters left to read, plus one
  while the token at hand is not a final one, decreases in every round.
  \<open>Adapter_Abi\<close> has the status codes, failure and guard wrappers and the three \<^verbatim>\<open>da_*_last_error\<close> functions; the
  caller's protocol is the locale \<open>last_error_protocol\<close>, interpreted on each of the three.

  \<^bold>\<open>ETW.\<close> \<open>Etw_Types\<close> (constants, structs, the extraction context and the \<open>platform\<close> parameter),
  \<open>Etw_Metadata\<close> (properties through TDH, categories, time stamps), \<open>Etw_Process_Tree\<close> (the root-pid filter,
  equal to the descendants of the root), \<open>Etw_Modules\<close> (the module table, locale \<open>address_resolver\<close>),
  \<open>Etw_Stacks\<close> (stack decoding and the bounded cache of waiting stacks), \<open>Etw_Event_Line\<close> (the JSON line of an
  event, proved to be a document's text), \<open>Etw_File_Io\<close> (path caches, pairing of an operation with its completion),
  \<open>Etw_Extraction\<close> (the callback over a whole trace), \<open>Etw_Result\<close> (the versioned result struct as bytes),
  \<open>Etw_Filter\<close> (the relogger callback, related to the extraction), \<open>Etw_Session\<close> and \<open>Etw_Relog\<close> (sessions
  and exported functions). The state is the extraction context of the code; the operations are its functions.

  \<^bold>\<open>DbgEng.\<close> \<open>Dbgeng_Engine\<close> (messages, COM pointers, callback classes, loading of the engine),
  \<open>Dbgeng_Session\<close> (sessions, views and the exported functions, in the state monad), \<open>Dbgeng_Accounting\<close> and
  \<open>Dbgeng_Properties\<close> (references, callbacks and buffers over any sequence of calls).

  \<^bold>\<open>IDA.\<close> \<open>Ida_Args\<close> (numbers, lists and members of the JSON arguments), \<open>Ida_Sdk\<close> (the exports of IDA as the
  record \<open>ida_sdk\<close> over an abstract database, and the helpers \<^verbatim>\<open>function_json\<close> to \<^verbatim>\<open>read_idb_bytes\<close>),
  \<open>Ida_Query\<close> (\<^verbatim>\<open>int_convert\<close>, \<^verbatim>\<open>lookup_funcs\<close>, the paged lists, strings, bytes, integers), \<open>Ida_Code\<close>
  (decompilation, disassembly, cross-references), \<open>Ida_Edit\<close> (renaming, comments, types, saving, Python),
  \<open>Ida_Search\<close> (pages, byte patterns, text search, queries), \<open>Ida_Runtime\<close> (loading, binding and forwarding,
  locale \<open>binding\<close>), \<open>Ida_Session\<close> (dispatch, sessions and exported functions, the step relation
  \<open>ida_step\<close>), \<open>Ida_Portable\<close> (the same functions as compiled outside Windows). A core function is a function of the database; one that changes it or builds the string list returns
  the new state as well. C++ exceptions are the left side of a sum, so that every throw is a branch.

  \<^bold>\<open>Parameters.\<close> What is not in the repository is an argument, and results hold for every value of it unless a named
  hypothesis says otherwise: Windows and ETW (\<open>platform\<close>, \<open>os_answer\<close>, \<open>windows\<close>), COM and the relogger
  (\<open>relog_env\<close>), the debugger engine (\<open>dp_engine\<close>, any function of the calls and answers so far), the exports
  of IDA (\<open>ida_sdk\<close>, \<open>idalib\<close>), \<^verbatim>\<open>std::regex\<close>, \<^verbatim>\<open>std::sort\<close> and the C library's \<^verbatim>\<open>strtod\<close> (\<open>environment\<close>; \<^verbatim>\<open>strtod\<close>
  answers the text that stands for a floating-point number, or none when it overflows). The
  hypotheses are documented behaviour: names IDA returns are UTF-8 (\<open>names_utf8\<close>, \<open>lines_utf8\<close>), chains of
  references end (\<open>code_chains_end\<close>), \<^verbatim>\<open>std::sort\<close> sorts (\<open>sorts\<close>). Each has a witness on a concrete instance.

  \<^bold>\<open>What is shown.\<close> Invariants of the state over any sequence of calls (extraction context, COM references, one IDA
  session, a runtime that is never replaced); refinement of specifications (process tree, filter against extraction,
  exported IDA calls against \<open>document_of\<close> below); equivalence of texts with reference documents (serializer,
  disassembly, paged lists); round trips (event lines, escaped texts, numbers, byte patterns, stack payloads);
  termination and results of every loop (walks over functions, pages, scans); bounds and wrap-around of addresses;
  errors without effect; resources released on every path. Where code and intent differ, the statement says so: the
  filter loses file operations logged under a foreign header, frames come in the reverse of the order of the addresses,
  a stop the system refuses leaves its session running, a number out of range is an internal error.

  \<^bold>\<open>Fuel and partial loops.\<close> The JSON reader takes the length of its text plus one as fuel, which \<open>read_json_render\<close>
  shows to be enough for every canonical text; \<open>all_pages\<close> takes one request per row, which is
  proved to be enough. Loops whose end depends on IDA (chains of references, scans of segments) are partial functions
  into an option; that they return is proved where it is claimed, and a segment that ends at the highest address is
  proved never to return when nothing matches.

  \<^bold>\<open>Not modelled.\<close> The branches of the ETW and DbgEng adapters for other platforms, which only fail; the pretty printer, binary values,
  floating-point printer, comments, parser callbacks and other formats of \<^verbatim>\<open>nlohmann/json.hpp\<close>, which the adapter does not
  reach (a float carries its text); what the output files hold before an extraction, which appends to them; the IDA SDK headers beyond the inline
  helpers used; the Rust crates, build scripts and documents, which are not part of the native code; threads running at
  the same time inside one call, since exported calls are steps (the mutexes of the code serialise opening, closing and
  loading). Allocation failure is modelled where the code handles it (\<^verbatim>\<open>bad_alloc_if_null\<close>, null text owners).
\<close>

section \<open>What a caller of the IDA adapter reads\<close>

text \<open>
  The specification of five functions that only read (\<^verbatim>\<open>disasm\<close>, \<^verbatim>\<open>lookup_funcs\<close>, \<^verbatim>\<open>int_convert\<close>, \<^verbatim>\<open>list_funcs\<close>,
  \<^verbatim>\<open>list_globals\<close>): the document a caller expects for arguments that can be read, over the answers of IDA. The document of
  \<^verbatim>\<open>disasm\<close> uses the walk over the function, and the filter of \<^verbatim>\<open>list_funcs\<close> searches the text of each function's
  document, as the code does; the loops and texts of the output do not occur in it.
\<close>

definition document_of :: "'d ida_sdk \<Rightarrow> 'd \<Rightarrow> string \<Rightarrow> json_value \<Rightarrow> json option" where
  "document_of sdk d f args =
     (if f = ''disasm'' then
        (case required_json_u64_arg args ''addr'' of
           Inr addr \<Rightarrow> Some (disasm_doc sdk d (get_func sdk d addr))
         | Inl _ \<Rightarrow> None)
      else if f = ''lookup_funcs'' then
        (case (json_list_arg args ''queries'', json_u64_arg args ''runtime_module_base'' 0, json_u64_arg args ''ida_image_base'' 0) of
           (Inr queries, Inr m, Inr b) \<Rightarrow>
             if list_all utf8_text queries then Some (items_doc (map (lookup_doc sdk d m b) queries) (length queries)) else None
         | _ \<Rightarrow> None)
      else if f = ''int_convert'' then
        (case json_list_arg args ''inputs'' of
           Inr inputs \<Rightarrow>
             if inputs \<noteq> [] \<and> list_all utf8_text inputs
             then Some (items_doc (map int_convert_doc inputs) (length inputs)) else None
         | Inl _ \<Rightarrow> None)
      else if f = ''list_funcs'' then
        (case page_args args of
           Inr (offset, limit, filter_text) \<Rightarrow>
             let docs = filter (\<lambda>j. passes_filter filter_text (render j))
                   (map (\<lambda>i. function_doc sdk d (getn_func sdk d i)) [0..<get_func_qty sdk d])
             in Some (page_doc offset (page_slice offset limit docs) (length docs))
         | Inl _ \<Rightarrow> None)
      else if f = ''list_globals'' then
        (case page_args args of
           Inr (offset, limit, filter_text) \<Rightarrow>
             let globals = filter (\<lambda>g. passes_filter filter_text (snd g)) (global_entries sdk d)
             in Some (page_doc offset (page_slice offset limit (map global_doc globals)) (length globals))
         | Inl _ \<Rightarrow> None)
      else None)"

lemma dispatch_document:
  assumes "names_utf8 sdk (database st)" and "lines_utf8 sdk (database st)" and "document_of sdk (database st) f args = Some doc"
  shows "dispatch env sdk f args st = Some (Inr (render doc), st)"
proof -
  consider "f = ''disasm''" | "f = ''lookup_funcs''" | "f = ''int_convert''" | "f = ''list_funcs''" | "f = ''list_globals''"
    using assms(3) by (auto simp: document_of_def split: if_splits)
  then show ?thesis
  proof cases
    case 1
    then show ?thesis
      using assms core_disasm_doc [OF assms(1,2)] by (auto simp: document_of_def dispatch_def pure_result_def Let_def split: sum.splits)
  next
    case 2
    then show ?thesis
      using assms(3) lookup_funcs_exact [OF assms(1)]
      by (auto simp: document_of_def dispatch_def pure_result_def Let_def split: sum.splits if_splits)
  next
    case 3
    then show ?thesis
      using assms(3) core_int_convert_doc by (auto simp: document_of_def dispatch_def pure_result_def Let_def split: sum.splits if_splits)
  next
    case 4
    then show ?thesis
      using assms(3) list_pages [OF assms(1)]
      by (auto simp: document_of_def dispatch_def pure_result_def Let_def split: sum.splits prod.splits)
  next
    case 5
    then show ?thesis
      using assms(3) list_pages [OF assms(1)]
      by (auto simp: document_of_def dispatch_def pure_result_def Let_def split: sum.splits prod.splits)
  qed
qed

text \<open>
  C4 The exported call refines its specification: on a live session and its own thread, for \<^verbatim>\<open>disasm\<close>, \<^verbatim>\<open>lookup_funcs\<close>,
  \<^verbatim>\<open>int_convert\<close>, \<^verbatim>\<open>list_funcs\<close> and \<^verbatim>\<open>list_globals\<close> and a text of arguments that is, trimmed, the JSON document of a value
  the specification reads, \<open>da_ida_core_function\<close> succeeds, leaves the session and the last error as they were, hands out one
  text view, and a JSON reader gets from its text exactly the document the specification gives, whatever the names in the
  database are as long as they are UTF-8.
\<close>

theorem exported_documents:
  assumes "handles p address = Some h" and "owner_thread h = thread" and "40 \<le> out_size"
    and "args \<noteq> []" and "from_utf8 win f \<noteq> None" and "from_utf8 win args \<noteq> None"
    and "document_text (env_strtod env) v (trim_copy args)" and "document_of sdk (process_database p) f v = Some doc"
    and "names_utf8 sdk (process_database p)" and "lines_utf8 sdk (process_database p)"
  shows "\<exists>t. da_ida_core_function env win sdk thread (Some address) (Some f) (Some args) (Some out_size) err p
        = Some ((0, err), Some t, p\<lparr>text_views := Suc (text_views p)\<rparr>)
      \<and> read_json t = Some doc"
proof -
  have "f \<noteq> []" using assms(8) by (auto simp: document_of_def)
  then have texts: "utf8_string win (Some f) ''function'' = Inr f" "utf8_string win (Some args) ''arguments_json'' = Inr args"
    using assms(4-6) by (auto simp: utf8_string_def Ida_Session.utf8_to_wide_def missing_def arg_text_def)
  have "dispatch env sdk f v (session_state h p) = Some (Inr (render doc), session_state h p)"
    using assms(8-10) by (intro dispatch_document) (simp_all add: session_state_def)
  then show ?thesis
    using assms(1-3) store_same [OF assms(1)] parse_json_args_document [OF assms(7)]
    by (intro exI [of _ "render doc"])
      (simp add: da_ida_core_function_def execute_core_function_def texts ensure_owner_thread_def make_text_view_def read_json_render)
qed

theorem exported_documents_witness:
  "\<exists>t. da_ida_core_function sample_environment sample_windows sample_sdk 7 (Some 1) (Some ''list_funcs'') (Some ''{}'') (Some 40) [] sample_process
        = Some ((0, []), Some t, sample_process\<lparr>text_views := 1\<rparr>)
      \<and> read_json t = Some (page_doc 0 [function_doc sample_sdk [] (Some sample_function)] 1)"
  using exported_documents [of sample_process 1 sample_session 7 40 "''{}''" sample_windows "''list_funcs''" sample_environment "V_object []"
      sample_sdk "page_doc 0 [function_doc sample_sdk [] (Some sample_function)] 1" "[]"]
  by (simp add: sample_process_def sample_session_def sample_windows_def braces_document document_of_def page_args_def json_u64_arg_def json_arg_def json_string_arg_def passes_filter_def page_slice_def
      sample_names lines_utf8_def utf8_ascii)

end
